(* ===== verification/Prelude.thy ===== *)
theory Prelude
  imports Main "HOL-Library.Word" "HOL-Library.AList"
begin

text \<open>
  Shared vocabulary of the development: the machine integers of the C code, the outcome of a
  C function that may raise a Lua error, the sequencing combinators in which every binding is
  written, and the generic facts on strings, words and association lists that the component
  theories use.

  The platform is LP64 (Linux on x86-64 or aarch64): \<^typ>\<open>32 word\<close> is \<open>int\<close>,
  \<open>pid_t\<close>, \<open>uid_t\<close>, \<open>mode_t\<close> and \<open>socklen_t\<close>; \<^typ>\<open>64 word\<close> is \<open>long\<close>,
  \<open>lua_Integer\<close>, \<open>off_t\<close>, \<open>ssize_t\<close>, \<open>size_t\<close> and \<open>time_t\<close>; \<^typ>\<open>16 word\<close> is
  \<open>short\<close>.  A C cast is \<open>ucast\<close> when it narrows or zero-extends and \<open>scast\<close> when it
  sign-extends.
\<close>

unbundle bit_operations_syntax

section \<open>Collections of facts\<close>

named_theorems run_simps \<open>equations that execute one step of a binding\<close>

section \<open>Machine integers\<close>

type_synonym cint = "32 word"
type_synonym lint = "64 word"
type_synonym cshort = "16 word"

text \<open>\<open>(int) n\<close> for a \<open>lua_Integer\<close> \<open>n\<close>, and the implicit widening back.\<close>

definition to_cint :: "lint \<Rightarrow> cint" where
  "to_cint n = ucast n"

definition of_cint :: "cint \<Rightarrow> lint" where
  "of_cint i = scast i"

text \<open>The widening of an unsigned 32-bit value (\<open>uid_t\<close>, \<open>mode_t\<close>, \<open>uint32_t\<close>).\<close>

definition of_cuint :: "cint \<Rightarrow> lint" where
  "of_cuint i = ucast i"

definition to_cshort :: "lint \<Rightarrow> cshort" where
  "to_cshort n = ucast n"

definition of_cshort :: "cshort \<Rightarrow> lint" where
  "of_cshort i = scast i"

text \<open>\<open>unsigned char\<close> and \<open>unsigned short\<close> members set from an \<open>int\<close>, and read as integers.\<close>

definition to_uchar :: "cint \<Rightarrow> 8 word" where
  "to_uchar i = ucast i"

definition of_uchar :: "8 word \<Rightarrow> lint" where
  "of_uchar c = ucast c"

definition to_ushort :: "cint \<Rightarrow> cshort" where
  "to_ushort i = ucast i"

definition of_ushort :: "cshort \<Rightarrow> lint" where
  "of_ushort h = ucast h"

lemma to_of_uchar [simp]: "to_uchar (to_cint (of_uchar c)) = c"
  by (simp add: to_uchar_def to_cint_def of_uchar_def) (transfer, simp)

lemma to_of_ushort [simp]: "to_ushort (to_cint (of_ushort h)) = h"
  by (simp add: to_ushort_def to_cint_def of_ushort_def) (transfer, simp)

lemma to_of_cint [simp]: "to_cint (of_cint i) = i"
  by (simp add: to_cint_def of_cint_def) (transfer, simp add: take_bit_signed_take_bit)

lemma to_of_cuint [simp]: "to_cint (of_cuint i) = i"
  by (simp add: to_cint_def of_cuint_def) (transfer, simp)

lemma to_of_cshort [simp]: "to_cshort (of_cshort i) = i"
  by (simp add: to_cshort_def of_cshort_def) (transfer, simp add: take_bit_signed_take_bit)

lemma of_cint_inj: "of_cint i = of_cint j \<longleftrightarrow> i = j"
  by (metis to_of_cint)

lemma sint_of_cint: "sint (of_cint i) = sint i"
  unfolding of_cint_def
  by (transfer, simp add: signed_take_bit_signed_take_bit)

lemma of_cint_minus1 [simp]: "of_cint (-1) = -1"
  by (simp add: of_cint_def)

lemma of_cint_0 [simp]: "of_cint 0 = 0"
  by (simp add: of_cint_def)

lemma of_cint_1 [simp]: "of_cint 1 = 1"
  by (simp add: of_cint_def)

lemma to_cint_minus1 [simp]: "to_cint (-1) = -1"
  by (simp add: to_cint_def) (transfer, simp)

lemma to_cint_0 [simp]: "to_cint 0 = 0"
  by (simp add: to_cint_def)

lemma to_cint_1 [simp]: "to_cint 1 = 1"
  by (simp add: to_cint_def)

lemma to_cint_of_nat: "to_cint (of_nat n) = of_nat n"
  by (simp add: to_cint_def unsigned_of_nat word_of_nat_eq_iff)

text \<open>A value that fits an \<open>int\<close> survives the round trip through one.\<close>

lemma of_to_cint: "- (2 ^ 31) \<le> sint n \<Longrightarrow> sint n < 2 ^ 31 \<Longrightarrow> of_cint (to_cint n) = n"
proof -
  assume lo: "- (2 ^ 31) \<le> sint n" and hi: "sint n < 2 ^ 31"
  have "sint (of_cint (to_cint n)) = signed_take_bit 31 (sint n)"
    unfolding sint_of_cint to_cint_def
    by (transfer, simp add: signed_take_bit_take_bit)
  also have "\<dots> = sint n"
    using lo hi by (simp add: signed_take_bit_int_eq_self)
  finally show ?thesis by (rule signed_word_eqI)
qed

text \<open>
  Signed \<open>long\<close> arithmetic is undefined on overflow: \<open>None\<close> is undefined behaviour.
\<close>

definition in_lint :: "int \<Rightarrow> bool" where
  "in_lint i \<longleftrightarrow> - (2 ^ 63) \<le> i \<and> i < 2 ^ 63"

definition long_add :: "lint \<Rightarrow> lint \<Rightarrow> lint option" where
  "long_add a b = (if in_lint (sint a + sint b) then Some (a + b) else None)"

definition long_sub :: "lint \<Rightarrow> lint \<Rightarrow> lint option" where
  "long_sub a b = (if in_lint (sint a - sint b) then Some (a - b) else None)"

lemma sint_plus: "in_lint (sint a + sint b) \<Longrightarrow> sint (a + b) = sint a + sint (b :: lint)"
  by (simp add: sint_word_ariths in_lint_def signed_take_bit_int_eq_self)

lemma sint_minus: "in_lint (sint a - sint b) \<Longrightarrow> sint (a - b) = sint a - sint (b :: lint)"
  by (simp add: sint_word_ariths in_lint_def signed_take_bit_int_eq_self)

lemma sint_of_nat_lint: "n < 2 ^ 63 \<Longrightarrow> sint (of_nat n :: lint) = int n"
  by (simp add: sint_uint unsigned_of_nat take_bit_nat_eq_self signed_take_bit_int_eq_self_iff
      take_bit_int_eq_self)

lemma sint_of_nat_cint: "n < 2 ^ 31 \<Longrightarrow> sint (of_nat n :: cint) = int n"
  by (simp add: sint_uint unsigned_of_nat take_bit_nat_eq_self signed_take_bit_int_eq_self_iff
      take_bit_int_eq_self)

lemma unat_nonneg: "0 \<le> sint (a :: lint) \<Longrightarrow> unat a = nat (sint a)"
proof -
  assume nn: "0 \<le> sint a"
  have "uint a = take_bit 64 (sint a)"
    using unsigned_of_int [of "sint a", where 'a = int and 'b = 64] by simp
  also have "\<dots> = sint a"
    using nn sint_lt [of a] by (simp add: take_bit_int_eq_self)
  finally show ?thesis by (simp add: unat_eq_nat_uint)
qed

section \<open>C strings\<close>

text \<open>
  Lua strings carry any bytes; a \<open>const char *\<close> read by C stops at the first NUL.
\<close>

definition NUL :: char where
  "NUL = CHR 0x00"

definition cstr :: "string \<Rightarrow> string" where
  "cstr s = takeWhile (\<lambda>c. c \<noteq> NUL) s"

lemma cstr_idem [simp]: "cstr (cstr s) = cstr s"
  by (simp add: cstr_def)

lemma cstr_no_NUL: "NUL \<notin> set (cstr s)"
  by (auto simp: cstr_def dest: set_takeWhileD)

lemma cstr_id: "NUL \<notin> set s \<Longrightarrow> cstr s = s"
  unfolding cstr_def by (subst takeWhile_eq_all_conv) auto

lemma length_cstr: "length (cstr s) \<le> length s"
  by (simp add: cstr_def length_takeWhile_le)

section \<open>Decimal numerals\<close>

text \<open>\<open>lua_pushfstring\<close> prints \<open>%d\<close> in decimal; \<open>lua_Integer\<close> keys print the same way.\<close>

fun nat_dec :: "nat \<Rightarrow> string" where
  "nat_dec n = (if n < 10 then [''0123456789'' ! n]
                else nat_dec (n div 10) @ [''0123456789'' ! (n mod 10)])"

declare nat_dec.simps [simp del]

definition int_dec :: "int \<Rightarrow> string" where
  "int_dec i = (if i < 0 then CHR ''-'' # nat_dec (nat (- i)) else nat_dec (nat i))"

definition int_str :: "lint \<Rightarrow> string" where
  "int_str n = int_dec (sint n)"

text \<open>A decimal numeral starts with a digit or a minus sign, so it is never a field name.\<close>

definition numeral_start :: "char \<Rightarrow> bool" where
  "numeral_start c \<longleftrightarrow> c \<in> set ''-0123456789''"

lemma digit_start: "d < 10 \<Longrightarrow> numeral_start (''0123456789'' ! d)"
  using nth_mem [of d "''0123456789''"] by (simp add: numeral_start_def)

lemma nat_dec_start: "\<exists>c cs. nat_dec n = c # cs \<and> numeral_start c"
proof (induction n rule: nat_dec.induct)
  case (1 n)
  show ?case
  proof (cases "n < 10")
    case True
    then show ?thesis by (subst nat_dec.simps) (simp add: digit_start)
  next
    case False
    with "1.IH" obtain c cs where "nat_dec (n div 10) = c # cs" "numeral_start c" by auto
    with False show ?thesis by (subst nat_dec.simps) simp
  qed
qed

lemma int_str_start: "\<exists>c cs. int_str n = c # cs \<and> numeral_start c"
  using nat_dec_start by (auto simp: int_str_def int_dec_def numeral_start_def)

section \<open>Association lists\<close>

lemma map_of_update: "map_of (AList.update k v t) = (map_of t)(k \<mapsto> v)"
  by (simp add: update_conv')

lemma map_of_filter_neq:
  "map_of (filter (\<lambda>p. fst p \<noteq> k) t) = (map_of t)(k := None)"
  by (induction t) (auto simp: fun_eq_iff)

lemma update_fresh: "k \<notin> fst ` set t \<Longrightarrow> AList.update k v t = t @ [(k, v)]"
  by (induction t) auto

end
