(* ===== verification/LuaApi.thy ===== *)
theory LuaApi
  imports Prelude
begin

text \<open>
  The part of the Lua C API (reference manual, chapter 4, and \<open>lauxlib.h\<close>) that the bindings
  call, as operations on an explicit interpreter state: the stack frame of the running C
  function (bottom first, so argument \<open>n\<close> is entry \<open>n\<close>), the tables and userdata, the
  registry, the blocks obtained from the Lua allocator, \<open>errno\<close>, and the rest of the
  world (\<open>'w\<close>, the operating system), which only system calls change.

  Behaviour that Lua or the C library leave open is a field of \<open>env\<close>: the text of an error
  number, the conversions between numerals and numbers, the border \<open>#t\<close> of a table, the
  entries of the string library, and whether the allocator has memory.  Tables have no
  metamethods (\<open>__index\<close>, \<open>__newindex\<close>, \<open>__len\<close>); a metatable is known by the type name under
  which \<open>luaL_newmetatable\<close> filed it.
\<close>

section \<open>Values and types\<close>

datatype lvalue =
    LNil
  | LBool bool
  | LInt lint
  | LFlt nat \<comment> \<open>a float, opaque\<close>
  | LStr string
  | LTab nat
  | LFun nat \<comment> \<open>a Lua function\<close>
  | LCFun string "lvalue list" \<comment> \<open>a C closure: its function and its upvalues\<close>
  | LUdata nat
  | LLight nat

datatype ltype =
    TNONE | TNIL | TBOOLEAN | TLIGHTUSERDATA | TNUMBER | TSTRING | TTABLE | TFUNCTION | TUSERDATA

text \<open>The \<open>LUA_T*\<close> codes of \<open>lua.h\<close>; \<open>lua_isnoneornil\<close> compares them.\<close>

fun ltype_code :: "ltype \<Rightarrow> int" where
  "ltype_code TNONE = -1"
| "ltype_code TNIL = 0"
| "ltype_code TBOOLEAN = 1"
| "ltype_code TLIGHTUSERDATA = 2"
| "ltype_code TNUMBER = 3"
| "ltype_code TSTRING = 4"
| "ltype_code TTABLE = 5"
| "ltype_code TFUNCTION = 6"
| "ltype_code TUSERDATA = 7"

instantiation ltype :: linorder
begin

definition less_eq_ltype :: "ltype \<Rightarrow> ltype \<Rightarrow> bool" where
  "s \<le> t \<longleftrightarrow> ltype_code s \<le> ltype_code t"

definition less_ltype :: "ltype \<Rightarrow> ltype \<Rightarrow> bool" where
  "s < t \<longleftrightarrow> ltype_code s < ltype_code t"

instance
proof
  fix s t u :: ltype
  show "s < t \<longleftrightarrow> s \<le> t \<and> \<not> t \<le> s"
    by (auto simp: less_eq_ltype_def less_ltype_def)
  show "s \<le> s"
    by (simp add: less_eq_ltype_def)
  show "s \<le> t \<Longrightarrow> t \<le> u \<Longrightarrow> s \<le> u"
    by (simp add: less_eq_ltype_def)
  show "s \<le> t \<Longrightarrow> t \<le> s \<Longrightarrow> s = t"
    by (cases s; cases t; simp add: less_eq_ltype_def)
  show "s \<le> t \<or> t \<le> s"
    by (auto simp: less_eq_ltype_def)
qed

end

fun lua_typename :: "ltype \<Rightarrow> string" where
  "lua_typename TNONE = ''no value''"
| "lua_typename TNIL = ''nil''"
| "lua_typename TBOOLEAN = ''boolean''"
| "lua_typename TLIGHTUSERDATA = ''userdata''"
| "lua_typename TNUMBER = ''number''"
| "lua_typename TSTRING = ''string''"
| "lua_typename TTABLE = ''table''"
| "lua_typename TFUNCTION = ''function''"
| "lua_typename TUSERDATA = ''userdata''"

fun vtype :: "lvalue \<Rightarrow> ltype" where
  "vtype LNil = TNIL"
| "vtype (LBool _) = TBOOLEAN"
| "vtype (LInt _) = TNUMBER"
| "vtype (LFlt _) = TNUMBER"
| "vtype (LStr _) = TSTRING"
| "vtype (LTab _) = TTABLE"
| "vtype (LFun _) = TFUNCTION"
| "vtype (LCFun _ _) = TFUNCTION"
| "vtype (LUdata _) = TUSERDATA"
| "vtype (LLight _) = TLIGHTUSERDATA"

fun truthy :: "lvalue \<Rightarrow> bool" where
  "truthy LNil = False"
| "truthy (LBool b) = b"
| "truthy _ = True"

section \<open>Tables\<close>

text \<open>
  A table is its list of entries in the order in which \<open>lua_next\<close> visits them.  Lua leaves
  that order open, so the theorems hold for every order of the entries.  Assigning nil
  removes an entry.
\<close>

type_synonym ltable = "(lvalue \<times> lvalue) list"

definition tbl_get :: "ltable \<Rightarrow> lvalue \<Rightarrow> lvalue" where
  "tbl_get t k = (case map_of t k of None \<Rightarrow> LNil | Some v \<Rightarrow> v)"

definition tbl_set :: "ltable \<Rightarrow> lvalue \<Rightarrow> lvalue \<Rightarrow> ltable" where
  "tbl_set t k v =
     (if v = LNil then filter (\<lambda>p. fst p \<noteq> k) t else AList.update k v t)"

text \<open>
  \<open>lua_next\<close>: \<open>None\<close> is the error for a key that is not in the table, \<open>Some None\<close> the end
  of the traversal.
\<close>

definition tbl_next :: "ltable \<Rightarrow> lvalue \<Rightarrow> (lvalue \<times> lvalue) option option" where
  "tbl_next t k =
     (if k = LNil then Some (case t of [] \<Rightarrow> None | e # _ \<Rightarrow> Some e)
      else case dropWhile (\<lambda>e. fst e \<noteq> k) t of
             [] \<Rightarrow> None
           | _ # rest \<Rightarrow> Some (case rest of [] \<Rightarrow> None | e # _ \<Rightarrow> Some e))"

definition wf_table :: "ltable \<Rightarrow> bool" where
  "wf_table t \<longleftrightarrow> distinct (map fst t) \<and> LNil \<notin> fst ` set t \<and> LNil \<notin> snd ` set t"

section \<open>The interpreter state\<close>

text \<open>The block a userdata points to: raw bytes, a \<open>DIR *\<close> or a \<open>luaL_Stream\<close>.\<close>

datatype ucell =
    URaw
  | UDir "nat option"
  | UStream "nat option"
  | UArgv "string option list"

record env =
  strerror :: "cint \<Rightarrow> string"
  str2int :: "string \<Rightarrow> lint option" \<comment> \<open>a numeral with an integer value\<close>
  flt2int :: "nat \<Rightarrow> lint option" \<comment> \<open>a float with an integer value\<close>
  flt2str :: "nat \<Rightarrow> string"
  tlen :: "ltable \<Rightarrow> nat" \<comment> \<open>a border of the table\<close>
  strlib :: "lvalue \<Rightarrow> lvalue" \<comment> \<open>an entry of the string library\<close>
  alloc_ok :: "nat \<Rightarrow> lint \<Rightarrow> bool" \<comment> \<open>whether the n-th request of this size succeeds\<close>
  alloc_errno :: "cint \<Rightarrow> cint" \<comment> \<open>\<open>errno\<close> after a failed request\<close>

record 'w lst =
  stk :: "lvalue list"
  tabs :: "nat \<Rightarrow> ltable"
  metas :: "nat \<Rightarrow> string option"
  ntab :: nat
  udat :: "nat \<Rightarrow> ucell"
  umeta :: "nat \<Rightarrow> string option"
  nud :: nat
  mtabs :: "string \<Rightarrow> (string \<times> lvalue) list option"
  regs :: "(lvalue \<times> lvalue) list"
  live :: "(nat \<times> lint) list"
  nptr :: nat
  statics :: "string \<Rightarrow> lint" \<comment> \<open>static variables of the bindings\<close>
  errno :: cint
  world :: 'w

section \<open>Outcomes and sequencing\<close>

text \<open>
  \<open>ArgError n msg\<close> is \<open>luaL_argerror\<close> for argument \<open>n\<close>; \<open>LuaError v\<close> any other Lua error;
  \<open>Undefined\<close> marks undefined behaviour of the C code; \<open>Exits\<close> and \<open>Aborted\<close> the end of the
  process;
  \<open>Replaced\<close> a successful \<open>exec\<close>, after which the program is another one.
\<close>

datatype err =
    ArgError int string
  | LuaError lvalue
  | Undefined string
  | Exits cint
  | Aborted
  | Replaced

datatype ('w, 'a) out = Ok 'a "'w lst" | Err err "'w lst"

type_synonym ('w, 'a) lm = "'w lst \<Rightarrow> ('w, 'a) out"

definition ret :: "'a \<Rightarrow> ('w, 'a) lm" where
  "ret x s = Ok x s"

definition bnd :: "('w, 'a) lm \<Rightarrow> ('a \<Rightarrow> ('w, 'b) lm) \<Rightarrow> ('w, 'b) lm" where
  "bnd m f s = (case m s of Ok x s' \<Rightarrow> f x s' | Err e s' \<Rightarrow> Err e s')"

definition thn :: "('w, 'a) lm \<Rightarrow> ('w, 'b) lm \<Rightarrow> ('w, 'b) lm" where
  "thn m m' s = (case m s of Ok _ s' \<Rightarrow> m' s' | Err e s' \<Rightarrow> Err e s')"

definition set_static :: "string \<Rightarrow> lint \<Rightarrow> ('w, unit) lm" where
  "set_static x v s = Ok () (s\<lparr>statics := (statics s)(x := v)\<rparr>)"

text \<open>An error unwinds the C function: its stack frame is gone.\<close>

definition raise :: "err \<Rightarrow> ('w, 'a) lm" where
  "raise e s = Err e (s\<lparr>stk := []\<rparr>)"

definition asks :: "('w lst \<Rightarrow> 'a) \<Rightarrow> ('w, 'a) lm" where
  "asks f s = Ok (f s) s"

definition when_do :: "bool \<Rightarrow> ('w, unit) lm \<Rightarrow> ('w, unit) lm" where
  "when_do b m = (if b then m else ret ())"

fun for_each :: "'a list \<Rightarrow> ('a \<Rightarrow> ('w, unit) lm) \<Rightarrow> ('w, unit) lm" where
  "for_each [] f = ret ()"
| "for_each (x # xs) f = thn (f x) (for_each xs f)"

fun seq :: "('w, unit) lm list \<Rightarrow> ('w, unit) lm" where
  "seq [] = ret ()"
| "seq (m # ms) = thn m (seq ms)"

text \<open>A run of statements and the number of results.\<close>

fun seqn :: "('w, unit) lm list \<Rightarrow> nat \<Rightarrow> ('w, nat) lm" where
  "seqn [] n = ret n"
| "seqn (m # ms) n = thn m (seqn ms n)"

text \<open>
  A call of a function of the C library or the kernel: it may use and change the world and
  \<open>errno\<close>, and nothing of the interpreter.
\<close>

type_synonym ('w, 'a) sys = "cint \<Rightarrow> 'w \<Rightarrow> 'a \<times> cint \<times> 'w"

definition sys :: "('w, 'a) sys \<Rightarrow> ('w, 'a) lm" where
  "sys f s = (case f (errno s) (world s) of (a, e, w) \<Rightarrow> Ok a (s\<lparr>errno := e, world := w\<rparr>))"

definition set_errno :: "cint \<Rightarrow> ('w, unit) lm" where
  "set_errno e s = Ok () (s\<lparr>errno := e\<rparr>)"

lemma ret_run [run_simps]: "ret x s = Ok x s"
  by (simp add: ret_def)

lemma raise_run [run_simps]: "raise e s = Err e (s\<lparr>stk := []\<rparr>)"
  by (simp add: raise_def)

lemma asks_run [run_simps]: "asks f s = Ok (f s) s"
  by (simp add: asks_def)

lemma set_errno_run [run_simps]: "set_errno e s = Ok () (s\<lparr>errno := e\<rparr>)"
  by (simp add: set_errno_def)

lemma set_static_run [run_simps]: "set_static x v s = Ok () (s\<lparr>statics := (statics s)(x := v)\<rparr>)"
  by (simp add: set_static_def)

lemma when_do_run [run_simps]: "when_do b m s = (if b then m s else Ok () s)"
  by (simp add: when_do_def ret_def)

lemmas [run_simps] = bnd_def thn_def

lemma bnd_ret_left: "bnd (ret x) f = f x"
  by (simp add: fun_eq_iff run_simps)

lemma bnd_ret_right: "bnd m ret = m"
  by (simp add: fun_eq_iff run_simps split: out.splits)

lemma bnd_assoc: "bnd (bnd m f) g = bnd m (\<lambda>x. bnd (f x) g)"
  by (simp add: fun_eq_iff run_simps split: out.splits)

lemma for_each_append: "for_each (xs @ ys) f = thn (for_each xs f) (for_each ys f)"
  by (induction xs) (simp_all add: fun_eq_iff run_simps split: out.splits)

section \<open>The stack\<close>

text \<open>
  An index is acceptable when it denotes an occupied entry: positive from the bottom,
  negative from the top.
\<close>

definition slot :: "int \<Rightarrow> lvalue list \<Rightarrow> nat option" where
  "slot i xs =
     (if 0 < i \<and> nat i \<le> length xs then Some (nat i - 1)
      else if i < 0 \<and> nat (- i) \<le> length xs then Some (length xs - nat (- i))
      else None)"

definition at :: "int \<Rightarrow> lvalue list \<Rightarrow> lvalue option" where
  "at i xs = map_option (\<lambda>n. xs ! n) (slot i xs)"

definition type_of :: "lvalue option \<Rightarrow> ltype" where
  "type_of v = (case v of None \<Rightarrow> TNONE | Some x \<Rightarrow> vtype x)"

definition lua_gettop :: "('w, nat) lm" where
  "lua_gettop = asks (\<lambda>s. length (stk s))"

definition lua_type :: "int \<Rightarrow> ('w, ltype) lm" where
  "lua_type i = asks (\<lambda>s. type_of (at i (stk s)))"

definition lua_isnoneornil :: "int \<Rightarrow> ('w, bool) lm" where
  "lua_isnoneornil i = asks (\<lambda>s. type_of (at i (stk s)) \<le> TNIL)"

definition lua_isnil :: "int \<Rightarrow> ('w, bool) lm" where
  "lua_isnil i = asks (\<lambda>s. type_of (at i (stk s)) = TNIL)"

definition lua_istable :: "int \<Rightarrow> ('w, bool) lm" where
  "lua_istable i = asks (\<lambda>s. type_of (at i (stk s)) = TTABLE)"

definition lua_isinteger :: "int \<Rightarrow> ('w, bool) lm" where
  "lua_isinteger i = asks (\<lambda>s. case at i (stk s) of Some (LInt _) \<Rightarrow> True | _ \<Rightarrow> False)"

text \<open>\<open>lua_isstring\<close> holds of strings and numbers.\<close>

definition lua_isstring :: "int \<Rightarrow> ('w, bool) lm" where
  "lua_isstring i = asks (\<lambda>s. type_of (at i (stk s)) \<in> {TSTRING, TNUMBER})"

definition lua_push :: "lvalue \<Rightarrow> ('w, unit) lm" where
  "lua_push v s = Ok () (s\<lparr>stk := stk s @ [v]\<rparr>)"

abbreviation lua_pushnil :: "('w, unit) lm" where
  "lua_pushnil \<equiv> lua_push LNil"

abbreviation lua_pushboolean :: "bool \<Rightarrow> ('w, unit) lm" where
  "lua_pushboolean b \<equiv> lua_push (LBool b)"

abbreviation lua_pushinteger :: "lint \<Rightarrow> ('w, unit) lm" where
  "lua_pushinteger n \<equiv> lua_push (LInt n)"

abbreviation lua_pushlstring :: "string \<Rightarrow> ('w, unit) lm" where
  "lua_pushlstring b \<equiv> lua_push (LStr b)"

abbreviation lua_pushlightuserdata :: "nat \<Rightarrow> ('w, unit) lm" where
  "lua_pushlightuserdata p \<equiv> lua_push (LLight p)"

text \<open>\<open>lua_pushstring\<close> copies up to the NUL; a null pointer pushes nil.\<close>

definition lua_pushstring :: "string \<Rightarrow> ('w, unit) lm" where
  "lua_pushstring x = lua_push (LStr (cstr x))"

definition lua_pushcharp :: "string option \<Rightarrow> ('w, unit) lm" where
  "lua_pushcharp p = (case p of None \<Rightarrow> lua_pushnil | Some x \<Rightarrow> lua_pushstring x)"

definition lua_pop :: "nat \<Rightarrow> ('w, unit) lm" where
  "lua_pop n s = Ok () (s\<lparr>stk := take (length (stk s) - n) (stk s)\<rparr>)"

definition lua_pushvalue :: "int \<Rightarrow> ('w, unit) lm" where
  "lua_pushvalue i s = (case at i (stk s) of
      None \<Rightarrow> raise (Undefined ''invalid index'') s
    | Some v \<Rightarrow> lua_push v s)"

subsection \<open>Reading values\<close>

fun val_int :: "env \<Rightarrow> lvalue option \<Rightarrow> lint option" where
  "val_int E (Some (LInt n)) = Some n"
| "val_int E (Some (LFlt f)) = flt2int E f"
| "val_int E (Some (LStr x)) = str2int E x"
| "val_int E _ = None"

definition lua_toboolean :: "int \<Rightarrow> ('w, bool) lm" where
  "lua_toboolean i = asks (\<lambda>s. case at i (stk s) of None \<Rightarrow> False | Some v \<Rightarrow> truthy v)"

definition lua_tointegerx :: "env \<Rightarrow> int \<Rightarrow> ('w, lint option) lm" where
  "lua_tointegerx E i = asks (\<lambda>s. val_int E (at i (stk s)))"

definition lua_tointeger :: "env \<Rightarrow> int \<Rightarrow> ('w, lint) lm" where
  "lua_tointeger E i =
     asks (\<lambda>s. case val_int E (at i (stk s)) of None \<Rightarrow> 0 | Some n \<Rightarrow> n)"

text \<open>\<open>lua_tolstring\<close> turns a number on the stack into a string, in place.\<close>

fun val_str :: "env \<Rightarrow> lvalue option \<Rightarrow> string option" where
  "val_str E (Some (LStr x)) = Some x"
| "val_str E (Some (LInt n)) = Some (int_str n)"
| "val_str E (Some (LFlt f)) = Some (flt2str E f)"
| "val_str E _ = None"

definition put_at :: "int \<Rightarrow> lvalue \<Rightarrow> lvalue list \<Rightarrow> lvalue list" where
  "put_at i v xs = (case slot i xs of None \<Rightarrow> xs | Some n \<Rightarrow> xs[n := v])"

definition lua_tolstring :: "env \<Rightarrow> int \<Rightarrow> ('w, string option) lm" where
  "lua_tolstring E i s = (case val_str E (at i (stk s)) of
      None \<Rightarrow> Ok None s
    | Some x \<Rightarrow> Ok (Some x) (s\<lparr>stk := put_at i (LStr x) (stk s)\<rparr>))"

text \<open>\<open>lua_objlen\<close> (\<open>lua_rawlen\<close>): 0 for anything but a string, a table or a userdata.\<close>

definition lua_objlen :: "env \<Rightarrow> int \<Rightarrow> ('w, lint) lm" where
  "lua_objlen E i = asks (\<lambda>s. case at i (stk s) of
      Some (LStr x) \<Rightarrow> of_nat (length x)
    | Some (LTab a) \<Rightarrow> of_nat (tlen E (tabs s a))
    | _ \<Rightarrow> 0)"

section \<open>Argument errors (lauxlib)\<close>

definition luaL_argerror :: "int \<Rightarrow> string \<Rightarrow> ('w, 'a) lm" where
  "luaL_argerror n msg = raise (ArgError n msg)"

definition luaL_argcheck :: "bool \<Rightarrow> int \<Rightarrow> string \<Rightarrow> ('w, unit) lm" where
  "luaL_argcheck c n msg = (if c then ret () else luaL_argerror n msg)"

text \<open>
  The name \<open>luaL_checktype\<close> and \<open>luaL_checklstring\<close> report: the type name of the metatable
  when there is one, and \<open>light userdata\<close> for a light userdata.
\<close>

definition typearg :: "'w lst \<Rightarrow> lvalue option \<Rightarrow> string" where
  "typearg s v =
     (case v of
        Some (LTab a) \<Rightarrow> (case metas s a of Some t \<Rightarrow> t | None \<Rightarrow> ''table'')
      | Some (LUdata u) \<Rightarrow> (case umeta s u of Some t \<Rightarrow> t | None \<Rightarrow> ''userdata'')
      | Some (LLight _) \<Rightarrow> ''light userdata''
      | _ \<Rightarrow> lua_typename (type_of v))"

definition tag_error :: "int \<Rightarrow> ltype \<Rightarrow> ('w, 'a) lm" where
  "tag_error i t s =
     luaL_argerror i (lua_typename t @ '' expected, got '' @ typearg s (at i (stk s))) s"

definition luaL_checktype :: "int \<Rightarrow> ltype \<Rightarrow> ('w, unit) lm" where
  "luaL_checktype i t s =
     (if type_of (at i (stk s)) = t then Ok () s else tag_error i t s)"

definition luaL_checklstring :: "env \<Rightarrow> int \<Rightarrow> ('w, string) lm" where
  "luaL_checklstring E i = bnd (lua_tolstring E i) (\<lambda>r. case r of
      None \<Rightarrow> tag_error i TSTRING
    | Some x \<Rightarrow> ret x)"

text \<open>The pointer \<open>luaL_checkstring\<close> returns is read as a C string.\<close>

definition luaL_checkstring :: "env \<Rightarrow> int \<Rightarrow> ('w, string) lm" where
  "luaL_checkstring E i = bnd (luaL_checklstring E i) (\<lambda>x. ret (cstr x))"

end
