(* ===== verification/LuaHeap.thy ===== *)
theory LuaHeap
  imports LuaApi
begin

text \<open>
  Tables, metatables, userdata and the allocator of the Lua API, the traversal loop
  \<open>while (lua_next(L, i)) ...\<close>, and the call of a C function from Lua (\<open>call_c\<close>).  The laws of
  table access are stated as the interface \<open>table_access\<close>, interpreted on the model's tables;
  the facts the record marshallers need are proved inside it.
\<close>

section \<open>Laws of table access\<close>

locale table_access =
  fixes get :: "'t \<Rightarrow> 'k \<Rightarrow> 'v"
    and put :: "'t \<Rightarrow> 'k \<Rightarrow> 'v \<Rightarrow> 't"
  assumes get_put_same: "get (put t k v) k = v"
    and get_put_other: "k' \<noteq> k \<Longrightarrow> get (put t k v) k' = get t k'"
begin

lemma get_put: "get (put t k v) k' = (if k' = k then v else get t k')"
  by (simp add: get_put_same get_put_other)

fun put_all :: "'t \<Rightarrow> ('k \<times> 'v) list \<Rightarrow> 't" where
  "put_all t [] = t"
| "put_all t ((k, v) # kvs) = put_all (put t k v) kvs"

lemma put_all_append: "put_all t (xs @ ys) = put_all (put_all t xs) ys"
  by (induction t xs rule: put_all.induct) simp_all

lemma get_put_all_other: "k \<notin> fst ` set kvs \<Longrightarrow> get (put_all t kvs) k = get t k"
  by (induction t kvs rule: put_all.induct) (auto simp: get_put)

lemma get_put_all:
  "distinct (map fst kvs) \<Longrightarrow> (k, v) \<in> set kvs \<Longrightarrow> get (put_all t kvs) k = v"
proof (induction t kvs rule: put_all.induct)
  case (1 t)
  then show ?case by simp
next
  case (2 t k' v' kvs)
  then show ?case by (cases "k = k'") (force simp: get_put get_put_all_other)+
qed

lemma get_put_all_map_of:
  "distinct (map fst kvs) \<Longrightarrow>
   get (put_all t kvs) k = (case map_of kvs k of None \<Rightarrow> get t k | Some v \<Rightarrow> v)"
proof (cases "map_of kvs k")
  case None
  then have "k \<notin> fst ` set kvs" by (simp add: map_of_eq_None_iff)
  with None show ?thesis by (simp add: get_put_all_other)
next
  case (Some v)
  assume "distinct (map fst kvs)"
  then have "get (put_all t kvs) k = v" using Some by (intro get_put_all map_of_SomeD)
  with Some show ?thesis by simp
qed

end

lemma tbl_get_set: "tbl_get (tbl_set t k v) k' = (if k' = k then v else tbl_get t k')"
  by (simp add: tbl_get_def tbl_set_def map_of_update map_of_filter_neq)

interpretation tbl: table_access tbl_get tbl_set
  by unfold_locales (simp_all add: tbl_get_set)

lemmas [simp] = tbl.get_put

lemma tbl_get_Nil [simp]: "tbl_get [] k = LNil"
  by (simp add: tbl_get_def)

lemma tbl_get_Cons [simp]: "tbl_get ((k, v) # t) k' = (if k = k' then v else tbl_get t k')"
  by (simp add: tbl_get_def)

lemma tbl_set_fresh: "v \<noteq> LNil \<Longrightarrow> k \<notin> fst ` set t \<Longrightarrow> tbl_set t k v = t @ [(k, v)]"
  by (simp add: tbl_set_def update_fresh)

lemma tbl_put_all_fresh:
  "distinct (map fst kvs) \<Longrightarrow> fst ` set kvs \<inter> fst ` set t = {} \<Longrightarrow> LNil \<notin> snd ` set kvs \<Longrightarrow>
   tbl.put_all t kvs = t @ kvs"
proof (induction t kvs rule: tbl.put_all.induct)
  case (1 t)
  then show ?case by simp
next
  case (2 t k v kvs)
  then have "tbl_set t k v = t @ [(k, v)]" by (intro tbl_set_fresh) auto
  with 2 show ?case by force
qed

lemma wf_table_set: "wf_table t \<Longrightarrow> k \<noteq> LNil \<Longrightarrow> wf_table (tbl_set t k v)"
proof -
  assume wf: "wf_table t" and k: "k \<noteq> LNil"
  show ?thesis
  proof (cases "v = LNil")
    case True
    then show ?thesis using wf
      by (auto simp: wf_table_def tbl_set_def intro: distinct_map_filter)
  next
    case False
    have "distinct (map fst (AList.update k v t))"
      using wf by (simp add: wf_table_def distinct_update)
    moreover have "fst ` set (AList.update k v t) = insert k (fst ` set t)"
      by (simp add: dom_update)
    moreover have "snd ` set (AList.update k v t) \<subseteq> insert v (snd ` set t)"
      by (induction t) auto
    ultimately show ?thesis using wf k False
      by (auto simp: wf_table_def tbl_set_def)
  qed
qed

lemma tbl_next_first: "tbl_next (e # t) LNil = Some (Some e)" "tbl_next [] LNil = Some None"
  by (simp_all add: tbl_next_def)

lemma tbl_next_mid:
  "wf_table (pre @ (k, v) # rest) \<Longrightarrow>
   tbl_next (pre @ (k, v) # rest) k = Some (case rest of [] \<Rightarrow> None | e # _ \<Rightarrow> Some e)"
proof -
  assume wf: "wf_table (pre @ (k, v) # rest)"
  then have "k \<noteq> LNil" and "\<forall>e \<in> set pre. fst e \<noteq> k"
    by (auto simp: wf_table_def)
  then have "dropWhile (\<lambda>e. fst e \<noteq> k) (pre @ (k, v) # rest) = (k, v) # rest"
    by (induction pre) auto
  with \<open>k \<noteq> LNil\<close> show ?thesis by (simp add: tbl_next_def)
qed

section \<open>Table operations on the stack\<close>

definition new_table :: "'w lst \<Rightarrow> 'w lst" where
  "new_table s = s\<lparr>stk := stk s @ [LTab (ntab s)], ntab := Suc (ntab s),
     tabs := (tabs s)(ntab s := []), metas := (metas s)(ntab s := None)\<rparr>"

definition lua_newtable :: "('w, unit) lm" where
  "lua_newtable s = Ok () (new_table s)"

text \<open>\<open>lua_createtable\<close> only adds size hints.\<close>

abbreviation lua_createtable :: "('w, unit) lm" where
  "lua_createtable \<equiv> lua_newtable"

definition index_error :: "'w lst \<Rightarrow> lvalue option \<Rightarrow> ('w, 'a) lm" where
  "index_error s v =
     raise (LuaError (LStr (''attempt to index a '' @ typearg s v @ '' value'')))"

text \<open>\<open>lua_gettable\<close> (the key is on top) and \<open>lua_getfield\<close>.\<close>

definition index_value :: "env \<Rightarrow> lvalue option \<Rightarrow> lvalue \<Rightarrow> ('w, lvalue) lm" where
  "index_value E v k s = (case v of
      Some (LTab a) \<Rightarrow> Ok (tbl_get (tabs s a) k) s
    | Some (LStr _) \<Rightarrow> Ok (strlib E k) s
    | _ \<Rightarrow> index_error s v s)"

definition lua_getfield :: "env \<Rightarrow> int \<Rightarrow> string \<Rightarrow> ('w, unit) lm" where
  "lua_getfield E i k s = bnd (index_value E (at i (stk s)) (LStr k)) lua_push s"

definition lua_gettable :: "env \<Rightarrow> int \<Rightarrow> ('w, unit) lm" where
  "lua_gettable E i s =
     bnd (index_value E (at i (stk s)) (last (stk s))) (\<lambda>v. thn (lua_pop 1) (lua_push v)) s"

definition set_tab :: "nat \<Rightarrow> ltable \<Rightarrow> 'w lst \<Rightarrow> 'w lst" where
  "set_tab a t s = s\<lparr>tabs := (tabs s)(a := t)\<rparr>"

definition tab_update :: "nat \<Rightarrow> lvalue \<Rightarrow> lvalue \<Rightarrow> 'w lst \<Rightarrow> 'w lst" where
  "tab_update a k v s = set_tab a (tbl_set (tabs s a) k v) s"

text \<open>\<open>lua_setfield\<close> (the value is on top), \<open>lua_settable\<close> (key and value), \<open>lua_rawseti\<close>.\<close>

definition lua_setfield :: "int \<Rightarrow> string \<Rightarrow> ('w, unit) lm" where
  "lua_setfield i k s = (case at i (stk s) of
      Some (LTab a) \<Rightarrow> lua_pop 1 (tab_update a (LStr k) (last (stk s)) s)
    | v \<Rightarrow> index_error s v s)"

definition lua_settable :: "int \<Rightarrow> ('w, unit) lm" where
  "lua_settable i s = (case at i (stk s) of
      Some (LTab a) \<Rightarrow>
        (let k = last (butlast (stk s)) in
         if k = LNil then raise (LuaError (LStr ''index is nil'')) s
         else lua_pop 2 (tab_update a k (last (stk s)) s))
    | v \<Rightarrow> index_error s v s)"

definition lua_rawseti :: "int \<Rightarrow> lint \<Rightarrow> ('w, unit) lm" where
  "lua_rawseti i n s = (case at i (stk s) of
      Some (LTab a) \<Rightarrow> lua_pop 1 (tab_update a (LInt n) (last (stk s)) s)
    | v \<Rightarrow> raise (Undefined ''table expected'') s)"

text \<open>\<open>lua_next\<close> pops the key and pushes the next entry, or nothing at the end.\<close>

definition lua_next :: "int \<Rightarrow> ('w, bool) lm" where
  "lua_next i s = (case at i (stk s) of
      Some (LTab a) \<Rightarrow>
        (case tbl_next (tabs s a) (last (stk s)) of
           None \<Rightarrow> raise (LuaError (LStr ''invalid key to next'')) s
         | Some None \<Rightarrow> Ok False (s\<lparr>stk := butlast (stk s)\<rparr>)
         | Some (Some (k, v)) \<Rightarrow> Ok True (s\<lparr>stk := butlast (stk s) @ [k, v]\<rparr>))
    | v \<Rightarrow> raise (Undefined ''table expected'') s)"

text \<open>
  \<open>for (lua_pushnil(L); lua_next(L, i); ...) body\<close>, the body consuming the value and leaving
  the key.  The fuel is one more than the number of entries at the start, which is enough
  when the body does not add entries to the table (lemma \<open>next_loop_run\<close>).
\<close>

fun next_loop :: "nat \<Rightarrow> int \<Rightarrow> ('x \<Rightarrow> ('w, 'x) lm) \<Rightarrow> 'x \<Rightarrow> ('w, 'x) lm" where
  "next_loop 0 i body x = raise (Undefined ''table changed during traversal'')"
| "next_loop (Suc n) i body x =
     bnd (lua_next i) (\<lambda>more. if more then bnd (body x) (next_loop n i body) else ret x)"

definition table_size :: "int \<Rightarrow> 'w lst \<Rightarrow> nat" where
  "table_size i s = (case at i (stk s) of Some (LTab a) \<Rightarrow> length (tabs s a) | _ \<Rightarrow> 0)"

definition table_loop :: "int \<Rightarrow> ('x \<Rightarrow> ('w, 'x) lm) \<Rightarrow> 'x \<Rightarrow> ('w, 'x) lm" where
  "table_loop i body x =
     bnd (asks (table_size i)) (\<lambda>n. thn lua_pushnil (next_loop (Suc n) i body x))"

section \<open>Metatables and userdata\<close>

text \<open>\<open>luaL_newmetatable\<close>: whether the type was new, leaving its metatable filed under the name.\<close>

definition luaL_newmetatable :: "string \<Rightarrow> ('w, bool) lm" where
  "luaL_newmetatable t s = (case mtabs s t of
      None \<Rightarrow> Ok True (s\<lparr>mtabs := (mtabs s)(t \<mapsto> [])\<rparr>)
    | Some _ \<Rightarrow> Ok False s)"

definition mt_setfield :: "string \<Rightarrow> string \<Rightarrow> lvalue \<Rightarrow> ('w, unit) lm" where
  "mt_setfield t k v s =
     Ok () (s\<lparr>mtabs := (mtabs s)(t := map_option (AList.update k v) (mtabs s t))\<rparr>)"

definition lua_setmetatable :: "string \<Rightarrow> ('w, unit) lm" where
  "lua_setmetatable t s = (case at (-1) (stk s) of
      Some (LTab a) \<Rightarrow> Ok () (s\<lparr>metas := (metas s)(a \<mapsto> t)\<rparr>)
    | Some (LUdata u) \<Rightarrow> Ok () (s\<lparr>umeta := (umeta s)(u \<mapsto> t)\<rparr>)
    | _ \<Rightarrow> raise (Undefined ''metatable of a basic value'') s)"

definition lua_newuserdata :: "ucell \<Rightarrow> ('w, nat) lm" where
  "lua_newuserdata c s =
     Ok (nud s) (s\<lparr>stk := stk s @ [LUdata (nud s)], nud := Suc (nud s),
       udat := (udat s)(nud s := c), umeta := (umeta s)(nud s := None)\<rparr>)"

text \<open>\<open>lua_pushcclosure\<close> takes the upvalues from the top; there are at most 255.\<close>

definition lua_pushcclosure :: "string \<Rightarrow> nat \<Rightarrow> ('w, unit) lm" where
  "lua_pushcclosure f n s =
     (if 255 < n then raise (Undefined ''more than 255 upvalues'') s
      else let k = length (stk s) - n in
        Ok () (s\<lparr>stk := take k (stk s) @ [LCFun f (drop k (stk s))]\<rparr>))"

section \<open>The allocator\<close>

text \<open>
  \<open>lalloc(ud, NULL, 0, n)\<close> and \<open>lalloc(ud, p, n, 0)\<close> of the allocator \<open>lua_getallocf\<close>
  returns: a request for 0 bytes gives the null pointer, and a block must be freed with the
  size it was obtained with.
\<close>

definition lua_alloc :: "env \<Rightarrow> lint \<Rightarrow> ('w, nat option) lm" where
  "lua_alloc E n s =
     (if n = 0 then Ok None s
      else if alloc_ok E (nptr s) n
        then Ok (Some (nptr s)) (s\<lparr>live := (nptr s, n) # live s, nptr := Suc (nptr s)\<rparr>)
      else Ok None (s\<lparr>nptr := Suc (nptr s), errno := alloc_errno E (errno s)\<rparr>))"

definition lua_free :: "nat option \<Rightarrow> lint \<Rightarrow> ('w, unit) lm" where
  "lua_free p n s = (case p of
      None \<Rightarrow> Ok () s
    | Some a \<Rightarrow> if (a, n) \<in> set (live s) then Ok () (s\<lparr>live := remove1 (a, n) (live s)\<rparr>)
               else raise (Undefined ''free of a block that is not allocated'') s)"

section \<open>Calling a C function\<close>

text \<open>
  Lua calls a C function with its arguments as the stack frame and takes as many values
  from the top as the function returns.
\<close>

definition call_c :: "('w, nat) lm \<Rightarrow> lvalue list \<Rightarrow> ('w, lvalue list) lm" where
  "call_c f args s = (case f (s\<lparr>stk := args\<rparr>) of
      Ok n s' \<Rightarrow> Ok (drop (length (stk s') - n) (stk s')) (s'\<lparr>stk := stk s\<rparr>)
    | Err e s' \<Rightarrow> Err e (s'\<lparr>stk := stk s\<rparr>))"

text \<open>
  The generic \<open>for\<close> of Lua over an iterator without state: each call gets the first value of the one
  before; the loop ends when the iterator returns nothing or nil.  \<open>for_in\<close> collects what the body
  sees; it has fuel, since an iterator may never end.
\<close>

fun for_in :: "nat \<Rightarrow> ('w, nat) lm \<Rightarrow> lvalue list list \<Rightarrow> 'w lst \<Rightarrow> (lvalue list list \<times> 'w lst) option" where
  "for_in 0 f acc s = None"
| "for_in (Suc n) f acc s =
     (case call_c f [LNil, if acc = [] then LNil else hd (last acc)] s of
        Ok vs s' \<Rightarrow> if vs = [] \<or> hd vs = LNil then Some (acc, s') else for_in n f (acc @ [vs]) s'
      | Err e s' \<Rightarrow> None)"

section \<open>Execution equations\<close>

lemma at_append_pos: "0 < i \<Longrightarrow> at i xs = Some v \<Longrightarrow> at i (xs @ ys) = Some v"
  by (auto simp: at_def slot_def nth_append split: if_splits)

lemma at_last [simp]:
  "at (-1) (xs @ [a]) = Some a"
  "at (-1) (xs @ [a, b]) = Some b"
  "at (-1) (xs @ [a, b, c]) = Some c"
  "at (-2) (xs @ [a, b]) = Some a"
  "at (-2) (xs @ [a, b, c]) = Some b"
  "at (-3) (xs @ [a, b, c]) = Some a"
  by (simp_all add: at_def slot_def nth_append)

lemma at_above [simp]:
  "at (int (length xs) + 1) (xs @ v # ys) = Some v" "at (1 + int (length xs)) (xs @ v # ys) = Some v"
  by (simp_all add: at_def slot_def nth_append nat_add_distrib)

lemma at_numeral:
  "at (numeral k) xs = (if numeral k \<le> length xs then Some (xs ! (numeral k - 1)) else None)"
  by (simp add: at_def slot_def)

lemma at_one: "at 1 xs = (if xs = [] then None else Some (hd xs))"
  by (cases xs) (simp_all add: at_def slot_def)

lemma at_m1: "at (-1) xs = (if xs = [] then None else Some (last xs))"
  by (cases xs rule: rev_cases) (simp_all add: at_def slot_def)

lemma at_beyond: "int (length xs) < i \<Longrightarrow> at i xs = None"
  by (simp add: at_def slot_def)

lemmas at_simps = at_numeral at_one at_m1

lemma put_at_same_type: "length (put_at i v xs) = length xs"
  by (simp add: put_at_def split: option.splits)

lemma put_at_neg2 [simp]: "put_at (-2) v (xs @ [a, b]) = xs @ [v, b]"
  by (simp add: put_at_def slot_def list_update_append)

lemma put_at_same: "at i xs = Some v \<Longrightarrow> put_at i v xs = xs"
  by (auto simp: at_def put_at_def list_update_same_conv split: option.splits)

lemma at_put_other [simp]:
  "0 < i \<Longrightarrow> 0 < j \<Longrightarrow> i \<noteq> j \<Longrightarrow> at i (put_at j v xs) = at i xs"
proof -
  assume "0 < i" "0 < j" "i \<noteq> j"
  then have "nat i - 1 \<noteq> nat j - 1" by linarith
  with \<open>0 < i\<close> \<open>0 < j\<close> show ?thesis
    by (auto simp: at_def put_at_def slot_def)
qed

lemma at_put_same [simp]: "at i xs = Some u \<Longrightarrow> at i (put_at i v xs) = Some v"
  by (auto simp: at_def put_at_def slot_def split: if_splits)

lemma typearg_frame [simp]:
  "typearg (s\<lparr>stk := xs\<rparr>) v = typearg s v"
  "typearg (s\<lparr>errno := e\<rparr>) v = typearg s v"
  "typearg (s\<lparr>world := w\<rparr>) v = typearg s v"
  by (auto simp: typearg_def split: option.splits lvalue.splits)

lemma stk_self: "stk s = xs \<Longrightarrow> s\<lparr>stk := xs\<rparr> = s"
  by (cases s) simp

lemma lua_push_run [run_simps]: "lua_push v s = Ok () (s\<lparr>stk := stk s @ [v]\<rparr>)"
  by (simp add: lua_push_def)

lemma lua_pushstring_run [run_simps]:
  "lua_pushstring x s = Ok () (s\<lparr>stk := stk s @ [LStr (cstr x)]\<rparr>)"
  by (simp add: lua_pushstring_def run_simps)

lemma lua_pushcharp_run [run_simps]:
  "lua_pushcharp x s =
     Ok () (s\<lparr>stk := stk s @ [case x of None \<Rightarrow> LNil | Some y \<Rightarrow> LStr (cstr y)]\<rparr>)"
  by (simp add: lua_pushcharp_def run_simps split: option.splits)

lemma lua_pop_run [run_simps]:
  "lua_pop n s = Ok () (s\<lparr>stk := take (length (stk s) - n) (stk s)\<rparr>)"
  by (simp add: lua_pop_def)

lemmas [run_simps] =
  lua_gettop_def lua_type_def lua_isnoneornil_def lua_isnil_def lua_istable_def
  lua_isinteger_def lua_isstring_def lua_toboolean_def lua_tointegerx_def lua_tointeger_def
  lua_tolstring_def lua_objlen_def luaL_argerror_def luaL_argcheck_def luaL_checktype_def
  lua_newtable_def lua_newuserdata_def luaL_newmetatable_def mt_setfield_def
  lua_pushvalue_def tag_error_def

lemma set_tab_simps [simp]:
  "stk (set_tab a t s) = stk s" "ntab (set_tab a t s) = ntab s"
  "metas (set_tab a t s) = metas s" "errno (set_tab a t s) = errno s"
  "world (set_tab a t s) = world s" "live (set_tab a t s) = live s"
  "mtabs (set_tab a t s) = mtabs s" "udat (set_tab a t s) = udat s"
  "umeta (set_tab a t s) = umeta s" "nud (set_tab a t s) = nud s"
  "nptr (set_tab a t s) = nptr s" "regs (set_tab a t s) = regs s" "statics (set_tab a t s) = statics s"
  "tabs (set_tab a t s) = (tabs s)(a := t)"
  by (simp_all add: set_tab_def)

lemma set_tab_idem [simp]: "set_tab a t (set_tab a u s) = set_tab a t s"
  by (simp add: set_tab_def)

lemma set_tab_same [simp]: "set_tab a (tabs s a) s = s"
  by (simp add: set_tab_def)

lemma set_tab_push [simp]:
  "(set_tab a t s)\<lparr>stk := xs\<rparr> = set_tab a t (s\<lparr>stk := xs\<rparr>)"
  "(set_tab a t s)\<lparr>errno := e\<rparr> = set_tab a t (s\<lparr>errno := e\<rparr>)"
  "(set_tab a t s)\<lparr>world := w\<rparr> = set_tab a t (s\<lparr>world := w\<rparr>)"
  by (simp_all add: set_tab_def)

lemma tab_update_simps [simp]:
  "stk (tab_update a k v s) = stk s" "ntab (tab_update a k v s) = ntab s"
  "metas (tab_update a k v s) = metas s" "errno (tab_update a k v s) = errno s"
  "world (tab_update a k v s) = world s" "live (tab_update a k v s) = live s"
  "mtabs (tab_update a k v s) = mtabs s" "udat (tab_update a k v s) = udat s"
  "umeta (tab_update a k v s) = umeta s" "nud (tab_update a k v s) = nud s"
  "nptr (tab_update a k v s) = nptr s" "regs (tab_update a k v s) = regs s"
  "tabs (tab_update a k v s) = (tabs s)(a := tbl_set (tabs s a) k v)"
  by (simp_all add: tab_update_def)

text \<open>Reading and writing a field of a table that the stack holds.\<close>

lemma lua_getfield_run:
  "at i (stk s) = Some (LTab a) \<Longrightarrow>
   lua_getfield E i k s = Ok () (s\<lparr>stk := stk s @ [tbl_get (tabs s a) (LStr k)]\<rparr>)"
  by (simp add: lua_getfield_def index_value_def run_simps)

lemma lua_gettable_run:
  "at i (xs @ [k]) = Some (LTab a) \<Longrightarrow> stk s = xs @ [k] \<Longrightarrow>
   lua_gettable E i s = Ok () (s\<lparr>stk := xs @ [tbl_get (tabs s a) k]\<rparr>)"
  by (simp add: lua_gettable_def index_value_def run_simps)

lemma lua_setfield_run:
  "stk s = xs @ [v] \<Longrightarrow> at i (xs @ [v]) = Some (LTab a) \<Longrightarrow>
   lua_setfield i k s = Ok () (tab_update a (LStr k) v (s\<lparr>stk := xs\<rparr>))"
  by (simp add: lua_setfield_def run_simps tab_update_def)

lemma lua_rawseti_run:
  "stk s = xs @ [v] \<Longrightarrow> at i (xs @ [v]) = Some (LTab a) \<Longrightarrow>
   lua_rawseti i n s = Ok () (tab_update a (LInt n) v (s\<lparr>stk := xs\<rparr>))"
  by (simp add: lua_rawseti_def run_simps tab_update_def)

lemma lua_settable_run:
  "stk s = xs @ [k, v] \<Longrightarrow> at i (xs @ [k, v]) = Some (LTab a) \<Longrightarrow> k \<noteq> LNil \<Longrightarrow>
   lua_settable i s = Ok () (tab_update a k v (s\<lparr>stk := xs\<rparr>))"
  by (simp add: lua_settable_def run_simps tab_update_def butlast_append)

text \<open>A run of \<open>lua_push...(L, v); lua_setfield(L, i, k)\<close> pairs.\<close>

definition set_fields_at :: "int \<Rightarrow> (string \<times> lvalue) list \<Rightarrow> ('w, unit) lm" where
  "set_fields_at i kvs = for_each kvs (\<lambda>(k, v). thn (lua_push v) (lua_setfield i k))"

definition named :: "(string \<times> lvalue) list \<Rightarrow> ltable" where
  "named kvs = map (\<lambda>(k, v). (LStr k, v)) kvs"

lemma set_fields_at_run:
  "0 < i \<Longrightarrow> at i (stk s) = Some (LTab a) \<Longrightarrow>
   set_fields_at i kvs s = Ok () (set_tab a (tbl.put_all (tabs s a) (named kvs)) s)"
proof (induction kvs arbitrary: s)
  case Nil
  then show ?case by (simp add: set_fields_at_def run_simps named_def)
next
  case (Cons kv kvs)
  obtain k v where kv: "kv = (k, v)" by (cases kv)
  have "set_fields_at i (kv # kvs) s = set_fields_at i kvs (tab_update a (LStr k) v s)"
    using Cons.prems kv
    by (simp add: set_fields_at_def run_simps lua_setfield_run [where xs = "stk s"] at_append_pos)
  also have "\<dots> = Ok () (set_tab a (tbl.put_all (tabs s a) (named (kv # kvs))) s)"
    using Cons kv by (simp add: tab_update_def named_def)
  finally show ?case .
qed

text \<open>A loop of \<open>push key; push value; lua_settable(L, -3)\<close> over the table on top of the stack.\<close>

definition set_pairs :: "(lvalue \<times> lvalue) list \<Rightarrow> ('w, unit) lm" where
  "set_pairs kvs = for_each kvs (\<lambda>(k, v). seq [lua_push k, lua_push v, lua_settable (-3)])"

lemma set_pairs_run:
  "stk s = xs @ [LTab a] \<Longrightarrow> LNil \<notin> fst ` set kvs \<Longrightarrow>
   set_pairs kvs s = Ok () (set_tab a (tbl.put_all (tabs s a) kvs) s)"
proof (induction kvs arbitrary: s)
  case (Cons kv kvs)
  obtain k v where kv: "kv = (k, v)" by (cases kv)
  have "set_pairs (kv # kvs) s = set_pairs kvs (tab_update a k v s)"
    using Cons.prems kv
    by (auto simp: set_pairs_def run_simps lua_settable_run [where xs = "xs @ [LTab a]" and a = a] at_def
        slot_def nth_append tab_update_def stk_self)
  with Cons kv show ?case by (simp add: tab_update_def)
qed (simp add: set_pairs_def run_simps)

text \<open>
  The traversal visits every entry once, in order.  \<open>f\<close> is what the body does for one entry
  from a state with the frame \<open>base\<close>: it may change anything but the traversed table, or
  raise an error, which ends the loop.
\<close>

fun fold_entries ::
  "('x \<Rightarrow> lvalue \<Rightarrow> lvalue \<Rightarrow> ('w, 'x) lm) \<Rightarrow> ltable \<Rightarrow> 'x \<Rightarrow> ('w, 'x) lm" where
  "fold_entries f [] x = ret x"
| "fold_entries f ((k, v) # es) x = bnd (f x k v) (fold_entries f es)"

definition entry_body ::
  "('x \<Rightarrow> ('w, 'x) lm) \<Rightarrow> ('x \<Rightarrow> lvalue \<Rightarrow> lvalue \<Rightarrow> ('w, 'x) lm) \<Rightarrow> nat \<Rightarrow> ltable \<Rightarrow>
   lvalue list \<Rightarrow> ('w lst \<Rightarrow> bool) \<Rightarrow> bool" where
  "entry_body body f a t base I \<longleftrightarrow>
     (\<forall>x k v s. (k, v) \<in> set t \<and> stk s = base \<and> tabs s a = t \<and> I s \<longrightarrow>
        (case f x k v s of
           Ok x' s' \<Rightarrow> body x (s\<lparr>stk := base @ [k, v]\<rparr>) = Ok x' (s'\<lparr>stk := base @ [k]\<rparr>) \<and>
                      stk s' = base \<and> tabs s' a = t \<and> I s'
         | Err e s' \<Rightarrow> body x (s\<lparr>stk := base @ [k, v]\<rparr>) = Err e s'))"

lemma next_loop_run:
  assumes body: "entry_body body f a t base I" and wf: "wf_table t"
    and i: "0 < i" "at i base = Some (LTab a)"
    and t: "t = pre @ rest" and key: "key = (if pre = [] then LNil else fst (last pre))"
    and s: "stk s = base" "tabs s a = t" "I s"
  shows "next_loop (Suc (length rest)) i body x (s\<lparr>stk := base @ [key]\<rparr>) = fold_entries f rest x s"
  using t key s
proof (induction rest arbitrary: pre key x s)
  case Nil
  have "tbl_next t key = Some None"
  proof (cases pre rule: rev_cases)
    case Nil
    with \<open>t = pre @ []\<close> \<open>key = _\<close> show ?thesis by (simp add: tbl_next_first)
  next
    case (snoc ys y)
    with wf Nil.prems(1,2) show ?thesis
      using tbl_next_mid [of ys "fst y" "snd y" "[]"] by simp
  qed
  with Nil.prems i show ?case
    by (simp add: run_simps lua_next_def at_append_pos)
next
  case (Cons e rest)
  obtain k v where e: "e = (k, v)" by (cases e)
  have "tbl_next t key = Some (Some (k, v))"
  proof (cases pre rule: rev_cases)
    case Nil
    with Cons.prems(1,2) e show ?thesis by (simp add: tbl_next_first)
  next
    case (snoc ys y)
    with wf Cons.prems(1,2) e show ?thesis
      using tbl_next_mid [of ys "fst y" "snd y" "(k, v) # rest"] by simp
  qed
  then have nxt: "lua_next i (s\<lparr>stk := base @ [key]\<rparr>) = Ok True (s\<lparr>stk := base @ [k, v]\<rparr>)"
    using Cons.prems i by (simp add: lua_next_def at_append_pos)
  have mem: "(k, v) \<in> set t" using Cons.prems(1) e by simp
  note step = body [unfolded entry_body_def, rule_format, OF conjI, OF mem conjI,
    OF Cons.prems(3) conjI, OF Cons.prems(4,5), of x]
  show ?case
  proof (cases "f x k v s")
    case (Err er s')
    then have "body x (s\<lparr>stk := base @ [k, v]\<rparr>) = Err er s'"
      using step by simp
    with nxt Err e show ?thesis by (simp add: run_simps)
  next
    case (Ok x' s')
    then have b: "body x (s\<lparr>stk := base @ [k, v]\<rparr>) = Ok x' (s'\<lparr>stk := base @ [k]\<rparr>)"
      and s': "stk s' = base" "tabs s' a = t" "I s'"
      using step by simp_all
    have "next_loop (Suc (length rest)) i body x' (s'\<lparr>stk := base @ [k]\<rparr>) = fold_entries f rest x' s'"
      by (rule Cons.IH [of "pre @ [e]"]) (use Cons.prems e s' in auto)
    with nxt b Ok e show ?thesis by (simp add: run_simps)
  qed
qed

lemma table_loop_run:
  assumes "entry_body body f a (tabs s a) (stk s) I" and "wf_table (tabs s a)"
    and "0 < i" "at i (stk s) = Some (LTab a)" and "I s"
  shows "table_loop i body x s = fold_entries f (tabs s a) x s"
proof -
  have "next_loop (Suc (length (tabs s a))) i body x (s\<lparr>stk := stk s @ [LNil]\<rparr>) =
        fold_entries f (tabs s a) x s"
    by (rule next_loop_run [where pre = "[]" and I = I]) (use assms in auto)
  with assms show ?thesis
    by (simp add: table_loop_def table_size_def run_simps)
qed

section \<open>Returning from a C function\<close>

lemma call_c_Ok:
  "f (s\<lparr>stk := args\<rparr>) = Ok (length vs) (s'\<lparr>stk := xs @ vs\<rparr>) \<Longrightarrow>
   call_c f args s = Ok vs (s'\<lparr>stk := stk s\<rparr>)"
  by (simp add: call_c_def)

lemma call_c_Err:
  "f (s\<lparr>stk := args\<rparr>) = Err e s' \<Longrightarrow> call_c f args s = Err e (s'\<lparr>stk := stk s\<rparr>)"
  by (simp add: call_c_def)

end
