(* ===== verification/Helpers.thy ===== *)
theory Helpers
  imports LuaHeap
begin

text \<open>
  \<^verbatim>\<open>ext/include/_helpers.c\<close>: argument checking, field access, result pushing.  Every binding
  is built from these functions, so their execution equations (section \<open>Execution\<close>) carry the
  proofs of the component theories.
\<close>

section \<open>Bad argument diagnostics\<close>

definition argtypeerror :: "int \<Rightarrow> string \<Rightarrow> ('w, 'a) lm" where
  "argtypeerror narg expected =
     bnd (lua_type narg) (\<lambda>t. luaL_argerror narg (expected @ '' expected, got '' @ lua_typename t))"

definition checktype :: "int \<Rightarrow> ltype \<Rightarrow> string \<Rightarrow> ('w, unit) lm" where
  "checktype narg t expected =
     bnd (lua_type narg) (\<lambda>t'. when_do (t' \<noteq> t) (argtypeerror narg expected))"

definition expectinteger :: "env \<Rightarrow> int \<Rightarrow> string \<Rightarrow> ('w, lint) lm" where
  "expectinteger E narg expected =
     bnd (lua_tointegerx E narg) (\<lambda>r. case r of
         None \<Rightarrow> argtypeerror narg expected
       | Some d \<Rightarrow> ret d)"

definition checkinteger :: "env \<Rightarrow> int \<Rightarrow> ('w, lint) lm" where
  "checkinteger E n = expectinteger E n ''integer''"

definition checkint :: "env \<Rightarrow> int \<Rightarrow> ('w, cint) lm" where
  "checkint E n = bnd (expectinteger E n ''integer'') (\<lambda>d. ret (to_cint d))"

definition checklong :: "env \<Rightarrow> int \<Rightarrow> ('w, lint) lm" where
  "checklong E n = expectinteger E n ''integer''"

definition optboolean :: "int \<Rightarrow> bool \<Rightarrow> ('w, bool) lm" where
  "optboolean narg def =
     bnd (lua_isnoneornil narg) (\<lambda>none.
     if none then ret def
     else thn (checktype narg TBOOLEAN ''boolean or nil'') (lua_toboolean narg))"

definition expectoptinteger :: "env \<Rightarrow> int \<Rightarrow> lint \<Rightarrow> string \<Rightarrow> ('w, lint) lm" where
  "expectoptinteger E narg def expected =
     bnd (lua_isnoneornil narg) (\<lambda>none.
     if none then ret def else expectinteger E narg expected)"

definition optinteger :: "env \<Rightarrow> int \<Rightarrow> lint \<Rightarrow> ('w, lint) lm" where
  "optinteger E n d = expectoptinteger E n d ''integer or nil''"

definition optint :: "env \<Rightarrow> int \<Rightarrow> cint \<Rightarrow> ('w, cint) lm" where
  "optint E n d = bnd (expectoptinteger E n (of_cint d) ''integer or nil'') (\<lambda>r. ret (to_cint r))"

definition optlong :: "env \<Rightarrow> int \<Rightarrow> lint \<Rightarrow> ('w, lint) lm" where
  "optlong E n d = expectoptinteger E n d ''integer or nil''"

text \<open>The result of \<open>optstring\<close> is a C string, or the default, which may be \<open>NULL\<close>.\<close>

definition optstring :: "env \<Rightarrow> int \<Rightarrow> string option \<Rightarrow> ('w, string option) lm" where
  "optstring E narg def =
     bnd (lua_isnoneornil narg) (\<lambda>none.
     if none then ret def
     else bnd (lua_tolstring E narg) (\<lambda>r. case r of
         None \<Rightarrow> argtypeerror narg ''nil or string''
       | Some x \<Rightarrow> ret (Some (cstr x))))"

definition nargs_msg :: "nat \<Rightarrow> nat \<Rightarrow> string" where
  "nargs_msg maxargs nargs =
     ''no more than '' @ nat_dec maxargs @ '' argument'' @ (if maxargs = 1 then '''' else ''s'') @
     '' expected, got '' @ nat_dec nargs"

definition checknargs :: "nat \<Rightarrow> ('w, unit) lm" where
  "checknargs maxargs =
     bnd lua_gettop (\<lambda>nargs.
     thn (lua_pushstring (nargs_msg maxargs nargs))
    (thn (luaL_argcheck (nargs \<le> maxargs) (int maxargs + 1) (nargs_msg maxargs nargs))
         (lua_pop 1)))"

definition field_msg :: "string \<Rightarrow> string \<Rightarrow> ltype \<Rightarrow> string" where
  "field_msg expected k got =
     expected @ '' expected for field '' @ [CHR 0x27] @ k @ [CHR 0x27] @ '', got '' @
     (if got = TNIL then ''no value'' else lua_typename got)"

text \<open>\<open>checkfieldtype\<close> leaves the field's value on the stack.\<close>

definition checkfieldtype ::
  "env \<Rightarrow> int \<Rightarrow> string \<Rightarrow> ltype \<Rightarrow> string option \<Rightarrow> ('w, unit) lm" where
  "checkfieldtype E index k expect_type expected =
     thn (lua_getfield E index k)
    (bnd (lua_type (-1)) (\<lambda>got_type.
     let ex = (case expected of None \<Rightarrow> lua_typename expect_type | Some x \<Rightarrow> x);
         msg = field_msg ex k got_type
     in thn (lua_pushstring msg)
       (thn (luaL_argcheck (got_type = expect_type) index msg)
            (lua_pop 1))))"

text \<open>
  \<open>checkismember\<close> looks at the key below the value on top of the stack.  \<open>STREQ\<close> compares C
  strings; \<open>lua_tostring\<close> turns a number key into a string on the stack.
\<close>

definition checkismember :: "env \<Rightarrow> int \<Rightarrow> string list \<Rightarrow> ('w, unit) lm" where
  "checkismember E index S =
     bnd (lua_type (-2)) (\<lambda>got_type.
     bnd (lua_isstring (-2)) (\<lambda>iss.
     thn (luaL_argcheck iss index (''invalid '' @ lua_typename got_type @ '' field name''))
    (bnd (lua_tolstring E (-2)) (\<lambda>k.
     let k' = cstr (case k of None \<Rightarrow> [] | Some x \<Rightarrow> x) in
     if k' \<in> set S then ret ()
     else luaL_argerror index (''invalid field name '' @ [CHR 0x27] @ k' @ [CHR 0x27])))))"

definition checkfieldnames :: "env \<Rightarrow> int \<Rightarrow> string list \<Rightarrow> ('w, unit) lm" where
  "checkfieldnames E index S =
     table_loop index (\<lambda>_. thn (checkismember E index S) (lua_pop 1)) ()"

definition checkintegerfield :: "env \<Rightarrow> int \<Rightarrow> string \<Rightarrow> ('w, lint) lm" where
  "checkintegerfield E index k =
     thn (checkfieldtype E index k TNUMBER (Some ''integer''))
    (bnd (lua_tointeger E (-1)) (\<lambda>r.
     thn (lua_pop 1) (ret r)))"

definition checkintfield :: "env \<Rightarrow> int \<Rightarrow> string \<Rightarrow> ('w, cint) lm" where
  "checkintfield E i k = bnd (checkintegerfield E i k) (\<lambda>r. ret (to_cint r))"

definition checklstringfield :: "env \<Rightarrow> int \<Rightarrow> string \<Rightarrow> ('w, string) lm" where
  "checklstringfield E index k =
     thn (checkfieldtype E index k TSTRING None)
    (bnd (lua_tolstring E (-1)) (\<lambda>r.
     thn (lua_pop 1) (ret (case r of None \<Rightarrow> [] | Some x \<Rightarrow> x))))"

definition checkstringfield :: "env \<Rightarrow> int \<Rightarrow> string \<Rightarrow> ('w, string) lm" where
  "checkstringfield E i k = bnd (checklstringfield E i k) (\<lambda>x. ret (cstr x))"

definition optintegerfield :: "env \<Rightarrow> int \<Rightarrow> string \<Rightarrow> cint \<Rightarrow> ('w, lint) lm" where
  "optintegerfield E index k def =
     thn (lua_getfield E index k)
    (bnd (lua_type (-1)) (\<lambda>got_type.
     thn (lua_pop 1)
    (if got_type = TNONE \<or> got_type = TNIL then ret (of_cint def)
     else checkintegerfield E index k)))"

definition optintfield :: "env \<Rightarrow> int \<Rightarrow> string \<Rightarrow> cint \<Rightarrow> ('w, cint) lm" where
  "optintfield E i k d = bnd (optintegerfield E i k d) (\<lambda>r. ret (to_cint r))"

definition optlongfield :: "env \<Rightarrow> int \<Rightarrow> string \<Rightarrow> cint \<Rightarrow> ('w, lint) lm" where
  "optlongfield E i k d = optintegerfield E i k d"

definition optstringfield :: "env \<Rightarrow> int \<Rightarrow> string \<Rightarrow> string option \<Rightarrow> ('w, string option) lm" where
  "optstringfield E index k def =
     thn (lua_getfield E index k)
    (bnd (lua_type (-1)) (\<lambda>got_type.
     thn (lua_pop 1)
    (if got_type = TNONE \<or> got_type = TNIL then ret def
     else bnd (checkstringfield E index k) (\<lambda>x. ret (Some x)))))"

section \<open>Results\<close>

definition errmsg :: "env \<Rightarrow> string option \<Rightarrow> cint \<Rightarrow> string" where
  "errmsg E info e =
     (case info of None \<Rightarrow> strerror E e | Some i \<Rightarrow> i @ '': '' @ strerror E e)"

definition pusherror :: "env \<Rightarrow> string option \<Rightarrow> ('w, nat) lm" where
  "pusherror E info =
     thn lua_pushnil
    (bnd (asks errno) (\<lambda>e.
     thn (lua_pushstring (errmsg E info e))
    (thn (lua_pushinteger (of_cint e))
     (ret 3))))"

definition pushboolresult :: "bool \<Rightarrow> ('w, nat) lm" where
  "pushboolresult b = thn (lua_pushboolean b) (ret 1)"

definition pushintegerresult :: "lint \<Rightarrow> ('w, nat) lm" where
  "pushintegerresult n = thn (lua_pushinteger n) (ret 1)"

definition pushstringresult :: "string option \<Rightarrow> ('w, nat) lm" where
  "pushstringresult x = thn (lua_pushcharp x) (ret 1)"

definition pushresult :: "env \<Rightarrow> cint \<Rightarrow> string option \<Rightarrow> ('w, nat) lm" where
  "pushresult E i info =
     (if i = -1 then pusherror E info else pushintegerresult (of_cint i))"

definition badoption :: "int \<Rightarrow> string \<Rightarrow> char \<Rightarrow> ('w, 'a) lm" where
  "badoption i what opt =
     luaL_argerror i (''invalid '' @ what @ '' option '' @ [CHR 0x27, opt, CHR 0x27])"

definition binding_notimplemented :: "string \<Rightarrow> string \<Rightarrow> ('w, nat) lm" where
  "binding_notimplemented fname libname =
     thn lua_pushnil
    (thn (lua_pushstring ([CHR 0x27] @ fname @ [CHR 0x27] @ '' is not implemented by host '' @
            libname @ '' library''))
     (ret 2))"

section \<open>Fields of a result table\<close>

definition pushintegerfield :: "string \<Rightarrow> lint \<Rightarrow> ('w, unit) lm" where
  "pushintegerfield k v = thn (lua_pushinteger v) (lua_setfield (-2) k)"

definition pushstringfield :: "string \<Rightarrow> string option \<Rightarrow> ('w, unit) lm" where
  "pushstringfield k v = (case v of
      None \<Rightarrow> ret ()
    | Some x \<Rightarrow> thn (lua_pushstring x) (lua_setfield (-2) k))"

definition pushlstringfield :: "string \<Rightarrow> string \<Rightarrow> nat \<Rightarrow> ('w, unit) lm" where
  "pushlstringfield k v l =
     when_do (0 < l) (thn (lua_pushlstring (take l v)) (lua_setfield (-2) k))"

definition settypemetatable :: "string \<Rightarrow> ('w, unit) lm" where
  "settypemetatable t =
     bnd (luaL_newmetatable t) (\<lambda>new.
     thn (when_do new (mt_setfield t ''_type'' (LStr t)))
         (lua_setmetatable t))"

text \<open>A run of \<open>setintegerfield\<close> lines.\<close>

definition pushintegerfields :: "(string \<times> lint) list \<Rightarrow> ('w, unit) lm" where
  "pushintegerfields kvs = for_each kvs (\<lambda>(k, v). pushintegerfield k v)"

section \<open>Execution\<close>

text \<open>
  What each helper does from any state, on every branch.  A check that succeeds leaves the
  state as it was; one that fails raises an argument error and drops the frame.
\<close>

definition got_msg :: "string \<Rightarrow> lvalue option \<Rightarrow> string" where
  "got_msg expected v = expected @ '' expected, got '' @ lua_typename (type_of v)"

abbreviation arg_error :: "int \<Rightarrow> string \<Rightarrow> 'w lst \<Rightarrow> ('w, 'a) out" where
  "arg_error n msg s \<equiv> Err (ArgError n msg) (s\<lparr>stk := []\<rparr>)"

lemma argtypeerror_run [run_simps]:
  "argtypeerror n ex s = arg_error n (got_msg ex (at n (stk s))) s"
  by (simp add: argtypeerror_def run_simps got_msg_def)

lemma checktype_run [run_simps]:
  "checktype n t ex s =
     (if type_of (at n (stk s)) = t then Ok () s else arg_error n (got_msg ex (at n (stk s))) s)"
  by (simp add: checktype_def run_simps)

lemma expectinteger_run [run_simps]:
  "expectinteger E n ex s = (case val_int E (at n (stk s)) of
      Some d \<Rightarrow> Ok d s | None \<Rightarrow> arg_error n (got_msg ex (at n (stk s))) s)"
  by (simp add: expectinteger_def run_simps split: option.splits)

lemma checkinteger_run [run_simps]:
  "checkinteger E n s = (case val_int E (at n (stk s)) of
      Some d \<Rightarrow> Ok d s | None \<Rightarrow> arg_error n (got_msg ''integer'' (at n (stk s))) s)"
  by (simp add: checkinteger_def run_simps)

lemma checkint_run [run_simps]:
  "checkint E n s = (case val_int E (at n (stk s)) of
      Some d \<Rightarrow> Ok (to_cint d) s | None \<Rightarrow> arg_error n (got_msg ''integer'' (at n (stk s))) s)"
  by (simp add: checkint_def run_simps split: option.splits)

lemma checklong_run [run_simps]: "checklong E n s = checkinteger E n s"
  by (simp add: checklong_def checkinteger_def)

lemma type_le_nil: "t \<le> TNIL \<longleftrightarrow> t = TNONE \<or> t = TNIL"
  by (cases t) (simp_all add: less_eq_ltype_def)

lemma expectoptinteger_run [run_simps]:
  "expectoptinteger E n def ex s =
     (if type_of (at n (stk s)) \<le> TNIL then Ok def s
      else case val_int E (at n (stk s)) of
        Some d \<Rightarrow> Ok d s | None \<Rightarrow> arg_error n (got_msg ex (at n (stk s))) s)"
  by (simp add: expectoptinteger_def run_simps)

lemma optinteger_run [run_simps]:
  "optinteger E n def s =
     (if type_of (at n (stk s)) \<le> TNIL then Ok def s
      else case val_int E (at n (stk s)) of
        Some d \<Rightarrow> Ok d s | None \<Rightarrow> arg_error n (got_msg ''integer or nil'' (at n (stk s))) s)"
  by (simp add: optinteger_def run_simps)

lemma optint_run [run_simps]:
  "optint E n def s =
     (if type_of (at n (stk s)) \<le> TNIL then Ok def s
      else case val_int E (at n (stk s)) of
        Some d \<Rightarrow> Ok (to_cint d) s
      | None \<Rightarrow> arg_error n (got_msg ''integer or nil'' (at n (stk s))) s)"
  by (simp add: optint_def run_simps split: option.splits)

lemma optlong_run [run_simps]: "optlong E n def s = optinteger E n def s"
  by (simp add: optlong_def optinteger_def)

lemma optboolean_run [run_simps]:
  "optboolean n def s =
     (case at n (stk s) of
        None \<Rightarrow> Ok def s
      | Some LNil \<Rightarrow> Ok def s
      | Some (LBool b) \<Rightarrow> Ok b s
      | v \<Rightarrow> arg_error n (got_msg ''boolean or nil'' v) s)"
  by (simp add: optboolean_def run_simps type_of_def type_le_nil
        split: option.splits lvalue.splits)

lemma luaL_checklstring_run [run_simps]:
  "luaL_checklstring E i s = (case val_str E (at i (stk s)) of
      None \<Rightarrow> tag_error i TSTRING s
    | Some x \<Rightarrow> Ok x (s\<lparr>stk := put_at i (LStr x) (stk s)\<rparr>))"
  by (simp add: luaL_checklstring_def run_simps split: option.splits)

lemma luaL_checkstring_run [run_simps]:
  "luaL_checkstring E i s = (case val_str E (at i (stk s)) of
      None \<Rightarrow> tag_error i TSTRING s
    | Some x \<Rightarrow> Ok (cstr x) (s\<lparr>stk := put_at i (LStr x) (stk s)\<rparr>))"
  by (simp add: luaL_checkstring_def run_simps split: option.splits)

lemma optstring_run [run_simps]:
  "optstring E i def s =
     (if type_of (at i (stk s)) \<le> TNIL then Ok def s
      else case val_str E (at i (stk s)) of
        None \<Rightarrow> arg_error i (got_msg ''nil or string'' (at i (stk s))) s
      | Some x \<Rightarrow> Ok (Some (cstr x)) (s\<lparr>stk := put_at i (LStr x) (stk s)\<rparr>))"
  by (simp add: optstring_def run_simps split: option.splits)

lemma checknargs_run [run_simps]:
  "checknargs n s =
     (if length (stk s) \<le> n then Ok () s
      else arg_error (int n + 1) (nargs_msg n (length (stk s))) s)"
  by (simp add: checknargs_def run_simps)

subsection \<open>Fields\<close>

lemma checkfieldtype_run:
  "at i (stk s) = Some (LTab a) \<Longrightarrow>
   checkfieldtype E i k t ex s =
     (let v = tbl_get (tabs s a) (LStr k) in
      if vtype v = t then Ok () (s\<lparr>stk := stk s @ [v]\<rparr>)
      else arg_error i (field_msg (case ex of None \<Rightarrow> lua_typename t | Some x \<Rightarrow> x) k (vtype v)) s)"
  by (simp add: checkfieldtype_def run_simps lua_getfield_run type_of_def Let_def)

definition int_field :: "env \<Rightarrow> ltable \<Rightarrow> string \<Rightarrow> lint" where
  "int_field E t k = (case val_int E (Some (tbl_get t (LStr k))) of None \<Rightarrow> 0 | Some n \<Rightarrow> n)"

lemma checkintegerfield_run:
  "at i (stk s) = Some (LTab a) \<Longrightarrow>
   checkintegerfield E i k s =
     (let v = tbl_get (tabs s a) (LStr k) in
      if vtype v = TNUMBER then Ok (int_field E (tabs s a) k) s
      else arg_error i (field_msg ''integer'' k (vtype v)) s)"
  by (simp add: checkintegerfield_def run_simps checkfieldtype_run Let_def int_field_def)

lemma checkintfield_run:
  "at i (stk s) = Some (LTab a) \<Longrightarrow>
   checkintfield E i k s =
     (let v = tbl_get (tabs s a) (LStr k) in
      if vtype v = TNUMBER then Ok (to_cint (int_field E (tabs s a) k)) s
      else arg_error i (field_msg ''integer'' k (vtype v)) s)"
  by (simp add: checkintfield_def run_simps checkintegerfield_run Let_def)

lemma vtype_string: "vtype v = TSTRING \<longleftrightarrow> (\<exists>x. v = LStr x)"
  by (cases v) simp_all

lemma vtype_nil: "vtype v = TNIL \<longleftrightarrow> v = LNil"
  by (cases v) simp_all

lemma vtype_table: "vtype v = TTABLE \<longleftrightarrow> (\<exists>a. v = LTab a)"
  by (cases v) simp_all

lemma vtype_not_none [simp]: "vtype v \<noteq> TNONE"
  by (cases v) simp_all

lemma checklstringfield_run:
  "at i (stk s) = Some (LTab a) \<Longrightarrow>
   checklstringfield E i k s =
     (case tbl_get (tabs s a) (LStr k) of
        LStr x \<Rightarrow> Ok x s
      | v \<Rightarrow> arg_error i (field_msg ''string'' k (vtype v)) s)"
  by (auto simp: checklstringfield_def run_simps checkfieldtype_run Let_def vtype_string
        put_at_def slot_def split: lvalue.splits)

lemma checkstringfield_run:
  "at i (stk s) = Some (LTab a) \<Longrightarrow>
   checkstringfield E i k s =
     (case tbl_get (tabs s a) (LStr k) of
        LStr x \<Rightarrow> Ok (cstr x) s
      | v \<Rightarrow> arg_error i (field_msg ''string'' k (vtype v)) s)"
  by (simp add: checkstringfield_def run_simps checklstringfield_run split: lvalue.splits)

lemma optintegerfield_run:
  "at i (stk s) = Some (LTab a) \<Longrightarrow>
   optintegerfield E i k d s =
     (let v = tbl_get (tabs s a) (LStr k) in
      if v = LNil then Ok (of_cint d) s
      else if vtype v = TNUMBER then Ok (int_field E (tabs s a) k) s
      else arg_error i (field_msg ''integer'' k (vtype v)) s)"
  by (simp add: optintegerfield_def run_simps lua_getfield_run checkintegerfield_run Let_def
        type_of_def vtype_nil)

lemma optintfield_run:
  "at i (stk s) = Some (LTab a) \<Longrightarrow>
   optintfield E i k d s =
     (let v = tbl_get (tabs s a) (LStr k) in
      if v = LNil then Ok d s
      else if vtype v = TNUMBER then Ok (to_cint (int_field E (tabs s a) k)) s
      else arg_error i (field_msg ''integer'' k (vtype v)) s)"
  by (simp add: optintfield_def run_simps optintegerfield_run Let_def)

lemma optstringfield_run:
  "at i (stk s) = Some (LTab a) \<Longrightarrow>
   optstringfield E i k d s =
     (case tbl_get (tabs s a) (LStr k) of
        LNil \<Rightarrow> Ok d s
      | LStr x \<Rightarrow> Ok (Some (cstr x)) s
      | v \<Rightarrow> arg_error i (field_msg ''string'' k (vtype v)) s)"
  by (simp add: optstringfield_def run_simps lua_getfield_run checkstringfield_run type_of_def
        vtype_nil split: lvalue.splits)

lemmas field_runs = checkintegerfield_run checkintfield_run checklstringfield_run
  checkstringfield_run optintegerfield_run optintfield_run optstringfield_run

subsection \<open>Unknown field names\<close>

text \<open>
  What \<open>checkismember\<close> finds wrong with a key, and the first complaint in traversal order.
  Lua prints a float as a decimal numeral, \<open>inf\<close> or \<open>nan\<close> (\<open>float_text\<close>), so a number key is
  never taken for one of the accepted names.
\<close>

definition key_complaint :: "env \<Rightarrow> string list \<Rightarrow> lvalue \<Rightarrow> string option" where
  "key_complaint E S k =
     (case val_str E (Some k) of
        None \<Rightarrow> Some (''invalid '' @ lua_typename (vtype k) @ '' field name'')
      | Some x \<Rightarrow> if cstr x \<in> set S then None
                 else Some (''invalid field name '' @ [CHR 0x27] @ cstr x @ [CHR 0x27]))"

fun first_complaint :: "env \<Rightarrow> string list \<Rightarrow> ltable \<Rightarrow> string option" where
  "first_complaint E S [] = None"
| "first_complaint E S ((k, v) # t) =
     (case key_complaint E S k of Some c \<Rightarrow> Some c | None \<Rightarrow> first_complaint E S t)"

definition float_text :: "env \<Rightarrow> bool" where
  "float_text E \<longleftrightarrow>
     (\<forall>f. flt2str E f \<in> {''inf'', ''nan''} \<or> (flt2str E f \<noteq> [] \<and> numeral_start (hd (flt2str E f))))"

definition field_name :: "string \<Rightarrow> bool" where
  "field_name x \<longleftrightarrow> x \<noteq> [] \<and> \<not> numeral_start (hd x) \<and> x \<noteq> ''inf'' \<and> x \<noteq> ''nan''"

lemma numeral_start_cstr: "x \<noteq> [] \<Longrightarrow> numeral_start (hd x) \<Longrightarrow>
    cstr x \<noteq> [] \<and> numeral_start (hd (cstr x))"
  by (cases x) (auto simp: cstr_def numeral_start_def NUL_def)

lemma number_key_complaint:
  assumes "float_text E" "list_all field_name S" "vtype k = TNUMBER"
  shows "key_complaint E S k \<noteq> None"
proof -
  have "\<exists>x. val_str E (Some k) = Some x \<and>
      (x \<in> {''inf'', ''nan''} \<or> (x \<noteq> [] \<and> numeral_start (hd x)))"
  proof (cases k)
    case (LInt n)
    then show ?thesis using int_str_start [of n] by auto
  next
    case (LFlt f)
    then show ?thesis using assms(1) by (auto simp: float_text_def)
  qed (use assms(3) in auto)
  then obtain x where x: "val_str E (Some k) = Some x"
    and "x \<in> {''inf'', ''nan''} \<or> (x \<noteq> [] \<and> numeral_start (hd x))"
    by blast
  then have "\<not> field_name (cstr x)"
    using numeral_start_cstr [of x] by (auto simp: field_name_def cstr_def NUL_def)
  with assms(2) have "cstr x \<notin> set S" by (auto simp: list_all_iff)
  with x show ?thesis by (simp add: key_complaint_def)
qed

lemma checkismember_run:
  "stk s = xs @ [k, v] \<Longrightarrow>
   checkismember E i S s =
     (case key_complaint E S k of
        Some c \<Rightarrow> arg_error i c s
      | None \<Rightarrow> Ok () (s\<lparr>stk := xs @ [LStr (case val_str E (Some k) of None \<Rightarrow> [] | Some x \<Rightarrow> x), v]\<rparr>))"
  by (cases k) (simp_all add: checkismember_def run_simps key_complaint_def type_of_def Let_def)

lemma checkfieldnames_run:
  assumes fl: "float_text E" and S: "list_all field_name S"
    and tab: "0 < i" "at i (stk s) = Some (LTab a)" and wf: "wf_table (tabs s a)"
  shows "checkfieldnames E i S s =
     (case first_complaint E S (tabs s a) of None \<Rightarrow> Ok () s | Some c \<Rightarrow> arg_error i c s)"
proof -
  define f :: "unit \<Rightarrow> lvalue \<Rightarrow> lvalue \<Rightarrow> ('a, unit) lm"
    where "f = (\<lambda>_ k v s. case key_complaint E S k of None \<Rightarrow> Ok () s | Some c \<Rightarrow> arg_error i c s)"
  have val: "val_str E (Some k) = Some x \<Longrightarrow> key_complaint E S k = None \<Longrightarrow> k = LStr x" for k x
    using number_key_complaint [OF fl S, of k] by (cases k) auto
  have str: "key_complaint E S k = None \<Longrightarrow> \<exists>x. val_str E (Some k) = Some x" for k
    by (auto simp: key_complaint_def split: option.splits)
  have "entry_body (\<lambda>_. thn (checkismember E i S) (lua_pop 1)) f a (tabs s a) (stk s) (\<lambda>_. True)"
    unfolding entry_body_def
    by (auto simp: f_def run_simps checkismember_run split: option.splits dest: val str)
  then have "checkfieldnames E i S s = fold_entries f (tabs s a) () s"
    unfolding checkfieldnames_def by (rule table_loop_run) (use tab wf in auto)
  also have "fold_entries f t () s =
      (case first_complaint E S t of None \<Rightarrow> Ok () s | Some c \<Rightarrow> arg_error i c s)" for t
  proof (induction t)
    case Nil
    then show ?case by (simp add: run_simps)
  next
    case (Cons e t)
    then show ?case by (cases e) (auto simp: run_simps f_def split: option.splits)
  qed
  finally show ?thesis .
qed

lemma first_complaint_None:
  "first_complaint E S t = None \<longleftrightarrow> (\<forall>k \<in> fst ` set t. key_complaint E S k = None)"
  by (induction t) (auto split: option.splits)

subsection \<open>Results\<close>

definition error_values :: "env \<Rightarrow> string option \<Rightarrow> cint \<Rightarrow> lvalue list" where
  "error_values E info e = [LNil, LStr (cstr (errmsg E info e)), LInt (of_cint e)]"

definition result_values :: "env \<Rightarrow> string option \<Rightarrow> cint \<Rightarrow> cint \<Rightarrow> lvalue list" where
  "result_values E info i e = (if i = -1 then error_values E info e else [LInt (of_cint i)])"

lemma length_error_values [simp]: "length (error_values E info e) = 3"
  by (simp add: error_values_def)

lemma pusherror_run [run_simps]:
  "pusherror E info s = Ok 3 (s\<lparr>stk := stk s @ error_values E info (errno s)\<rparr>)"
  by (simp add: pusherror_def run_simps error_values_def)

lemma pushintegerresult_run [run_simps]:
  "pushintegerresult n s = Ok 1 (s\<lparr>stk := stk s @ [LInt n]\<rparr>)"
  by (simp add: pushintegerresult_def run_simps)

lemma pushstringresult_run [run_simps]:
  "pushstringresult x s =
     Ok 1 (s\<lparr>stk := stk s @ [case x of None \<Rightarrow> LNil | Some y \<Rightarrow> LStr (cstr y)]\<rparr>)"
  by (simp add: pushstringresult_def run_simps)

lemma pushresult_run [run_simps]:
  "pushresult E i info s =
     Ok (length (result_values E info i (errno s)))
        (s\<lparr>stk := stk s @ result_values E info i (errno s)\<rparr>)"
  by (simp add: pushresult_def run_simps result_values_def)

subsection \<open>Building a result table\<close>

lemma pushintegerfield_run:
  "stk s = xs @ [LTab a] \<Longrightarrow>
   pushintegerfield k v s = Ok () (tab_update a (LStr k) (LInt v) s)"
  by (simp add: pushintegerfield_def run_simps lua_setfield_run tab_update_def)

lemma pushstringfield_run:
  "stk s = xs @ [LTab a] \<Longrightarrow>
   pushstringfield k v s =
     Ok () (case v of None \<Rightarrow> s | Some x \<Rightarrow> tab_update a (LStr k) (LStr (cstr x)) s)"
  by (simp add: pushstringfield_def run_simps lua_setfield_run tab_update_def split: option.splits)

lemma pushlstringfield_run:
  "stk s = xs @ [LTab a] \<Longrightarrow>
   pushlstringfield k v l s =
     Ok () (if 0 < l then tab_update a (LStr k) (LStr (take l v)) s else s)"
  by (simp add: pushlstringfield_def run_simps lua_setfield_run tab_update_def)

definition int_entries :: "(string \<times> lint) list \<Rightarrow> ltable" where
  "int_entries kvs = map (\<lambda>(k, v). (LStr k, LInt v)) kvs"

lemma pushintegerfields_run:
  "stk s = xs @ [LTab a] \<Longrightarrow>
   pushintegerfields kvs s =
     Ok () (set_tab a (tbl.put_all (tabs s a) (int_entries kvs)) s)"
proof (induction kvs arbitrary: s)
  case Nil
  then show ?case by (simp add: pushintegerfields_def run_simps int_entries_def)
next
  case (Cons kv kvs)
  obtain k v where kv: "kv = (k, v)" by (cases kv)
  have "pushintegerfields (kv # kvs) s = pushintegerfields kvs (tab_update a (LStr k) (LInt v) s)"
    using Cons.prems kv by (simp add: pushintegerfields_def run_simps pushintegerfield_run)
  also have "\<dots> = Ok () (set_tab a (tbl.put_all (tabs s a) (int_entries (kv # kvs))) s)"
    using Cons kv by (simp add: tab_update_def int_entries_def)
  finally show ?case .
qed

lemma int_entries_fresh:
  "distinct (map fst kvs) \<Longrightarrow> tbl.put_all [] (int_entries kvs) = int_entries kvs"
proof -
  assume d: "distinct (map fst kvs)"
  have "map fst (int_entries kvs) = map LStr (map fst kvs)"
    by (auto simp: int_entries_def)
  then have "distinct (map fst (int_entries kvs))"
    using d by (simp add: distinct_map comp_def inj_on_def)
  then show ?thesis
    by (subst tbl_put_all_fresh) (auto simp: int_entries_def)
qed

definition tag_table :: "string \<Rightarrow> nat \<Rightarrow> 'w lst \<Rightarrow> 'w lst" where
  "tag_table t a s =
     s\<lparr>mtabs := (case mtabs s t of None \<Rightarrow> (mtabs s)(t \<mapsto> [(''_type'', LStr t)]) | Some _ \<Rightarrow> mtabs s),
       metas := (metas s)(a \<mapsto> t)\<rparr>"

lemma settypemetatable_run:
  "stk s = xs @ [LTab a] \<Longrightarrow> settypemetatable t s = Ok () (tag_table t a s)"
  by (simp add: settypemetatable_def run_simps lua_setmetatable_def tag_table_def split: option.splits)

lemma tag_table_simps [simp]:
  "stk (tag_table t a s) = stk s" "tabs (tag_table t a s) = tabs s"
  "errno (tag_table t a s) = errno s" "world (tag_table t a s) = world s"
  "live (tag_table t a s) = live s" "ntab (tag_table t a s) = ntab s"
  "metas (tag_table t a s) = (metas s)(a \<mapsto> t)"
  by (simp_all add: tag_table_def)

lemma new_table_simps [simp]:
  "stk (new_table s) = stk s @ [LTab (ntab s)]" "tabs (new_table s) = (tabs s)(ntab s := [])"
  "errno (new_table s) = errno s" "world (new_table s) = world s" "live (new_table s) = live s"
  "ntab (new_table s) = Suc (ntab s)" "metas (new_table s) = (metas s)(ntab s := None)"
  "mtabs (new_table s) = mtabs s"
  by (simp_all add: new_table_def)

end
