(* ===== verification/Contracts.thy ===== *)
theory Contracts
  imports Helpers
begin

text \<open>
  What the bindings promise, stated independently of how they are written.

  \<^item> The argument language: \<open>arg_int\<close>, \<open>arg_str\<close>, \<dots> say as pure functions which argument
    lists a binding accepts, what it reads from them, and the error for the others.
  \<^item> The interface \<open>sys_wrapper\<close>: a binding that checks its arguments, makes one system call
    and reports \<open>-1\<close> as \<open>nil, message, errno\<close>.  Its lemmas hold of every binding for which
    the component theories interpret it.
  \<^item> The calculus \<open>quiet\<close> / \<open>settled\<close> / \<open>clean\<close>: a call that is rejected with an argument
    error has not touched the operating system.
\<close>

section \<open>Arguments\<close>

definition sbind :: "err + 'a \<Rightarrow> ('a \<Rightarrow> err + 'b) \<Rightarrow> err + 'b" where
  "sbind m f = (case m of Inl e \<Rightarrow> Inl e | Inr x \<Rightarrow> f x)"

lemma sbind_simps [simp]: "sbind (Inl e) f = Inl e" "sbind (Inr x) f = f x"
  by (simp_all add: sbind_def)

definition arg_integer :: "env \<Rightarrow> int \<Rightarrow> lvalue list \<Rightarrow> err + lint" where
  "arg_integer E n args = (case val_int E (at n args) of
      None \<Rightarrow> Inl (ArgError n (got_msg ''integer'' (at n args))) | Some d \<Rightarrow> Inr d)"

definition arg_int :: "env \<Rightarrow> int \<Rightarrow> lvalue list \<Rightarrow> err + cint" where
  "arg_int E n args = sbind (arg_integer E n args) (\<lambda>d. Inr (to_cint d))"

definition arg_optinteger :: "env \<Rightarrow> int \<Rightarrow> lint \<Rightarrow> lvalue list \<Rightarrow> err + lint" where
  "arg_optinteger E n def args =
     (if type_of (at n args) \<le> TNIL then Inr def
      else case val_int E (at n args) of
        None \<Rightarrow> Inl (ArgError n (got_msg ''integer or nil'' (at n args))) | Some d \<Rightarrow> Inr d)"

definition arg_optint :: "env \<Rightarrow> int \<Rightarrow> cint \<Rightarrow> lvalue list \<Rightarrow> err + cint" where
  "arg_optint E n def args =
     (if type_of (at n args) \<le> TNIL then Inr def
      else case val_int E (at n args) of
        None \<Rightarrow> Inl (ArgError n (got_msg ''integer or nil'' (at n args))) | Some d \<Rightarrow> Inr (to_cint d))"

definition arg_lstr :: "env \<Rightarrow> 'w lst \<Rightarrow> int \<Rightarrow> lvalue list \<Rightarrow> err + string" where
  "arg_lstr E s n args = (case val_str E (at n args) of
      None \<Rightarrow> Inl (ArgError n (''string expected, got '' @ typearg s (at n args)))
    | Some x \<Rightarrow> Inr x)"

definition arg_str :: "env \<Rightarrow> 'w lst \<Rightarrow> int \<Rightarrow> lvalue list \<Rightarrow> err + string" where
  "arg_str E s n args = sbind (arg_lstr E s n args) (\<lambda>x. Inr (cstr x))"

definition arg_optstr :: "env \<Rightarrow> int \<Rightarrow> string option \<Rightarrow> lvalue list \<Rightarrow> err + string option" where
  "arg_optstr E n def args =
     (if type_of (at n args) \<le> TNIL then Inr def
      else case val_str E (at n args) of
        None \<Rightarrow> Inl (ArgError n (got_msg ''nil or string'' (at n args)))
      | Some x \<Rightarrow> Inr (Some (cstr x)))"

text \<open>An optional string with a default that is not \<open>NULL\<close>.\<close>

definition arg_defstr :: "env \<Rightarrow> int \<Rightarrow> string \<Rightarrow> lvalue list \<Rightarrow> err + string" where
  "arg_defstr E n def args =
     (if type_of (at n args) \<le> TNIL then Inr def
      else case val_str E (at n args) of
        None \<Rightarrow> Inl (ArgError n (got_msg ''nil or string'' (at n args)))
      | Some x \<Rightarrow> Inr (cstr x))"

definition at_most :: "nat \<Rightarrow> lvalue list \<Rightarrow> err + unit" where
  "at_most n args =
     (if length args \<le> n then Inr () else Inl (ArgError (int n + 1) (nargs_msg n (length args))))"

lemmas arg_defs = arg_integer_def arg_int_def arg_optinteger_def arg_optint_def arg_lstr_def
  arg_str_def arg_optstr_def arg_defstr_def at_most_def

text \<open>An accepted argument, seen from the value read.\<close>

lemma sbind_Inr: "sbind m f = Inr x \<longleftrightarrow> (\<exists>y. m = Inr y \<and> f y = Inr x)"
  by (cases m) auto

lemma arg_Inr:
  "arg_integer E n args = Inr d \<longleftrightarrow> val_int E (at n args) = Some d"
  "arg_int E n args = Inr i \<longleftrightarrow> (\<exists>d. val_int E (at n args) = Some d \<and> i = to_cint d)"
  "arg_lstr E s n args = Inr x \<longleftrightarrow> val_str E (at n args) = Some x"
  "arg_str E s n args = Inr x \<longleftrightarrow> (\<exists>y. val_str E (at n args) = Some y \<and> x = cstr y)"
  "at_most k args = Inr u \<longleftrightarrow> length args \<le> k"
  by (auto simp: arg_defs split: option.splits)

lemma arg_opt_Inr:
  "arg_optinteger E n def args = Inr d \<longleftrightarrow>
     (if type_of (at n args) \<le> TNIL then d = def else val_int E (at n args) = Some d)"
  "arg_optint E n c args = Inr i \<longleftrightarrow>
     (if type_of (at n args) \<le> TNIL then i = c
      else \<exists>d. val_int E (at n args) = Some d \<and> i = to_cint d)"
  "arg_optstr E n q args = Inr r \<longleftrightarrow>
     (if type_of (at n args) \<le> TNIL then r = q
      else \<exists>y. val_str E (at n args) = Some y \<and> r = Some (cstr y))"
  "arg_defstr E n z args = Inr x \<longleftrightarrow>
     (if type_of (at n args) \<le> TNIL then x = z
      else \<exists>y. val_str E (at n args) = Some y \<and> x = cstr y)"
  by (auto simp: arg_defs split: option.splits)

text \<open>A table argument; \<open>bad\<close> is the error for anything else.\<close>

definition arg_table :: "int \<Rightarrow> (lvalue option \<Rightarrow> err) \<Rightarrow> lvalue list \<Rightarrow> err + nat" where
  "arg_table n bad args = (case at n args of Some (LTab a) \<Rightarrow> Inr a | v \<Rightarrow> Inl (bad v))"

lemma arg_table_Inr: "arg_table n bad args = Inr a \<longleftrightarrow> at n args = Some (LTab a)"
proof (cases "at n args")
  case (Some v)
  then show ?thesis by (cases v) (auto simp: arg_table_def)
qed (simp add: arg_table_def)

lemmas accepted = arg_table_Inr sbind_Inr arg_Inr arg_opt_Inr

text \<open>The argument lists of the common shapes.\<close>

definition args_fd :: "env \<Rightarrow> 'w lst \<Rightarrow> lvalue list \<Rightarrow> err + cint" where
  "args_fd E s args =
     sbind (arg_int E 1 args) (\<lambda>fd. sbind (at_most 1 args) (\<lambda>_. Inr fd))"

definition args_fd2 :: "env \<Rightarrow> 'w lst \<Rightarrow> lvalue list \<Rightarrow> err + (cint \<times> cint)" where
  "args_fd2 E s args =
     sbind (arg_int E 1 args) (\<lambda>a. sbind (arg_int E 2 args) (\<lambda>b.
     sbind (at_most 2 args) (\<lambda>_. Inr (a, b))))"

definition args_fd3 :: "env \<Rightarrow> 'w lst \<Rightarrow> lvalue list \<Rightarrow> err + (cint \<times> cint \<times> cint)" where
  "args_fd3 E s args =
     sbind (arg_int E 1 args) (\<lambda>a. sbind (arg_int E 2 args) (\<lambda>b. sbind (arg_int E 3 args) (\<lambda>c.
     sbind (at_most 3 args) (\<lambda>_. Inr (a, b, c)))))"

definition args_path :: "env \<Rightarrow> 'w lst \<Rightarrow> lvalue list \<Rightarrow> err + string" where
  "args_path E s args =
     sbind (arg_str E s 1 args) (\<lambda>p. sbind (at_most 1 args) (\<lambda>_. Inr p))"

definition args_none :: "'w lst \<Rightarrow> lvalue list \<Rightarrow> err + unit" where
  "args_none s args = at_most 0 args"

lemmas args_defs = args_fd_def args_fd2_def args_fd3_def args_path_def args_none_def

section \<open>One system call\<close>

locale sys_wrapper =
  fixes P :: "('w, nat) lm"
    and accepts :: "'w lst \<Rightarrow> lvalue list \<Rightarrow> err + 'a"
    and f :: "'a \<Rightarrow> ('w, cint) sys"
    and E :: env
    and info :: "'a \<Rightarrow> string option"
  assumes runs: "call_c P args s =
     (case accepts s args of
        Inl e \<Rightarrow> Err e s
      | Inr a \<Rightarrow> (case f a (errno s) (world s) of
            (r, e, w) \<Rightarrow> Ok (result_values E (info a) r e) (s\<lparr>errno := e, world := w\<rparr>)))"
begin

lemma rejects: "accepts s args = Inl e \<Longrightarrow> call_c P args s = Err e s"
  by (simp add: runs)

lemma succeeds:
  "accepts s args = Inr a \<Longrightarrow> f a (errno s) (world s) = (r, e, w) \<Longrightarrow> r \<noteq> -1 \<Longrightarrow>
   call_c P args s = Ok [LInt (of_cint r)] (s\<lparr>errno := e, world := w\<rparr>)"
  by (simp add: runs result_values_def)

lemma fails:
  "accepts s args = Inr a \<Longrightarrow> f a (errno s) (world s) = (-1, e, w) \<Longrightarrow>
   call_c P args s =
     Ok [LNil, LStr (cstr (errmsg E (info a) e)), LInt (of_cint e)] (s\<lparr>errno := e, world := w\<rparr>)"
  by (simp add: runs result_values_def error_values_def)

lemma never_fails_otherwise:
  "call_c P args s = Ok vs s' \<Longrightarrow>
   (\<exists>n. vs = [LInt n] \<and> n \<noteq> -1) \<or> (\<exists>m n. vs = [LNil, LStr m, LInt n])"
  using of_cint_inj [of _ "-1"]
  by (auto simp: runs result_values_def error_values_def split: sum.splits prod.splits if_splits)

lemma frame_kept:
  "call_c P args s = Ok vs s' \<Longrightarrow> stk s' = stk s \<and> tabs s' = tabs s \<and> live s' = live s"
  by (auto simp: runs split: sum.splits prod.splits)

lemma rejection_is_silent:
  "call_c P args s = Err e s' \<Longrightarrow> s' = s"
  by (auto simp: runs split: sum.splits prod.splits)

lemma outcome:
  "case call_c P args s of
     Err e s' \<Rightarrow> s' = s
   | Ok vs s' \<Rightarrow> ((\<exists>n. vs = [LInt n] \<and> n \<noteq> -1) \<or> (\<exists>q. vs = error_values E q (errno s'))) \<and>
       s' = s\<lparr>errno := errno s', world := world s'\<rparr>"
proof (cases "accepts s args")
  case (Inr a)
  obtain r e w where f: "f a (errno s) (world s) = (r, e, w)" by (metis surj_pair)
  then show ?thesis using Inr of_cint_inj [of r "-1"]
    by (auto simp: runs result_values_def)
qed (simp add: runs)

end

text \<open>A binding that returns the value of a call that cannot fail.\<close>

locale sys_value =
  fixes P :: "('w, nat) lm"
    and accepts :: "'w lst \<Rightarrow> lvalue list \<Rightarrow> err + 'a"
    and f :: "'a \<Rightarrow> ('w, 'r) sys"
    and result :: "'r \<Rightarrow> lvalue"
  assumes runs: "call_c P args s =
     (case accepts s args of
        Inl e \<Rightarrow> Err e s
      | Inr a \<Rightarrow> (case f a (errno s) (world s) of
            (r, e, w) \<Rightarrow> Ok [result r] (s\<lparr>errno := e, world := w\<rparr>)))"
begin

lemma rejects: "accepts s args = Inl e \<Longrightarrow> call_c P args s = Err e s"
  by (simp add: runs)

lemma one_value: "call_c P args s = Ok vs s' \<Longrightarrow> length vs = 1"
  by (auto simp: runs split: sum.splits prod.splits)

lemma frame_kept:
  "call_c P args s = Ok vs s' \<Longrightarrow> stk s' = stk s \<and> tabs s' = tabs s \<and> live s' = live s"
  by (auto simp: runs split: sum.splits prod.splits)

lemma rejection_is_silent:
  "call_c P args s = Err e s' \<Longrightarrow> s' = s"
  by (auto simp: runs split: sum.splits prod.splits)

end

text \<open>How the interpretations are discharged: run the binding, then compare the branches.\<close>

lemmas wrapper_simps = call_c_def arg_defs args_defs run_simps sys_def put_at_same_type
  result_values_def error_values_def

section \<open>Rejected calls leave the system alone\<close>

definition same_os :: "'w lst \<Rightarrow> 'w lst \<Rightarrow> bool" where
  "same_os s s' \<longleftrightarrow> world s' = world s \<and> errno s' = errno s \<and> live s' = live s"

text \<open>
  \<open>quiet\<close>: touches neither the world nor \<open>errno\<close> nor the allocator, whatever happens.
  \<open>settled\<close>: raises no argument error any more.  \<open>clean\<close>: if it raises an argument error,
  the system is as it was.
\<close>

definition quiet :: "('w, 'a) lm \<Rightarrow> bool" where
  "quiet m \<longleftrightarrow> (\<forall>s x s'. m s = Ok x s' \<longrightarrow> same_os s s') \<and> (\<forall>s e s'. m s = Err e s' \<longrightarrow> same_os s s')"

definition settled :: "('w, 'a) lm \<Rightarrow> bool" where
  "settled m \<longleftrightarrow> (\<forall>s n msg s'. m s \<noteq> Err (ArgError n msg) s')"

definition clean :: "('w, 'a) lm \<Rightarrow> bool" where
  "clean m \<longleftrightarrow> (\<forall>s n msg s'. m s = Err (ArgError n msg) s' \<longrightarrow> same_os s s')"

lemma same_os_refl [simp]: "same_os s s"
  by (simp add: same_os_def)

lemma same_os_stk [simp]: "same_os s (s'\<lparr>stk := xs\<rparr>) = same_os s s'"
  by (simp add: same_os_def)

lemma same_os_trans: "same_os s t \<Longrightarrow> same_os t u \<Longrightarrow> same_os s u"
  by (simp add: same_os_def)

lemma quiet_Ok: "quiet m \<Longrightarrow> m s = Ok x s' \<Longrightarrow> same_os s s'"
  by (simp add: quiet_def)

lemma quiet_Err: "quiet m \<Longrightarrow> m s = Err e s' \<Longrightarrow> same_os s s'"
  by (auto simp: quiet_def)

lemma quiet_bnd: "quiet m \<Longrightarrow> (\<And>x. quiet (f x)) \<Longrightarrow> quiet (bnd m f)"
  unfolding quiet_def [of "bnd m f"] bnd_def
  by (auto split: out.splits intro: same_os_trans dest: quiet_Ok quiet_Err)

lemma quiet_thn: "quiet m \<Longrightarrow> quiet m' \<Longrightarrow> quiet (thn m m')"
  unfolding quiet_def [of "thn m m'"] thn_def
  by (auto split: out.splits intro: same_os_trans dest: quiet_Ok quiet_Err)

lemma settled_bnd: "settled m \<Longrightarrow> (\<And>x. settled (f x)) \<Longrightarrow> settled (bnd m f)"
  unfolding settled_def bnd_def by (auto split: out.splits)

lemma settled_thn: "settled m \<Longrightarrow> settled m' \<Longrightarrow> settled (thn m m')"
  unfolding settled_def thn_def by (auto split: out.splits)

lemma clean_quiet: "quiet m \<Longrightarrow> clean m"
  by (auto simp: clean_def dest: quiet_Err)

lemma clean_settled: "settled m \<Longrightarrow> clean m"
  by (simp add: settled_def clean_def)

lemma clean_bnd: "quiet m \<Longrightarrow> (\<And>x. clean (f x)) \<Longrightarrow> clean (bnd m f)"
  unfolding clean_def bnd_def
  by (auto split: out.splits intro: same_os_trans dest: quiet_Ok quiet_Err)

lemma clean_thn: "quiet m \<Longrightarrow> clean m' \<Longrightarrow> clean (thn m m')"
  unfolding clean_def thn_def
  by (auto split: out.splits intro: same_os_trans dest: quiet_Ok quiet_Err)

lemma clean_bnd_settled: "clean m \<Longrightarrow> (\<And>x. settled (f x)) \<Longrightarrow> clean (bnd m f)"
  unfolding settled_def clean_def bnd_def by (auto split: out.splits)

lemma clean_thn_settled: "clean m \<Longrightarrow> settled m' \<Longrightarrow> clean (thn m m')"
  unfolding settled_def clean_def thn_def by (auto split: out.splits)

lemma clean_call_c:
  assumes "clean P" "call_c P args s = Err (ArgError n msg) s'"
  shows "same_os s s'"
proof -
  from assms(2) obtain s'' where P: "P (s\<lparr>stk := args\<rparr>) = Err (ArgError n msg) s''"
    and s': "s' = s''\<lparr>stk := stk s\<rparr>"
    by (auto simp: call_c_def split: out.splits)
  from assms(1) P have "same_os (s\<lparr>stk := args\<rparr>) s''" by (simp add: clean_def)
  with s' show ?thesis by (simp add: same_os_def)
qed

subsection \<open>The primitives and the helpers\<close>

text \<open>\<open>quiet_rules\<close>, \<open>settled_rules\<close>: tried in order, they decide every helper call.\<close>

lemma quiet_prims:
  "quiet (ret x)" "quiet (raise e)" "quiet (asks f)" "quiet (lua_push v)" "quiet (lua_pop n)"
  "quiet lua_gettop" "quiet (lua_type i)" "quiet (lua_isnoneornil i)" "quiet (lua_isnil i)"
  "quiet (lua_istable i)" "quiet (lua_isinteger i)" "quiet (lua_isstring i)"
  "quiet (lua_toboolean i)" "quiet (lua_tointegerx E i)" "quiet (lua_tointeger E i)"
  "quiet (lua_objlen E i)" "quiet (lua_pushstring y)" "quiet (lua_pushcharp q)"
  "quiet (luaL_argerror i msg)" "quiet (luaL_argcheck c i msg)" "quiet lua_newtable"
  "quiet (mt_setfield t k v)" "quiet (set_static y d)"
  by (auto simp: quiet_def same_os_def run_simps split: if_splits)

lemma quiet_prims2:
  "quiet (lua_tolstring E i)" "quiet (luaL_checktype i ty)" "quiet (tag_error i ty)"
  "quiet (lua_pushvalue i)" "quiet (luaL_newmetatable t)" "quiet (lua_setmetatable t)"
  "quiet (lua_newuserdata c)"
  by (auto simp: quiet_def same_os_def run_simps lua_setmetatable_def
      split: option.splits lvalue.splits if_splits)

lemma quiet_index_value: "quiet (index_value E v k)"
  by (auto simp: quiet_def same_os_def run_simps index_value_def index_error_def
      split: option.splits lvalue.splits)

lemma quiet_pointwise: "(\<And>s. m s = f s s) \<Longrightarrow> (\<And>t. quiet (f t)) \<Longrightarrow> quiet m"
  by (simp add: quiet_def)

lemma quiet_lua_getfield: "quiet (lua_getfield E i k)"
  by (rule quiet_pointwise [OF lua_getfield_def quiet_bnd [OF quiet_index_value quiet_prims(4)]])

lemma quiet_lua_gettable: "quiet (lua_gettable E i)"
  by (rule quiet_pointwise [OF lua_gettable_def
        quiet_bnd [OF quiet_index_value quiet_thn [OF quiet_prims(5) quiet_prims(4)]]])

lemma quiet_tables:
  "quiet (lua_setfield i k)" "quiet (lua_settable i)" "quiet (lua_rawseti i n)" "quiet (lua_next i)"
  by (auto simp: quiet_def same_os_def run_simps lua_setfield_def lua_settable_def lua_rawseti_def
      lua_next_def index_error_def Let_def split: option.splits lvalue.splits if_splits)

lemma quiet_if: "(c \<Longrightarrow> quiet m) \<Longrightarrow> (\<not> c \<Longrightarrow> quiet m') \<Longrightarrow> quiet (if c then m else m')"
  by simp

lemma quiet_option:
  "(x = None \<Longrightarrow> quiet m) \<Longrightarrow> (\<And>y. x = Some y \<Longrightarrow> quiet (f y)) \<Longrightarrow>
   quiet (case x of None \<Rightarrow> m | Some y \<Rightarrow> f y)"
  by (cases x) auto

lemma quiet_let: "quiet (f x) \<Longrightarrow> quiet (let y = x in f y)"
  by simp

lemma quiet_when: "(c \<Longrightarrow> quiet m) \<Longrightarrow> quiet (when_do c m)"
  by (simp add: when_do_def quiet_prims)

lemma quiet_for_each: "(\<And>x. quiet (f x)) \<Longrightarrow> quiet (for_each xs f)"
  by (induction xs) (auto intro: quiet_thn quiet_prims)

lemma quiet_seq: "quiet (seq [])" "quiet m \<Longrightarrow> quiet (seq ms) \<Longrightarrow> quiet (seq (m # ms))"
  by (auto intro: quiet_thn quiet_prims)

lemma quiet_seqn: "quiet (seqn [] n)" "quiet m \<Longrightarrow> quiet (seqn ms n) \<Longrightarrow> quiet (seqn (m # ms) n)"
  by (auto intro: quiet_thn quiet_prims)

lemmas quiet_base = quiet_seqn quiet_seq quiet_prims quiet_prims2 quiet_lua_getfield quiet_lua_gettable quiet_tables
  quiet_bnd quiet_thn quiet_if quiet_option quiet_let quiet_when quiet_for_each

lemma quiet_next_loop: "(\<And>x. quiet (body x)) \<Longrightarrow> quiet (next_loop n i body x)"
  by (induction n arbitrary: x) (auto intro!: quiet_base)

lemma quiet_table_loop: "(\<And>x. quiet (body x)) \<Longrightarrow> quiet (table_loop i body x)"
  unfolding table_loop_def by (intro quiet_base quiet_next_loop)

lemma quiet_args:
  "quiet (argtypeerror n ex)" "quiet (checktype n ty ex)" "quiet (expectinteger E n ex)"
  "quiet (checkinteger E n)" "quiet (checkint E n)" "quiet (checklong E n)"
  "quiet (optboolean n b)" "quiet (expectoptinteger E n d ex)" "quiet (optinteger E n d)"
  "quiet (optint E n c)" "quiet (optlong E n d)" "quiet (optstring E n q)" "quiet (checknargs k)"
  "quiet (luaL_checklstring E n)" "quiet (luaL_checkstring E n)"
  unfolding argtypeerror_def checktype_def expectinteger_def checkinteger_def checkint_def
    checklong_def optboolean_def expectoptinteger_def optinteger_def optint_def optlong_def
    optstring_def checknargs_def luaL_checklstring_def luaL_checkstring_def
  by (intro quiet_base)+

lemma quiet_prod: "(\<And>a b. quiet (f a b)) \<Longrightarrow> quiet (case x of (a, b) \<Rightarrow> f a b)"
  by (cases x) simp

lemma quiet_checkfieldtype: "quiet (checkfieldtype E i k ty ex)"
  unfolding checkfieldtype_def by (intro quiet_base)

lemma quiet_checkintegerfield: "quiet (checkintegerfield E i k)"
  unfolding checkintegerfield_def by (intro quiet_base quiet_checkfieldtype)

lemma quiet_checklstringfield: "quiet (checklstringfield E i k)"
  unfolding checklstringfield_def by (intro quiet_base quiet_checkfieldtype)

lemma quiet_checkstringfield: "quiet (checkstringfield E i k)"
  unfolding checkstringfield_def by (intro quiet_base quiet_checklstringfield)

lemma quiet_optintegerfield: "quiet (optintegerfield E i k d)"
  unfolding optintegerfield_def by (intro quiet_base quiet_checkintegerfield)

lemma quiet_fields:
  "quiet (checkintfield E i k)" "quiet (optintfield E i k c)" "quiet (optlongfield E i k d)"
  "quiet (optstringfield E i k q)"
  unfolding checkintfield_def optintfield_def optlongfield_def optstringfield_def
  by (intro quiet_base quiet_checkintegerfield quiet_optintegerfield quiet_checkstringfield)+

lemma quiet_checkfieldnames: "quiet (checkfieldnames E i S)"
  unfolding checkfieldnames_def checkismember_def by (intro quiet_base quiet_table_loop)

lemma quiet_results:
  "quiet (pusherror E info)" "quiet (pushboolresult b)" "quiet (pushintegerresult n)"
  "quiet (pushstringresult q)" "quiet (pushresult E c info)" "quiet (badoption i what ch)"
  "quiet (binding_notimplemented fn lib)" "quiet (pushintegerfield k v)"
  "quiet (pushstringfield k q)" "quiet (pushlstringfield k y l)" "quiet (settypemetatable t)"
  unfolding pusherror_def pushboolresult_def pushintegerresult_def pushstringresult_def
    pushresult_def badoption_def binding_notimplemented_def pushintegerfield_def
    pushstringfield_def pushlstringfield_def settypemetatable_def
  by (intro quiet_base)+

lemmas quiet_rules = quiet_prod quiet_base quiet_args quiet_checkfieldtype quiet_checkintegerfield
  quiet_checklstringfield quiet_checkstringfield quiet_optintegerfield quiet_fields
  quiet_checkfieldnames quiet_results quiet_table_loop

lemma settled_prims:
  "settled (ret x)" "settled (asks f)" "settled (lua_push v)" "settled (lua_pop n)"
  "settled lua_gettop" "settled (lua_type i)" "settled (lua_isnoneornil i)" "settled (lua_isnil i)"
  "settled (lua_istable i)" "settled (lua_isinteger i)" "settled (lua_isstring i)"
  "settled (lua_toboolean i)" "settled (lua_tointegerx E i)" "settled (lua_tointeger E i)"
  "settled (lua_objlen E i)" "settled (lua_pushstring y)" "settled (lua_pushcharp q)"
  "settled lua_newtable" "settled (mt_setfield t k v)" "settled (set_errno e)" "settled (set_static y d)"
  "settled (raise (Undefined u))" "settled (raise (LuaError v))" "settled (raise (Exits c))"
  "settled (raise Replaced)" "settled (raise Aborted)"
  by (auto simp: settled_def run_simps split: if_splits)

lemma settled_prims2:
  "settled (sys g)" "settled (lua_tolstring E i)" "settled (luaL_newmetatable t)"
  "settled (lua_setmetatable t)" "settled (lua_newuserdata c)" "settled (lua_alloc E n)"
  "settled (lua_free p n)" "settled (index_value E v k)" "settled (lua_pushvalue i)"
  by (auto simp: settled_def run_simps lua_setmetatable_def sys_def lua_alloc_def lua_free_def
      index_value_def index_error_def
      split: option.splits lvalue.splits if_splits prod.splits)

lemma settled_tables:
  "settled (lua_setfield i k)" "settled (lua_settable i)" "settled (lua_rawseti i n)"
  "settled (lua_next i)"
  by (auto simp: settled_def run_simps lua_setfield_def lua_settable_def lua_rawseti_def
      lua_next_def index_error_def Let_def split: option.splits lvalue.splits if_splits)

lemma settled_pointwise: "(\<And>s. m s = f s s) \<Longrightarrow> (\<And>t. settled (f t)) \<Longrightarrow> settled m"
  by (simp add: settled_def)

lemma settled_lua_getfield: "settled (lua_getfield E i k)"
  by (rule settled_pointwise [OF lua_getfield_def settled_bnd [OF settled_prims2(8) settled_prims(3)]])

lemma settled_lua_gettable: "settled (lua_gettable E i)"
  by (rule settled_pointwise [OF lua_gettable_def
        settled_bnd [OF settled_prims2(8) settled_thn [OF settled_prims(4) settled_prims(3)]]])

lemma settled_if: "(c \<Longrightarrow> settled m) \<Longrightarrow> (\<not> c \<Longrightarrow> settled m') \<Longrightarrow> settled (if c then m else m')"
  by simp

lemma settled_option:
  "(x = None \<Longrightarrow> settled m) \<Longrightarrow> (\<And>y. x = Some y \<Longrightarrow> settled (f y)) \<Longrightarrow>
   settled (case x of None \<Rightarrow> m | Some y \<Rightarrow> f y)"
  by (cases x) auto

lemma settled_prod: "(\<And>a b. settled (f a b)) \<Longrightarrow> settled (case x of (a, b) \<Rightarrow> f a b)"
  by (cases x) simp

lemma settled_let: "settled (f x) \<Longrightarrow> settled (let y = x in f y)"
  by simp

lemma settled_when: "(c \<Longrightarrow> settled m) \<Longrightarrow> settled (when_do c m)"
  by (simp add: when_do_def settled_prims)

lemma settled_for_each: "(\<And>x. settled (f x)) \<Longrightarrow> settled (for_each xs f)"
  by (induction xs) (auto intro: settled_thn settled_prims)

lemma settled_seq: "settled (seq [])" "settled m \<Longrightarrow> settled (seq ms) \<Longrightarrow> settled (seq (m # ms))"
  by (auto intro: settled_thn settled_prims)

lemma settled_seqn: "settled (seqn [] n)" "settled m \<Longrightarrow> settled (seqn ms n) \<Longrightarrow> settled (seqn (m # ms) n)"
  by (auto intro: settled_thn settled_prims)

lemmas settled_base = settled_seqn settled_seq settled_prims settled_prims2 settled_tables settled_lua_getfield
  settled_lua_gettable settled_bnd settled_thn settled_if settled_option settled_prod settled_let settled_when
  settled_for_each

lemma settled_results:
  "settled (pusherror E info)" "settled (pushboolresult b)" "settled (pushintegerresult n)"
  "settled (pushstringresult q)" "settled (pushresult E c info)"
  "settled (binding_notimplemented fn lib)" "settled (pushintegerfield k v)"
  "settled (pushstringfield k q)" "settled (pushlstringfield k y l)" "settled (settypemetatable t)"
  unfolding pusherror_def pushboolresult_def pushintegerresult_def pushstringresult_def
    pushresult_def binding_notimplemented_def pushintegerfield_def
    pushstringfield_def pushlstringfield_def settypemetatable_def
  by (intro settled_base)+

lemma settled_pushintegerfields: "settled (pushintegerfields kvs)"
  unfolding pushintegerfields_def
  by (rule settled_for_each) (auto simp: settled_results split: prod.splits)

lemma settled_set_fields_at: "settled (set_fields_at i kvs)"
  unfolding set_fields_at_def
  by (rule settled_for_each) (auto intro!: settled_base split: prod.splits)

lemmas settled_rules = settled_base settled_results settled_pushintegerfields settled_set_fields_at

lemma clean_after:
  "(\<And>x. settled (f x)) \<Longrightarrow> clean (bnd (sys g) f)"
  "settled m' \<Longrightarrow> clean (thn (sys h) m')"
  "settled m' \<Longrightarrow> clean (thn (set_errno e) m')"
  "(\<And>x. settled (f' x)) \<Longrightarrow> clean (bnd (lua_alloc E n) f')"
  by (auto intro!: clean_settled settled_bnd settled_thn settled_prims settled_prims2)

lemma clean_if: "(c \<Longrightarrow> clean m) \<Longrightarrow> (\<not> c \<Longrightarrow> clean m') \<Longrightarrow> clean (if c then m else m')"
  by simp

lemma clean_option:
  "(x = None \<Longrightarrow> clean m) \<Longrightarrow> (\<And>y. x = Some y \<Longrightarrow> clean (f y)) \<Longrightarrow>
   clean (case x of None \<Rightarrow> m | Some y \<Rightarrow> f y)"
  by (cases x) auto

lemma clean_let: "clean (f x) \<Longrightarrow> clean (let y = x in f y)"
  by simp

lemmas clean_results = settled_results [THEN clean_settled] settled_prims [THEN clean_settled]
  quiet_results [THEN clean_quiet] quiet_args [THEN clean_quiet]

text \<open>Applied repeatedly, the first rule that fits decides a whole binding.\<close>

lemma clean_seqs: "settled (seqn ms n) \<Longrightarrow> clean (seqn ms n)" "settled (seq ms) \<Longrightarrow> clean (seq ms)"
  by (rule clean_settled, assumption)+

lemmas clean_rules = clean_seqs clean_after clean_results clean_bnd clean_thn clean_if clean_option clean_let
  quiet_rules settled_rules

section \<open>Blocks are given back\<close>

text \<open>
  \<open>balanced\<close>: when the function returns, the blocks it holds from the allocator are those it
  held before (nothing leaks, nothing is freed twice).
\<close>

definition balanced :: "('w, 'a) lm \<Rightarrow> bool" where
  "balanced m \<longleftrightarrow> (\<forall>s x s'. m s = Ok x s' \<longrightarrow> live s' = live s)"

lemma balancedD: "balanced m \<Longrightarrow> m s = Ok x s' \<Longrightarrow> live s' = live s"
  by (auto simp: balanced_def)

lemma balanced_quiet: "quiet m \<Longrightarrow> balanced m"
  by (auto simp: balanced_def same_os_def dest: quiet_Ok)

lemma balanced_bnd: "balanced m \<Longrightarrow> (\<And>x. balanced (f x)) \<Longrightarrow> balanced (bnd m f)"
  unfolding balanced_def bnd_def by (fastforce split: out.splits)

lemma balanced_thn: "balanced m \<Longrightarrow> balanced m' \<Longrightarrow> balanced (thn m m')"
  unfolding balanced_def thn_def by (fastforce split: out.splits)

lemma balanced_if: "(c \<Longrightarrow> balanced m) \<Longrightarrow> (\<not> c \<Longrightarrow> balanced m') \<Longrightarrow> balanced (if c then m else m')"
  by simp

lemma balanced_let: "balanced (f x) \<Longrightarrow> balanced (let y = x in f y)"
  by simp

lemma balanced_option:
  "(x = None \<Longrightarrow> balanced m) \<Longrightarrow> (\<And>y. x = Some y \<Longrightarrow> balanced (f y)) \<Longrightarrow>
   balanced (case x of None \<Rightarrow> m | Some y \<Rightarrow> f y)"
  by (cases x) auto

lemma balanced_sys: "balanced (sys g)" "balanced (set_errno e)"
  by (auto simp: balanced_def sys_def set_errno_def split: prod.splits)

lemma balanced_prod: "(\<And>a b. balanced (f a b)) \<Longrightarrow> balanced (case x of (a, b) \<Rightarrow> f a b)"
  by (cases x) simp

text \<open>A block that is obtained, used by \<open>m\<close>, and freed with the size it was obtained with.\<close>

lemma balanced_block:
  assumes e: "balanced e" and m: "\<And>p. balanced (m p)" and k: "\<And>p x. balanced (k p x)"
  shows "balanced (bnd (lua_alloc E n) (\<lambda>b. case b of None \<Rightarrow> e
    | Some p \<Rightarrow> bnd (m p) (\<lambda>x. thn (lua_free b n) (k p x))))"
proof -
  have "live s' = live s" if run: "bnd (lua_alloc E n) (\<lambda>b. case b of None \<Rightarrow> e
    | Some p \<Rightarrow> bnd (m p) (\<lambda>x. thn (lua_free b n) (k p x))) s = Ok y s'" for s y s'
  proof (cases "n \<noteq> 0 \<and> alloc_ok E (nptr s) n")
    case False
    then show ?thesis using run e
      by (auto simp: run_simps lua_alloc_def split: if_splits dest: balancedD)
  next
    case True
    define s1 where "s1 = s\<lparr>live := (nptr s, n) # live s, nptr := Suc (nptr s)\<rparr>"
    obtain x s2 where m2: "m (nptr s) s1 = Ok x s2"
      and rest: "thn (lua_free (Some (nptr s)) n) (k (nptr s) x) s2 = Ok y s'"
      using run True by (auto simp: run_simps lua_alloc_def s1_def split: out.splits)
    have "live s2 = (nptr s, n) # live s"
      using balancedD [OF m m2] by (simp add: s1_def)
    with rest show ?thesis
      by (auto simp: run_simps lua_free_def dest: balancedD [OF k])
  qed
  then show ?thesis by (auto simp: balanced_def)
qed

text \<open>The same when an empty block (the null pointer) is used as well.\<close>

lemma balanced_block_any:
  assumes e: "balanced e" and m: "\<And>b. balanced (m b)" and k: "\<And>b x. balanced (k b x)"
  shows "balanced (bnd (lua_alloc E n) (\<lambda>b. if b = None \<and> n \<noteq> 0 then e
    else bnd (m b) (\<lambda>x. thn (lua_free b n) (k b x))))"
proof (cases "n = 0")
  case True
  then have alloc: "lua_alloc E n s = Ok None s" for s :: "'a lst" by (simp add: lua_alloc_def)
  have "balanced (bnd (m None) (\<lambda>x. thn (lua_free None n) (k None x)))"
    by (intro balanced_bnd balanced_thn m k) (simp add: balanced_def lua_free_def)
  then show ?thesis using True alloc by (simp add: balanced_def bnd_def)
next
  case False
  have "bnd (lua_alloc E n) (\<lambda>b. if b = None \<and> n \<noteq> 0 then e
      else bnd (m b) (\<lambda>x. thn (lua_free b n) (k b x))) =
    bnd (lua_alloc E n) (\<lambda>b. case b of None \<Rightarrow> e
      | Some p \<Rightarrow> bnd (m (Some p)) (\<lambda>x. thn (lua_free b n) (k (Some p) x)))"
    using False by (intro arg_cong [where f = "bnd (lua_alloc E n)"]) (auto simp: fun_eq_iff split: option.splits)
  then show ?thesis by (simp only:) (rule balanced_block [OF e m k])
qed

lemma thn_eq_bnd: "thn m r = bnd m (\<lambda>_. r)"
  by (simp add: fun_eq_iff bnd_def thn_def)

text \<open>The same block when the use cannot raise and only touches the world and the stack.\<close>

lemma balanced_block_thn:
  "balanced e \<Longrightarrow> (\<And>p. balanced (m p)) \<Longrightarrow> (\<And>p. balanced (k p)) \<Longrightarrow>
   balanced (bnd (lua_alloc E n) (\<lambda>b. case b of None \<Rightarrow> e
    | Some p \<Rightarrow> thn (m p) (thn (lua_free b n) (k p))))"
  using balanced_block [of e m "\<lambda>p _. k p" E n] by (simp only: thn_eq_bnd)

lemmas balanced_rules = balanced_quiet [OF quiet_results(1)] balanced_block_thn balanced_block
  balanced_bnd balanced_thn balanced_if balanced_let balanced_option balanced_prod balanced_sys

section \<open>A concrete interpreter\<close>

text \<open>An interpreter in its initial state, on which the theorems are evaluated.\<close>

definition sample_env :: env where
  "sample_env = \<lparr>strerror = (\<lambda>e. ''error''), str2int = (\<lambda>_. None), flt2int = (\<lambda>_. None),
     flt2str = (\<lambda>_. ''0.5''), tlen = length, strlib = (\<lambda>_. LNil), alloc_ok = (\<lambda>_ _. True),
     alloc_errno = (\<lambda>_. 12)\<rparr>"

definition sample_state :: "'w \<Rightarrow> 'w lst" where
  "sample_state w = \<lparr>stk = [], tabs = (\<lambda>_. []), metas = (\<lambda>_. None), ntab = 0,
     udat = (\<lambda>_. URaw), umeta = (\<lambda>_. None), nud = 0, mtabs = (\<lambda>_. None), regs = [],
     live = [], nptr = 0, statics = (\<lambda>_. 0), errno = 0, world = w\<rparr>"

lemma sample_simps [simp]:
  "strerror sample_env e = ''error''" "str2int sample_env x = None" "flt2int sample_env f = None"
  "flt2str sample_env f = ''0.5''" "tlen sample_env t = length t" "strlib sample_env k = LNil"
  "alloc_ok sample_env n m" "alloc_errno sample_env e = 12"
  "stk (sample_state w) = []" "tabs (sample_state w) = (\<lambda>_. [])" "ntab (sample_state w) = 0"
  "live (sample_state w) = []" "nptr (sample_state w) = 0" "errno (sample_state w) = 0"
  "world (sample_state w) = w" "mtabs (sample_state w) = (\<lambda>_. None)"
  "metas (sample_state w) = (\<lambda>_. None)" "umeta (sample_state w) = (\<lambda>_. None)"
  "statics (sample_state w) = (\<lambda>_. 0)"
  "regs (sample_state w) = []" "nud (sample_state w) = 0"
  by (simp_all add: sample_env_def sample_state_def)

lemma sample_float_text: "float_text sample_env"
  by (simp add: float_text_def numeral_start_def)

section \<open>Field names\<close>

text \<open>
  A table argument passes the field-name check exactly when each of its keys is a
  string the C code reads as one of the accepted names; otherwise the call is rejected with the
  complaint about the first other key in traversal order: a key that is no string or number is
  reported by its type, any other by its text.  Nothing else changes.
\<close>

lemma unknown_field_reported:
  assumes fl: "float_text E" and S: "list_all field_name S"
    and tab: "0 < i" "at i (stk s) = Some (LTab a)" and wf: "wf_table (tabs s a)"
  shows "checkfieldnames E i S s =
    (case List.find (\<lambda>k. \<nexists>x. k = LStr x \<and> cstr x \<in> set S) (map fst (tabs s a)) of
       None \<Rightarrow> Ok () s
     | Some k \<Rightarrow> Err (ArgError i (case val_str E (Some k) of
           Some x \<Rightarrow> ''invalid field name '' @ [CHR 0x27] @ cstr x @ [CHR 0x27]
         | None \<Rightarrow> ''invalid '' @ lua_typename (vtype k) @ '' field name'')) (s\<lparr>stk := []\<rparr>))"
proof -
  have complaint: "key_complaint E S k = (if \<exists>x. k = LStr x \<and> cstr x \<in> set S then None
      else Some (case val_str E (Some k) of
           Some x \<Rightarrow> ''invalid field name '' @ [CHR 0x27] @ cstr x @ [CHR 0x27]
         | None \<Rightarrow> ''invalid '' @ lua_typename (vtype k) @ '' field name''))" for k
    using number_key_complaint [OF fl S, of k] by (cases k) (auto simp: key_complaint_def)
  have first: "first_complaint E S t =
    (case List.find (\<lambda>k. \<nexists>x. k = LStr x \<and> cstr x \<in> set S) (map fst t) of
       None \<Rightarrow> None | Some k \<Rightarrow> key_complaint E S k)" for t
    by (induction t) (auto simp: complaint split: option.splits)
  show ?thesis
  proof (cases "List.find (\<lambda>k. \<nexists>x. k = LStr x \<and> cstr x \<in> set S) (map fst (tabs s a))")
    case None
    then show ?thesis 
      by (simp add: checkfieldnames_run [OF fl S tab wf] first)
  next
    case (Some k)
    then have "\<nexists>x. k = LStr x \<and> cstr x \<in> set S" by (auto simp: find_Some_iff)
    with Some show ?thesis 
      by (simp add: checkfieldnames_run [OF fl S tab wf] first complaint)
  qed
qed

end
