(* ===== verification/Records.thy ===== *)
theory Records
  imports Contracts
begin

text \<open>
  Structures returned as tables: a binding creates a table, writes one field per member of the
  C structure and tags the table with a type metatable.  \<open>writes\<close> describes the field-writing
  part; the interface \<open>record_push\<close> is what every \<open>push\<dots>\<close> function of the bindings
  promises.
\<close>

section \<open>Writing fields\<close>

definition writes :: "('w, unit) lm \<Rightarrow> (string \<times> lvalue) list \<Rightarrow> bool" where
  "writes m kvs \<longleftrightarrow> (\<forall>s xs a. stk s = xs @ [LTab a] \<longrightarrow>
     m s = Ok () (set_tab a (tbl.put_all (tabs s a) (named kvs)) s))"

lemma named_simps [simp]:
  "named [] = []" "named ((k, v) # kvs) = (LStr k, v) # named kvs"
  "named (xs @ ys) = named xs @ named ys"
  by (simp_all add: named_def)

lemma named_keys: "map fst (named kvs) = map LStr (map fst kvs)"
  by (auto simp: named_def)

lemma named_values: "snd ` set (named kvs) = snd ` set kvs"
  by (force simp: named_def)

lemma distinct_named: "distinct (map fst (named kvs)) = distinct (map fst kvs)"
  unfolding named_keys by (simp add: distinct_map inj_on_def)

lemma named_fresh:
  "distinct (map fst kvs) \<Longrightarrow> LNil \<notin> snd ` set kvs \<Longrightarrow> tbl.put_all [] (named kvs) = named kvs"
  by (simp add: tbl_put_all_fresh distinct_named named_values)

lemma tbl_get_named:
  "tbl_get (named kvs) (LStr k) = (case map_of kvs k of None \<Rightarrow> LNil | Some v \<Rightarrow> v)"
  by (induction kvs) (auto simp: tbl_get_def named_def)

lemma tbl_get_named_other: "\<forall>k. x \<noteq> LStr k \<Longrightarrow> tbl_get (named kvs) x = LNil"
  by (induction kvs) (auto simp: named_def)

text \<open>An absent string (\<open>NULL\<close>) writes no field.\<close>

definition str_field :: "string \<Rightarrow> string option \<Rightarrow> (string \<times> lvalue) list" where
  "str_field k v = (case v of None \<Rightarrow> [] | Some x \<Rightarrow> [(k, LStr (cstr x))])"

lemma str_field_simps [simp]:
  "str_field k None = []" "str_field k (Some x) = [(k, LStr (cstr x))]"
  by (simp_all add: str_field_def)

text \<open>
  The macros \<open>setintegerfield\<close>, \<open>setstringfield\<close> and \<open>setlstringfield\<close>, as a list of fields to write.
\<close>

datatype rfield =
    IntF string lint
  | StrF string "string option"
  | LStrF string string nat

fun put_rfield :: "rfield \<Rightarrow> ('w, unit) lm" where
  "put_rfield (IntF k n) = pushintegerfield k n"
| "put_rfield (StrF k v) = pushstringfield k v"
| "put_rfield (LStrF k v l) = pushlstringfield k v l"

fun rfield_entry :: "rfield \<Rightarrow> (string \<times> lvalue) list" where
  "rfield_entry (IntF k n) = [(k, LInt n)]"
| "rfield_entry (StrF k v) = str_field k v"
| "rfield_entry (LStrF k v l) = (if 0 < l then [(k, LStr (take l v))] else [])"

definition rfields :: "rfield list \<Rightarrow> (string \<times> lvalue) list" where
  "rfields fs = concat (map rfield_entry fs)"

fun rfield_name :: "rfield \<Rightarrow> string" where
  "rfield_name (IntF k n) = k"
| "rfield_name (StrF k v) = k"
| "rfield_name (LStrF k v l) = k"

lemma rfields_simps [simp]:
  "rfields [] = []" "rfields (f # fs) = rfield_entry f @ rfields fs"
  by (simp_all add: rfields_def)

lemma writes_run:
  "writes m kvs \<Longrightarrow> stk s = xs @ [LTab a] \<Longrightarrow>
   m s = Ok () (set_tab a (tbl.put_all (tabs s a) (named kvs)) s)"
  by (auto simp: writes_def)

lemma writes_rfield: "writes (put_rfield f) (rfield_entry f)"
  by (cases f)
    (auto simp: writes_def pushintegerfield_run pushstringfield_run pushlstringfield_run
      tab_update_def str_field_def split: option.splits)

lemma writes_rfields: "writes (for_each fs put_rfield) (rfields fs)"
proof (induction fs)
  case Nil
  then show ?case by (simp add: writes_def run_simps)
next
  case (Cons f fs)
  show ?case unfolding writes_def
    by (auto simp: run_simps tbl.put_all_append writes_run [OF writes_rfield] writes_run [OF Cons])
qed

lemma rfield_entry_props:
  "fst ` set (rfield_entry f) \<subseteq> {rfield_name f}" "LNil \<notin> snd ` set (rfield_entry f)"
  "distinct (map fst (rfield_entry f))"
  by (cases f; auto simp: str_field_def split: option.splits)+

lemma rfields_distinct:
  "distinct (map rfield_name fs) \<Longrightarrow> distinct (map fst (rfields fs))"
proof (induction fs)
  case (Cons f fs)
  have "fst ` set (rfields fs) \<subseteq> set (map rfield_name fs)"
    using rfield_entry_props(1) by (fastforce simp: rfields_def)
  then have "fst ` set (rfield_entry f) \<inter> fst ` set (rfields fs) = {}"
    using Cons.prems rfield_entry_props(1) [of f] by (simp add: disjoint_iff subset_iff) metis
  with Cons show ?case using rfield_entry_props(3) [of f] by simp
qed simp

lemma rfields_present: "LNil \<notin> snd ` set (rfields fs)"
proof (induction fs)
  case (Cons f fs)
  then show ?case using rfield_entry_props(2) [of f] by (simp add: image_Un)
qed simp

section \<open>A tagged table\<close>

definition make_record :: "string \<Rightarrow> rfield list \<Rightarrow> ('w, nat) lm" where
  "make_record t fs =
     thn lua_createtable (thn (for_each fs put_rfield) (thn (settypemetatable t) (ret 1)))"

text \<open>The state with a new table of type \<open>t\<close> holding \<open>kvs\<close>; then with that table on the stack.\<close>

definition add_record :: "string \<Rightarrow> (string \<times> lvalue) list \<Rightarrow> 'w lst \<Rightarrow> 'w lst" where
  "add_record t kvs s = s\<lparr>ntab := Suc (ntab s), tabs := (tabs s)(ntab s := named kvs),
     metas := (metas s)(ntab s \<mapsto> t),
     mtabs := (case mtabs s t of None \<Rightarrow> (mtabs s)(t \<mapsto> [(''_type'', LStr t)]) | Some _ \<Rightarrow> mtabs s)\<rparr>"

definition with_record :: "string \<Rightarrow> (string \<times> lvalue) list \<Rightarrow> 'w lst \<Rightarrow> 'w lst" where
  "with_record t kvs s = (add_record t kvs s)\<lparr>stk := stk s @ [LTab (ntab s)]\<rparr>"

lemma make_record_run:
  assumes "distinct (map rfield_name fs)"
  shows "make_record t fs s = Ok 1 (with_record t (rfields fs) s)"
  using rfields_distinct [OF assms] rfields_present [of fs]
  by (simp add: make_record_def run_simps writes_run [OF writes_rfields, where xs = "stk s"]
      settypemetatable_run [where xs = "stk s"] named_fresh with_record_def add_record_def
      tag_table_def set_tab_def new_table_def split: option.splits)

lemma add_record_simps [simp]:
  "stk (add_record t kvs s) = stk s"
  "tabs (add_record t kvs s) = (tabs s)(ntab s := named kvs)"
  "metas (add_record t kvs s) = (metas s)(ntab s \<mapsto> t)"
  "errno (add_record t kvs s) = errno s" "world (add_record t kvs s) = world s"
  "live (add_record t kvs s) = live s" "ntab (add_record t kvs s) = Suc (ntab s)"
  "statics (add_record t kvs s) = statics s"
  "(add_record t kvs s)\<lparr>stk := xs\<rparr> = add_record t kvs (s\<lparr>stk := xs\<rparr>)"
  "(add_record t kvs s)\<lparr>errno := e\<rparr> = add_record t kvs (s\<lparr>errno := e\<rparr>)"
  "(add_record t kvs s)\<lparr>world := w\<rparr> = add_record t kvs (s\<lparr>world := w\<rparr>)"
  by (simp_all add: add_record_def split: option.splits)

lemma with_record_simps [simp]:
  "stk (with_record t kvs s) = stk s @ [LTab (ntab s)]"
  "tabs (with_record t kvs s) = (tabs s)(ntab s := named kvs)"
  "metas (with_record t kvs s) = (metas s)(ntab s \<mapsto> t)"
  "errno (with_record t kvs s) = errno s" "world (with_record t kvs s) = world s"
  "live (with_record t kvs s) = live s" "ntab (with_record t kvs s) = Suc (ntab s)"
  "statics (with_record t kvs s) = statics s"
  "(with_record t kvs s)\<lparr>stk := xs\<rparr> = add_record t kvs (s\<lparr>stk := xs\<rparr>)"
  "(with_record t kvs s)\<lparr>errno := e\<rparr> = with_record t kvs (s\<lparr>errno := e\<rparr>)"
  "(with_record t kvs s)\<lparr>world := w\<rparr> = with_record t kvs (s\<lparr>world := w\<rparr>)"
  by (simp_all add: with_record_def add_record_def split: option.splits)

lemma settled_put_rfield: "settled (put_rfield f)"
  by (cases f) (simp_all add: settled_results)

lemma settled_make_record: "settled (make_record t fs)"
  unfolding make_record_def
  by (intro settled_thn settled_prims settled_results settled_for_each settled_put_rfield)

section \<open>Interfaces\<close>

locale record_push =
  fixes push :: "'r \<Rightarrow> ('w, nat) lm"
    and tag :: string
    and members :: "'r \<Rightarrow> rfield list"
  assumes push_made: "push r = make_record tag (members r)"
    and members_distinct: "distinct (map rfield_name (members r))"
begin

definition flds :: "'r \<Rightarrow> (string \<times> lvalue) list" where
  "flds r = rfields (members r)"

lemma push_run: "push r s = Ok 1 (with_record tag (flds r) s)"
  by (simp add: push_made make_record_run members_distinct flds_def)

lemma flds_distinct: "distinct (map fst (flds r))"
  by (simp add: flds_def rfields_distinct members_distinct)

lemma flds_present: "LNil \<notin> snd ` set (flds r)"
  by (simp add: flds_def rfields_present)

lemma pushes_one: "push r s = Ok n s' \<Longrightarrow> n = 1 \<and> stk s' = stk s @ [LTab (ntab s)]"
  by (auto simp: push_run)

lemma member: "(k, v) \<in> set (flds r) \<Longrightarrow> push r s = Ok n s' \<Longrightarrow>
    tbl_get (tabs s' (ntab s)) (LStr k) = v"
  using flds_distinct [of r] by (auto simp: push_run tbl_get_named)

lemma tagged: "push r s = Ok n s' \<Longrightarrow> metas s' (ntab s) = Some tag"
  by (auto simp: push_run)

lemma wf: "wf_table (named (flds r))"
  using flds_distinct [of r] flds_present [of r]
  by (auto simp: wf_table_def distinct_named named_values simp del: image_iff)
    (auto simp: named_def)

lemma settled_push: "settled (push r)"
  by (simp add: settled_def push_run)

lemma call: "call_c (push r) args s =
    Ok [LTab (ntab s)] (add_record tag (flds r) s)"
  by (simp add: call_c_def push_run stk_self)

end

end
