(* ===== verification/Arrays.thy ===== *)
theory Arrays
  imports Records
begin

text \<open>
  Results that are Lua sequences: the loops \<open>lua_pushstring(L, x); lua_rawseti(L, -2, i)\<close> over
  the strings of a C array.  The index is a C \<open>int\<close> or \<open>unsigned\<close>; the loops run off its range
  when there are more than \<open>2 ^ 31 - 1\<close> (\<open>2 ^ 32 - 1\<close>) elements.
\<close>

definition array_from :: "nat \<Rightarrow> lvalue list \<Rightarrow> ltable" where
  "array_from n xs = map (\<lambda>(j, v). (LInt (of_nat j), v)) (List.enumerate n xs)"

abbreviation sequence :: "lvalue list \<Rightarrow> ltable" where
  "sequence xs \<equiv> array_from 1 xs"

lemma array_from_simps [simp]:
  "array_from n [] = []"
  "array_from n (x # xs) = (LInt (of_nat n), x) # array_from (Suc n) xs"
  by (simp_all add: array_from_def)

lemma of_cint_of_nat: "n < 2 ^ 31 \<Longrightarrow> of_cint (of_nat n) = of_nat n"
proof -
  assume n: "n < 2 ^ 31"
  have "sint (of_nat n :: cint) = int n"
    using n by (simp add: sint_uint unsigned_of_nat take_bit_nat_eq_self
        signed_take_bit_int_eq_self_iff take_bit_int_eq_self)
  moreover have "sint (of_nat n :: lint) = int n"
    using n by (simp add: sint_uint unsigned_of_nat take_bit_nat_eq_self
        signed_take_bit_int_eq_self_iff take_bit_int_eq_self)
  ultimately have "sint (of_cint (of_nat n)) = sint (of_nat n :: lint)"
    by (simp only: sint_of_cint)
  then show ?thesis by (rule signed_word_eqI)
qed

lemma of_cuint_of_nat: "n < 2 ^ 32 \<Longrightarrow> of_cuint (of_nat n) = of_nat n"
  by (simp add: of_cuint_def unsigned_of_nat take_bit_nat_eq_self)

lemma of_nat_lint_inj: "m < 2 ^ 63 \<Longrightarrow> n < 2 ^ 63 \<Longrightarrow> (of_nat m :: lint) = of_nat n \<longleftrightarrow> m = n"
proof -
  assume "m < 2 ^ 63" "n < 2 ^ 63"
  then have "m < 2 ^ 64" "n < 2 ^ 64" by simp_all
  then have "take_bit 64 m = m" "take_bit 64 n = n" by (simp_all only: take_bit_nat_eq_self)
  then show ?thesis by (simp add: word_of_nat_eq_iff)
qed

lemma array_keys:
  "fst ` set (array_from n xs) = (\<lambda>j. LInt (of_nat j)) ` {n ..< n + length xs}"
proof (induction xs arbitrary: n)
  case (Cons x xs)
  have "{n ..< n + length (x # xs)} = insert n {Suc n ..< Suc n + length xs}" by auto
  then show ?case by (simp only: array_from_simps list.simps set_simps image_insert fst_conv Cons)
qed simp

lemma array_distinct: "n + length xs < 2 ^ 63 \<Longrightarrow> distinct (map fst (array_from n xs))"
proof (induction xs arbitrary: n)
  case (Cons x xs)
  have "LInt (of_nat n) \<notin> fst ` set (array_from (Suc n) xs)"
    using Cons.prems by (auto simp: array_keys of_nat_lint_inj)
  with Cons show ?case by simp
qed simp

lemma array_values: "snd ` set (array_from n xs) = set xs"
  by (induction xs arbitrary: n) auto

lemma put_all_array:
  "n + length xs < 2 ^ 63 \<Longrightarrow> LNil \<notin> set xs \<Longrightarrow> tbl.put_all [] (array_from n xs) = array_from n xs"
  by (simp add: tbl_put_all_fresh array_distinct array_values)

lemma sequence_get:
  assumes "length xs < 2 ^ 62" "i < length xs"
  shows "tbl_get (sequence xs) (LInt (of_nat (Suc i))) = xs ! i"
proof -
  have "(LInt (of_nat (Suc i)), xs ! i) \<in> set (array_from n xs)" if "i < length xs" "n = 1" for n
  proof -
    have "(n + i, xs ! i) \<in> set (List.enumerate n xs)"
      using that by (simp add: in_set_enumerate_eq)
    then show ?thesis using that by (force simp: array_from_def)
  qed
  then have "(LInt (of_nat (Suc i)), xs ! i) \<in> set (sequence xs)" using assms by simp
  moreover have "distinct (map fst (sequence xs))" using assms by (intro array_distinct) simp
  ultimately show ?thesis by (simp add: tbl_get_def map_of_is_SomeI)
qed

section \<open>The loops\<close>

text \<open>The largest index of each C type, and its value as a \<open>lua_Integer\<close>.\<close>

datatype idx = Signed | Unsigned

fun idx_max :: "idx \<Rightarrow> cint" where
  "idx_max Signed = 0x7FFFFFFF"
| "idx_max Unsigned = 0xFFFFFFFF"

fun idx_limit :: "idx \<Rightarrow> nat" where
  "idx_limit Signed = 2 ^ 31 - 1"
| "idx_limit Unsigned = 2 ^ 32 - 1"

fun idx_integer :: "idx \<Rightarrow> cint \<Rightarrow> lint" where
  "idx_integer Signed i = of_cint i"
| "idx_integer Unsigned i = of_cuint i"

definition next_index :: "idx \<Rightarrow> cint \<Rightarrow> ('w, cint) lm" where
  "next_index t i = (if i = idx_max t then raise (Undefined ''index overflow'') else ret (i + 1))"

fun push_items :: "idx \<Rightarrow> cint \<Rightarrow> lvalue list \<Rightarrow> ('w, unit) lm" where
  "push_items t i [] = ret ()"
| "push_items t i (v # vs) =
     thn (lua_push v)
    (thn (lua_rawseti (-2) (idx_integer t i))
    (bnd (next_index t i) (\<lambda>j. push_items t j vs)))"

lemma idx_limit_less: "idx_limit t < 2 ^ 32"
  by (cases t) simp_all

lemma idx_max_limit: "idx_max t = of_nat (idx_limit t)"
  by (cases t) simp_all

lemma idx_integer_of_nat: "n \<le> idx_limit t \<Longrightarrow> idx_integer t (of_nat n) = of_nat n"
  by (cases t) (simp_all add: of_cint_of_nat of_cuint_of_nat)

lemma next_index_run:
  "n < idx_limit t \<Longrightarrow> next_index t (of_nat n) s = Ok (of_nat (Suc n)) s"
proof -
  assume n: "n < idx_limit t"
  then have "(of_nat n :: cint) \<noteq> of_nat (idx_limit t)"
    using idx_limit_less [of t] by (simp add: word_of_nat_eq_iff take_bit_nat_eq_self)
  then show ?thesis by (simp add: next_index_def run_simps idx_max_limit add.commute)
qed

lemma push_items_run:
  assumes "stk s = xs @ [LTab a]" "n + length vs \<le> idx_limit t"
  shows "push_items t (of_nat n) vs s = Ok () (set_tab a (tbl.put_all (tabs s a) (array_from n vs)) s)"
  using assms
proof (induction vs arbitrary: n s)
  case Nil
  then show ?case by (simp add: run_simps)
next
  case (Cons v vs)
  let ?s = "tab_update a (LInt (of_nat n)) v s"
  have "push_items t (of_nat n) (v # vs) s = push_items t (of_nat (Suc n)) vs ?s"
    using Cons.prems
    by (simp add: run_simps lua_rawseti_run next_index_run idx_integer_of_nat tab_update_def
        stk_self del: of_nat_Suc)
  also have "\<dots> = Ok () (set_tab a (tbl.put_all (tabs ?s a) (array_from (Suc n) vs)) ?s)"
    by (rule Cons.IH) (use Cons.prems in simp_all)
  finally show ?case by (simp add: tab_update_def)
qed

lemma push_sequence_run:
  assumes "stk s = xs @ [LTab a]" "length vs < idx_limit t" "LNil \<notin> set vs" "tabs s a = []"
  shows "push_items t 1 vs s = Ok () (set_tab a (sequence vs) s)"
  using push_items_run [OF assms(1), of 1 vs t] put_all_array [of 1 vs] assms idx_limit_less [of t]
  by simp

text \<open>A new table filled with the items; it stays on the stack.\<close>

definition push_array :: "idx \<Rightarrow> lvalue list \<Rightarrow> ('w, unit) lm" where
  "push_array t vs = thn lua_newtable (push_items t 1 vs)"

definition with_sequence :: "lvalue list \<Rightarrow> 'w lst \<Rightarrow> 'w lst" where
  "with_sequence vs s = set_tab (ntab s) (sequence vs) (new_table s)"

lemma push_array_run:
  "length vs < idx_limit t \<Longrightarrow> LNil \<notin> set vs \<Longrightarrow> push_array t vs s = Ok () (with_sequence vs s)"
  by (simp add: push_array_def run_simps push_sequence_run [where xs = "stk s"] with_sequence_def)

definition add_sequence :: "lvalue list \<Rightarrow> 'w lst \<Rightarrow> 'w lst" where
  "add_sequence vs s = s\<lparr>ntab := Suc (ntab s), tabs := (tabs s)(ntab s := sequence vs),
     metas := (metas s)(ntab s := None)\<rparr>"

lemma with_sequence_simps [simp]:
  "stk (with_sequence vs s) = stk s @ [LTab (ntab s)]"
  "tabs (with_sequence vs s) = (tabs s)(ntab s := sequence vs)"
  "metas (with_sequence vs s) = (metas s)(ntab s := None)"
  "errno (with_sequence vs s) = errno s" "world (with_sequence vs s) = world s"
  "live (with_sequence vs s) = live s" "ntab (with_sequence vs s) = Suc (ntab s)"
  "mtabs (with_sequence vs s) = mtabs s"
  "(with_sequence vs s)\<lparr>stk := xs\<rparr> = add_sequence vs (s\<lparr>stk := xs\<rparr>)"
  "(with_sequence vs s)\<lparr>errno := e\<rparr> = with_sequence vs (s\<lparr>errno := e\<rparr>)"
  "(with_sequence vs s)\<lparr>world := w\<rparr> = with_sequence vs (s\<lparr>world := w\<rparr>)"
  by (simp_all add: with_sequence_def add_sequence_def new_table_def set_tab_def)

lemma add_sequence_simps [simp]:
  "stk (add_sequence vs s) = stk s"
  "tabs (add_sequence vs s) = (tabs s)(ntab s := sequence vs)"
  "errno (add_sequence vs s) = errno s" "world (add_sequence vs s) = world s"
  "live (add_sequence vs s) = live s" "ntab (add_sequence vs s) = Suc (ntab s)"
  "(add_sequence vs s)\<lparr>stk := xs\<rparr> = add_sequence vs (s\<lparr>stk := xs\<rparr>)"
  by (simp_all add: add_sequence_def)

lemma settled_next_index: "settled (next_index t i)"
  by (simp add: next_index_def settled_prims)

lemma settled_push_items: "settled (push_items t i vs)"
  by (induction t i vs rule: push_items.induct)
    (auto intro!: settled_base settled_next_index)

lemma settled_push_array: "settled (push_array t vs)"
  unfolding push_array_def by (intro settled_thn settled_push_items settled_prims)

end
