(* ===== verification/Compat52.thy ===== *)
theory Compat52
  imports Contracts "HOL-Library.Signed_Division"
begin

text \<open>
  \<^verbatim>\<open>ext/include/compat-5.2.c\<close>: the part of the Lua 5.2 API that the bindings get from this file on
  Lua 5.1.  Indices, string buffers that grow, the search for a function's name, the depth of the
  call stack and the traceback.  Buffer sizes are \<open>size_t\<close> and wrap around.
\<close>

section \<open>Stack\<close>

text \<open>\<open>lua_insert\<close>, \<open>lua_replace\<close> and \<open>lua_remove\<close> of the API.\<close>

definition lua_insert :: "int \<Rightarrow> ('w, unit) lm" where
  "lua_insert i s = (case slot i (stk s) of
      None \<Rightarrow> raise (Undefined ''invalid index'') s
    | Some n \<Rightarrow> Ok () (s\<lparr>stk := take n (stk s) @ [last (stk s)] @ drop n (butlast (stk s))\<rparr>))"

definition lua_replace :: "int \<Rightarrow> ('w, unit) lm" where
  "lua_replace i s = (case slot i (stk s) of
      None \<Rightarrow> raise (Undefined ''invalid index'') s
    | Some n \<Rightarrow> Ok () (s\<lparr>stk := butlast ((stk s)[n := last (stk s)])\<rparr>))"

definition lua_remove :: "int \<Rightarrow> ('w, unit) lm" where
  "lua_remove i s = (case slot i (stk s) of
      None \<Rightarrow> raise (Undefined ''invalid index'') s
    | Some n \<Rightarrow> Ok () (s\<lparr>stk := take n (stk s) @ drop (Suc n) (stk s)\<rparr>))"

definition LUA_REGISTRYINDEX :: int where
  "LUA_REGISTRYINDEX = -10000"

definition lua_absindex :: "int \<Rightarrow> ('w, int) lm" where
  "lua_absindex i =
     bnd lua_gettop (\<lambda>n. ret (if i < 0 \<and> LUA_REGISTRYINDEX < i then i + (int n + 1) else i))"

definition lua_copy :: "int \<Rightarrow> int \<Rightarrow> ('w, unit) lm" where
  "lua_copy from_idx to_idx =
     bnd (lua_absindex to_idx) (\<lambda>abs_to. thn (lua_pushvalue from_idx) (lua_replace abs_to))"

text \<open>The table at \<open>name\<close> of table \<open>i\<close>, made when there is none.\<close>

definition luaL_getsubtable :: "env \<Rightarrow> int \<Rightarrow> string \<Rightarrow> ('w, nat) lm" where
  "luaL_getsubtable E i name =
     bnd (lua_absindex i) (\<lambda>abs_i.
     thn (lua_pushstring name)
    (thn (lua_gettable E abs_i)
    (bnd (lua_istable (-1)) (\<lambda>t.
     if t then ret 1
     else seqn [
       lua_pop 1,
       lua_newtable,
       lua_pushstring name,
       lua_pushvalue (-2),
       lua_settable abs_i] 0))))"

text \<open>\<open>ok\<close> is \<open>stat\<close>; the value of \<open>errno\<close> is taken before anything is pushed.\<close>

definition luaL_fileresult :: "env \<Rightarrow> bool \<Rightarrow> string option \<Rightarrow> ('w, nat) lm" where
  "luaL_fileresult E ok fname =
     bnd (asks errno) (\<lambda>en.
     if ok then thn (lua_pushboolean True) (ret 1)
     else seqn [
       lua_pushnil,
       lua_pushstring (case fname of Some f \<Rightarrow> f @ '': '' @ strerror E en | None \<Rightarrow> strerror E en),
       lua_pushinteger (of_cint en)] 3)"

text \<open>\<open>luaL_setfuncs\<close>: each function becomes a closure over copies of the \<open>nup\<close> values on top.\<close>

definition luaL_setfuncs :: "(string \<times> string) list \<Rightarrow> nat \<Rightarrow> ('w, unit) lm" where
  "luaL_setfuncs l nup =
     thn (for_each l (\<lambda>(name, func). seq [
            lua_pushstring name,
            for_each [0 ..< nup] (\<lambda>_. lua_pushvalue (- (int nup + 1))),
            lua_pushcclosure func nup,
            lua_settable (- (int nup + 3))]))
         (lua_pop nup)"

section \<open>Buffers\<close>

text \<open>
  \<open>bmem\<close> are the bytes at \<open>ptr\<close>, \<open>capacity\<close> of them; \<open>inl\<close> says that \<open>ptr\<close> is still the array inside
  the structure.  Otherwise the bytes belong to a userdata on top of the stack.  Fresh memory
  holds \<open>junk\<close>.
\<close>

record lbuf =
  bmem :: string
  inl :: bool
  nelems :: lint
  capacity :: lint

definition luaL_buffinit :: "(nat \<Rightarrow> char) \<Rightarrow> lint \<Rightarrow> ('w, lbuf) lm" where
  "luaL_buffinit junk LUAL_BUFFERSIZE =
     ret \<lparr>bmem = map junk [0 ..< unat LUAL_BUFFERSIZE], inl = True, nelems = 0,
          capacity = LUAL_BUFFERSIZE\<rparr>"

definition luaL_prepbuffsize :: "(nat \<Rightarrow> char) \<Rightarrow> lbuf \<Rightarrow> lint \<Rightarrow> ('w, lbuf) lm" where
  "luaL_prepbuffsize junk B sz =
     (if capacity B - nelems B < sz then
        let newcap = (let n = capacity B * 2 in if n - nelems B < sz then nelems B + sz else n) in
        if newcap < capacity B then raise (LuaError (LStr ''buffer too large''))
        else
          bnd (lua_newuserdata URaw) (\<lambda>_.
          thn (when_do (\<not> inl B) (lua_replace (-2)))
              (ret (B\<lparr>bmem := take (unat (nelems B)) (bmem B) @ map junk [unat (nelems B) ..< unat newcap],
                     inl := False, capacity := newcap\<rparr>)))
      else ret B)"

text \<open>\<open>memcpy\<close> behind the elements, then \<open>luaL_addsize\<close>.\<close>

definition put_bytes :: "string \<Rightarrow> lbuf \<Rightarrow> ('w, lbuf) lm" where
  "put_bytes x B =
     (let n = unat (nelems B) in
      if n + length x \<le> length (bmem B)
      then ret (B\<lparr>bmem := take n (bmem B) @ x @ drop (n + length x) (bmem B),
                 nelems := nelems B + of_nat (length x)\<rparr>)
      else raise (Undefined ''write behind the buffer''))"

definition luaL_addlstring :: "(nat \<Rightarrow> char) \<Rightarrow> lbuf \<Rightarrow> string \<Rightarrow> ('w, lbuf) lm" where
  "luaL_addlstring junk B x = bnd (luaL_prepbuffsize junk B (of_nat (length x))) (put_bytes x)"

definition luaL_addchar :: "(nat \<Rightarrow> char) \<Rightarrow> lbuf \<Rightarrow> char \<Rightarrow> ('w, lbuf) lm" where
  "luaL_addchar junk B c =
     bnd (if nelems B < capacity B then ret B else luaL_prepbuffsize junk B 1) (put_bytes [c])"

definition luaL_addvalue :: "env \<Rightarrow> (nat \<Rightarrow> char) \<Rightarrow> lbuf \<Rightarrow> ('w, lbuf) lm" where
  "luaL_addvalue E junk B =
     bnd (lua_tolstring E (-1)) (\<lambda>r. case r of
       None \<Rightarrow> raise (LuaError (LStr ''cannot convert value to string''))
     | Some x \<Rightarrow>
         thn (when_do (\<not> inl B) (lua_insert (-2)))
        (bnd (luaL_addlstring junk B x) (\<lambda>B'.
         thn (lua_remove (if inl B' then -1 else -2)) (ret B'))))"

definition luaL_pushresult :: "lbuf \<Rightarrow> ('w, unit) lm" where
  "luaL_pushresult B =
     thn (lua_pushlstring (take (unat (nelems B)) (bmem B)))
         (when_do (\<not> inl B) (lua_replace (-2)))"

section \<open>The call stack\<close>

text \<open>
  \<open>lua_getstack\<close> succeeds for the levels below \<open>depth\<close>.  \<open>countlevels\<close> doubles an upper bound and
  then searches between the last level that exists and the first that does not.  Its variables are
  of type \<open>int\<close>: \<open>None\<close> is an overflow, or a search that does not end.
\<close>

definition lua_getstack :: "nat \<Rightarrow> int \<Rightarrow> bool" where
  "lua_getstack depth level \<longleftrightarrow> level < int depth"

definition c_int :: "int \<Rightarrow> int option" where
  "c_int n = (if - (2 ^ 31) \<le> n \<and> n < 2 ^ 31 then Some n else None)"

partial_function (option) upper_bound :: "nat \<Rightarrow> int \<Rightarrow> int \<Rightarrow> (int \<times> int) option" where
  "upper_bound depth li le =
     (if lua_getstack depth le
      then Option.bind (c_int (le * 2)) (\<lambda>le2. upper_bound depth le le2)
      else Some (li, le))"

partial_function (option) bisect :: "nat \<Rightarrow> int \<Rightarrow> int \<Rightarrow> int option" where
  "bisect depth li le =
     (if li < le then
        Option.bind (c_int (li + le)) (\<lambda>sum.
        let m = sum sdiv 2 in
        if lua_getstack depth m then Option.bind (c_int (m + 1)) (\<lambda>li. bisect depth li le)
        else bisect depth li m)
      else Some le)"

definition countlevels :: "nat \<Rightarrow> int option" where
  "countlevels depth =
     Option.bind (upper_bound depth 1 1) (\<lambda>(li, le).
     Option.bind (bisect depth li le) (\<lambda>le. c_int (le - 1)))"

text \<open>
  \<open>findfield\<close> looks for a value in a table and in the tables directly inside it, and returns the
  path of string keys; entries under other keys are ignored.
\<close>

fun findfield :: "(nat \<Rightarrow> ltable) \<Rightarrow> lvalue \<Rightarrow> nat \<Rightarrow> lvalue \<Rightarrow> string option"
and findentry :: "(nat \<Rightarrow> ltable) \<Rightarrow> lvalue \<Rightarrow> nat \<Rightarrow> ltable \<Rightarrow> string option" where
  "findfield ts obj 0 t = None"
| "findfield ts obj (Suc level) t = (case t of
      LTab a \<Rightarrow> findentry ts obj level (ts a)
    | _ \<Rightarrow> None)"
| "findentry ts obj level [] = None"
| "findentry ts obj level ((k, v) # es) = (case k of
      LStr name \<Rightarrow>
        if v = obj then Some name
        else (case findfield ts obj level v of
                Some n \<Rightarrow> Some (name @ ''.'' @ n)
              | None \<Rightarrow> findentry ts obj level es)
    | _ \<Rightarrow> findentry ts obj level es)"

text \<open>What \<open>lua_getinfo\<close> reports of a level.\<close>

record activation =
  short_src :: string
  currentline :: int
  namewhat :: string
  act_name :: string
  what :: string
  linedefined :: int
  act_func :: lvalue

definition quoted :: "string \<Rightarrow> string" where
  "quoted x = [CHR 0x27] @ x @ [CHR 0x27]"

definition pushglobalfuncname :: "(nat \<Rightarrow> ltable) \<Rightarrow> lvalue \<Rightarrow> activation \<Rightarrow> string option" where
  "pushglobalfuncname ts globals ar = findfield ts (act_func ar) 2 globals"

definition pushfuncname :: "(nat \<Rightarrow> ltable) \<Rightarrow> lvalue \<Rightarrow> activation \<Rightarrow> string" where
  "pushfuncname ts globals ar =
     (if namewhat ar \<noteq> [] then ''function '' @ quoted (act_name ar)
      else if what ar \<noteq> [] \<and> hd (what ar) = CHR ''m'' then ''main chunk''
      else if what ar \<noteq> [] \<and> hd (what ar) = CHR ''C'' then
        (case pushglobalfuncname ts globals ar of
           Some n \<Rightarrow> ''function '' @ quoted n
         | None \<Rightarrow> ''?'')
      else ''function <'' @ short_src ar @ '':'' @ int_dec (linedefined ar) @ ''>'')"

definition LEVELS1 :: nat where "LEVELS1 = 12"
definition LEVELS2 :: nat where "LEVELS2 = 10"

definition newline :: string where
  "newline = [CHR 0x0A]"

definition frame_text :: "(nat \<Rightarrow> ltable) \<Rightarrow> lvalue \<Rightarrow> activation \<Rightarrow> string" where
  "frame_text ts globals ar =
     newline @ [CHR 0x09] @ short_src ar @ '':'' @
     (if 0 < currentline ar then int_dec (currentline ar) @ '':'' else []) @
     '' in '' @ pushfuncname ts globals ar"

text \<open>
  The loop of \<open>luaL_traceback\<close>; \<open>level\<close> has been incremented when it is compared with the mark.  It
  ends because the mark is only set when the jump goes forward.
\<close>

function trace_loop :: "(activation \<Rightarrow> string) \<Rightarrow> activation list \<Rightarrow> nat \<Rightarrow> nat \<Rightarrow> string" where
  "trace_loop frame levels numlevels level =
     (let mark = (if LEVELS1 + LEVELS2 < numlevels then LEVELS1 else 0) in
      if lua_getstack (length levels) (int level) then
        (if level + 1 = mark
         then newline @ [CHR 0x09] @ ''...'' @ trace_loop frame levels numlevels (numlevels - LEVELS2)
         else frame (levels ! level) @ trace_loop frame levels numlevels (level + 1))
      else [])"
  by pat_completeness auto
termination
  by (relation "measure (\<lambda>(frame, levels, numlevels, level). length levels - level)")
    (auto simp: lua_getstack_def LEVELS1_def LEVELS2_def split: if_splits)

declare trace_loop.simps [simp del]

definition traceback_text ::
  "(nat \<Rightarrow> ltable) \<Rightarrow> lvalue \<Rightarrow> activation list \<Rightarrow> string option \<Rightarrow> nat \<Rightarrow> string option" where
  "traceback_text ts globals levels msg level =
     map_option (\<lambda>numlevels.
       (case msg of Some m \<Rightarrow> m @ newline | None \<Rightarrow> []) @ ''stack traceback:'' @
       trace_loop (frame_text ts globals) levels (nat numlevels) level)
     (countlevels (length levels))"

definition luaL_traceback :: "lvalue \<Rightarrow> activation list \<Rightarrow> string option \<Rightarrow> nat \<Rightarrow> ('w, unit) lm" where
  "luaL_traceback globals levels msg level =
     bnd (asks (\<lambda>s. traceback_text (tabs s) globals levels msg level)) (\<lambda>r. case r of
       None \<Rightarrow> raise (Undefined ''integer overflow'')
     | Some text \<Rightarrow> lua_pushlstring text)"

section \<open>Depth and traceback\<close>

lemma c_int_in: "- (2 ^ 31) \<le> n \<Longrightarrow> n < 2 ^ 31 \<Longrightarrow> c_int n = Some n"
  by (simp add: c_int_def)

lemma upper_bound_pow:
  assumes "k \<le> 30" "1 \<le> li" "li \<le> max 1 (int depth)"
  shows "case upper_bound depth li (2 ^ k) of
      None \<Rightarrow> 2 ^ 30 < depth
    | Some (li', le') \<Rightarrow> 1 \<le> li' \<and> li' \<le> max 1 (int depth) \<and> int depth \<le> le' \<and>
        1 \<le> le' \<and> le' \<le> 2 ^ 30 \<and> le' \<le> max (2 ^ k) (2 * int depth)"
  using assms
proof (induction "30 - k" arbitrary: k li)
  case 0
  then have k: "(2 :: int) ^ k = 2 ^ 30" by simp
  show ?case
    using 0 unfolding k by (subst upper_bound.simps) (simp add: lua_getstack_def c_int_def)
next
  case (Suc d)
  then have lt: "k < 30" by simp
  then have "(2 :: int) ^ k < 2 ^ 30" by (intro power_strict_increasing) simp_all
  moreover have "- 1073741824 \<le> (2 :: int) ^ k" by (rule order_trans [of _ 0]) simp_all
  ultimately have dbl: "c_int (2 ^ k * 2) = Some (2 ^ Suc k)" by (simp add: c_int_def)
  show ?case
  proof (cases "lua_getstack depth (2 ^ k)")
    case True
    have "2 ^ k \<le> max 1 (int depth)" "1 \<le> (2 :: int) ^ k"
      using True by (simp_all add: lua_getstack_def one_le_power)
    with Suc.hyps(1) [of "Suc k" "2 ^ k"] Suc.hyps(2) lt
    have "case upper_bound depth (2 ^ k) (2 ^ Suc k) of
      None \<Rightarrow> 2 ^ 30 < depth
    | Some (li', le') \<Rightarrow> 1 \<le> li' \<and> li' \<le> max 1 (int depth) \<and> int depth \<le> le' \<and> 1 \<le> le' \<and>
        le' \<le> 2 ^ 30 \<and> le' \<le> max (2 ^ Suc k) (2 * int depth)" by simp
    moreover have "upper_bound depth li (2 ^ k) = upper_bound depth (2 ^ k) (2 ^ Suc k)"
      using True dbl by (subst upper_bound.simps) simp
    ultimately show ?thesis using True by (auto simp: lua_getstack_def split: option.splits)
  next
    case False
    then have "upper_bound depth li (2 ^ k) = Some (li, 2 ^ k)" by (subst upper_bound.simps) simp
    with False Suc.prems \<open>(2 :: int) ^ k < 2 ^ 30\<close> show ?thesis by (simp add: lua_getstack_def)
  qed
qed

lemma bisect_depth:
  assumes "1 \<le> li" "li \<le> max 1 (int depth)" "int depth \<le> le" "1 \<le> le" "le \<le> 2 ^ 30"
  shows "bisect depth li le = Some (max 1 (int depth))"
  using assms
proof (induction "nat (le - li)" arbitrary: li le rule: less_induct)
  case less
  show ?case
  proof (cases "li < le")
    case False
    with less.prems show ?thesis by (subst bisect.simps) simp
  next
    case True
    define m where "m = (li + le) div 2"
    have m: "li \<le> m" "m < le" using True by (auto simp: m_def)
    have step: "bisect depth li le =
        (if lua_getstack depth m then bisect depth (m + 1) le else bisect depth li m)"
      using True less.prems m
      by (subst bisect.simps) (simp add: c_int_in Let_def signed_divide_int_def m_def [symmetric])
    show ?thesis
    proof (cases "lua_getstack depth m")
      case g: True
      with step less.hyps [of le "m + 1"] less.prems m show ?thesis by (simp add: lua_getstack_def)
    next
      case g: False
      with step less.hyps [of m li] less.prems m show ?thesis by (simp add: lua_getstack_def)
    qed
  qed
qed

lemma countlevels_depth: "countlevels depth = (if depth \<le> 2 ^ 30 then Some (int (depth - 1)) else None)"
proof (cases "upper_bound depth 1 1")
  case None
  then show ?thesis using upper_bound_pow [of 0 1 depth] by (simp add: countlevels_def)
next
  case (Some p)
  obtain li le where p: "p = (li, le)" by (cases p)
  with Some upper_bound_pow [of 0 1 depth]
  have b: "1 \<le> li" "li \<le> max 1 (int depth)" "int depth \<le> le" "1 \<le> le" "le \<le> 2 ^ 30" by simp_all
  have "bisect depth li le = Some (max 1 (int depth))" using b by (rule bisect_depth)
  moreover have "max 1 (int depth) - 1 = int (depth - 1)" by simp
  ultimately show ?thesis using Some p b(3,5) by (simp add: countlevels_def c_int_def)
qed

text \<open>
  Property C15: \<open>countlevels\<close> ends and returns the number of the last level of the call stack, for every
  stack of at most \<open>2^30\<close> levels, without trying a level beyond twice the depth and without an
  overflow of its \<open>int\<close> variables; on a deeper stack the doubling overflows.
\<close>

theorem countlevels_exact:
  "countlevels depth = (if depth \<le> 2 ^ 30 then Some (int (depth - 1)) else None) \<and>
   (case upper_bound depth 1 1 of None \<Rightarrow> 2 ^ 30 < depth | Some (li, le) \<Rightarrow> le \<le> max 1 (2 * int depth))"
  using upper_bound_pow [of 0 1 depth] countlevels_depth [of depth] by (auto split: option.splits)





section \<open>Function names\<close>

text \<open>A path of string keys from a value to another, and how it is written.\<close>

fun path_to :: "(nat \<Rightarrow> ltable) \<Rightarrow> lvalue \<Rightarrow> string list \<Rightarrow> lvalue \<Rightarrow> bool" where
  "path_to ts t [] obj = (t = obj)"
| "path_to ts t (k # ks) obj = (\<exists>a v. t = LTab a \<and> (LStr k, v) \<in> set (ts a) \<and> path_to ts v ks obj)"

fun dotted :: "string list \<Rightarrow> string" where
  "dotted [] = []"
| "dotted [k] = k"
| "dotted (k # ks) = k @ ''.'' @ dotted ks"

lemma dotted_Cons: "ks \<noteq> [] \<Longrightarrow> dotted (k # ks) = k @ ''.'' @ dotted ks"
  by (cases ks) simp_all

lemma findfield_sound:
  "findfield ts obj n t = Some x \<Longrightarrow>
     \<exists>ks. ks \<noteq> [] \<and> length ks \<le> n \<and> x = dotted ks \<and> path_to ts t ks obj"
  "findentry ts obj n es = Some x \<Longrightarrow>
     \<exists>k v ks. (LStr k, v) \<in> set es \<and> length ks \<le> n \<and> x = dotted (k # ks) \<and> path_to ts v ks obj"
proof (induction ts obj n t and ts obj n es arbitrary: x and x rule: findfield_findentry.induct)
  case (2 ts obj level t)
  then obtain a where a: "t = LTab a" "findentry ts obj level (ts a) = Some x"
    by (cases t) auto
  with 2 obtain k v ks where "(LStr k, v) \<in> set (ts a)" "length ks \<le> level" "x = dotted (k # ks)"
    "path_to ts v ks obj" by blast
  with a show ?case by (intro exI [of _ "k # ks"]) auto
next
  case (4 ts obj level k v es)
  show ?case
  proof (cases "\<exists>name. k = LStr name")
    case False
    with 4 show ?thesis by (fastforce split: lvalue.splits)
  next
    case True
    then obtain name where k: "k = LStr name" by blast
    consider "v = obj" | n where "v \<noteq> obj" "findfield ts obj level v = Some n"
      | "v \<noteq> obj" "findfield ts obj level v = None" by (cases "findfield ts obj level v") auto
    then show ?thesis
    proof cases
      case 1
      with 4 k show ?thesis by (intro exI [of _ name] exI [of _ v] exI [of _ "[]"]) auto
    next
      case (2 n)
      with 4 k obtain ks where ks: "ks \<noteq> []" "length ks \<le> level" "n = dotted ks" "path_to ts v ks obj"
        by blast
      with 2 4 k show ?thesis
        by (intro exI [of _ name] exI [of _ v] exI [of _ ks]) (auto simp: dotted_Cons)
    next
      case 3
      with 4 k show ?thesis by fastforce
    qed
  qed
qed simp_all

lemma findfield_complete:
  "findfield ts obj n t = None \<Longrightarrow> ks \<noteq> [] \<Longrightarrow> length ks \<le> n \<Longrightarrow> \<not> path_to ts t ks obj"
  "findentry ts obj n es = None \<Longrightarrow> (LStr k, v) \<in> set es \<Longrightarrow> length ks \<le> n \<Longrightarrow> \<not> path_to ts v ks obj"
proof (induction ts obj n t and ts obj n es arbitrary: ks and k v ks rule: findfield_findentry.induct)
  case (2 ts obj level t)
  then obtain k ks' where "ks = k # ks'" by (cases ks) auto
  with 2 show ?case by (cases t) auto
next
  case (4 ts obj level k' v' es)
  show ?case
  proof (cases "(k', v') = (LStr k, v)")
    case True
    with 4 show ?thesis by (cases "ks = []") (auto split: if_splits option.splits)
  next
    case False
    with 4 show ?thesis by (auto split: if_splits option.splits lvalue.splits)
  qed
qed simp_all

text \<open>
  Property C16: the name \<open>findfield\<close> gives a function is a path of at most \<open>level\<close> string keys that leads
  to it from the table, and it finds one whenever there is one, however the tables are linked.
\<close>

theorem findfield_exact:
  "case findfield ts obj level t of
     Some x \<Rightarrow> \<exists>ks. ks \<noteq> [] \<and> length ks \<le> level \<and> x = dotted ks \<and> path_to ts t ks obj
   | None \<Rightarrow> \<not> (\<exists>ks. ks \<noteq> [] \<and> length ks \<le> level \<and> path_to ts t ks obj)"
  using findfield_sound(1) [of ts obj level t] findfield_complete(1) [of ts obj level t]
  by (auto split: option.splits)

section \<open>Buffers hold what was added\<close>

text \<open>
  The invariant: the block has the size \<open>capacity\<close>, the elements fit in it, and the userdata that owns
  it, if any, is the only thing above the frame the buffer was started on.
\<close>

definition buf_ok :: "lvalue list \<Rightarrow> 'w lst \<Rightarrow> lbuf \<Rightarrow> bool" where
  "buf_ok base s B \<longleftrightarrow>
     length (bmem B) = unat (capacity B) \<and> nelems B \<le> capacity B \<and>
     (if inl B then stk s = base else \<exists>u. stk s = base @ [LUdata u])"

definition contents :: "lbuf \<Rightarrow> string" where
  "contents B = take (unat (nelems B)) (bmem B)"

lemma buf_ok_nelems: "buf_ok base s B \<Longrightarrow> unat (nelems B) \<le> unat (capacity B)"
  by (simp add: buf_ok_def word_le_nat_alt)

lemma length_contents: "buf_ok base s B \<Longrightarrow> length (contents B) = unat (nelems B)"
  using buf_ok_nelems [of base s B] by (simp add: contents_def buf_ok_def)

lemma unat_sub_le: "b \<le> a \<Longrightarrow> unat (a - b) = unat a - unat (b :: lint)"
  by (simp add: unat_sub)

lemma unat_sum: "unat a + unat b < 2 ^ 64 \<Longrightarrow> unat (a + b) = unat a + unat (b :: lint)"
  by (simp add: unat_word_ariths)

text \<open>The new capacity, on its own: big enough and not smaller, or the error is raised.\<close>

definition newcap :: "lbuf \<Rightarrow> lint \<Rightarrow> lint" where
  "newcap B sz = (let n = capacity B * 2 in if n - nelems B < sz then nelems B + sz else n)"

lemma newcap_room:
  assumes n: "nelems B \<le> capacity B" and c: "capacity B \<le> newcap B sz"
  shows "unat (nelems B) + unat sz \<le> unat (newcap B sz)"
proof (cases "capacity B * 2 - nelems B < sz")
  case False
  then have nc: "newcap B sz = capacity B * 2" by (simp add: newcap_def)
  have "nelems B \<le> capacity B * 2" using n c nc by simp
  then have "unat (capacity B * 2 - nelems B) = unat (capacity B * 2) - unat (nelems B)"
    by (rule unat_sub_le)
  moreover have "unat sz \<le> unat (capacity B * 2 - nelems B)"
    using False by (simp add: word_le_nat_alt not_less)
  moreover have "unat (nelems B) \<le> unat (capacity B * 2)"
    using \<open>nelems B \<le> capacity B * 2\<close> by (simp add: word_le_nat_alt)
  ultimately show ?thesis unfolding nc by linarith
next
  case True
  then have nc: "newcap B sz = nelems B + sz" by (simp add: newcap_def)
  have le: "nelems B \<le> nelems B + sz" using n c nc by simp
  then have "unat (nelems B + sz) = unat (nelems B) + unat sz"
    by (simp add: word_le_nat_alt unat_plus_simple [symmetric])
  then show ?thesis unfolding nc by simp
qed

lemma grows_iff:
  assumes "nelems B \<le> capacity B"
  shows "capacity B - nelems B < sz \<longleftrightarrow> unat (capacity B) < unat (nelems B) + unat sz"
  using assms unat_sub_le [OF assms] by (auto simp: word_less_nat_alt word_le_nat_alt)

lemma wrap_arith:
  fixes n c z :: nat
  assumes "n \<le> c" "c < n + z" "c < M" "n < M" "z < M"
  shows "(let d = (if 2 * c < M then 2 * c else 2 * c - M)
     in (if (if n \<le> d then d - n else d + M - n) < z
         then (if n + z < M then n + z else n + z - M) else d) < c) \<longleftrightarrow>
    M \<le> n + z \<or> M \<le> 2 * c \<and> 2 * c < M + n"
  using assms unfolding Let_def by (cases "2 * c < M"; cases "n + z < M"; cases "n + M \<le> 2 * c") auto

text \<open>When the new capacity is below the old one: exactly when a sum or the doubling wraps around.\<close>

lemma newcap_wraps:
  assumes "nelems B \<le> capacity B" "unat (capacity B) < unat (nelems B) + unat sz"
  shows "newcap B sz < capacity B \<longleftrightarrow> 2 ^ 64 \<le> unat (nelems B) + unat sz \<or>
    2 ^ 64 \<le> 2 * unat (capacity B) \<and> 2 * unat (capacity B) < 2 ^ 64 + unat (nelems B)"
proof -
  let ?n = "capacity B * 2"
  have c: "unat (capacity B) < 2 ^ 64" "unat (nelems B) < 2 ^ 64" "unat sz < 2 ^ 64"
    by (simp_all add: unsigned_less [where 'b = 64, simplified])
  have dbl: "unat ?n = (if 2 * unat (capacity B) < 2 ^ 64 then 2 * unat (capacity B)
      else 2 * unat (capacity B) - 2 ^ 64)"
    using unat_plus_if' [of "capacity B" "capacity B"] unfolding mult_2_right mult_2 by simp
  have sum: "unat (nelems B + sz) = (if unat (nelems B) + unat sz < 2 ^ 64 then unat (nelems B) + unat sz
      else unat (nelems B) + unat sz - 2 ^ 64)"
    using unat_plus_if' [of "nelems B" sz] by simp
  have sub: "unat (?n - nelems B) = (if unat (nelems B) \<le> unat ?n then unat ?n - unat (nelems B)
      else unat ?n + 2 ^ 64 - unat (nelems B))"
    using unat_sub_if' [of ?n "nelems B"] by simp
  show ?thesis
    using wrap_arith [OF assms(1) [unfolded word_le_nat_alt] assms(2) c]
    unfolding newcap_def Let_def word_less_nat_alt if_distrib [of unat] dbl sum sub by simp
qed

lemma lua_replace_below:
  "stk s = xs @ [a, b] \<Longrightarrow> lua_replace (-2) s = Ok () (s\<lparr>stk := xs @ [b]\<rparr>)"
  by (simp add: lua_replace_def slot_def list_update_append butlast_append)

lemma luaL_prepbuffsize_run:
  assumes ok: "buf_ok base s B"
  shows "if capacity B - nelems B < sz \<and> newcap B sz < capacity B
    then luaL_prepbuffsize junk B sz s = Err (LuaError (LStr ''buffer too large'')) (s\<lparr>stk := []\<rparr>)
    else \<exists>B' s'. luaL_prepbuffsize junk B sz s = Ok B' s' \<and> buf_ok base s' B' \<and>
      contents B' = contents B \<and> nelems B' = nelems B \<and> unat (nelems B) + unat sz \<le> unat (capacity B') \<and>
      capacity B' = (if capacity B - nelems B < sz then newcap B sz else capacity B) \<and>
      tabs s' = tabs s \<and> world s' = world s \<and> errno s' = errno s \<and> live s' = live s"
proof (cases "capacity B - nelems B < sz")
  case False
  have n: "nelems B \<le> capacity B" using ok by (simp add: buf_ok_def)
  have "unat sz \<le> unat (capacity B) - unat (nelems B)"
    using False unat_sub_le [OF n] by (simp add: word_le_nat_alt not_less)
  then show ?thesis using False ok buf_ok_nelems [OF ok]
    by (simp add: luaL_prepbuffsize_def run_simps)
next
  case grow: True
  have n: "nelems B \<le> capacity B" using ok by (simp add: buf_ok_def)
  show ?thesis
  proof (cases "newcap B sz < capacity B")
    case True
    with grow show ?thesis
      unfolding luaL_prepbuffsize_def newcap_def [symmetric] by (simp add: Let_def run_simps)
  next
    case False
    let ?B = "B\<lparr>bmem := take (unat (nelems B)) (bmem B) @ map junk [unat (nelems B) ..< unat (newcap B sz)],
        inl := False, capacity := newcap B sz\<rparr>"
    let ?s = "s\<lparr>stk := base @ [LUdata (nud s)], nud := Suc (nud s), udat := (udat s)(nud s := URaw),
        umeta := (umeta s)(nud s := None)\<rparr>"
    have room: "unat (nelems B) + unat sz \<le> unat (newcap B sz)"
      by (rule newcap_room [OF n]) (use False in simp)
    have run: "luaL_prepbuffsize junk B sz s = Ok ?B ?s"
    proof (cases "inl B")
      case True
      with grow False ok show ?thesis
        unfolding luaL_prepbuffsize_def newcap_def [symmetric] by (simp add: Let_def run_simps buf_ok_def)
    next
      case heap: False
      then obtain u where "stk s = base @ [LUdata u]" using ok by (auto simp: buf_ok_def)
      with grow False heap show ?thesis
        unfolding luaL_prepbuffsize_def newcap_def [symmetric]
        by (simp add: Let_def run_simps lua_replace_below [where xs = base])
    qed
    have "buf_ok base ?s ?B"
      using ok room buf_ok_nelems [OF ok] by (simp add: buf_ok_def word_le_nat_alt)
    moreover have "contents ?B = contents B"
      using ok buf_ok_nelems [OF ok] by (simp add: contents_def buf_ok_def)
    moreover have "\<not> (capacity B - nelems B < sz \<and> newcap B sz < capacity B)" using False by simp
    ultimately show ?thesis using grow room run
      by (simp only: if_False) (intro exI [of _ ?B] exI [of _ ?s], simp)
  qed
qed

text \<open>
  Property C14: after \<open>luaL_prepbuffsize\<close> there is room for the bytes asked for behind the elements, which
  are still there, for every size up to \<open>2 ^ 64 - 1\<close>.  The error \<open>buffer too large\<close> is raised if and
  only if the buffer has to grow and either the elements and the size together do not fit a
  \<open>size_t\<close>, or twice the capacity wraps around to less than the elements.
\<close>

theorem prepbuffsize_room:
  assumes "buf_ok base s B"
  shows "case luaL_prepbuffsize junk B sz s of
      Ok B' s' \<Rightarrow> buf_ok base s' B' \<and> contents B' = contents B \<and>
        unat (nelems B') + unat sz \<le> length (bmem B') \<and>
        \<not> (unat (capacity B) < unat (nelems B) + unat sz \<and>
           2 ^ 64 \<le> 2 * unat (capacity B) \<and> 2 * unat (capacity B) < 2 ^ 64 + unat (nelems B))
    | Err e s' \<Rightarrow> e = LuaError (LStr ''buffer too large'') \<and> unat (capacity B) < unat (nelems B) + unat sz \<and>
        (2 ^ 64 \<le> unat (nelems B) + unat sz \<or>
         2 ^ 64 \<le> 2 * unat (capacity B) \<and> 2 * unat (capacity B) < 2 ^ 64 + unat (nelems B))"
proof -
  have "nelems B \<le> capacity B" using assms by (simp add: buf_ok_def)
  then show ?thesis
    using luaL_prepbuffsize_run [OF assms, of sz junk] newcap_wraps [of B sz] grows_iff [of B sz]
    by (cases "capacity B - nelems B < sz \<and> newcap B sz < capacity B") (auto simp: buf_ok_def)
qed

theorem prepbuffsize_room_witness:
  "\<exists>B' s'. luaL_prepbuffsize (\<lambda>_. CHR ''?'') \<lparr>bmem = ''abc?'', inl = True, nelems = 3, capacity = 4\<rparr> 10
      (sample_state ()) = Ok B' s' \<and> contents B' = ''abc'' \<and> 13 \<le> length (bmem B')"
proof -
  let ?B = "\<lparr>bmem = ''abc?'', inl = True, nelems = 3, capacity = 4\<rparr>"
  have ok: "buf_ok [] (sample_state ()) ?B" by (simp add: buf_ok_def)
  show ?thesis
    using prepbuffsize_room [OF ok, of 10 "\<lambda>_. CHR ''?''"]
    by (cases "luaL_prepbuffsize (\<lambda>_. CHR ''?'') ?B 10 (sample_state ())")
      (auto simp: contents_def luaL_prepbuffsize_def Let_def run_simps)
qed

subsection \<open>Adding\<close>

definition buf_frame :: "'w lst \<Rightarrow> 'w lst \<Rightarrow> bool" where
  "buf_frame s s' \<longleftrightarrow> tabs s' = tabs s \<and> world s' = world s \<and> errno s' = errno s \<and> live s' = live s"

lemma unat_of_nat_small: "n < 2 ^ 64 \<Longrightarrow> unat (of_nat n :: lint) = n"
  by (simp add: unsigned_of_nat take_bit_nat_eq_self)

lemma put_bytes_run:
  assumes ok: "buf_ok base s B" and fit: "unat (nelems B) + length x \<le> unat (capacity B)"
  shows "\<exists>B'. put_bytes x B s = Ok B' s \<and> buf_ok base s B' \<and> contents B' = contents B @ x \<and>
    capacity B' = capacity B"
proof -
  let ?n = "unat (nelems B)"
  let ?B = "B\<lparr>bmem := take ?n (bmem B) @ x @ drop (?n + length x) (bmem B), nelems := nelems B + of_nat (length x)\<rparr>"
  have cap: "unat (capacity B) < 2 ^ 64" using unsigned_less [of "capacity B"] by simp
  then have l: "unat (of_nat (length x) :: lint) = length x"
    using fit by (simp add: unat_of_nat_small)
  then have sum: "unat (nelems B + of_nat (length x)) = ?n + length x"
    using fit cap by (subst unat_sum) simp_all
  have len: "length (bmem B) = unat (capacity B)" using ok by (simp add: buf_ok_def)
  have "buf_ok base s ?B" using ok fit sum by (simp add: buf_ok_def word_le_nat_alt)
  moreover have "contents ?B = contents B @ x" using fit len sum by (simp add: contents_def)
  ultimately show ?thesis using fit len by (intro exI [of _ ?B]) (simp add: put_bytes_def Let_def run_simps)
qed

text \<open>No size wraps around while the contents stay below \<open>2 ^ 62\<close> bytes.\<close>

definition small :: "lint \<Rightarrow> nat \<Rightarrow> lbuf \<Rightarrow> bool" where
  "small bs T B \<longleftrightarrow> unat bs < 2 ^ 62 \<and> T < 2 ^ 62 \<and> unat (capacity B) \<le> max (unat bs) (2 * T)"

lemma newcap_small:
  assumes ok: "buf_ok base s B" and T: "small bs T B" "unat (nelems B) + unat sz \<le> T"
    and grow: "capacity B - nelems B < sz"
  shows "capacity B \<le> newcap B sz \<and> unat (newcap B sz) \<le> 2 * T"
proof -
  have n: "nelems B \<le> capacity B" using ok by (simp add: buf_ok_def)
  then have lt: "unat (capacity B) < unat (nelems B) + unat sz"
    using grow unat_sub_le [OF n] by (simp add: word_less_nat_alt)
  then have c2: "unat (capacity B * 2) = unat (capacity B) * 2"
    using T by (simp add: unat_word_ariths small_def)
  have s2: "unat (nelems B + sz) = unat (nelems B) + unat sz"
    using T by (intro unat_sum) (simp add: small_def)
  show ?thesis
    using lt T by (simp add: newcap_def Let_def word_le_nat_alt c2 s2)
qed

lemma luaL_addlstring_run:
  assumes ok: "buf_ok base s B" and T: "small bs T B" "length (contents B) + length x \<le> T"
  shows "\<exists>B' s'. luaL_addlstring junk B x s = Ok B' s' \<and> buf_ok base s' B' \<and> contents B' = contents B @ x \<and>
    small bs T B' \<and> buf_frame s s'"
proof -
  let ?sz = "of_nat (length x) :: lint"
  have sz: "unat ?sz = length x" using T by (simp add: unat_of_nat_small small_def)
  have fit: "unat (nelems B) + unat ?sz \<le> T" using T(2) length_contents [OF ok] sz by simp
  note small = newcap_small [OF ok T(1) fit]
  have "\<not> (capacity B - nelems B < ?sz \<and> newcap B ?sz < capacity B)" using small by auto
  then obtain B1 s1 where p: "luaL_prepbuffsize junk B ?sz s = Ok B1 s1" "buf_ok base s1 B1"
    "contents B1 = contents B" "nelems B1 = nelems B" "unat (nelems B) + unat ?sz \<le> unat (capacity B1)"
    "capacity B1 = (if capacity B - nelems B < ?sz then newcap B ?sz else capacity B)" "buf_frame s s1"
    using luaL_prepbuffsize_run [OF ok, of ?sz junk] by (auto simp: buf_frame_def split: if_splits)
  have "small bs T B1" using p(6) small T(1) by (simp add: small_def le_max_iff_disj)
  moreover obtain B2 where "put_bytes x B1 s1 = Ok B2 s1" "buf_ok base s1 B2" "contents B2 = contents B1 @ x"
    "capacity B2 = capacity B1"
    using put_bytes_run [OF p(2), of x] p(4,5) sz by auto
  ultimately show ?thesis using p
    by (intro exI [of _ B2] exI [of _ s1]) (simp add: luaL_addlstring_def run_simps small_def)
qed

lemma luaL_addchar_run:
  assumes ok: "buf_ok base s B" and T: "small bs T B" "length (contents B) + 1 \<le> T"
  shows "\<exists>B' s'. luaL_addchar junk B c s = Ok B' s' \<and> buf_ok base s' B' \<and> contents B' = contents B @ [c] \<and>
    small bs T B' \<and> buf_frame s s'"
proof (cases "nelems B < capacity B")
  case True
  then obtain B2 where "put_bytes [c] B s = Ok B2 s" "buf_ok base s B2" "contents B2 = contents B @ [c]"
    "capacity B2 = capacity B"
    using put_bytes_run [OF ok, of "[c]"] by (auto simp: word_less_nat_alt)
  with True T show ?thesis
    by (intro exI [of _ B2] exI [of _ s]) (simp add: luaL_addchar_def run_simps small_def buf_frame_def)
next
  case False
  then have "luaL_addchar junk B c s = luaL_addlstring junk B [c] s"
    by (simp add: luaL_addchar_def luaL_addlstring_def)
  with luaL_addlstring_run [OF ok T(1), of "[c]" junk] T(2) show ?thesis by simp
qed

lemma luaL_addvalue_run:
  assumes ok: "buf_ok base s B" and x: "val_str E (Some v) = Some x"
    and T: "small bs T B" "length (contents B) + length x \<le> T"
  shows "\<exists>B' s'. thn (lua_push v) (luaL_addvalue E junk B) s = Ok B' s' \<and> buf_ok base s' B' \<and>
    contents B' = contents B @ x \<and> small bs T B' \<and> buf_frame s s'"
proof -
  let ?base = "base @ [LStr x]"
  obtain s1 where s1: "thn (lua_push v) (lua_tolstring E (-1)) s = Ok (Some x) s1"
    "stk s1 = stk s @ [LStr x]" "buf_frame s s1"
    using x by (auto simp: run_simps put_at_def slot_def buf_frame_def)
  define s2 where "s2 = (if inl B then s1 else s1\<lparr>stk := ?base @ [last (stk s)]\<rparr>)"
  have ins: "when_do (\<not> inl B) (lua_insert (-2)) s1 = Ok () s2"
    using ok s1(2)
    by (auto simp: buf_ok_def when_do_run lua_insert_def slot_def s2_def butlast_append stk_self)
  have ok2: "buf_ok ?base s2 B" using ok s1(2) by (auto simp: buf_ok_def s2_def)
  obtain B' s3 where a: "luaL_addlstring junk B x s2 = Ok B' s3" "buf_ok ?base s3 B'"
    "contents B' = contents B @ x" "small bs T B'" "buf_frame s2 s3"
    using luaL_addlstring_run [OF ok2 T] by blast
  define s4 where "s4 = (if inl B' then s3\<lparr>stk := base\<rparr> else s3\<lparr>stk := base @ [last (stk s3)]\<rparr>)"
  have rem: "lua_remove (if inl B' then -1 else -2) s3 = Ok () s4"
    using a(2) by (auto simp: buf_ok_def lua_remove_def slot_def s4_def)
  have "thn (lua_push v) (luaL_addvalue E junk B) s = Ok B' s4"
    using s1(1) ins a(1) rem
    by (auto simp: thn_def bnd_def luaL_addvalue_def ret_def lua_push_def split: out.splits)
  moreover have "buf_ok base s4 B'" using a(2) by (auto simp: buf_ok_def s4_def)
  moreover have "buf_frame s s4" using s1(3) a(5) by (auto simp: buf_frame_def s2_def s4_def split: if_splits)
  ultimately show ?thesis using a by blast
qed

datatype bufop = AddString string | AddChar char | AddValue lvalue

fun run_op :: "env \<Rightarrow> (nat \<Rightarrow> char) \<Rightarrow> bufop \<Rightarrow> lbuf \<Rightarrow> ('w, lbuf) lm" where
  "run_op E junk (AddString x) B = luaL_addlstring junk B x"
| "run_op E junk (AddChar c) B = luaL_addchar junk B c"
| "run_op E junk (AddValue v) B = thn (lua_push v) (luaL_addvalue E junk B)"

fun op_text :: "env \<Rightarrow> bufop \<Rightarrow> string option" where
  "op_text E (AddString x) = Some x"
| "op_text E (AddChar c) = Some [c]"
| "op_text E (AddValue v) = val_str E (Some v)"

fun run_ops :: "env \<Rightarrow> (nat \<Rightarrow> char) \<Rightarrow> bufop list \<Rightarrow> lbuf \<Rightarrow> ('w, lbuf) lm" where
  "run_ops E junk [] B = ret B"
| "run_ops E junk (p # ps) B = bnd (run_op E junk p B) (run_ops E junk ps)"

lemma run_op_run:
  assumes "buf_ok base s B" "op_text E p = Some x" "small bs T B" "length (contents B) + length x \<le> T"
  shows "\<exists>B' s'. run_op E junk p B s = Ok B' s' \<and> buf_ok base s' B' \<and> contents B' = contents B @ x \<and>
    small bs T B' \<and> buf_frame s s'"
proof (cases p)
  case (AddString y)
  with assms luaL_addlstring_run [OF assms(1,3)] show ?thesis by simp
next
  case (AddChar c)
  with assms luaL_addchar_run [OF assms(1,3)] show ?thesis by auto
next
  case (AddValue v)
  with assms luaL_addvalue_run [OF assms(1) _ assms(3)] show ?thesis by auto
qed

lemma run_ops_run:
  assumes "buf_ok base s B" "map (op_text E) ps = map Some xs" "small bs T B"
    "length (contents B) + length (concat xs) \<le> T"
  shows "\<exists>B' s'. run_ops E junk ps B s = Ok B' s' \<and> buf_ok base s' B' \<and> contents B' = contents B @ concat xs \<and>
    buf_frame s s'"
  using assms
proof (induction ps arbitrary: xs B s)
  case Nil
  then show ?case by (simp add: run_simps buf_frame_def)
next
  case (Cons p ps)
  then obtain x ys where xs: "xs = x # ys" "op_text E p = Some x" "map (op_text E) ps = map Some ys"
    by (cases xs) auto
  then obtain B1 s1 where 1: "run_op E junk p B s = Ok B1 s1" "buf_ok base s1 B1" "contents B1 = contents B @ x"
    "small bs T B1" "buf_frame s s1"
    using run_op_run [OF Cons.prems(1) xs(2) Cons.prems(3), of junk] Cons.prems(4) by auto
  obtain B2 s2 where "run_ops E junk ps B1 s1 = Ok B2 s2" "buf_ok base s2 B2" "contents B2 = contents B1 @ concat ys"
    "buf_frame s1 s2"
    using Cons.IH [OF 1(2) xs(3) 1(4)] 1(3) xs(1) Cons.prems(4) by auto
  with 1 xs(1) show ?case by (intro exI [of _ B2] exI [of _ s2]) (simp add: run_simps buf_frame_def)
qed

text \<open>
  Property C13: a string buffer refines a string that is appended to.  Any run of additions (strings,
  characters, values from the stack, in any order, the block moving to the heap whenever it must
  grow) followed by \<open>luaL_pushresult\<close> leaves the frame as it was with the concatenation on top, as
  long as that is shorter than \<open>2 ^ 62\<close> bytes.
\<close>

theorem buffer_refines_string:
  assumes "map (op_text E) ps = map Some xs" "length (concat xs) < 2 ^ 62" "unat bs < 2 ^ 62"
  shows "\<exists>s'. bnd (luaL_buffinit junk bs) (\<lambda>B. bnd (run_ops E junk ps B) luaL_pushresult) s = Ok () s' \<and>
    stk s' = stk s @ [LStr (concat xs)] \<and> buf_frame s s'"
proof -
  let ?B = "\<lparr>bmem = map junk [0 ..< unat bs], inl = True, nelems = 0, capacity = bs\<rparr>"
  have ok: "buf_ok (stk s) s ?B" by (simp add: buf_ok_def)
  have small: "small bs (length (concat xs)) ?B" using assms by (simp add: small_def)
  have none: "contents ?B = []" by (simp add: contents_def)
  obtain B s1 where r: "run_ops E junk ps ?B s = Ok B s1" "buf_ok (stk s) s1 B" "contents B = concat xs"
    "buf_frame s s1"
    using run_ops_run [OF ok assms(1) small, of junk] none by auto
  have "\<exists>s'. luaL_pushresult B s1 = Ok () s' \<and> stk s' = stk s @ [LStr (contents B)] \<and> buf_frame s1 s'"
    using r(2)
    by (auto simp: luaL_pushresult_def run_simps buf_ok_def contents_def buf_frame_def
        lua_replace_below [where xs = "stk s"])
  with r show ?thesis by (auto simp: luaL_buffinit_def run_simps buf_frame_def)
qed

theorem buffer_refines_string_witness:
  "\<exists>s'. bnd (luaL_buffinit (\<lambda>_. CHR ''?'') 4) (\<lambda>B. bnd (run_ops sample_env (\<lambda>_. CHR ''?'')
        [AddString ''ab'', AddValue (LInt 7), AddChar (CHR ''c''), AddString ''def''] B) luaL_pushresult)
      (sample_state ()) = Ok () s' \<and> stk s' = [LStr ''ab7cdef''] \<and> buf_frame (sample_state ()) s'"
  using buffer_refines_string [of sample_env "[AddString ''ab'', AddValue (LInt 7), AddChar (CHR ''c''),
      AddString ''def'']" "[''ab'', ''7'', ''c'', ''def'']" 4 "\<lambda>_. CHR ''?''" "sample_state ()"]
  by (simp add: int_str_def int_dec_def nat_dec.simps)

section \<open>Tables and functions\<close>

lemma lua_absindex_run:
  "lua_absindex i s = Ok (if i < 0 \<and> -10000 < i then i + (int (length (stk s)) + 1) else i) s"
  by (simp add: lua_absindex_def run_simps LUA_REGISTRYINDEX_def)

lemma at_absindex:
  "at i xs = Some v \<Longrightarrow> at (if i < 0 then i + (int (length xs) + 1) else i) xs = Some v"
proof -
  assume at: "at i xs = Some v"
  show ?thesis
  proof (cases "i < 0")
    case True
    then have "nat (i + (int (length xs) + 1)) - 1 = length xs - nat (- i)" by linarith
    then show ?thesis using at True by (auto simp: at_def slot_def split: if_splits)
  qed (use at in simp)
qed

lemma luaL_getsubtable_run:
  assumes a: "at i (stk s) = Some (LTab a)" and i: "-10000 < i"
  shows "luaL_getsubtable E i name s =
    (case tbl_get (tabs s a) (LStr (cstr name)) of
       LTab b \<Rightarrow> Ok 1 (s\<lparr>stk := stk s @ [LTab b]\<rparr>)
     | _ \<Rightarrow> Ok 0 (tab_update a (LStr (cstr name)) (LTab (ntab s)) (new_table s)))"
proof -
  define j where "j = (if i < 0 then i + (int (length (stk s)) + 1) else i)"
  have slot: "0 < j" "at j (stk s) = Some (LTab a)"
    using a at_absindex [OF a] by (auto simp: j_def at_def slot_def split: if_splits)
  have abs: "lua_absindex i s = Ok j s" using i by (simp add: lua_absindex_run j_def)
  have get: "lua_gettable E j (s\<lparr>stk := stk s @ [LStr (cstr name)]\<rparr>) =
      Ok () (s\<lparr>stk := stk s @ [tbl_get (tabs s a) (LStr (cstr name))]\<rparr>)"
    using slot by (simp add: lua_gettable_run [where xs = "stk s" and a = a] at_append_pos)
  have set: "lua_settable j ((new_table s)\<lparr>stk := stk s @ [LTab (ntab s), LStr (cstr name), LTab (ntab s)]\<rparr>) =
      Ok () (tab_update a (LStr (cstr name)) (LTab (ntab s)) (new_table s))"
    using slot lua_settable_run [of "(new_table s)\<lparr>stk := stk s @ [LTab (ntab s), LStr (cstr name), LTab (ntab s)]\<rparr>"
        "stk s @ [LTab (ntab s)]" "LStr (cstr name)" "LTab (ntab s)" j a]
    by (simp add: at_append_pos stk_self)
  show ?thesis
  proof (cases "\<exists>b. tbl_get (tabs s a) (LStr (cstr name)) = LTab b")
    case True
    then show ?thesis by (auto simp: luaL_getsubtable_def run_simps abs get type_of_def)
  next
    case False
    then have "vtype (tbl_get (tabs s a) (LStr (cstr name))) \<noteq> TTABLE" by (auto simp: vtype_table)
    moreover have "new_table (s\<lparr>stk := stk s\<rparr>) = new_table s" by (simp add: stk_self)
    ultimately show ?thesis using False set
      by (auto simp: luaL_getsubtable_def run_simps abs get type_of_def split: lvalue.splits)
  qed
qed

text \<open>
  \<open>luaL_getsubtable\<close> leaves the table found under the name on the stack, making and storing
  an empty one when there is none; asked again it finds the same table.
\<close>

lemma getsubtable_once:
  assumes "at i (stk s) = Some (LTab a)" "-10000 < i" "0 < i" "a < ntab s"
  shows "\<exists>n b s1 s2. luaL_getsubtable E i name s = Ok n s1 \<and> stk s1 = stk s @ [LTab b] \<and>
    tbl_get (tabs s1 a) (LStr (cstr name)) = LTab b \<and>
    (n = 1 \<longleftrightarrow> (\<exists>c. tbl_get (tabs s a) (LStr (cstr name)) = LTab c)) \<and> (n = 0 \<longrightarrow> tabs s1 b = []) \<and>
    luaL_getsubtable E i name s1 = Ok 1 s2 \<and> stk s2 = stk s1 @ [LTab b] \<and> tabs s2 = tabs s1"
proof (cases "\<exists>b. tbl_get (tabs s a) (LStr (cstr name)) = LTab b")
  case True
  then obtain b where b: "tbl_get (tabs s a) (LStr (cstr name)) = LTab b" by blast
  let ?s1 = "s\<lparr>stk := stk s @ [LTab b]\<rparr>"
  have "luaL_getsubtable E i name s = Ok 1 ?s1" using b luaL_getsubtable_run [OF assms(1,2)] by simp
  moreover have "luaL_getsubtable E i name ?s1 = Ok 1 (?s1\<lparr>stk := stk ?s1 @ [LTab b]\<rparr>)"
    using b assms luaL_getsubtable_run [of i ?s1 a E name] by (simp add: at_append_pos)
  ultimately show ?thesis using b by (intro exI [of _ 1] exI [of _ b] exI) auto
next
  case False
  let ?s1 = "tab_update a (LStr (cstr name)) (LTab (ntab s)) (new_table s)"
  have "luaL_getsubtable E i name s = Ok 0 ?s1"
    using False luaL_getsubtable_run [OF assms(1,2)] by (auto split: lvalue.splits)
  moreover have "luaL_getsubtable E i name ?s1 = Ok 1 (?s1\<lparr>stk := stk ?s1 @ [LTab (ntab s)]\<rparr>)"
    using assms luaL_getsubtable_run [of i ?s1 a E name] by (simp add: at_append_pos)
  ultimately show ?thesis using False assms(4)
    by (intro exI [of _ 0] exI [of _ "ntab s"] exI) auto
qed

lemma at_from_top: "length ys = n \<Longrightarrow> at (- (int n + 1)) (xs @ y # ys) = Some y"
proof -
  assume "length ys = n"
  moreover have "nat (1 + int n) = Suc n" by simp
  ultimately show ?thesis by (simp add: at_def slot_def nth_append)
qed

lemma copy_upvalues:
  "stk s = pre @ ups @ [name] \<Longrightarrow> k \<le> length ups \<Longrightarrow>
   for_each [0 ..< k] (\<lambda>_. lua_pushvalue (- (int (length ups) + 1))) s =
     Ok () (s\<lparr>stk := stk s @ take k ups\<rparr>)"
proof (induction k)
  case 0
  then show ?case by (simp add: run_simps stk_self)
next
  case (Suc k)
  let ?s = "s\<lparr>stk := stk s @ take k ups\<rparr>"
  have "stk ?s = (pre @ take k ups) @ ups ! k # (drop (Suc k) ups @ [name] @ take k ups)"
    using Suc.prems by (simp add: id_take_nth_drop [symmetric])
  then have "at (- (int (length ups) + 1)) (stk ?s) = Some (ups ! k)"
    using Suc.prems(2) by (simp only:) (rule at_from_top, simp)
  then have "lua_pushvalue (- (int (length ups) + 1)) ?s = Ok () (s\<lparr>stk := stk s @ take (Suc k) ups\<rparr>)"
    using Suc.prems by (simp add: run_simps take_Suc_conv_app_nth)
  with Suc show ?case by (simp add: for_each_append run_simps)
qed

definition closures :: "(string \<times> string) list \<Rightarrow> lvalue list \<Rightarrow> ltable" where
  "closures l ups = map (\<lambda>(name, func). (LStr (cstr name), LCFun func ups)) l"

lemma luaL_setfuncs_loop:
  assumes "stk s = pre @ [LTab a] @ ups" "length ups \<le> 255"
  shows "for_each l (\<lambda>(name, func). seq [
      lua_pushstring name,
      for_each [0 ..< length ups] (\<lambda>_. lua_pushvalue (- (int (length ups) + 1))),
      lua_pushcclosure func (length ups),
      lua_settable (- (int (length ups) + 3))]) s =
    Ok () (set_tab a (tbl.put_all (tabs s a) (closures l ups)) s)"
  using assms
proof (induction l arbitrary: s)
  case Nil
  then show ?case by (simp add: run_simps closures_def)
next
  case (Cons e l)
  obtain name func where e: "e = (name, func)" by (cases e)
  let ?n = "length ups" and ?k = "s\<lparr>stk := stk s @ [LStr (cstr name)]\<rparr>"
  have copy: "for_each [0 ..< ?n] (\<lambda>_. lua_pushvalue (- (int ?n + 1))) ?k =
      Ok () (?k\<lparr>stk := stk ?k @ ups\<rparr>)"
    using copy_upvalues [of ?k "pre @ [LTab a]" ups "LStr (cstr name)" ?n] Cons.prems by simp
  let ?c = "s\<lparr>stk := stk s @ [LStr (cstr name), LCFun func ups]\<rparr>"
  have at: "at (- (int ?n + 3)) (stk ?c) = Some (LTab a)"
    using at_from_top [of "ups @ [LStr (cstr name), LCFun func ups]" "length ups + 2" pre "LTab a"] Cons.prems
    by (simp add: algebra_simps)
  have set: "lua_settable (- (int ?n + 3)) ?c = Ok () (tab_update a (LStr (cstr name)) (LCFun func ups) s)"
    using lua_settable_run [of ?c "stk s" "LStr (cstr name)" "LCFun func ups" "- (int ?n + 3)" a] at
    by (simp add: stk_self)
  have "for_each (e # l) (\<lambda>(name, func). seq [
      lua_pushstring name,
      for_each [0 ..< ?n] (\<lambda>_. lua_pushvalue (- (int ?n + 1))),
      lua_pushcclosure func ?n,
      lua_settable (- (int ?n + 3))]) s =
    for_each l (\<lambda>(name, func). seq [
      lua_pushstring name,
      for_each [0 ..< ?n] (\<lambda>_. lua_pushvalue (- (int ?n + 1))),
      lua_pushcclosure func ?n,
      lua_settable (- (int ?n + 3))]) (tab_update a (LStr (cstr name)) (LCFun func ups) s)"
    using copy set Cons.prems(2)
    by (simp add: e run_simps lua_pushcclosure_def Let_def)
  with Cons show ?case by (simp add: e closures_def tab_update_def)
qed

text \<open>
  \<open>luaL_setfuncs\<close> stores every function of the array under its name, as a closure over the
  values that were on top, in the table below them, and removes those values.
\<close>

lemma setfuncs_closures:
  assumes "stk s = pre @ [LTab a] @ ups" "length ups \<le> 255"
  shows "luaL_setfuncs l (length ups) s =
    Ok () (set_tab a (tbl.put_all (tabs s a) (closures l ups)) (s\<lparr>stk := pre @ [LTab a]\<rparr>))"
  using luaL_setfuncs_loop [OF assms, of l] assms(1)
  by (simp add: luaL_setfuncs_def run_simps)

lemma luaL_fileresult_run:
  "luaL_fileresult E ok fname s =
     (if ok then pushboolresult True s else pusherror E fname s)"
  by (simp add: luaL_fileresult_def run_simps pushboolresult_def error_values_def errmsg_def split: option.splits)

end
