(* ===== verification/Compat52Values.thy ===== *)
theory Compat52Values
  imports Compat52
begin

text \<open>
  \<^verbatim>\<open>ext/include/compat-5.2.c\<close>, second part: registry entries under addresses, the Lua chunks behind
  \<open>lua_arith\<close> and \<open>lua_compare\<close>, user values as environments, lengths and texts with metamethods,
  \<open>luaL_requiref\<close>, and unsigned numbers through doubles.  \<open>luaL_checkstack\<close> only reserves space and is
  left out.

  A call of a Lua or C function is a parameter \<open>call f args\<close>, which runs in a stack frame of its
  own and returns all its results.
\<close>

type_synonym 'w fcall = "lvalue \<Rightarrow> lvalue list \<Rightarrow> ('w, lvalue list) lm"

definition lua_call :: "'w fcall \<Rightarrow> nat \<Rightarrow> nat \<Rightarrow> ('w, unit) lm" where
  "lua_call call nargs nret s =
     (let k = length (stk s) - nargs in
      if length (stk s) < nargs + 1 then raise (Undefined ''stack underflow'') s
      else case call (stk s ! (k - 1)) (drop k (stk s)) (s\<lparr>stk := []\<rparr>) of
        Err e s' \<Rightarrow> Err e s'
      | Ok rs s' \<Rightarrow>
          Ok () (s'\<lparr>stk := take (k - 1) (stk s) @ take nret (rs @ replicate nret LNil)\<rparr>))"

section \<open>Raw access\<close>

text \<open>\<open>lua_rawget\<close> and \<open>lua_rawset\<close>, at a stack index or at the pseudo-index of the registry.\<close>

definition lua_rawget :: "int \<Rightarrow> ('w, unit) lm" where
  "lua_rawget i s =
     (if i = LUA_REGISTRYINDEX
      then Ok () (s\<lparr>stk := butlast (stk s) @ [tbl_get (regs s) (last (stk s))]\<rparr>)
      else case at i (stk s) of
        Some (LTab a) \<Rightarrow> Ok () (s\<lparr>stk := butlast (stk s) @ [tbl_get (tabs s a) (last (stk s))]\<rparr>)
      | _ \<Rightarrow> raise (Undefined ''table expected'') s)"

definition lua_rawset :: "int \<Rightarrow> ('w, unit) lm" where
  "lua_rawset i s =
     (let k = last (butlast (stk s)); v = last (stk s) in
      if i = LUA_REGISTRYINDEX then lua_pop 2 (s\<lparr>regs := tbl_set (regs s) k v\<rparr>)
      else case at i (stk s) of
        Some (LTab a) \<Rightarrow> lua_pop 2 (tab_update a k v s)
      | _ \<Rightarrow> raise (Undefined ''table expected'') s)"

definition lua_rawgetp :: "int \<Rightarrow> nat \<Rightarrow> ('w, unit) lm" where
  "lua_rawgetp i p =
     bnd (lua_absindex i) (\<lambda>abs_i. seq [lua_pushlightuserdata p, lua_rawget abs_i])"

definition lua_rawsetp :: "int \<Rightarrow> nat \<Rightarrow> ('w, unit) lm" where
  "lua_rawsetp i p =
     bnd (lua_absindex i) (\<lambda>abs_i. seq [lua_pushlightuserdata p, lua_insert (-2), lua_rawset abs_i])"

section \<open>Helper chunks\<close>

text \<open>
  \<open>compat52_call_lua\<close> keeps the function a chunk compiles to in the registry, under the address of
  the chunk's text.  \<open>load\<close> is \<open>luaL_loadbuffer\<close>: the function, or the error message.
\<close>

definition compat52_call_lua ::
  "(nat \<Rightarrow> lvalue + lvalue) \<Rightarrow> 'w fcall \<Rightarrow> nat \<Rightarrow> nat \<Rightarrow> nat \<Rightarrow> ('w, unit) lm" where
  "compat52_call_lua load call code nargs nret =
     thn (lua_rawgetp LUA_REGISTRYINDEX code)
    (bnd (lua_type (-1)) (\<lambda>t.
     thn (if t = TFUNCTION then ret ()
          else thn (lua_pop 1)
           (case load code of
              Inl msg \<Rightarrow> raise (LuaError msg)
            | Inr f \<Rightarrow> seq [lua_push f, lua_pushvalue (-1), lua_rawsetp LUA_REGISTRYINDEX code]))
    (thn (lua_insert (- int nargs - 1))
         (lua_call call nargs nret))))"

text \<open>
  The chunk \<open>compat52_arith_code\<close>: a chain of comparisons that falls through for other operators.
  \<open>arith\<close> is the arithmetic of the interpreter.
\<close>

definition compat52_arith_code :: "(nat \<Rightarrow> lvalue \<Rightarrow> lvalue \<Rightarrow> lvalue) \<Rightarrow> int \<Rightarrow> lvalue \<Rightarrow> lvalue \<Rightarrow> lvalue" where
  "compat52_arith_code arith opr a b =
     (if opr = 0 then arith 0 a b
      else if opr = 1 then arith 1 a b
      else if opr = 2 then arith 2 a b
      else if opr = 3 then arith 3 a b
      else if opr = 4 then arith 4 a b
      else if opr = 5 then arith 5 a b
      else if opr = 6 then arith 6 a a
      else LNil)"

text \<open>The chunk \<open>compat52_compare_code\<close>; \<open>le\<close> is the comparison of the interpreter.\<close>

definition compat52_compare_code :: "(lvalue \<Rightarrow> lvalue \<Rightarrow> bool) \<Rightarrow> lvalue \<Rightarrow> lvalue \<Rightarrow> lvalue" where
  "compat52_compare_code le a b = LBool (le a b)"

text \<open>The addresses of the two texts.\<close>

definition arith_code :: nat where
  "arith_code = 2"

definition compare_code :: nat where
  "compare_code = 3"

text \<open>\<open>lua_arith\<close> checks its operator with a condition that never holds.\<close>

definition lua_arith :: "(nat \<Rightarrow> lvalue + lvalue) \<Rightarrow> 'w fcall \<Rightarrow> cint \<Rightarrow> ('w, unit) lm" where
  "lua_arith load call opr = seq [
     when_do (sint opr < 0 \<and> 6 < sint opr)
       (raise (LuaError (LStr (''invalid '' @ [CHR 0x27] @ ''op'' @ [CHR 0x27] @ '' argument for lua_arith'')))),
     when_do (sint opr = 6) (lua_pushvalue (-1)),
     lua_pushinteger (of_cint opr),
     lua_insert (-3),
     compat52_call_lua load call arith_code 3 1]"

text \<open>\<open>lua_equal\<close> and \<open>lua_lessthan\<close> belong to the interpreter.\<close>

record 'w comparisons =
  c_lua_equal :: "lvalue option \<Rightarrow> lvalue option \<Rightarrow> ('w, bool) lm"
  c_lua_lessthan :: "lvalue option \<Rightarrow> lvalue option \<Rightarrow> ('w, bool) lm"

definition lua_compare ::
  "(nat \<Rightarrow> lvalue + lvalue) \<Rightarrow> 'w fcall \<Rightarrow> 'w comparisons \<Rightarrow> int \<Rightarrow> int \<Rightarrow> cint \<Rightarrow> ('w, bool) lm" where
  "lua_compare load call C idx1 idx2 opr =
     (if opr = 0 then bnd (asks (\<lambda>s. (at idx1 (stk s), at idx2 (stk s)))) (\<lambda>(a, b). c_lua_equal C a b)
      else if opr = 1 then bnd (asks (\<lambda>s. (at idx1 (stk s), at idx2 (stk s)))) (\<lambda>(a, b). c_lua_lessthan C a b)
      else if opr = 2 then
        bnd (lua_absindex idx1) (\<lambda>i.
        bnd (lua_absindex idx2) (\<lambda>j.
        thn (lua_pushvalue i)
       (thn (lua_pushvalue j)
       (thn (compat52_call_lua load call compare_code 2 1)
       (bnd (lua_toboolean (-1)) (\<lambda>result.
        thn (lua_pop 1) (ret result)))))))
      else raise (LuaError (LStr (''invalid '' @ [CHR 0x27] @ ''op'' @ [CHR 0x27] @ '' argument for lua_compare''))))"

section \<open>Userdata\<close>

text \<open>
  The metatable of a userdata is known by the name it is filed under in the registry; a light
  userdata has none.
\<close>

definition lua_touserdata :: "lvalue option \<Rightarrow> lvalue option" where
  "lua_touserdata v = (case v of
      Some (LUdata u) \<Rightarrow> Some (LUdata u)
    | Some (LLight p) \<Rightarrow> if p = 0 then None else Some (LLight p)
    | _ \<Rightarrow> None)"

definition luaL_testudata :: "int \<Rightarrow> string \<Rightarrow> ('w, lvalue option) lm" where
  "luaL_testudata i tname =
     bnd (asks (\<lambda>s. lua_touserdata (at i (stk s)))) (\<lambda>p.
     bnd (asks (\<lambda>s. case at i (stk s) of Some (LUdata u) \<Rightarrow> umeta s u | _ \<Rightarrow> None)) (\<lambda>mt.
     bnd (asks (\<lambda>s. mtabs s tname \<noteq> None)) (\<lambda>filed.
     if p = None \<or> mt = None then ret None
     else ret (if filed \<and> mt = Some tname then p else None))))"

text \<open>A name that no metatable is filed under takes the metatable away.\<close>

definition luaL_setmetatable :: "string \<Rightarrow> ('w, unit) lm" where
  "luaL_setmetatable tname s =
     (if mtabs s tname \<noteq> None then lua_setmetatable tname s
      else case at (-1) (stk s) of
        Some (LTab a) \<Rightarrow> Ok () (s\<lparr>metas := (metas s)(a := None)\<rparr>)
      | Some (LUdata u) \<Rightarrow> Ok () (s\<lparr>umeta := (umeta s)(u := None)\<rparr>)
      | _ \<Rightarrow> raise (Undefined ''metatable of a basic value'') s)"

subsection \<open>User values\<close>

text \<open>
  Lua 5.1 has no user values; the environment of a userdata serves instead.  Environments are
  tables: \<open>globals\<close> is the table of globals, \<open>fenv u\<close> the environment of the userdata \<open>u\<close>.
  A userdata whose environment is one of the two tables it can have been created with, the
  globals or the package table, has no user value.
\<close>

record env51 =
  globals :: nat
  fenv :: "nat \<Rightarrow> nat"

definition PACKAGE_KEY :: lvalue where
  "PACKAGE_KEY = LStr ''_COMPAT52_PACKAGE''"

text \<open>\<open>lua_rawget(L, LUA_GLOBALSINDEX)\<close> of a literal.\<close>

definition raw_global :: "env51 \<Rightarrow> string \<Rightarrow> ('w, unit) lm" where
  "raw_global X k s = lua_push (tbl_get (tabs s (globals X)) (LStr k)) s"

definition push_package_table :: "env51 \<Rightarrow> ('w, unit) lm" where
  "push_package_table X =
     thn (lua_push PACKAGE_KEY)
    (thn (lua_rawget LUA_REGISTRYINDEX)
    (bnd (lua_istable (-1)) (\<lambda>t.
     if t then ret ()
     else thn (lua_pop 1)
         (thn (raw_global X ''package'')
         (bnd (lua_istable (-1)) (\<lambda>t'.
          when_do t' (seq [lua_push PACKAGE_KEY, lua_pushvalue (-2), lua_rawset LUA_REGISTRYINDEX])))))))"

definition lua_rawequal :: "int \<Rightarrow> int \<Rightarrow> ('w, bool) lm" where
  "lua_rawequal i j = asks (\<lambda>s. at i (stk s) = at j (stk s))"

definition lua_getfenv :: "env51 \<Rightarrow> int \<Rightarrow> ('w, unit) lm" where
  "lua_getfenv X i s = (case at i (stk s) of
      Some (LUdata u) \<Rightarrow> lua_push (LTab (fenv X u)) s
    | _ \<Rightarrow> raise (Undefined ''userdata expected'') s)"

definition lua_getuservalue :: "env51 \<Rightarrow> int \<Rightarrow> ('w, unit) lm" where
  "lua_getuservalue X i =
     thn (luaL_checktype i TUSERDATA)
    (thn (lua_getfenv X i)
    (thn (lua_push (LTab (globals X)))
    (bnd (lua_rawequal (-1) (-2)) (\<lambda>g.
     if g then seq [lua_pop 1, lua_pushnil, lua_replace (-2)]
     else thn (lua_pop 1)
         (thn (push_package_table X)
         (bnd (lua_rawequal (-1) (-2)) (\<lambda>p.
          if p then seq [lua_pop 1, lua_pushnil, lua_replace (-2)]
          else lua_pop 1)))))))"

text \<open>\<open>lua_setfenv\<close> takes the table from the top; the new environments are returned.\<close>

definition lua_setfenv :: "env51 \<Rightarrow> int \<Rightarrow> ('w, env51) lm" where
  "lua_setfenv X i s = (case (at i (stk s), at (-1) (stk s)) of
      (Some (LUdata u), Some (LTab a)) \<Rightarrow>
        Ok (X\<lparr>fenv := (fenv X)(u := a)\<rparr>) (s\<lparr>stk := butlast (stk s)\<rparr>)
    | _ \<Rightarrow> raise (Undefined ''userdata and table expected'') s)"

definition lua_setuservalue :: "env51 \<Rightarrow> int \<Rightarrow> ('w, env51) lm" where
  "lua_setuservalue X i =
     thn (luaL_checktype i TUSERDATA)
    (bnd (lua_isnil (-1)) (\<lambda>nil.
     thn (when_do nil (seq [lua_push (LTab (globals X)), lua_replace (-2)]))
         (lua_setfenv X i)))"

section \<open>Metamethods\<close>

text \<open>The field of the metatable of a value, if it is not nil.\<close>

definition metafield :: "'w lst \<Rightarrow> lvalue option \<Rightarrow> string \<Rightarrow> lvalue option" where
  "metafield s v event =
     (let mt = (case v of Some (LTab a) \<Rightarrow> metas s a | Some (LUdata u) \<Rightarrow> umeta s u | _ \<Rightarrow> None) in
      case Option.bind mt (\<lambda>t. Option.bind (mtabs s t) (\<lambda>fs. map_of fs event)) of
        Some LNil \<Rightarrow> None | r \<Rightarrow> r)"

definition luaL_callmeta :: "'w fcall \<Rightarrow> int \<Rightarrow> string \<Rightarrow> ('w, bool) lm" where
  "luaL_callmeta call i event =
     bnd (lua_absindex i) (\<lambda>obj.
     bnd (asks (\<lambda>s. metafield s (at obj (stk s)) event)) (\<lambda>m. case m of
       None \<Rightarrow> ret False
     | Some f \<Rightarrow> thn (seq [lua_push f, lua_pushvalue obj, lua_call call 1 1]) (ret True)))"

definition lua_len :: "'w fcall \<Rightarrow> env \<Rightarrow> int \<Rightarrow> ('w, unit) lm" where
  "lua_len call E i =
     bnd (lua_type i) (\<lambda>t.
     let no_length = raise (LuaError (LStr (''attempt to get length of a '' @ lua_typename t @ '' value''))) in
     if t = TSTRING \<or> t = TTABLE then
       bnd (luaL_callmeta call i ''__len'') (\<lambda>m.
       if m then ret () else bnd (lua_objlen E i) (\<lambda>n. lua_pushinteger (of_cint (to_cint n))))
     else if t = TUSERDATA then
       bnd (luaL_callmeta call i ''__len'') (\<lambda>m. if m then ret () else no_length)
     else no_length)"

text \<open>\<open>ptr_text\<close> prints the address \<open>lua_topointer\<close> returns for a value.\<close>

definition luaL_tolstring ::
  "'w fcall \<Rightarrow> env \<Rightarrow> (lvalue option \<Rightarrow> string) \<Rightarrow> int \<Rightarrow> ('w, string option) lm" where
  "luaL_tolstring call E ptr_text idx =
     bnd (luaL_callmeta call idx ''__tostring'') (\<lambda>m.
     thn (if m then ret ()
          else bnd (lua_type idx) (\<lambda>t.
            if t = TNIL then lua_pushlstring ''nil''
            else if t = TSTRING \<or> t = TNUMBER then lua_pushvalue idx
            else if t = TBOOLEAN then
              bnd (lua_toboolean idx) (\<lambda>b. lua_pushlstring (if b then ''true'' else ''false''))
            else bnd (asks (\<lambda>s. ptr_text (at idx (stk s)))) (\<lambda>p.
              lua_pushlstring (lua_typename t @ '': '' @ p))))
         (lua_tolstring E (-1)))"

section \<open>Numbers\<close>

text \<open>
  The numbers of Lua 5.1 are doubles.  A finite double is a pair \<open>(m, e)\<close> with the value
  \<open>m * 2 ^ e\<close>; an \<open>LInt\<close> is a double with an integer value.  \<open>n2i\<close> is the conversion
  \<open>lua_number2integer\<close> of the host.
\<close>

type_synonym dbl = "int \<times> int"

abbreviation dbl_int :: "int \<Rightarrow> dbl" where
  "dbl_int z \<equiv> (z, 0)"

record num51 =
  fltval :: "nat \<Rightarrow> dbl"
  strnum :: "string \<Rightarrow> dbl option" \<comment> \<open>the value of a numeral\<close>
  n2i :: "dbl \<Rightarrow> lint"

fun number_of :: "num51 \<Rightarrow> lvalue option \<Rightarrow> dbl option" where
  "number_of N (Some (LInt n)) = Some (dbl_int (sint n))"
| "number_of N (Some (LFlt f)) = Some (fltval N f)"
| "number_of N (Some (LStr x)) = strnum N x"
| "number_of N _ = None"

definition lua_isnumber :: "num51 \<Rightarrow> int \<Rightarrow> ('w, bool) lm" where
  "lua_isnumber N i = asks (\<lambda>s. number_of N (at i (stk s)) \<noteq> None)"

definition lua_tonumber :: "num51 \<Rightarrow> int \<Rightarrow> ('w, dbl) lm" where
  "lua_tonumber N i = asks (\<lambda>s. case number_of N (at i (stk s)) of None \<Rightarrow> dbl_int 0 | Some n \<Rightarrow> n)"

definition lua_tointeger51 :: "num51 \<Rightarrow> int \<Rightarrow> ('w, lint) lm" where
  "lua_tointeger51 N i = asks (\<lambda>s. case number_of N (at i (stk s)) of None \<Rightarrow> 0 | Some n \<Rightarrow> n2i N n)"

definition lua_tonumberx :: "num51 \<Rightarrow> int \<Rightarrow> ('w, dbl \<times> bool) lm" where
  "lua_tonumberx N i =
     bnd (lua_tonumber N i) (\<lambda>n.
     bnd (lua_isnumber N i) (\<lambda>num.
     ret (n, fst n \<noteq> 0 \<or> num)))"

definition lua_tointegerx51 :: "num51 \<Rightarrow> int \<Rightarrow> ('w, lint \<times> bool) lm" where
  "lua_tointegerx51 N i =
     bnd (lua_tointeger51 N i) (\<lambda>n.
     bnd (lua_isnumber N i) (\<lambda>num.
     ret (n, n \<noteq> 0 \<or> num)))"

definition luaL_len :: "'w fcall \<Rightarrow> env \<Rightarrow> num51 \<Rightarrow> int \<Rightarrow> ('w, cint) lm" where
  "luaL_len call E N i =
     thn (lua_len call E i)
    (bnd (lua_tointegerx51 N (-1)) (\<lambda>(res, isnum).
     thn (lua_pop 1)
    (if isnum then ret (to_cint res)
     else raise (LuaError (LStr ''object length is not a number'')))))"

subsection \<open>Unsigned numbers\<close>

text \<open>
  \<open>lua_number2int32\<close> adds \<open>6755399441055744.0\<close>, which is \<open>3 * 2 ^ 51\<close>, and takes the lower 32 bits of
  the sum's representation.  A double with the exponent \<open>k\<close> has a significand of 53 bits, whose upper
  bit is not stored; a sum is rounded to the nearest significand, ties to even.
\<close>

definition round_even :: "dbl \<Rightarrow> int" where
  "round_even d = (case d of (m, e) \<Rightarrow>
     if 0 \<le> e then m * 2 ^ nat e
     else let k = 2 ^ nat (- e); f = m div k; r = m mod k in
       if 2 * r < k then f else if k < 2 * r then f + 1
       else if even f then f else f + 1)"

definition floor_dbl :: "dbl \<Rightarrow> int" where
  "floor_dbl d = (case d of (m, e) \<Rightarrow> if 0 \<le> e then m * 2 ^ nat e else m div 2 ^ nat (- e))"

definition add_dbl :: "dbl \<Rightarrow> int \<Rightarrow> dbl" where
  "add_dbl d b = (case d of (m, e) \<Rightarrow>
     if 0 \<le> e then (m * 2 ^ nat e + b, 0) else (m + b * 2 ^ nat (- e), e))"

fun exponent :: "nat \<Rightarrow> nat" where
  "exponent n = (if n < 2 then 0 else Suc (exponent (n div 2)))"

declare exponent.simps [simp del]

text \<open>
  The sign, the exponent and the significand of the sum.  Doubles of the size of the constant are
  integers, so no sum but zero is below 1; one that is, or that is no finite double, is \<open>None\<close>.
\<close>

definition double_sum :: "dbl \<Rightarrow> (bool \<times> nat \<times> int) option" where
  "double_sum d =
     (let s = add_dbl d 6755399441055744; m = \<bar>fst s\<bar>; z = nat (floor_dbl (m, snd s)); k = exponent z
      in if z = 0 \<and> m \<noteq> 0 \<or> 1023 \<le> k then None
         else Some (fst s < 0, k, round_even (m, snd s + 52 - int k)))"

fun double_bits :: "bool \<times> nat \<times> int \<Rightarrow> 64 word" where
  "double_bits (neg, k, q) = word_of_int ((if neg then 2 ^ 63 else 0) +
     (if q = 0 then 0 else int (1023 + k) * 2 ^ 52 + (q - 2 ^ 52)))"

definition lua_number2unsigned :: "dbl \<Rightarrow> cint option" where
  "lua_number2unsigned n = map_option (\<lambda>z. ucast (double_bits z)) (double_sum n)"

text \<open>
  The definition for other hosts: \<open>n - floor(n / 2^32) * 2^32\<close>, cast to unsigned.  Dividing by a power of
  two is exact; the difference is, when its significand has at most 53 bits.
\<close>

definition difference :: "dbl \<Rightarrow> int \<Rightarrow> dbl" where
  "difference d k = (case d of (m, e) \<Rightarrow>
     if 0 \<le> e then (m * 2 ^ nat e - k, 0) else (m - k * 2 ^ nat (- e), e))"

definition lua_number2unsigned_floor :: "dbl \<Rightarrow> cint option" where
  "lua_number2unsigned_floor d =
     (let r = difference d (floor_dbl (fst d, snd d - 32) * 2 ^ 32) in
      if \<bar>fst r\<bar> < 2 ^ 53 then Some (word_of_int (floor_dbl r)) else None)"

text \<open>\<open>lua_unsigned2number\<close>: through \<open>int\<close> when the number fits.\<close>

definition lua_unsigned2number :: "cint \<Rightarrow> dbl" where
  "lua_unsigned2number u = (if u \<le> 2147483647 then dbl_int (sint u) else dbl_int (uint u))"

definition number2unsigned :: "dbl \<Rightarrow> ('w, cint) lm" where
  "number2unsigned n = (case lua_number2unsigned n of
      None \<Rightarrow> raise (Undefined ''number outside the range of the conversion'')
    | Some u \<Rightarrow> ret u)"

text \<open>A double with an integer value is pushed as an \<open>LInt\<close>.\<close>

definition lua_pushunsigned :: "cint \<Rightarrow> ('w, unit) lm" where
  "lua_pushunsigned u = lua_push (LInt (word_of_int (floor_dbl (lua_unsigned2number u))))"

definition luaL_checkunsigned :: "num51 \<Rightarrow> int \<Rightarrow> ('w, cint) lm" where
  "luaL_checkunsigned N i =
     bnd (lua_tonumber N i) (\<lambda>n.
     bnd (lua_isnumber N i) (\<lambda>num.
     thn (when_do (fst n = 0 \<and> \<not> num) (luaL_checktype i TNUMBER))
         (number2unsigned n)))"

definition lua_tounsignedx :: "num51 \<Rightarrow> int \<Rightarrow> ('w, cint \<times> bool) lm" where
  "lua_tounsignedx N i =
     bnd (lua_tonumberx N i) (\<lambda>(n, isnum).
     bnd (number2unsigned n) (\<lambda>u. ret (u, isnum)))"

definition luaL_optunsigned :: "num51 \<Rightarrow> int \<Rightarrow> cint \<Rightarrow> ('w, cint) lm" where
  "luaL_optunsigned N i def =
     bnd (lua_isnoneornil i) (\<lambda>none. if none then ret def else luaL_checkunsigned N i)"

section \<open>Modules\<close>

definition lua_setglobal :: "env51 \<Rightarrow> string \<Rightarrow> ('w, unit) lm" where
  "lua_setglobal X k s = lua_pop 1 (tab_update (globals X) (LStr k) (last (stk s)) s)"

definition luaL_requiref :: "env \<Rightarrow> env51 \<Rightarrow> 'w fcall \<Rightarrow> string \<Rightarrow> string \<Rightarrow> bool \<Rightarrow> ('w, unit) lm" where
  "luaL_requiref E X call modname openf glb = seq [
     lua_push (LCFun openf []),
     lua_pushstring modname,
     lua_call call 1 1,
     raw_global X ''package'',
     lua_getfield E (-1) ''loaded'',
     lua_replace (-2),
     lua_pushvalue (-2),
     lua_setfield (-2) modname,
     lua_pop 1,
     when_do glb (seq [lua_pushvalue (-1), lua_setglobal X modname])]"

definition luaL_checkversion :: "('w, unit) lm" where
  "luaL_checkversion = ret ()"

section \<open>What they do\<close>

lemma rawgetp_registry:
  "lua_rawgetp LUA_REGISTRYINDEX p s = Ok () (s\<lparr>stk := stk s @ [tbl_get (regs s) (LLight p)]\<rparr>)"
  by (simp add: lua_rawgetp_def lua_absindex_def LUA_REGISTRYINDEX_def lua_rawget_def run_simps)

lemma rawsetp_registry:
  "stk s = xs @ [v] \<Longrightarrow>
   lua_rawsetp LUA_REGISTRYINDEX p s = Ok () (s\<lparr>stk := xs, regs := tbl_set (regs s) (LLight p) v\<rparr>)"
  by (simp add: lua_rawsetp_def lua_absindex_def LUA_REGISTRYINDEX_def lua_rawset_def run_simps
      lua_insert_def slot_def Let_def butlast_append)

lemma insert_below:
  "stk s = xs @ args @ [f] \<Longrightarrow>
   lua_insert (- int (length args) - 1) s = Ok () (s\<lparr>stk := xs @ f # args\<rparr>)"
proof -
  assume s: "stk s = xs @ args @ [f]"
  have "nat (- (- int (length args) - 1)) = Suc (length args)" by simp
  then show ?thesis using s by (simp add: lua_insert_def slot_def butlast_append)
qed

lemma lua_call_run:
  assumes "stk s = xs @ f # args" "call f args (s\<lparr>stk := []\<rparr>) = Ok rs s'"
  shows "lua_call call (length args) nret s =
    Ok () (s'\<lparr>stk := xs @ take nret (rs @ replicate nret LNil)\<rparr>)"
  using assms by (simp add: lua_call_def Let_def nth_append)

text \<open>The registry after the chunk \<open>code\<close> has been looked up or loaded, and its function.\<close>

definition filed :: "nat \<Rightarrow> lvalue \<Rightarrow> ltable \<Rightarrow> ltable" where
  "filed code f r = (if vtype (tbl_get r (LLight code)) = TFUNCTION then r else tbl_set r (LLight code) f)"

definition chunk_fun :: "nat \<Rightarrow> lvalue \<Rightarrow> ltable \<Rightarrow> lvalue" where
  "chunk_fun code f r =
     (if vtype (tbl_get r (LLight code)) = TFUNCTION then tbl_get r (LLight code) else f)"

lemma compat52_call_lua_run:
  assumes s: "stk s = xs @ args" and load: "load code = Inr f"
    and call: "call (chunk_fun code f (regs s)) args (s\<lparr>regs := filed code f (regs s), stk := []\<rparr>) = Ok rs s'"
  shows "compat52_call_lua load call code (length args) nret s =
    Ok () (s'\<lparr>stk := xs @ take nret (rs @ replicate nret LNil)\<rparr>)"
proof -
  let ?f = "chunk_fun code f (regs s)"
  let ?s = "s\<lparr>stk := xs @ args @ [?f], regs := filed code f (regs s)\<rparr>"
  have found: "compat52_call_lua load call code (length args) nret s =
      thn (lua_insert (- int (length args) - 1)) (lua_call call (length args) nret) ?s"
  proof (cases "vtype (tbl_get (regs s) (LLight code)) = TFUNCTION")
    case True
    then show ?thesis using s
      by (simp add: compat52_call_lua_def rawgetp_registry run_simps type_of_def at_m1 chunk_fun_def
          filed_def)
  next
    case False
    have "lua_rawsetp LUA_REGISTRYINDEX code (s\<lparr>stk := xs @ args @ [f, f]\<rparr>) =
        Ok () (s\<lparr>stk := xs @ args @ [f], regs := tbl_set (regs s) (LLight code) f\<rparr>)"
      using rawsetp_registry [of "s\<lparr>stk := xs @ args @ [f, f]\<rparr>" "xs @ args @ [f]" f code] by simp
    with False s load show ?thesis
      by (simp add: compat52_call_lua_def rawgetp_registry run_simps type_of_def at_m1 chunk_fun_def
          filed_def lua_pushvalue_def)
  qed
  have "lua_insert (- int (length args) - 1) ?s = Ok () (?s\<lparr>stk := xs @ ?f # args\<rparr>)"
    by (rule insert_below) simp
  moreover have "lua_call call (length args) nret (?s\<lparr>stk := xs @ ?f # args\<rparr>) =
      Ok () (s'\<lparr>stk := xs @ take nret (rs @ replicate nret LNil)\<rparr>)"
    by (rule lua_call_run) (use call in simp_all)
  ultimately show ?thesis by (simp add: found run_simps)
qed

text \<open>
  The chunk behind a helper is compiled at most once.  The first call files the
  function under the address of its text and calls it with the arguments; as long as the
  registry keeps it, every later call, in whatever state, calls that function and leaves the
  registry as it is, even if the text could no longer be loaded.
\<close>

lemma chunk_compiled_once:
  assumes "load code = Inr f" "vtype f = TFUNCTION" "vtype (tbl_get (regs s) (LLight code)) \<noteq> TFUNCTION"
    and "stk s = xs @ args"
    and "call f args (s\<lparr>regs := tbl_set (regs s) (LLight code) f, stk := []\<rparr>) = Ok rs s1"
    and "tbl_get (regs t) (LLight code) = f" "stk t = ys @ args'"
    and "call f args' (t\<lparr>stk := []\<rparr>) = Ok rs' t1"
  shows "compat52_call_lua load call code (length args) nret s =
      Ok () (s1\<lparr>stk := xs @ take nret (rs @ replicate nret LNil)\<rparr>) \<and>
    compat52_call_lua load' call code (length args') nret t =
      Ok () (t1\<lparr>stk := ys @ take nret (rs' @ replicate nret LNil)\<rparr>)"
proof
  show "compat52_call_lua load call code (length args) nret s =
      Ok () (s1\<lparr>stk := xs @ take nret (rs @ replicate nret LNil)\<rparr>)"
    by (rule compat52_call_lua_run) (use assms in \<open>simp_all add: chunk_fun_def filed_def\<close>)
  have "vtype (tbl_get (regs t) (LLight code)) = TFUNCTION" using assms(2,6) by simp
  moreover from this have "compat52_call_lua load' call code (length args') nret t =
      compat52_call_lua (\<lambda>_. Inr f) call code (length args') nret t"
    by (simp add: compat52_call_lua_def rawgetp_registry run_simps type_of_def at_m1)
  moreover have "compat52_call_lua (\<lambda>_. Inr f) call code (length args') nret t =
      Ok () (t1\<lparr>stk := ys @ take nret (rs' @ replicate nret LNil)\<rparr>)"
    by (rule compat52_call_lua_run) (use assms(2,6,7,8) in \<open>simp_all add: chunk_fun_def filed_def stk_self\<close>)
  ultimately show "compat52_call_lua load' call code (length args') nret t =
      Ok () (t1\<lparr>stk := ys @ take nret (rs' @ replicate nret LNil)\<rparr>)" by simp
qed

subsection \<open>Arithmetic\<close>

text \<open>\<open>call\<close> runs the arithmetic chunk \<open>f\<close> as its text says.\<close>

definition runs_arith :: "'w fcall \<Rightarrow> lvalue \<Rightarrow> (nat \<Rightarrow> lvalue \<Rightarrow> lvalue \<Rightarrow> lvalue) \<Rightarrow> bool" where
  "runs_arith call f arith \<longleftrightarrow>
     (\<forall>n a b s. call f [LInt n, a, b] s = Ok [compat52_arith_code arith (sint n) a b] s)"

lemma lua_arith_run:
  assumes "stk s = xs @ [a, b]" "sint opr \<noteq> 6" "load arith_code = Inr f"
    and "runs_arith call (chunk_fun arith_code f (regs s)) arith"
  shows "lua_arith load call opr s = Ok () (s\<lparr>regs := filed arith_code f (regs s),
    stk := xs @ [compat52_arith_code arith (sint opr) a b]\<rparr>)"
proof -
  let ?s = "s\<lparr>stk := xs @ [LInt (of_cint opr), a, b]\<rparr>"
  have run: "call (chunk_fun arith_code f (regs s)) [LInt (of_cint opr), a, b] t =
      Ok [compat52_arith_code arith (sint opr) a b] t" for t
    using assms(4) by (simp add: runs_arith_def sint_of_cint)
  have "compat52_call_lua load call arith_code (length [LInt (of_cint opr), a, b]) 1 ?s =
      Ok () ((s\<lparr>regs := filed arith_code f (regs s), stk := []\<rparr>)
        \<lparr>stk := xs @ take 1 ([compat52_arith_code arith (sint opr) a b] @ replicate 1 LNil)\<rparr>)"
    by (rule compat52_call_lua_run)
      (use assms(1,3) run in simp_all)
  then show ?thesis using assms(1,2)
    by (simp add: lua_arith_def run_simps lua_insert_def slot_def butlast_append numeral_3_eq_3)
qed

text \<open>
  Every operator is accepted: one that the chunk does not know pops the operands and leaves nil
  in place of the error.
\<close>

lemma arith_unknown_operator:
  assumes "stk s = xs @ [a, b]" "sint opr \<notin> {0..6}" "load arith_code = Inr f"
    and "runs_arith call (chunk_fun arith_code f (regs s)) arith"
  shows "lua_arith load call opr s = Ok () (s\<lparr>regs := filed arith_code f (regs s), stk := xs @ [LNil]\<rparr>)"
proof -
  have "compat52_arith_code arith (sint opr) a b = LNil" "sint opr \<noteq> 6"
    using assms(2) by (auto simp: compat52_arith_code_def)
  with lua_arith_run [where load = load and call = call, OF assms(1) _ assms(3,4)] show ?thesis by simp
qed

subsection \<open>Comparison\<close>

definition runs_compare :: "'w fcall \<Rightarrow> lvalue \<Rightarrow> (lvalue \<Rightarrow> lvalue \<Rightarrow> bool) \<Rightarrow> bool" where
  "runs_compare call f le \<longleftrightarrow> (\<forall>a b s. call f [a, b] s = Ok [compat52_compare_code le a b] s)"

text \<open>With \<open>LUA_OPLE\<close> the answer is that of the interpreter, and the stack is as before.\<close>

lemma lua_compare_le:
  assumes "0 < i" "0 < j" "at i (stk s) = Some a" "at j (stk s) = Some b" "load compare_code = Inr f"
    and "runs_compare call (chunk_fun compare_code f (regs s)) le"
  shows "lua_compare load call C i j 2 s = Ok (le a b) (s\<lparr>regs := filed compare_code f (regs s)\<rparr>)"
proof -
  let ?s = "s\<lparr>stk := stk s @ [a, b]\<rparr>"
  have run: "call (chunk_fun compare_code f (regs s)) [a, b] t = Ok [LBool (le a b)] t" for t
    using assms(6) by (simp add: runs_compare_def compat52_compare_code_def)
  have "compat52_call_lua load call compare_code (length [a, b]) 1 ?s =
      Ok () ((s\<lparr>regs := filed compare_code f (regs s), stk := []\<rparr>)
        \<lparr>stk := stk s @ take 1 ([LBool (le a b)] @ replicate 1 LNil)\<rparr>)"
    by (rule compat52_call_lua_run)
      (use assms(5) run in simp_all)
  then show ?thesis using assms(1-4)
    by (simp add: lua_compare_def lua_absindex_def run_simps at_append_pos at_m1 numeral_2_eq_2)
qed

subsection \<open>Unsigned numbers\<close>

lemma double_bits_low: "ucast (double_bits (neg, k, q)) = (word_of_int q :: cint)"
proof -
  have "uint (ucast (word_of_int i :: 64 word) :: cint) = i mod 2 ^ 32" for i
    by (simp add: unsigned_ucast_eq take_bit_eq_mod uint_word_of_int mod_mod_cancel)
  from this [of "a * 2 ^ 32 + q" for a]
  have low: "ucast (word_of_int (a * 2 ^ 32 + q) :: 64 word) = (word_of_int q :: cint)" for a
    by (intro word_uint_eqI) (simp only: uint_word_of_int mod_mult_self3 len_num1 len_bit0, simp)
  let ?a = "(if neg then 2 ^ 31 else 0) + (if q = 0 then 0 else int (1022 + k) * 2 ^ 20)"
  have "(if neg then 2 ^ 63 else 0) + (if q = 0 then 0 else int (1023 + k) * 2 ^ 52 + (q - 2 ^ 52)) =
      ?a * 2 ^ 32 + q" by (simp add: algebra_simps)
  then show ?thesis unfolding double_bits.simps using low [of ?a] by (simp only:)
qed

lemma exponent_eq: "2 ^ k \<le> n \<Longrightarrow> n < 2 ^ Suc k \<Longrightarrow> exponent n = k"
proof (induction k arbitrary: n)
  case (Suc k)
  then have "exponent (n div 2) = k" by simp
  moreover have "2 \<le> n" using order_trans [OF power_increasing [of 1 "Suc k" 2] Suc.prems(1)] by simp
  ultimately show ?case by (simp add: exponent.simps [of n])
qed (simp add: exponent.simps)

lemma round_even_add: "even b \<Longrightarrow> round_even (add_dbl d b) = round_even d + b"
  by (cases d) (auto simp: round_even_def add_dbl_def Let_def)

lemma floor_add: "floor_dbl (add_dbl d b) = floor_dbl d + b"
  by (cases d) (auto simp: floor_dbl_def add_dbl_def)

lemma floor_le_round: "floor_dbl d \<le> round_even d"
  by (cases d) (auto simp: floor_dbl_def round_even_def Let_def)

lemma floor_pos: "0 \<le> floor_dbl d \<Longrightarrow> 0 \<le> fst d"
  by (cases d) (auto simp: floor_dbl_def zero_le_mult_iff pos_imp_zdiv_nonneg_iff split: if_splits)

text \<open>In the range in which the sum is between \<open>2 ^ 52\<close> and \<open>2 ^ 53\<close>, its significand is an integer.\<close>

lemma number2unsigned_round:
  assumes "- (2 ^ 51) \<le> floor_dbl d" "round_even d < 2 ^ 51"
  shows "lua_number2unsigned d = Some (word_of_int (round_even d))"
proof -
  let ?b = "6755399441055744 :: int"
  let ?s = "add_dbl d ?b"
  have fl: "floor_dbl ?s = floor_dbl d + ?b" by (rule floor_add)
  have "floor_dbl d < 2 ^ 51" using floor_le_round [of d] assms(2) by simp
  then have k: "exponent (nat (floor_dbl ?s)) = 52"
    using assms(1) fl by (intro exponent_eq) simp_all
  have m: "\<bar>fst ?s\<bar> = fst ?s" "\<not> fst ?s < 0"
    using floor_pos [of ?s] fl assms(1) by simp_all
  have "double_sum d = Some (False, 52, round_even ?s)"
    using k fl assms(1) m by (simp add: double_sum_def Let_def)
  moreover have "round_even ?s = round_even d + ?b" by (rule round_even_add) simp
  moreover have "(word_of_int (round_even d + ?b) :: cint) = word_of_int (round_even d)" by simp
  ultimately show ?thesis
    by (simp only: lua_number2unsigned_def option.map double_bits_low)
qed

lemma number2unsigned_int:
  "- (2 ^ 51) \<le> z \<Longrightarrow> z < 2 ^ 51 \<Longrightarrow> lua_number2unsigned (dbl_int z) = Some (word_of_int z)"
  using number2unsigned_round [of "dbl_int z"] by (simp add: round_even_def floor_dbl_def)

text \<open>A larger number loses its lower bits to the rounding of the sum.\<close>

lemma number2unsigned_large:
  "lua_number2unsigned (dbl_int 9007199254740994) = Some 1"
  "lua_number2unsigned_floor (dbl_int 9007199254740994) = Some 2"
proof -
  have "exponent 15762598695796738 = 53" by (rule exponent_eq) simp_all
  then show "lua_number2unsigned (dbl_int 9007199254740994) = Some 1"
    by (simp add: lua_number2unsigned_def double_sum_def add_dbl_def floor_dbl_def round_even_def Let_def
        double_bits_low del: double_bits.simps)
  show "lua_number2unsigned_floor (dbl_int 9007199254740994) = Some 2"
    by (simp add: lua_number2unsigned_floor_def floor_dbl_def difference_def Let_def)
qed

lemma floor_difference: "floor_dbl (difference d k) = floor_dbl d - k"
proof (cases d)
  case (Pair m e)
  have "(m - k * 2 ^ n) div 2 ^ n = m div 2 ^ n - k" for n
    using div_mult_self1 [of "2 ^ n" m "- k"] by simp
  then show ?thesis by (simp add: Pair difference_def floor_dbl_def)
qed

lemma word_of_int_mod32: "(word_of_int (z - k * 2 ^ 32) :: cint) = word_of_int z"
proof -
  have "(word_of_int (2 ^ 32) :: cint) = 0" by simp
  then have "(word_of_int (k * 2 ^ 32) :: cint) = 0" by (simp only: of_int_mult mult_zero_right)
  then show ?thesis by (simp only: of_int_diff diff_zero)
qed

lemma round_even_integral: "0 \<le> e \<or> 2 ^ nat (- e) dvd m \<Longrightarrow> round_even (m, e) = floor_dbl (m, e)"
  by (auto simp: round_even_def floor_dbl_def Let_def)

text \<open>
  Property C17: for a number whose floor is at least \<open>- 2 ^ 51\<close> and that rounds to less than \<open>2 ^ 51\<close>, and
  whose reduced value has a significand of 53 bits, both definitions of \<open>lua_number2unsigned\<close> reduce
  modulo \<open>2 ^ 32\<close>: the bit trick takes the nearest integer (ties to even), the portable definition
  the floor; so there they agree on every double with an integer value.  Beyond they do not: the
  witness has \<open>2 ^ 53 + 2\<close>, for which the bit trick returns 1.
\<close>

theorem unsigned_conversions_agree:
  assumes "- (2 ^ 51) \<le> floor_dbl (m, e)" "round_even (m, e) < 2 ^ 51"
    and "\<bar>fst (difference (m, e) (floor_dbl (m, e - 32) * 2 ^ 32))\<bar> < 2 ^ 53"
  shows "lua_number2unsigned (m, e) = Some (word_of_int (round_even (m, e))) \<and>
    lua_number2unsigned_floor (m, e) = Some (word_of_int (floor_dbl (m, e))) \<and>
    (0 \<le> e \<or> 2 ^ nat (- e) dvd m \<longrightarrow> lua_number2unsigned (m, e) = lua_number2unsigned_floor (m, e))"
proof -
  have "lua_number2unsigned (m, e) = Some (word_of_int (round_even (m, e)))"
    using assms(1,2) by (rule number2unsigned_round)
  moreover have "lua_number2unsigned_floor (m, e) = Some (word_of_int (floor_dbl (m, e)))"
    using assms(3)
    by (simp only: lua_number2unsigned_floor_def Let_def fst_conv snd_conv if_True floor_difference word_of_int_mod32)
  ultimately show ?thesis using round_even_integral [of e m] by simp
qed

theorem unsigned_conversions_agree_witness:
  "lua_number2unsigned (-5, 1) = lua_number2unsigned_floor (-5, 1) \<and>
   lua_number2unsigned (-5, -1) = Some (-2) \<and> lua_number2unsigned_floor (-5, -1) = Some (-3) \<and>
   lua_number2unsigned (9007199254740994, 0) = Some 1 \<and>
   lua_number2unsigned_floor (9007199254740994, 0) = Some 2"
  using unsigned_conversions_agree [of "-5" 1] unsigned_conversions_agree [of "-5" "-1"] number2unsigned_large
  by (simp add: round_even_def floor_dbl_def difference_def)

lemma signed_take_bit_nonneg:
  assumes "0 \<le> z" "z < 2 ^ n"
  shows "signed_take_bit n (z :: int) = z"
proof (rule signed_take_bit_int_eq_self)
  show "- (2 ^ n) \<le> z" using assms(1) by (rule order_trans [rotated]) simp
qed (rule assms(2))

lemma pushunsigned_run:
  "lua_pushunsigned u s = Ok () (s\<lparr>stk := stk s @ [LInt (word_of_int (uint u))]\<rparr>)"
proof -
  have "sint u = uint u" if "u \<le> 2147483647"
  proof -
    have "uint u \<le> 2147483647" using that by (simp add: word_le_def)
    moreover have "0 \<le> uint u" by simp
    ultimately have "signed_take_bit 31 (uint u) = uint u"
      by (intro signed_take_bit_nonneg) simp_all
    then show ?thesis by (simp add: sint_uint)
  qed
  then show ?thesis
    by (simp add: lua_pushunsigned_def lua_unsigned2number_def floor_dbl_def run_simps)
qed

text \<open>
  A number with an integer value of less than \<open>2 ^ 51\<close> in magnitude is read as an
  unsigned number modulo \<open>2 ^ 32\<close>, negative ones included; so every unsigned number that is
  pushed is read back unchanged, by both readers.
\<close>

lemma unsigned_modulo_roundtrip:
  assumes "number_of N (at i (stk s)) = Some (dbl_int z)" "- (2 ^ 51) \<le> z" "z < 2 ^ 51"
  shows "luaL_checkunsigned N i s = Ok (word_of_int z) s \<and>
    lua_tounsignedx N i s = Ok (word_of_int z, True) s \<and>
    (\<exists>t. lua_pushunsigned u s = Ok () t \<and> stk t = stk s @ [LInt (word_of_int (uint u))] \<and>
      luaL_checkunsigned N (-1) t = Ok u t \<and> lua_tounsignedx N (-1) t = Ok (u, True) t)"
proof -
  have read: "luaL_checkunsigned N j t = Ok (word_of_int y) t \<and> lua_tounsignedx N j t = Ok (word_of_int y, True) t"
    if "number_of N (at j (stk t)) = Some (dbl_int y)" "- (2 ^ 51) \<le> y" "y < 2 ^ 51" for j t y
    using that number2unsigned_int [of y]
    by (simp add: luaL_checkunsigned_def lua_tounsignedx_def lua_tonumberx_def lua_tonumber_def
        lua_isnumber_def number2unsigned_def run_simps)
  let ?t = "s\<lparr>stk := stk s @ [LInt (word_of_int (uint u))]\<rparr>"
  have u: "0 \<le> uint u" "uint u < 2 ^ 32" using uint_bounded [of u] by simp_all
  then have "uint (word_of_int (uint u) :: lint) = uint u"
    by (subst uint_word_of_int) simp
  moreover have "signed_take_bit 63 (uint u) = uint u"
    using u by (intro signed_take_bit_nonneg) simp_all
  ultimately have "sint (word_of_int (uint u) :: lint) = uint u"
    by (simp add: sint_uint del: word_of_int_uint)
  then have "number_of N (at (-1) (stk ?t)) = Some (dbl_int (uint u))" by (simp add: at_m1)
  moreover have "- (2 ^ 51) \<le> uint u" by (rule order_trans [of _ 0]) simp_all
  moreover have "uint u < 2 ^ 51" using u by simp
  ultimately have "luaL_checkunsigned N (-1) ?t = Ok u ?t \<and> lua_tounsignedx N (-1) ?t = Ok (u, True) ?t"
    using read [of "-1" ?t "uint u"] by simp
  with read [OF assms] show ?thesis
    by (intro conjI exI [of _ ?t]) (simp_all add: pushunsigned_run)
qed

subsection \<open>User values\<close>

text \<open>The package table: filed in the registry, else found among the globals (and filed if it is a table).\<close>

definition package_of :: "env51 \<Rightarrow> 'w lst \<Rightarrow> lvalue" where
  "package_of X s =
     (if vtype (tbl_get (regs s) PACKAGE_KEY) = TTABLE then tbl_get (regs s) PACKAGE_KEY
      else tbl_get (tabs s (globals X)) (LStr ''package''))"

lemma push_package_table_run:
  "\<exists>r. push_package_table X s = Ok () (s\<lparr>stk := stk s @ [package_of X s], regs := r\<rparr>)"
proof (cases "vtype (tbl_get (regs s) PACKAGE_KEY) = TTABLE")
  case True
  then have "push_package_table X s = Ok () (s\<lparr>stk := stk s @ [package_of X s], regs := regs s\<rparr>)"
    by (simp add: push_package_table_def run_simps lua_rawget_def LUA_REGISTRYINDEX_def
        type_of_def at_m1 package_of_def)
  then show ?thesis by blast
next
  case False
  let ?p = "tbl_get (tabs s (globals X)) (LStr ''package'')"
  have "push_package_table X s = Ok () (s\<lparr>stk := stk s @ [?p],
      regs := (if vtype ?p = TTABLE then tbl_set (regs s) PACKAGE_KEY ?p else regs s)\<rparr>)"
    using False
    by (simp add: push_package_table_def run_simps lua_rawget_def LUA_REGISTRYINDEX_def
        type_of_def at_m1 raw_global_def lua_rawset_def Let_def lua_pushvalue_def at_def slot_def
        nth_append butlast_append)
  with False show ?thesis unfolding package_of_def by (simp only: if_False) (rule exI, rule refl)
qed

lemma regs_kept: "\<exists>r. s\<lparr>stk := xs\<rparr> = s\<lparr>stk := xs, regs := r\<rparr>"
  by (rule exI [of _ "regs s"]) simp

lemma regs_changed: "\<exists>r'. s\<lparr>regs := r, stk := xs\<rparr> = s\<lparr>stk := xs, regs := r'\<rparr>"
  by (rule exI [of _ r]) simp

lemma replace_below [simp]: "lua_replace (-2) (s\<lparr>stk := xs @ [a, b]\<rparr>) = Ok () (s\<lparr>stk := xs @ [b]\<rparr>)"
  by (simp add: lua_replace_def slot_def butlast_append list_update_append)

lemma at_second: "at (-2) (xs @ [a, b]) = Some a"
  by (simp add: at_def slot_def nth_append)

lemma lua_getuservalue_run:
  assumes "0 < i" "at i (stk s) = Some (LUdata u)"
  shows "\<exists>r. lua_getuservalue X i s = Ok () (s\<lparr>stk := stk s @
    [if LTab (fenv X u) \<in> {LTab (globals X), package_of X s} then LNil else LTab (fenv X u)], regs := r\<rparr>)"
proof -
  let ?s = "s\<lparr>stk := stk s @ [LTab (fenv X u)]\<rparr>"
  have pkg: "package_of X ?s = package_of X s" by (simp add: package_of_def)
  obtain r where "push_package_table X ?s =
      Ok () (s\<lparr>stk := stk s @ [LTab (fenv X u), package_of X s], regs := r\<rparr>)"
    using push_package_table_run [of X ?s] pkg by auto
  moreover have "s\<lparr>stk := x, regs := r\<rparr> = s\<lparr>regs := r, stk := x\<rparr>" for x by simp
  ultimately show ?thesis using assms
    by (auto simp: lua_getuservalue_def run_simps luaL_checktype_def type_of_def lua_getfenv_def
        lua_rawequal_def at_m1 at_append_pos at_second regs_kept regs_changed)
qed

lemma lua_setuservalue_run:
  assumes "0 < i" "at i xs = Some (LUdata u)" "stk s = xs @ [v]" "v = LNil \<or> v = LTab a"
  shows "lua_setuservalue X i s =
    Ok (X\<lparr>fenv := (fenv X)(u := if v = LNil then globals X else a)\<rparr>) (s\<lparr>stk := xs\<rparr>)"
  using assms
  by (auto simp: lua_setuservalue_def run_simps luaL_checktype_def type_of_def lua_setfenv_def
      at_m1 at_append_pos lua_isnil_def)

text \<open>
  A user value is a round trip: the nil or table stored for a userdata by
  \<open>lua_setuservalue\<close> is what \<open>lua_getuservalue\<close> reads, except that the globals and the package table
  are read as nil, which is how the compatibility layer tells that none was set.  The value is
  popped, and the values of other userdata stay.
\<close>

lemma uservalue_roundtrip:
  assumes "0 < i" "at i xs = Some (LUdata u)" "stk s = xs @ [v]" "v = LNil \<or> v = LTab a"
  shows "\<exists>X' r. lua_setuservalue X i s = Ok X' (s\<lparr>stk := xs\<rparr>) \<and>
    globals X' = globals X \<and> (\<forall>w. w \<noteq> u \<longrightarrow> fenv X' w = fenv X w) \<and>
    lua_getuservalue X' i (s\<lparr>stk := xs\<rparr>) =
      Ok () (s\<lparr>stk := xs @ [if v \<in> {LTab (globals X), package_of X s} then LNil else v], regs := r\<rparr>)"
proof -
  let ?X = "X\<lparr>fenv := (fenv X)(u := if v = LNil then globals X else a)\<rparr>"
  let ?t = "s\<lparr>stk := xs\<rparr>"
  have pkg: "package_of ?X ?t = package_of X s" by (simp add: package_of_def)
  obtain r where "lua_getuservalue ?X i ?t = Ok () (?t\<lparr>stk := stk ?t @
      [if LTab (fenv ?X u) \<in> {LTab (globals ?X), package_of ?X ?t} then LNil else LTab (fenv ?X u)], regs := r\<rparr>)"
    using lua_getuservalue_run [of i ?t u ?X] assms by auto
  then have "lua_getuservalue ?X i ?t =
      Ok () (s\<lparr>stk := xs @ [if v \<in> {LTab (globals X), package_of X s} then LNil else v], regs := r\<rparr>)"
    using assms(4) unfolding pkg by auto
  then show ?thesis using lua_setuservalue_run [OF assms]
    by (intro exI [of _ ?X] exI [of _ r]) simp
qed

subsection \<open>Requiring a module\<close>

text \<open>
  \<open>luaL_requiref\<close> calls the opener with the module's name, files its first result under
  \<open>package.loaded\<close>, in the globals too when asked to, and leaves it on the stack.
\<close>

lemma replace_below3: "lua_replace (-2) (s\<lparr>stk := xs @ [v, a, b]\<rparr>) = Ok () (s\<lparr>stk := xs @ [v, b]\<rparr>)"
  using replace_below [where s = s and xs = "xs @ [v]" and a = a and b = b] by (simp del: replace_below)

lemma at_second3: "at (-2) (xs @ [v, a, b]) = Some a"
  by (simp add: at_def slot_def nth_append)

lemma luaL_requiref_run:
  assumes "cstr modname = modname" "call (LCFun openf []) [LStr modname] (s\<lparr>stk := []\<rparr>) = Ok rs s'"
    and "tbl_get (tabs s' (globals X)) (LStr ''package'') = LTab p"
    and "tbl_get (tabs s' p) (LStr ''loaded'') = LTab l"
  defines "v \<equiv> hd (rs @ [LNil])"
  defines "t \<equiv> tab_update l (LStr modname) v s'"
  shows "luaL_requiref E X call modname openf glb s =
    Ok () ((if glb then tab_update (globals X) (LStr modname) v t else t)\<lparr>stk := stk s @ [v]\<rparr>)"
proof -
  have "take (Suc 0) (rs @ [LNil]) = [v]" by (cases rs) (simp_all add: v_def)
  then have call: "lua_call call 1 1 (s\<lparr>stk := stk s @ [LCFun openf [], LStr modname]\<rparr>) =
      Ok () (s'\<lparr>stk := stk s @ [v]\<rparr>)"
    using lua_call_run [of "s\<lparr>stk := stk s @ [LCFun openf [], LStr modname]\<rparr>" "stk s" "LCFun openf []"
        "[LStr modname]" call rs s' 1] assms(2) by simp
  show ?thesis
    using assms(1,3,4)
    by (simp add: luaL_requiref_def run_simps call [simplified] raw_global_def lua_getfield_run at_m1 at_second
        replace_below3 at_second3 lua_pushvalue_def lua_setfield_def lua_setglobal_def t_def tab_update_def set_tab_def)
qed

end
