(* ===== verification/Modules.thy ===== *)
theory Modules
  imports Compat52
begin

text \<open>
  How a module is opened: \<open>luaL_newlib\<close> over a \<open>luaL_Reg\<close> array, the version string, then
  one \<open>LPOSIX_CONST\<close> per constant (macros of \<^verbatim>\<open>_helpers.c\<close>, \<open>luaL_setfuncs\<close> of
  \<^verbatim>\<open>compat-5.2.c\<close>).  Lines under \<^verbatim>\<open>#ifdef\<close> are compiled when their condition holds on the
  host; the arrays and constant lists of the component theories keep the conditions.
\<close>

text \<open>
  The host: which preprocessor conditions hold, the value each constant expands to, and the
  expansion of \<open>LPOSIX_VERSION_STRING\<close>.
\<close>

record host =
  defd :: "string \<Rightarrow> bool"
  hval :: "string \<Rightarrow> lint"
  version :: "string \<Rightarrow> string"

text \<open>
  \<open>Only c e\<close> is an entry under \<^verbatim>\<open>#if c\<close>; \<open>OrZero\<close> a constant for which the file has
  \<^verbatim>\<open>#ifndef X / #define X 0\<close>.
\<close>

datatype entry = Item string | OrZero string | Only string entry

fun enabled :: "host \<Rightarrow> entry \<Rightarrow> bool" where
  "enabled H (Item n) = True"
| "enabled H (OrZero n) = True"
| "enabled H (Only c e) = (defd H c \<and> enabled H e)"

fun ename :: "entry \<Rightarrow> string" where
  "ename (Item n) = n"
| "ename (OrZero n) = n"
| "ename (Only c e) = ename e"

fun evalue :: "host \<Rightarrow> entry \<Rightarrow> lint" where
  "evalue H (Item n) = hval H n"
| "evalue H (OrZero n) = (if defd H n then hval H n else 0)"
| "evalue H (Only c e) = evalue H e"

text \<open>\<open>LPOSIX_FUNC(Pfoo)\<close> registers the C function \<open>Pfoo\<close> under the name without its \<open>P\<close>.\<close>

definition fn_name :: "entry \<Rightarrow> string" where
  "fn_name e = tl (ename e)"

definition add_field :: "string \<Rightarrow> lvalue \<Rightarrow> ('w, unit) lm" where
  "add_field k v = thn (lua_push v) (lua_setfield (-2) k)"

definition luaL_newlib :: "host \<Rightarrow> entry list \<Rightarrow> ('w, unit) lm" where
  "luaL_newlib H fns =
     thn lua_newtable (luaL_setfuncs (map (\<lambda>e. (fn_name e, ename e)) (filter (enabled H) fns)) 0)"

definition LPOSIX_CONSTs :: "host \<Rightarrow> entry list \<Rightarrow> ('w, unit) lm" where
  "LPOSIX_CONSTs H cs =
     for_each (filter (enabled H) cs) (\<lambda>e. add_field (ename e) (LInt (evalue H e)))"

definition push_version :: "host \<Rightarrow> string \<Rightarrow> ('w, unit) lm" where
  "push_version H m = seq [lua_pushstring (version H m), lua_setfield (-2) ''version'']"

text \<open>The body every \<open>luaopen_posix_*\<close> has.\<close>

definition open_module :: "host \<Rightarrow> string \<Rightarrow> entry list \<Rightarrow> entry list \<Rightarrow> ('w, nat) lm" where
  "open_module H m fns cs =
     thn (luaL_newlib H fns) (thn (push_version H m) (thn (LPOSIX_CONSTs H cs) (ret 1)))"

section \<open>The table a module returns\<close>

definition fn_entries :: "host \<Rightarrow> entry list \<Rightarrow> ltable" where
  "fn_entries H fns =
     map (\<lambda>e. (LStr (fn_name e), LCFun (ename e) [])) (filter (enabled H) fns)"

definition const_entries :: "host \<Rightarrow> entry list \<Rightarrow> ltable" where
  "const_entries H cs =
     map (\<lambda>e. (LStr (ename e), LInt (evalue H e))) (filter (enabled H) cs)"

definition module_table :: "host \<Rightarrow> string \<Rightarrow> entry list \<Rightarrow> entry list \<Rightarrow> ltable" where
  "module_table H m fns cs =
     fn_entries H fns @ [(LStr ''version'', LStr (cstr (version H m)))] @ const_entries H cs"

text \<open>No two names of a module collide, whatever the host defines; no name contains a NUL.\<close>

definition names_ok :: "entry list \<Rightarrow> entry list \<Rightarrow> bool" where
  "names_ok fns cs \<longleftrightarrow> distinct (map fn_name fns @ ''version'' # map ename cs) \<and>
     list_all (\<lambda>e. cstr (fn_name e) = fn_name e) fns"

lemma add_field_run:
  "stk s = xs @ [LTab a] \<Longrightarrow> add_field k v s = Ok () (tab_update a (LStr k) v s)"
  by (simp add: add_field_def run_simps lua_setfield_run tab_update_def stk_self)

lemma set_fields_run:
  "stk s = xs @ [LTab a] \<Longrightarrow>
   for_each es (\<lambda>e. add_field (g e) (f e)) s =
     Ok () (set_tab a (tbl.put_all (tabs s a) (map (\<lambda>e. (LStr (g e), f e)) es)) s)"
proof (induction es arbitrary: s)
  case Nil
  then show ?case by (simp add: run_simps)
next
  case (Cons e es)
  let ?s = "tab_update a (LStr (g e)) (f e) s"
  have "for_each (e # es) (\<lambda>e. add_field (g e) (f e)) s = for_each es (\<lambda>e. add_field (g e) (f e)) ?s"
    using Cons.prems by (simp add: run_simps add_field_run)
  also have "\<dots> = Ok () (set_tab a (tbl.put_all (tabs ?s a) (map (\<lambda>e. (LStr (g e), f e)) es)) ?s)"
    by (rule Cons.IH) (use Cons.prems in simp)
  finally show ?case by (simp add: tab_update_def)
qed

lemma map_LStr_distinct: "distinct (map LStr xs) = distinct xs"
  by (simp add: distinct_map inj_on_def)

lemma module_table_fresh:
  assumes "names_ok fns cs"
  shows "tbl.put_all [] (module_table H m fns cs) = module_table H m fns cs"
proof -
  have sub: "distinct (map h xs) \<Longrightarrow> distinct (map h (filter p xs))" for h :: "entry \<Rightarrow> string" and p xs
    by (rule distinct_map_filter)
  have keys: "map fst (module_table H m fns cs) = map LStr
      (map fn_name (filter (enabled H) fns) @ ''version'' # map ename (filter (enabled H) cs))"
    by (simp add: module_table_def fn_entries_def const_entries_def)
  have "distinct (map fst (module_table H m fns cs))"
    unfolding keys map_LStr_distinct using assms
    by (auto simp: names_ok_def intro: sub)
  moreover have "LNil \<notin> snd ` set (module_table H m fns cs)"
    by (auto simp: module_table_def fn_entries_def const_entries_def)
  ultimately show ?thesis by (simp add: tbl_put_all_fresh)
qed

lemma newlib_run:
  assumes "list_all (\<lambda>e. cstr (fn_name e) = fn_name e) fns"
  shows "luaL_newlib H fns s =
    Ok () (set_tab (ntab s) (tbl.put_all [] (fn_entries H fns)) (new_table s))"
proof -
  have "closures (map (\<lambda>e. (fn_name e, ename e)) (filter (enabled H) fns)) [] = fn_entries H fns"
    using assms by (auto simp: closures_def fn_entries_def list_all_iff)
  moreover have "(new_table s)\<lparr>stk := stk s @ [LTab (ntab s)]\<rparr> = new_table s"
    by (simp add: stk_self)
  ultimately show ?thesis
    using luaL_setfuncs_loop [of "new_table s" "stk s" "ntab s" "[]"
        "map (\<lambda>e. (fn_name e, ename e)) (filter (enabled H) fns)"]
    by (simp add: luaL_newlib_def luaL_setfuncs_def run_simps)
qed

lemma open_module_body:
  assumes "names_ok fns cs"
  shows "open_module H m fns cs s =
    Ok 1 (set_tab (ntab s) (module_table H m fns cs) (new_table s))"
proof -
  let ?s0 = "new_table s"
  let ?s1 = "set_tab (ntab s) (tbl.put_all [] (fn_entries H fns)) ?s0"
  let ?s2 = "tab_update (ntab s) (LStr ''version'') (LStr (cstr (version H m))) ?s1"
  have "luaL_newlib H fns s = Ok () ?s1"
    using newlib_run [of fns H s] assms by (simp add: names_ok_def)
  moreover have "push_version H m ?s1 = Ok () ?s2"
    by (simp add: push_version_def run_simps lua_setfield_run tab_update_def stk_self)
  moreover have "LPOSIX_CONSTs H cs ?s2 =
      Ok () (set_tab (ntab s) (tbl.put_all (tabs ?s2 (ntab s)) (const_entries H cs)) ?s2)"
    by (simp add: LPOSIX_CONSTs_def const_entries_def
        set_fields_run [where xs = "stk s" and a = "ntab s"])
  moreover have "tbl.put_all (tabs ?s2 (ntab s)) (const_entries H cs) = module_table H m fns cs"
    using module_table_fresh [OF assms, of H m]
    by (simp add: module_table_def tbl.put_all_append)
  ultimately show ?thesis
    by (simp add: open_module_def run_simps tab_update_def)
qed

definition opened :: "nat \<Rightarrow> ltable \<Rightarrow> 'w lst \<Rightarrow> 'w lst" where
  "opened a t s = set_tab a t (s\<lparr>ntab := Suc a, metas := (metas s)(a := None)\<rparr>)"

lemma open_module_run:
  assumes "names_ok fns cs"
  shows "call_c (open_module H m fns cs) args s =
    Ok [LTab (ntab s)] (opened (ntab s) (module_table H m fns cs) s)"
  by (simp add: call_c_def open_module_body [OF assms] opened_def set_tab_def new_table_def)

text \<open>Looking a name up in the table.\<close>

lemma module_const:
  assumes ok: "names_ok fns cs" and e: "e \<in> set cs"
  shows "tbl_get (module_table H m fns cs) (LStr (ename e)) =
    (if enabled H e then LInt (evalue H e) else LNil)"
proof -
  let ?t = "module_table H m fns cs"
  have d: "distinct (map ename cs)" and nv: "''version'' \<noteq> ename e"
    and nf: "ename e \<notin> fn_name ` set fns"
    using ok e by (auto simp: names_ok_def dest: image_eqI [where f = ename])
  have fnone: "map_of (fn_entries H fns) (LStr (ename e)) = None"
    using nf by (auto simp: map_of_eq_None_iff fn_entries_def)
  have same: "e' \<in> set cs \<Longrightarrow> ename e' = ename e \<Longrightarrow> e' = e" for e'
    using d e by (metis distinct_map inj_on_contraD)
  show ?thesis
  proof (cases "enabled H e")
    case True
    have "distinct (map fst (const_entries H cs))"
      using distinct_map_filter [OF d, of "enabled H"]
      by (simp add: const_entries_def distinct_map inj_on_def comp_def)
    moreover have "(LStr (ename e), LInt (evalue H e)) \<in> set (const_entries H cs)"
      using True e by (force simp: const_entries_def)
    ultimately have "map_of (const_entries H cs) (LStr (ename e)) = Some (LInt (evalue H e))"
      by (rule map_of_is_SomeI)
    with True nv fnone show ?thesis
      by (simp add: tbl_get_def module_table_def map_add_def)
  next
    case False
    then have "map_of (const_entries H cs) (LStr (ename e)) = None"
      using same by (auto simp: map_of_eq_None_iff const_entries_def)
    with False nv fnone show ?thesis
      by (simp add: tbl_get_def module_table_def map_add_def)
  qed
qed

lemma module_version:
  assumes "names_ok fns cs"
  shows "tbl_get (module_table H m fns cs) (LStr ''version'') = LStr (cstr (version H m))"
proof -
  have "''version'' \<notin> fn_name ` set fns" "''version'' \<notin> ename ` set cs"
    using assms by (auto simp: names_ok_def)
  then have "map_of (fn_entries H fns) (LStr ''version'') = None"
    "map_of (const_entries H cs) (LStr ''version'') = None"
    by (auto simp: map_of_eq_None_iff fn_entries_def const_entries_def)
  then show ?thesis by (simp add: tbl_get_def module_table_def map_add_def)
qed

lemma module_fn:
  assumes ok: "names_ok fns cs" and e: "e \<in> set fns"
  shows "tbl_get (module_table H m fns cs) (LStr (fn_name e)) =
    (if enabled H e then LCFun (ename e) [] else LNil)"
proof -
  have d: "distinct (map fn_name fns)" and nv: "''version'' \<noteq> fn_name e"
    and nc: "fn_name e \<notin> ename ` set cs"
    using ok e by (auto simp: names_ok_def dest: image_eqI [where f = fn_name])
  have cnone: "map_of (const_entries H cs) (LStr (fn_name e)) = None"
    using nc by (auto simp: map_of_eq_None_iff const_entries_def)
  have same: "e' \<in> set fns \<Longrightarrow> fn_name e' = fn_name e \<Longrightarrow> e' = e" for e'
    using d e by (metis distinct_map inj_on_contraD)
  have "map_of (fn_entries H fns) (LStr (fn_name e)) =
    (if enabled H e then Some (LCFun (ename e) []) else None)"
  proof (cases "enabled H e")
    case True
    have "distinct (map fst (fn_entries H fns))"
      using distinct_map_filter [OF d, of "enabled H"]
      by (simp add: fn_entries_def distinct_map inj_on_def comp_def)
    moreover have "(LStr (fn_name e), LCFun (ename e) []) \<in> set (fn_entries H fns)"
      using True e by (force simp: fn_entries_def)
    ultimately show ?thesis using True by (simp add: map_of_is_SomeI)
  next
    case False
    then show ?thesis using same by (auto simp: map_of_eq_None_iff fn_entries_def)
  qed
  with nv cnone show ?thesis by (simp add: tbl_get_def module_table_def map_add_def)
qed

end
