(* ===== verification/Ctype.thy ===== *)
theory Ctype
  imports Records Modules
begin

text \<open>
  \<^verbatim>\<open>ext/posix/ctype.c\<close>: \<open>isgraph\<close> and \<open>isprint\<close> of the first character of a string.  \<open>char\<close> is
  signed, so the character is sign-extended on its way to the classification function.
\<close>

text \<open>\<open>char c = *s\<close>: the first byte, or the terminating NUL of an empty C string.\<close>

definition first_char :: "string \<Rightarrow> char" where
  "first_char x = (case x of [] \<Rightarrow> NUL | c # _ \<Rightarrow> c)"

definition char_to_int :: "char \<Rightarrow> cint" where
  "char_to_int c = scast (of_char c :: 8 word)"

definition bind_ctype :: "env \<Rightarrow> (cint \<Rightarrow> cint) \<Rightarrow> ('w, nat) lm" where
  "bind_ctype E cb =
     bnd (luaL_checkstring E 1) (\<lambda>x.
     let c = first_char x in
     thn (checknargs 1)
    (thn (lua_pop 1)
     (pushintegerresult (of_cint (cb (char_to_int c))))))"

definition Pisgraph :: "env \<Rightarrow> (cint \<Rightarrow> cint) \<Rightarrow> ('w, nat) lm" where
  "Pisgraph E c_isgraph = bind_ctype E c_isgraph"

definition Pisprint :: "env \<Rightarrow> (cint \<Rightarrow> cint) \<Rightarrow> ('w, nat) lm" where
  "Pisprint E c_isprint = bind_ctype E c_isprint"

section \<open>Behaviour\<close>

lemma bind_ctype_run:
  "call_c (bind_ctype E cb) args s = (case sbind (arg_str E s 1 args) (\<lambda>x.
       sbind (at_most 1 args) (\<lambda>_. Inr x)) of
     Inl e \<Rightarrow> Err e s
   | Inr x \<Rightarrow> Ok [LInt (of_cint (cb (char_to_int (first_char x))))] s)"
  by (simp add: bind_ctype_def wrapper_simps Let_def split: option.splits)

lemma clean_bind_ctype: "clean (bind_ctype E cb)"
  unfolding bind_ctype_def by (rule clean_rules)+

section \<open>Opening the module\<close>

definition posix_ctype_fns :: "entry list" where
  "posix_ctype_fns = [
    Item ''Pisgraph'', Item ''Pisprint'']"

definition luaopen_posix_ctype :: "host \<Rightarrow> ('w, nat) lm" where
  "luaopen_posix_ctype H = open_module H ''ctype'' posix_ctype_fns []"

lemma ctype_names: "names_ok posix_ctype_fns []"
  by code_simp

end
