(* ===== verification/Dirent.thy ===== *)
theory Dirent
  imports Arrays Modules
begin

text \<open>
  \<^verbatim>\<open>ext/posix/dirent.c\<close>: \<open>dir\<close> reads a whole directory; \<open>files\<close> returns an iterator, a closure
  over a userdata that holds the \<open>DIR *\<close>, which the iterator closes at the end of the
  directory and the metamethod \<open>__gc\<close> otherwise.

  \<open>readdir\<close> may deliver any number of entries, so the loop of \<open>Pdir\<close> has fuel: one more than
  the number of entries is enough (\<open>Pdir_lists\<close>).
\<close>

record 'w dirapi =
  c_opendir :: "string \<Rightarrow> ('w, nat option) sys"
  c_readdir :: "nat \<Rightarrow> ('w, string option) sys"
  c_closedir :: "nat \<Rightarrow> ('w, unit) sys"

definition opendir_error :: "env \<Rightarrow> string \<Rightarrow> ('w, 'a) lm" where
  "opendir_error E path =
     bnd (asks errno) (\<lambda>e. luaL_argerror 1 (path @ '': '' @ strerror E e))"

fun dir_loop :: "nat \<Rightarrow> (nat \<Rightarrow> ('w, string option) sys) \<Rightarrow> nat \<Rightarrow> cint \<Rightarrow> ('w, unit) lm" where
  "dir_loop 0 rd d i = raise (Undefined ''out of fuel'')"
| "dir_loop (Suc n) rd d i =
     bnd (sys (rd d)) (\<lambda>entry. case entry of
         None \<Rightarrow> ret ()
       | Some name \<Rightarrow>
           thn (lua_pushstring name)
          (thn (lua_rawseti (-2) (of_cint i))
          (bnd (next_index Signed i) (dir_loop n rd d))))"

definition Pdir :: "nat \<Rightarrow> env \<Rightarrow> 'w dirapi \<Rightarrow> ('w, nat) lm" where
  "Pdir fuel E A =
     bnd (optstring E 1 (Some ''.'')) (\<lambda>p.
     let path = the p in
     thn (checknargs 1)
    (bnd (sys (c_opendir A path)) (\<lambda>d. case d of
       None \<Rightarrow> opendir_error E path
     | Some h \<Rightarrow>
         thn lua_newtable
        (thn (dir_loop fuel (c_readdir A) h 1)
        (thn (sys (c_closedir A h))
         (ret 1))))))"

text \<open>The iterator: its upvalue is the userdata.\<close>

definition read_dirp :: "lvalue \<Rightarrow> ('w, nat option) lm" where
  "read_dirp v s = (case v of
      LUdata u \<Rightarrow> (case udat s u of UDir d \<Rightarrow> Ok d s | _ \<Rightarrow> raise (Undefined ''not a DIR handle'') s)
    | _ \<Rightarrow> raise (Undefined ''not a userdata'') s)"

definition write_dirp :: "lvalue \<Rightarrow> nat option \<Rightarrow> ('w, unit) lm" where
  "write_dirp v d s = (case v of
      LUdata u \<Rightarrow> Ok () (s\<lparr>udat := (udat s)(u := UDir d)\<rparr>)
    | _ \<Rightarrow> raise (Undefined ''not a userdata'') s)"

definition aux_files :: "'w dirapi \<Rightarrow> lvalue \<Rightarrow> ('w, nat) lm" where
  "aux_files A upvalue1 =
     bnd (read_dirp upvalue1) (\<lambda>d. case d of
       None \<Rightarrow> ret 0
     | Some h \<Rightarrow>
         bnd (sys (c_readdir A h)) (\<lambda>entry. case entry of
           None \<Rightarrow> thn (sys (c_closedir A h)) (thn (write_dirp upvalue1 None) (ret 0))
         | Some name \<Rightarrow> pushstringresult (Some name)))"

definition dir_gc :: "'w dirapi \<Rightarrow> ('w, nat) lm" where
  "dir_gc A =
     bnd (asks (\<lambda>s. at 1 (stk s))) (\<lambda>v. case v of
       None \<Rightarrow> raise (Undefined ''not a userdata'')
     | Some u \<Rightarrow>
         bnd (read_dirp u) (\<lambda>d. case d of
           None \<Rightarrow> ret 0
         | Some h \<Rightarrow> thn (sys (c_closedir A h)) (ret 0)))"

definition DIR_HANDLE :: string where
  "DIR_HANDLE = ''luaposix dir handle''"

definition Pfiles :: "env \<Rightarrow> 'w dirapi \<Rightarrow> ('w, nat) lm" where
  "Pfiles E A =
     bnd (optstring E 1 (Some ''.'')) (\<lambda>p.
     let path = the p in
     thn (checknargs 1)
    (bnd (lua_newuserdata URaw) (\<lambda>u.
     bnd (sys (c_opendir A path)) (\<lambda>d.
     thn (write_dirp (LUdata u) d)
    (if d = None then opendir_error E path
     else bnd (luaL_newmetatable DIR_HANDLE) (\<lambda>new.
      thn (when_do new (mt_setfield DIR_HANDLE ''__gc'' (LCFun ''dir_gc'' [])))
     (thn (lua_setmetatable DIR_HANDLE)
     (thn (lua_pop 1)
     (thn (lua_push (LCFun ''aux_files'' [LUdata u]))
      (ret 1))))))))))"

section \<open>Reading a whole directory\<close>

text \<open>The directory stream \<open>d\<close> delivers \<open>names\<close> from the state \<open>(e, w)\<close> and ends in \<open>(e', w')\<close>.\<close>

fun delivers :: "(nat \<Rightarrow> ('w, string option) sys) \<Rightarrow> nat \<Rightarrow> string list \<Rightarrow>
    cint \<Rightarrow> 'w \<Rightarrow> cint \<Rightarrow> 'w \<Rightarrow> bool" where
  "delivers rd d [] e w e' w' \<longleftrightarrow> rd d e w = (None, e', w')"
| "delivers rd d (x # xs) e w e' w' \<longleftrightarrow>
     fst (rd d e w) = Some x \<and> delivers rd d xs (fst (snd (rd d e w))) (snd (snd (rd d e w))) e' w'"

lemma dir_loop_run:
  assumes "delivers rd d names (errno s) (world s) e' w'"
    and "stk s = xs @ [LTab a]" "n + length names \<le> idx_limit Signed" "length names < fuel"
  shows "dir_loop fuel rd d (of_nat n) s =
    Ok () (set_tab a (tbl.put_all (tabs s a) (array_from n (map (\<lambda>x. LStr (cstr x)) names)))
             (s\<lparr>errno := e', world := w'\<rparr>))"
  using assms
proof (induction names arbitrary: n s fuel)
  case Nil
  then obtain m where "fuel = Suc m" by (cases fuel) auto
  with Nil show ?case by (simp add: run_simps sys_def)
next
  case (Cons x names)
  then obtain m where fuel: "fuel = Suc m" by (cases fuel) auto
  obtain e1 w1 where rd: "rd d (errno s) (world s) = (Some x, e1, w1)"
    using Cons.prems(1) by (cases "rd d (errno s) (world s)") auto
  let ?s1 = "tab_update a (LInt (of_nat n)) (LStr (cstr x)) (s\<lparr>errno := e1, world := w1\<rparr>)"
  have n: "n < idx_limit Signed" using Cons.prems(3) by simp
  have "dir_loop fuel rd d (of_nat n) s = dir_loop m rd d (of_nat (Suc n)) ?s1"
    using Cons.prems rd n
    by (simp add: fuel run_simps sys_def lua_rawseti_run next_index_run [OF n]
        idx_integer_of_nat [of n Signed, simplified] tab_update_def stk_self del: of_nat_Suc)
  also have "\<dots> = Ok () (set_tab a (tbl.put_all (tabs ?s1 a)
      (array_from (Suc n) (map (\<lambda>x. LStr (cstr x)) names))) (?s1\<lparr>errno := e', world := w'\<rparr>))"
    by (rule Cons.IH) (use Cons.prems rd fuel in \<open>simp_all\<close>)
  finally show ?case by (simp add: tab_update_def)
qed

definition args_dir :: "env \<Rightarrow> lvalue list \<Rightarrow> err + string" where
  "args_dir E args = sbind (arg_defstr E 1 ''.'' args) (\<lambda>p. sbind (at_most 1 args) (\<lambda>_. Inr p))"

lemma args_dir_cases:
  assumes "args_dir E args = Inr path"
  shows "length args \<le> 1"
    "\<exists>ys. optstring E 1 (Some ''.'') (s\<lparr>stk := args\<rparr>) = Ok (Some path) (s\<lparr>stk := ys\<rparr>) \<and>
          length ys = length args"
  using assms
  by (auto simp: args_dir_def accepted run_simps put_at_same_type split: if_splits)

lemma Pdir_run:
  assumes acc: "args_dir E args = Inr path"
    and opn: "c_opendir A path (errno s) (world s) = (Some h, e1, w1)"
    and rd: "delivers (c_readdir A) h names e1 w1 e2 w2"
    and cl: "c_closedir A h e2 w2 = (u, e3, w3)"
    and fuel: "length names < fuel" and len: "length names < 2 ^ 31 - 1"
  shows "call_c (Pdir fuel E A) args s =
    Ok [LTab (ntab s)] (add_sequence (map (\<lambda>x. LStr (cstr x)) names) (s\<lparr>errno := e3, world := w3\<rparr>))"
proof -
  let ?vs = "map (\<lambda>x. LStr (cstr x)) names"
  obtain ys where opt: "optstring E 1 (Some ''.'') (s\<lparr>stk := args\<rparr>) = Ok (Some path) (s\<lparr>stk := ys\<rparr>)"
    and ys: "length ys = length args" using args_dir_cases(2) [OF acc] by blast
  let ?s1 = "new_table (s\<lparr>stk := ys, errno := e1, world := w1\<rparr>)"
  have "dir_loop fuel (c_readdir A) h (of_nat 1) ?s1 =
      Ok () (set_tab (ntab s) (tbl.put_all (tabs ?s1 (ntab s)) (sequence ?vs))
               (?s1\<lparr>errno := e2, world := w2\<rparr>))"
    by (rule dir_loop_run) (use rd fuel len in simp_all)
  moreover have "tbl.put_all [] (sequence ?vs) = sequence ?vs"
    by (rule put_all_array) (use len in auto)
  ultimately have loop: "dir_loop fuel (c_readdir A) h 1 ?s1 =
      Ok () (set_tab (ntab s) (sequence ?vs) (?s1\<lparr>errno := e2, world := w2\<rparr>))"
    by simp
  show ?thesis
    using opt opn cl loop args_dir_cases(1) [OF acc] ys
    by (simp add: Pdir_def call_c_def bnd_def thn_def checknargs_run sys_def ret_def
        lua_newtable_def add_sequence_def new_table_def set_tab_def Let_def)
qed

lemma Pdir_missing:
  assumes acc: "args_dir E args = Inr path"
    and opn: "c_opendir A path (errno s) (world s) = (None, e1, w1)"
  shows "call_c (Pdir fuel E A) args s =
    Err (ArgError 1 (path @ '': '' @ strerror E e1)) (s\<lparr>errno := e1, world := w1\<rparr>)"
proof -
  obtain ys where opt: "optstring E 1 (Some ''.'') (s\<lparr>stk := args\<rparr>) = Ok (Some path) (s\<lparr>stk := ys\<rparr>)"
    and ys: "length ys = length args" using args_dir_cases(2) [OF acc] by blast
  show ?thesis
    using opt opn args_dir_cases(1) [OF acc] ys
    by (simp add: Pdir_def call_c_def bnd_def thn_def checknargs_run sys_def opendir_error_def
        asks_run luaL_argerror_def raise_run Let_def)
qed

section \<open>The life of a directory handle\<close>

text \<open>
  A directory API that records what is done to each stream; which streams open and what they
  deliver is left to the oracles.
\<close>

datatype dev = Opened nat | Read nat | Closed nat

fun stream_of :: "dev \<Rightarrow> nat" where
  "stream_of (Opened d) = d"
| "stream_of (Read d) = d"
| "stream_of (Closed d) = d"

definition traced :: "(string \<Rightarrow> dev list \<Rightarrow> nat option) \<Rightarrow> (nat \<Rightarrow> dev list \<Rightarrow> string option) \<Rightarrow>
    dev list dirapi" where
  "traced opens entries = \<lparr>
     c_opendir = (\<lambda>path e w. case opens path w of
        None \<Rightarrow> (None, 2, w) | Some d \<Rightarrow> (Some d, e, w @ [Opened d])),
     c_readdir = (\<lambda>d e w. (entries d w, e, w @ [Read d])),
     c_closedir = (\<lambda>d e w. ((), e, w @ [Closed d]))\<rparr>"

definition history :: "nat \<Rightarrow> dev list \<Rightarrow> dev list" where
  "history d w = filter (\<lambda>v. stream_of v = d) w"

lemma history_simps [simp]:
  "history d [] = []" "history d (w @ w') = history d w @ history d w'"
  "history d (v # w) = (if stream_of v = d then v # history d w else history d w)"
  by (simp_all add: history_def)

text \<open>
  What can happen to the userdata \<open>u\<close> of a handle for the stream \<open>d\<close>: the iterator is called,
  other code runs that touches neither, and at some point the collector runs \<open>__gc\<close>, after
  which the iterator is unreachable.
\<close>

inductive lives :: "dev list dirapi \<Rightarrow> nat \<Rightarrow> nat \<Rightarrow> dev list lst \<Rightarrow> bool \<Rightarrow> dev list lst \<Rightarrow> bool"
  for A u d s0 where
  start: "lives A u d s0 True s0"
| iterate: "lives A u d s0 True s \<Longrightarrow> call_c (aux_files A (LUdata u)) args s = Ok vs s' \<Longrightarrow>
    lives A u d s0 True s'"
| elsewhere: "lives A u d s0 r s \<Longrightarrow> udat s' u = udat s u \<Longrightarrow>
    history d (world s') = history d (world s) \<Longrightarrow> lives A u d s0 r s'"
| collect: "lives A u d s0 True s \<Longrightarrow> call_c (dir_gc A) [LUdata u] s = Ok vs s' \<Longrightarrow>
    lives A u d s0 False s'"

definition handle_inv :: "nat \<Rightarrow> nat \<Rightarrow> bool \<Rightarrow> dev list lst \<Rightarrow> bool" where
  "handle_inv u d r s \<longleftrightarrow> (\<exists>n.
     (r \<and> udat s u = UDir (Some d) \<and> history d (world s) = Opened d # replicate n (Read d)) \<or>
     ((r \<longrightarrow> udat s u = UDir None) \<and>
      history d (world s) = Opened d # replicate n (Read d) @ [Closed d]))"

lemma aux_files_keeps:
  assumes inv: "handle_inv u d True s"
    and call: "call_c (aux_files (traced opens entries) (LUdata u)) args s = Ok vs s'"
  shows "handle_inv u d True s'"
proof -
  obtain n where n: "(udat s u = UDir (Some d) \<and> history d (world s) = Opened d # replicate n (Read d)) \<or>
     (udat s u = UDir None \<and> history d (world s) = Opened d # replicate n (Read d) @ [Closed d])"
    using inv by (auto simp: handle_inv_def)
  then show ?thesis
  proof
    assume a: "udat s u = UDir (Some d) \<and> history d (world s) = Opened d # replicate n (Read d)"
    have rep: "replicate n (Read d) @ [Read d] = replicate (Suc n) (Read d)"
      by (simp add: replicate_append_same)
    show ?thesis
    proof (cases "entries d (world s)")
      case None
      then have "udat s' u = UDir None"
        "history d (world s') = Opened d # replicate (Suc n) (Read d) @ [Closed d]"
        using call a
        by (auto simp: call_c_def aux_files_def read_dirp_def write_dirp_def run_simps sys_def
            traced_def rep [symmetric] simp del: replicate.simps)
      then show ?thesis by (auto simp: handle_inv_def simp del: replicate.simps)
    next
      case (Some x)
      then have "udat s' u = UDir (Some d)"
        "history d (world s') = Opened d # replicate (Suc n) (Read d)"
        using call a
        by (auto simp: call_c_def aux_files_def read_dirp_def write_dirp_def run_simps sys_def
            traced_def rep [symmetric] simp del: replicate.simps)
      then show ?thesis by (auto simp: handle_inv_def simp del: replicate.simps)
    qed
  next
    assume "udat s u = UDir None \<and> history d (world s) = Opened d # replicate n (Read d) @ [Closed d]"
    then show ?thesis using call
      by (auto simp: call_c_def aux_files_def read_dirp_def run_simps handle_inv_def)
  qed
qed

lemma dir_gc_closes:
  assumes "handle_inv u d True s" "call_c (dir_gc (traced opens entries)) [LUdata u] s = Ok vs s'"
  shows "handle_inv u d False s'"
  using assms
  by (auto simp: handle_inv_def call_c_def dir_gc_def read_dirp_def run_simps sys_def traced_def
      at_one)

lemma lives_inv:
  assumes "lives (traced opens entries) u d s0 r s" "handle_inv u d True s0"
  shows "handle_inv u d r s"
  using assms(1)
proof induction
  case start
  show ?case by (rule assms(2))
next
  case (iterate s args vs s')
  then show ?case by (blast intro: aux_files_keeps)
next
  case (elsewhere r s s')
  then show ?case by (simp add: handle_inv_def)
next
  case (collect s vs s')
  then show ?case by (blast intro: dir_gc_closes)
qed

lemma Pfiles_opens:
  assumes acc: "args_dir E args = Inr path" and opn: "opens path (world s) = Some d"
    and new: "history d (world s) = []"
  shows "\<exists>s0. call_c (Pfiles E (traced opens entries)) args s =
    Ok [LCFun ''aux_files'' [LUdata (nud s)]] s0 \<and> handle_inv (nud s) d True s0"
proof -
  obtain ys where opt: "optstring E 1 (Some ''.'') (s\<lparr>stk := args\<rparr>) = Ok (Some path) (s\<lparr>stk := ys\<rparr>)"
    and ys: "length ys = length args" using args_dir_cases(2) [OF acc] by blast
  show ?thesis
    using opt opn args_dir_cases(1) [OF acc] ys new
    by (simp add: Pfiles_def call_c_def bnd_def thn_def checknargs_run sys_def traced_def Let_def
        lua_newuserdata_def write_dirp_def luaL_newmetatable_def when_do_run mt_setfield_def
        lua_setmetatable_def lua_pop_run lua_push_run ret_def handle_inv_def split: option.splits)
qed

text \<open>
  Property C1: whatever the program does with an iterator returned by \<open>files\<close>, the directory
  stream behind it is opened once, then read, then closed at most once and never read after
  that; once the collector has run, it has been closed exactly once.
\<close>

theorem dir_handle_protocol:
  assumes "args_dir E args = Inr path" "opens path (world s) = Some d" "history d (world s) = []"
    and "call_c (Pfiles E (traced opens entries)) args s = Ok vs s0"
    and "lives (traced opens entries) (nud s) d s0 reachable t"
  shows "\<exists>n. history d (world t) = Opened d # replicate n (Read d) @
      (if \<not> reachable \<or> udat t (nud s) = UDir None then [Closed d] else [])"
proof -
  have "handle_inv (nud s) d True s0"
    using Pfiles_opens [of E args path opens s d entries] assms(1-4) by auto
  with assms(5) have "handle_inv (nud s) d reachable t" by (rule lives_inv)
  then show ?thesis by (auto simp: handle_inv_def)
qed

theorem dir_handle_protocol_witness:
  "\<exists>s0 s1 s2 n.
     call_c (Pfiles sample_env (traced (\<lambda>_ _. Some 7) (\<lambda>_ _. None))) [] (sample_state []) =
       Ok [LCFun ''aux_files'' [LUdata 0]] s0 \<and>
     call_c (aux_files (traced (\<lambda>_ _. Some 7) (\<lambda>_ _. None)) (LUdata 0)) [] s0 = Ok [] s1 \<and>
     call_c (dir_gc (traced (\<lambda>_ _. Some 7) (\<lambda>_ _. None))) [LUdata 0] s1 = Ok [] s2 \<and>
     history 7 (world s2) = Opened 7 # replicate n (Read 7) @ [Closed 7]"
proof -
  let ?A = "traced (\<lambda>_ _. Some 7) (\<lambda>_ _. None)"
  have acc: "args_dir sample_env [] = Inr ''.''"
    by (simp add: args_dir_def arg_defs at_def slot_def type_of_def type_le_nil)
  obtain s0 where s0: "call_c (Pfiles sample_env ?A) [] (sample_state []) =
      Ok [LCFun ''aux_files'' [LUdata 0]] s0" and "handle_inv 0 7 True s0"
    using Pfiles_opens [OF acc, of "\<lambda>_ _. Some 7" "sample_state []" 7 "\<lambda>_ _. None"] by auto
  then have u0: "udat s0 0 = UDir (Some 7)"
    by (auto simp: Pfiles_def call_c_def run_simps sys_def traced_def Let_def write_dirp_def
        lua_setmetatable_def type_of_def at_def slot_def split: option.splits if_splits)
  obtain s1 where s1: "call_c (aux_files ?A (LUdata 0)) [] s0 = Ok [] s1"
    and u1: "udat s1 0 = UDir None"
    using u0 by (simp add: aux_files_def call_c_def run_simps sys_def traced_def read_dirp_def
        write_dirp_def)
  have s2: "call_c (dir_gc ?A) [LUdata 0] s1 = Ok [] s1"
    using u1 by (simp add: dir_gc_def call_c_def run_simps at_one read_dirp_def)
  have "lives ?A (nud (sample_state [])) 7 s0 False s1"
    using lives.collect [OF lives.iterate [OF lives.start]] s1 s2 by force
  from dir_handle_protocol [OF acc _ _ s0 this] s0 s1 s2 show ?thesis by auto
qed

section \<open>Iterating to the end\<close>

lemma aux_files_more:
  assumes "udat s u = UDir (Some h)" "c_readdir A h (errno s) (world s) = (Some x, e, w)"
  shows "call_c (aux_files A (LUdata u)) args s = Ok [LStr (cstr x)] (s\<lparr>errno := e, world := w\<rparr>)"
  using assms by (simp add: call_c_def aux_files_def read_dirp_def run_simps sys_def)

lemma aux_files_end:
  assumes "udat s u = UDir (Some h)" "c_readdir A h (errno s) (world s) = (None, e, w)"
    and "c_closedir A h e w = (v, e', w')"
  shows "call_c (aux_files A (LUdata u)) args s =
    Ok [] (s\<lparr>errno := e', world := w', udat := (udat s)(u := UDir None)\<rparr>)"
  using assms by (simp add: call_c_def aux_files_def read_dirp_def write_dirp_def run_simps sys_def)

lemma aux_files_closed:
  "udat s u = UDir None \<Longrightarrow> call_c (aux_files A (LUdata u)) args s = Ok [] s"
  by (simp add: call_c_def aux_files_def read_dirp_def run_simps)

lemma dir_gc_closed:
  "udat s u = UDir None \<Longrightarrow> call_c (dir_gc A) [LUdata u] s = Ok [] s"
  by (simp add: call_c_def dir_gc_def read_dirp_def run_simps at_one)

lemma for_in_files:
  assumes "delivers (c_readdir A) h names (errno s) (world s) e w" "c_closedir A h e w = (v, e', w')"
    and "udat s u = UDir (Some h)" "length names < n"
  shows "for_in n (aux_files A (LUdata u)) acc s = Some (acc @ map (\<lambda>x. [LStr (cstr x)]) names,
    s\<lparr>errno := e', world := w', udat := (udat s)(u := UDir None)\<rparr>)"
  using assms
proof (induction names arbitrary: s n acc)
  case Nil
  then obtain m where "n = Suc m" by (cases n) auto
  with Nil show ?case by (simp add: aux_files_end fun_upd_def)
next
  case (Cons x names)
  then obtain m where n: "n = Suc m" by (cases n) auto
  obtain e1 w1 where rd: "c_readdir A h (errno s) (world s) = (Some x, e1, w1)"
    using Cons.prems(1) by (cases "c_readdir A h (errno s) (world s)") auto
  let ?s = "s\<lparr>errno := e1, world := w1\<rparr>"
  have "for_in m (aux_files A (LUdata u)) (acc @ [[LStr (cstr x)]]) ?s =
      Some ((acc @ [[LStr (cstr x)]]) @ map (\<lambda>x. [LStr (cstr x)]) names,
        ?s\<lparr>errno := e', world := w', udat := (udat ?s)(u := UDir None)\<rparr>)"
    by (rule Cons.IH) (use Cons.prems rd n in simp_all)
  with n Cons.prems(3) rd show ?case by (simp add: aux_files_more fun_upd_def)
qed

lemma Pfiles_run:
  assumes acc: "args_dir E args = Inr path"
    and opn: "c_opendir A path (errno s) (world s) = (Some h, e1, w1)"
  shows "\<exists>s0. call_c (Pfiles E A) args s = Ok [LCFun ''aux_files'' [LUdata (nud s)]] s0 \<and>
    udat s0 (nud s) = UDir (Some h) \<and> errno s0 = e1 \<and> world s0 = w1"
proof -
  obtain ys where opt: "optstring E 1 (Some ''.'') (s\<lparr>stk := args\<rparr>) = Ok (Some path) (s\<lparr>stk := ys\<rparr>)"
    and ys: "length ys = length args" using args_dir_cases(2) [OF acc] by blast
  show ?thesis
    using opt opn args_dir_cases(1) [OF acc] ys
    by (simp add: Pfiles_def call_c_def bnd_def thn_def checknargs_run sys_def Let_def
        lua_newuserdata_def write_dirp_def luaL_newmetatable_def when_do_run mt_setfield_def
        lua_setmetatable_def lua_pop_run lua_push_run ret_def split: option.splits)
qed

text \<open>
  Property C2: a \<open>for\<close> loop over \<open>files\<close> ends: it visits the names the directory stream delivers,
  all of them, once each and in the order in which \<open>dir\<close> lists them, and the stream is then closed.
  After the loop the exhausted iterator returns nothing, whatever it is called with, and the
  collector finds nothing to close.
\<close>

theorem files_visits_all:
  assumes "args_dir E args = Inr path"
    and "c_opendir A path (errno s) (world s) = (Some h, e1, w1)"
    and "delivers (c_readdir A) h names e1 w1 e2 w2"
    and "c_closedir A h e2 w2 = (v, e3, w3)" "length names < 2 ^ 31 - 1"
  shows "\<exists>s0 t u d. call_c (Pfiles E A) args s = Ok [LCFun ''aux_files'' [u]] s0 \<and>
    for_in (Suc (length names)) (aux_files A u) [] s0 = Some (map (\<lambda>x. [LStr (cstr x)]) names, t) \<and>
    errno t = e3 \<and> world t = w3 \<and>
    call_c (Pdir (Suc (length names)) E A) args s = Ok [LTab (ntab s)] d \<and>
    tabs d (ntab s) = sequence (map (\<lambda>x. LStr (cstr x)) names) \<and>
    call_c (aux_files A u) args' t = Ok [] t \<and> call_c (dir_gc A) [u] t = Ok [] t"
proof -
  let ?u = "nud s" let ?vs = "map (\<lambda>x. LStr (cstr x)) names"
  obtain s0 where s0: "call_c (Pfiles E A) args s = Ok [LCFun ''aux_files'' [LUdata ?u]] s0"
    "udat s0 ?u = UDir (Some h)" "errno s0 = e1" "world s0 = w1"
    using Pfiles_run [OF assms(1,2)] by blast
  let ?t = "s0\<lparr>errno := e3, world := w3, udat := (udat s0)(?u := UDir None)\<rparr>"
  have "for_in (Suc (length names)) (aux_files A (LUdata ?u)) [] s0 =
      Some ([] @ map (\<lambda>x. [LStr (cstr x)]) names, ?t)"
    by (rule for_in_files) (use assms(3,4) s0 in simp_all)
  moreover have "call_c (Pdir (Suc (length names)) E A) args s =
      Ok [LTab (ntab s)] (add_sequence ?vs (s\<lparr>errno := e3, world := w3\<rparr>))"
    by (rule Pdir_run [OF assms(1-4) _ assms(5)]) simp
  ultimately show ?thesis using s0(1)
    by (intro exI [of _ s0] exI [of _ ?t] exI [of _ "LUdata ?u"]
        exI [of _ "add_sequence ?vs (s\<lparr>errno := e3, world := w3\<rparr>)"])
      (simp add: aux_files_closed dir_gc_closed add_sequence_def)
qed

theorem files_visits_all_witness:
  "\<exists>s0 t u. call_c (Pfiles sample_env \<lparr>c_opendir = \<lambda>p e w. (Some 0, e, w),
       c_readdir = \<lambda>d e w. (case w of [] \<Rightarrow> (None, e, []) | x # xs \<Rightarrow> (Some x, e, xs)),
       c_closedir = \<lambda>d e w. ((), e, [''closed''])\<rparr>) [] (sample_state [''a'', ''b'']) =
     Ok [LCFun ''aux_files'' [u]] s0 \<and>
   for_in 3 (aux_files \<lparr>c_opendir = \<lambda>p e w. (Some 0, e, w),
       c_readdir = \<lambda>d e w. (case w of [] \<Rightarrow> (None, e, []) | x # xs \<Rightarrow> (Some x, e, xs)),
       c_closedir = \<lambda>d e w. ((), e, [''closed''])\<rparr> u) [] s0 = Some ([[LStr ''a''], [LStr ''b'']], t) \<and>
   world t = [''closed'']"
proof -
  let ?A = "\<lparr>c_opendir = \<lambda>p e w. (Some 0, e, w),
       c_readdir = \<lambda>d e w. (case w of [] \<Rightarrow> (None, e, []) | x # xs \<Rightarrow> (Some x, e, xs)),
       c_closedir = \<lambda>d e w. ((), e, [''closed''])\<rparr> :: string list dirapi"
  have acc: "args_dir sample_env [] = Inr ''.''"
    by (simp add: args_dir_def arg_defs at_def slot_def type_of_def type_le_nil)
  obtain s0 t u where "call_c (Pfiles sample_env ?A) [] (sample_state [''a'', ''b'']) =
      Ok [LCFun ''aux_files'' [u]] s0"
    "for_in (Suc (length [''a'', ''b''])) (aux_files ?A u) [] s0 =
      Some (map (\<lambda>x. [LStr (cstr x)]) [''a'', ''b''], t)" "world t = [''closed'']"
    using files_visits_all [OF acc, of ?A "sample_state [''a'', ''b'']" 0 0 "[''a'', ''b'']"
        "[''a'', ''b'']" 0 "[]" "()" 0 "[''closed'']" "[]"]
    by (force simp: sample_state_def simp del: for_in.simps)
  moreover have "cstr ''a'' = ''a''" "cstr ''b'' = ''b''" by code_simp+
  ultimately show ?thesis
    by (intro exI [of _ s0] exI [of _ t] exI [of _ u]) (simp add: numeral_3_eq_3 del: for_in.simps)
qed

section \<open>Opening the module\<close>

definition posix_dirent_fns :: "entry list" where
  "posix_dirent_fns = [
    Item ''Pdir'', Item ''Pfiles'']"

definition luaopen_posix_dirent :: "host \<Rightarrow> ('w, nat) lm" where
  "luaopen_posix_dirent H = open_module H ''dirent'' posix_dirent_fns []"

lemma dirent_names: "names_ok posix_dirent_fns []"
  by code_simp

end
