(* ===== verification/Errno.thy ===== *)
theory Errno
  imports Records Modules
begin

text \<open>
  \<^verbatim>\<open>ext/posix/errno.c\<close>: reading and setting \<open>errno\<close>, and the table of error constants.
\<close>

definition Perrno :: "env \<Rightarrow> ('w, nat) lm" where
  "Perrno E =
     bnd (asks errno) (\<lambda>e.
     bnd (optint E 1 e) (\<lambda>n.
     thn (checknargs 1)
    (thn (lua_pushstring (strerror E n))
    (thn (lua_pushinteger (of_cint n))
     (ret 2)))))"

definition Pset_errno :: "env \<Rightarrow> ('w, nat) lm" where
  "Pset_errno E =
     bnd (checkint E 1) (\<lambda>e.
     thn (set_errno e)
    (thn (checknargs 1)
     (ret 0)))"

section \<open>Behaviour\<close>

lemma Perrno_run:
  "call_c (Perrno E) args s =
     (case sbind (arg_optint E 1 (errno s) args) (\<lambda>n. sbind (at_most 1 args) (\<lambda>_. Inr n)) of
        Inl e \<Rightarrow> Err e s
      | Inr n \<Rightarrow> Ok [LStr (cstr (strerror E n)), LInt (of_cint n)] s)"
  by (simp add: Perrno_def wrapper_simps split: option.splits)

text \<open>\<open>errno\<close> is assigned before the number of arguments is checked.\<close>

lemma Pset_errno_run:
  "call_c (Pset_errno E) args s =
     (case arg_int E 1 args of
        Inl e \<Rightarrow> Err e s
      | Inr n \<Rightarrow> (case at_most 1 args of
           Inl e \<Rightarrow> Err e (s\<lparr>errno := n\<rparr>)
         | Inr _ \<Rightarrow> Ok [] (s\<lparr>errno := n\<rparr>)))"
  by (simp add: Pset_errno_def wrapper_simps split: option.splits)

section \<open>Opening the module\<close>

definition posix_errno_fns :: "entry list" where
  "posix_errno_fns = [
    Item ''Perrno'', Item ''Pset_errno'']"

definition posix_errno_consts1 :: "entry list" where
  "posix_errno_consts1 = [
    Only ''E2BIG'' (Item ''E2BIG''), Only ''EACCES'' (Item ''EACCES''),
    Only ''EADDRINUSE'' (Item ''EADDRINUSE''), Only ''EADDRNOTAVAIL'' (Item ''EADDRNOTAVAIL''),
    Only ''EAFNOSUPPORT'' (Item ''EAFNOSUPPORT''), Only ''EAGAIN'' (Item ''EAGAIN''),
    Only ''EALREADY'' (Item ''EALREADY''), Only ''EBADF'' (Item ''EBADF''),
    Only ''EBADMSG'' (Item ''EBADMSG''), Only ''EBUSY'' (Item ''EBUSY''),
    Only ''ECANCELED'' (Item ''ECANCELED''), Only ''ECHILD'' (Item ''ECHILD''),
    Only ''ECONNABORTED'' (Item ''ECONNABORTED''), Only ''ECONNREFUSED'' (Item ''ECONNREFUSED''),
    Only ''ECONNRESET'' (Item ''ECONNRESET''), Only ''EDEADLK'' (Item ''EDEADLK''),
    Only ''EDESTADDRREQ'' (Item ''EDESTADDRREQ''), Only ''EDOM'' (Item ''EDOM''),
    Only ''EEXIST'' (Item ''EEXIST''), Only ''EFAULT'' (Item ''EFAULT''),
    Only ''EFBIG'' (Item ''EFBIG''), Only ''EHOSTUNREACH'' (Item ''EHOSTUNREACH''),
    Only ''EIDRM'' (Item ''EIDRM''), Only ''EILSEQ'' (Item ''EILSEQ''),
    Only ''EINPROGRESS'' (Item ''EINPROGRESS''), Only ''EINTR'' (Item ''EINTR''),
    Only ''EINVAL'' (Item ''EINVAL''), Only ''EIO'' (Item ''EIO''),
    Only ''EISCONN'' (Item ''EISCONN''), Only ''EISDIR'' (Item ''EISDIR''),
    Only ''ELOOP'' (Item ''ELOOP''), Only ''EMFILE'' (Item ''EMFILE''),
    Only ''EMLINK'' (Item ''EMLINK''), Only ''EMSGSIZE'' (Item ''EMSGSIZE''),
    Only ''ENAMETOOLONG'' (Item ''ENAMETOOLONG''), Only ''ENETDOWN'' (Item ''ENETDOWN''),
    Only ''ENETRESET'' (Item ''ENETRESET''), Only ''ENETUNREACH'' (Item ''ENETUNREACH''),
    Only ''ENFILE'' (Item ''ENFILE''), Only ''ENOBUFS'' (Item ''ENOBUFS''),
    Only ''ENODEV'' (Item ''ENODEV''), Only ''ENOENT'' (Item ''ENOENT''),
    Only ''ENOEXEC'' (Item ''ENOEXEC'')]"

definition posix_errno_consts2 :: "entry list" where
  "posix_errno_consts2 = [
    Only ''ENOLCK'' (Item ''ENOLCK''), Only ''ENOMEM'' (Item ''ENOMEM''),
    Only ''ENOMSG'' (Item ''ENOMSG''), Only ''ENOPROTOOPT'' (Item ''ENOPROTOOPT''),
    Only ''ENOSPC'' (Item ''ENOSPC''), Only ''ENOSYS'' (Item ''ENOSYS''),
    Only ''ENOTCONN'' (Item ''ENOTCONN''), Only ''ENOTDIR'' (Item ''ENOTDIR''),
    Only ''ENOTEMPTY'' (Item ''ENOTEMPTY''), Only ''ENOTSOCK'' (Item ''ENOTSOCK''),
    Only ''ENOTSUP'' (Item ''ENOTSUP''), Only ''ENOTTY'' (Item ''ENOTTY''),
    Only ''ENXIO'' (Item ''ENXIO''), Only ''EOPNOTSUPP'' (Item ''EOPNOTSUPP''),
    Only ''EOVERFLOW'' (Item ''EOVERFLOW''), Only ''EPERM'' (Item ''EPERM''),
    Only ''EPIPE'' (Item ''EPIPE''), Only ''EPROTO'' (Item ''EPROTO''),
    Only ''EPROTONOSUPPORT'' (Item ''EPROTONOSUPPORT''),
    Only ''EPROTOTYPE'' (Item ''EPROTOTYPE''), Only ''ERANGE'' (Item ''ERANGE''),
    Only ''EROFS'' (Item ''EROFS''), Only ''ESPIPE'' (Item ''ESPIPE''),
    Only ''ESRCH'' (Item ''ESRCH''), Only ''ETIMEDOUT'' (Item ''ETIMEDOUT''),
    Only ''ETXTBSY'' (Item ''ETXTBSY''), Only ''EWOULDBLOCK'' (Item ''EWOULDBLOCK''),
    Only ''EXDEV'' (Item ''EXDEV'')]"

definition posix_errno_consts :: "entry list" where
  "posix_errno_consts =
     posix_errno_consts1 @
     posix_errno_consts2"

definition luaopen_posix_errno :: "host \<Rightarrow> ('w, nat) lm" where
  "luaopen_posix_errno H = open_module H ''errno'' posix_errno_fns posix_errno_consts"

lemma errno_names: "names_ok posix_errno_fns posix_errno_consts"
  by code_simp

end
