(* ===== verification/Fcntl.thy ===== *)
theory Fcntl
  imports Records Modules
begin

text \<open>
  \<^verbatim>\<open>ext/posix/fcntl.c\<close>: \<open>fcntl\<close>, \<open>open\<close> and \<open>posix_fadvise\<close>.  The lock commands copy a Lua table
  into a \<open>struct flock\<close> and back; the structure starts out indeterminate (parameter \<open>lock0\<close>).
\<close>

record flock =
  l_type :: cshort
  l_whence :: cshort
  l_start :: lint
  l_len :: lint
  l_pid :: cint

text \<open>The command numbers come from \<^verbatim>\<open>fcntl.h\<close>.\<close>

record fcntl_cmds =
  F_GETLK :: cint
  F_SETLK :: cint
  F_SETLKW :: cint

definition is_lock_cmd :: "fcntl_cmds \<Rightarrow> cint \<Rightarrow> bool" where
  "is_lock_cmd K cmd \<longleftrightarrow> cmd = F_SETLK K \<or> cmd = F_SETLKW K \<or> cmd = F_GETLK K"

text \<open>The lock branch of the switch: read the table, call, write the table.\<close>

definition field_integer :: "env \<Rightarrow> int \<Rightarrow> string \<Rightarrow> ('w, lint) lm" where
  "field_integer E i k = thn (lua_getfield E i k) (lua_tointeger E (-1))"

definition fcntl_lock ::
  "env \<Rightarrow> flock \<Rightarrow> (flock \<Rightarrow> ('w, cint \<times> flock) sys) \<Rightarrow> ('w, cint) lm" where
  "fcntl_lock E lock0 c_fcntl_lock =
     thn (luaL_checktype 3 TTABLE)
    (bnd (field_integer E 3 ''l_type'') (\<lambda>ty.
     bnd (field_integer E 3 ''l_whence'') (\<lambda>wh.
     bnd (field_integer E 3 ''l_start'') (\<lambda>st.
     bnd (field_integer E 3 ''l_len'') (\<lambda>len.
     bnd (sys (c_fcntl_lock (lock0\<lparr>l_type := to_cshort ty, l_whence := to_cshort wh,
                                   l_start := st, l_len := len\<rparr>))) (\<lambda>res.
     let r = fst res; lockinfo = snd res in
     thn (set_fields_at 3 [
       (''l_type'', LInt (of_cshort (l_type lockinfo))),
       (''l_whence'', LInt (of_cshort (l_whence lockinfo))),
       (''l_start'', LInt (l_start lockinfo)),
       (''l_len'', LInt (l_len lockinfo)),
       (''l_pid'', LInt (of_cint (l_pid lockinfo)))])
     (ret r)))))))"

definition Pfcntl ::
  "env \<Rightarrow> fcntl_cmds \<Rightarrow> flock \<Rightarrow> (cint \<Rightarrow> cint \<Rightarrow> flock \<Rightarrow> ('w, cint \<times> flock) sys) \<Rightarrow>
   (cint \<Rightarrow> cint \<Rightarrow> cint \<Rightarrow> ('w, cint) sys) \<Rightarrow> ('w, nat) lm" where
  "Pfcntl E K lock0 c_fcntl_lock c_fcntl =
     bnd (checkint E 1) (\<lambda>fd.
     bnd (checkint E 2) (\<lambda>cmd.
     thn (checknargs 3)
    (bnd (if is_lock_cmd K cmd then fcntl_lock E lock0 (c_fcntl_lock fd cmd)
          else bnd (optint E 3 0) (\<lambda>arg. sys (c_fcntl fd cmd arg))) (\<lambda>r.
     pushresult E r (Some ''fcntl'')))))"

definition Popen ::
  "env \<Rightarrow> (string \<Rightarrow> cint \<Rightarrow> cint \<Rightarrow> ('w, cint) sys) \<Rightarrow> ('w, nat) lm" where
  "Popen E c_open =
     bnd (luaL_checkstring E 1) (\<lambda>path.
     bnd (checkint E 2) (\<lambda>oflags.
     thn (checknargs 3)
    (bnd (optinteger E 3 511) (\<lambda>mode.
     bnd (sys (c_open path oflags (to_cint mode))) (\<lambda>r.
     pushresult E r (Some path))))))"

definition Pposix_fadvise ::
  "env \<Rightarrow> (cint \<Rightarrow> lint \<Rightarrow> lint \<Rightarrow> cint \<Rightarrow> ('w, cint) sys) \<Rightarrow> ('w, nat) lm" where
  "Pposix_fadvise E c_posix_fadvise =
     bnd (checkint E 1) (\<lambda>fd.
     bnd (checkinteger E 2) (\<lambda>offset.
     bnd (checkinteger E 3) (\<lambda>len.
     bnd (checkint E 4) (\<lambda>advice.
     thn (checknargs 4)
    (bnd (sys (c_posix_fadvise fd offset len advice)) (\<lambda>r.
     pushresult E (if r = 0 then 0 else -1) (Some ''posix_fadvise'')))))))"

section \<open>Rejected calls\<close>

lemma clean_fcntl_lock: "clean (fcntl_lock E lock0 c_fcntl_lock)"
  unfolding fcntl_lock_def field_integer_def by (rule clean_rules)+

lemma clean_Pfcntl: "clean (Pfcntl E K lock0 c_fcntl_lock c_fcntl)"
proof -
  have plain: "clean (bnd (optint E 3 0) (\<lambda>arg. sys (c_fcntl fd cmd arg)))" for fd cmd
    by (rule clean_rules clean_settled)+
  show ?thesis
    unfolding Pfcntl_def
    by (rule clean_bnd clean_thn quiet_args clean_bnd_settled [OF clean_if settled_results(5)]
        clean_fcntl_lock plain)+
qed

lemma clean_Popen: "clean (Popen E c_open)"
  unfolding Popen_def by (rule clean_rules)+

lemma clean_Pposix_fadvise: "clean (Pposix_fadvise E c)"
  unfolding Pposix_fadvise_def by (rule clean_rules)+

section \<open>Behaviour\<close>

definition args_open :: "env \<Rightarrow> 'w lst \<Rightarrow> lvalue list \<Rightarrow> err + (string \<times> cint \<times> cint)" where
  "args_open E s args =
     sbind (arg_str E s 1 args) (\<lambda>path. sbind (arg_int E 2 args) (\<lambda>oflags.
     sbind (at_most 3 args) (\<lambda>_. sbind (arg_optinteger E 3 511 args) (\<lambda>mode.
     Inr (path, oflags, to_cint mode)))))"

interpretation open_call: sys_wrapper "Popen E c_open" "args_open E"
    "\<lambda>(p, fl, m). c_open p fl m" E "\<lambda>(p, fl, m). Some p" for E c_open
  by unfold_locales
    (simp add: Popen_def args_open_def wrapper_simps split: option.splits prod.splits)

definition args_fcntl :: "env \<Rightarrow> 'w lst \<Rightarrow> lvalue list \<Rightarrow> err + (cint \<times> cint \<times> cint)" where
  "args_fcntl E s args =
     sbind (arg_int E 1 args) (\<lambda>fd. sbind (arg_int E 2 args) (\<lambda>cmd.
     sbind (at_most 3 args) (\<lambda>_. sbind (arg_optint E 3 0 args) (\<lambda>arg.
     Inr (fd, cmd, arg)))))"

lemma fcntl_plain:
  "args_fcntl E s args = Inr (fd, cmd, arg) \<Longrightarrow> \<not> is_lock_cmd K cmd \<Longrightarrow>
   call_c (Pfcntl E K lock0 c_fcntl_lock c_fcntl) args s =
     (case c_fcntl fd cmd arg (errno s) (world s) of
        (r, e, w) \<Rightarrow> Ok (result_values E (Some ''fcntl'') r e) (s\<lparr>errno := e, world := w\<rparr>))"
  by (auto simp: Pfcntl_def args_fcntl_def accepted call_c_def run_simps sys_def
      split: prod.splits if_splits)

text \<open>The table a lock command leaves behind: all five fields as the kernel returned them.\<close>

definition flock_entries :: "flock \<Rightarrow> ltable" where
  "flock_entries lk =
     named [(''l_type'', LInt (of_cshort (l_type lk))), (''l_whence'', LInt (of_cshort (l_whence lk))),
       (''l_start'', LInt (l_start lk)), (''l_len'', LInt (l_len lk)),
       (''l_pid'', LInt (of_cint (l_pid lk)))]"

definition flock_of_table :: "env \<Rightarrow> flock \<Rightarrow> ltable \<Rightarrow> flock" where
  "flock_of_table E lock0 t =
     lock0\<lparr>l_type := to_cshort (int_field E t ''l_type''),
           l_whence := to_cshort (int_field E t ''l_whence''),
           l_start := int_field E t ''l_start'', l_len := int_field E t ''l_len''\<rparr>"

lemma field_integer_run:
  "at i (stk s) = Some (LTab a) \<Longrightarrow>
   field_integer E i k s =
     Ok (int_field E (tabs s a) k) (s\<lparr>stk := stk s @ [tbl_get (tabs s a) (LStr k)]\<rparr>)"
  by (simp add: field_integer_def run_simps lua_getfield_run int_field_def)

lemma fcntl_lock_run:
  assumes tab: "at 3 (stk s) = Some (LTab a)"
    and call: "c_fcntl_lock (flock_of_table E lock0 (tabs s a)) (errno s) (world s) = ((r, lk), e, w)"
  shows "\<exists>ys. fcntl_lock E lock0 c_fcntl_lock s =
    Ok r (set_tab a (tbl.put_all (tabs s a) (flock_entries lk))
            (s\<lparr>stk := stk s @ ys, errno := e, world := w\<rparr>))"
proof -
  let ?ys = "map (\<lambda>k. tbl_get (tabs s a) (LStr k)) [''l_type'', ''l_whence'', ''l_start'', ''l_len'']"
  have "fcntl_lock E lock0 c_fcntl_lock s =
    Ok r (set_tab a (tbl.put_all (tabs s a) (flock_entries lk))
            (s\<lparr>stk := stk s @ ?ys, errno := e, world := w\<rparr>))"
    using assms
    by (simp add: fcntl_lock_def run_simps type_of_def field_integer_run at_append_pos sys_def
        flock_of_table_def Let_def set_fields_at_run flock_entries_def)
  then show ?thesis ..
qed

definition args_lock :: "env \<Rightarrow> lvalue list \<Rightarrow> err + (cint \<times> cint \<times> nat)" where
  "args_lock E args =
     sbind (arg_int E 1 args) (\<lambda>fd. sbind (arg_int E 2 args) (\<lambda>cmd. sbind (at_most 3 args) (\<lambda>_.
     sbind (arg_table 3 (\<lambda>v. ArgError 3 (got_msg ''table'' v)) args) (\<lambda>a. Inr (fd, cmd, a)))))"

lemma flock_entries_back:
  "flock_of_table E lock1 (tbl.put_all t (flock_entries lk)) = lk\<lparr>l_pid := l_pid lock1\<rparr>"
  by (simp add: flock_of_table_def int_field_def flock_entries_def tbl.get_put_all)

lemma Pfcntl_lock_run:
  assumes "args_lock E args = Inr (fd, cmd, a)" "is_lock_cmd K cmd"
    and "c_fcntl_lock fd cmd (flock_of_table E lock0 (tabs s a)) (errno s) (world s) = ((r, lk), e, w)"
  shows "call_c (Pfcntl E K lock0 c_fcntl_lock c_fcntl) args s = Ok (result_values E (Some ''fcntl'') r e)
    (set_tab a (tbl.put_all (tabs s a) (flock_entries lk)) (s\<lparr>errno := e, world := w\<rparr>))"
proof -
  have tab: "at 3 args = Some (LTab a)" using assms(1) by (auto simp: args_lock_def accepted)
  obtain ys where lock: "fcntl_lock E lock0 (c_fcntl_lock fd cmd) (s\<lparr>stk := args\<rparr>) =
      Ok r (set_tab a (tbl.put_all (tabs s a) (flock_entries lk))
        (s\<lparr>stk := args @ ys, errno := e, world := w\<rparr>))"
    using fcntl_lock_run [of "s\<lparr>stk := args\<rparr>" a "c_fcntl_lock fd cmd" E lock0 r lk e w] tab assms(3) by auto
  show ?thesis
    using assms(1,2) lock
    by (auto simp: Pfcntl_def args_lock_def accepted call_c_def run_simps set_tab_def)
qed

text \<open>
  \<open>F_SETLK\<close> and \<open>F_SETLKW\<close> leave the structure alone, so the table gets a \<open>l_pid\<close> that nobody has set.
\<close>

lemma setlk_stray_pid:
  assumes "args_lock E args = Inr (fd, cmd, a)" "is_lock_cmd K cmd"
    and "c_fcntl_lock fd cmd (flock_of_table E lock0 (tabs s a)) (errno s) (world s) =
      ((r, flock_of_table E lock0 (tabs s a)), e, w)"
  shows "\<exists>t. call_c (Pfcntl E K lock0 c_fcntl_lock c_fcntl) args s = Ok (result_values E (Some ''fcntl'') r e) t \<and>
    tbl_get (tabs t a) (LStr ''l_pid'') = LInt (of_cint (l_pid lock0))"
  using Pfcntl_lock_run [OF assms(1,2), where c_fcntl_lock = c_fcntl_lock and c_fcntl = c_fcntl, OF assms(3)]
  by (simp add: flock_entries_def tbl.get_put_all flock_of_table_def)

text \<open>
  Property C10: a lock command of \<open>fcntl\<close> hands the kernel the lock the table describes and leaves the
  table describing the lock the kernel gave back, all five fields and nothing else, whether the call
  succeeded or not: read back, the table is that lock with its type, start and length unchanged (only
  \<open>l_pid\<close> is never read), so a lock queried with \<open>F_GETLK\<close> can be given to the next command as it is.
\<close>

theorem fcntl_lock_roundtrip:
  assumes "args_lock E args = Inr (fd, cmd, a)" "is_lock_cmd K cmd"
    and "c_fcntl_lock fd cmd (flock_of_table E lock0 (tabs s a)) (errno s) (world s) = ((r, lk), e, w)"
    and "args_lock E args' = Inr (fd', cmd', a)" "is_lock_cmd K cmd'"
    and "c_fcntl_lock fd' cmd' (lk\<lparr>l_pid := l_pid lock1\<rparr>) e w = ((r', lk'), e', w')"
  shows "\<exists>t t'. call_c (Pfcntl E K lock0 c_fcntl_lock c_fcntl) args s =
      Ok (result_values E (Some ''fcntl'') r e) t \<and>
    tbl_get (tabs t a) (LStr ''l_pid'') = LInt (of_cint (l_pid lk)) \<and>
    (\<forall>k. k \<notin> fst ` set (flock_entries lk) \<longrightarrow> tbl_get (tabs t a) k = tbl_get (tabs s a) k) \<and>
    call_c (Pfcntl E K lock1 c_fcntl_lock c_fcntl) args' t =
      Ok (result_values E (Some ''fcntl'') r' e') t' \<and> world t' = w' \<and> errno t' = e'"
proof -
  let ?t = "set_tab a (tbl.put_all (tabs s a) (flock_entries lk)) (s\<lparr>errno := e, world := w\<rparr>)"
  have "c_fcntl_lock fd' cmd' (flock_of_table E lock1 (tabs ?t a)) (errno ?t) (world ?t) = ((r', lk'), e', w')"
    using assms(6) by (simp add: flock_entries_back)
  from Pfcntl_lock_run [OF assms(4,5), where c_fcntl_lock = c_fcntl_lock and c_fcntl = c_fcntl, OF this]
    Pfcntl_lock_run [OF assms(1,2), where c_fcntl_lock = c_fcntl_lock and c_fcntl = c_fcntl, OF assms(3)]
  show ?thesis
    by (intro exI conjI) (assumption | auto simp: flock_entries_def tbl.get_put_all tbl.get_put_all_other)+
qed

theorem fcntl_lock_roundtrip_witness:
  "\<exists>t t'. call_c (Pfcntl sample_env \<lparr>F_GETLK = 5, F_SETLK = 6, F_SETLKW = 7\<rparr>
        \<lparr>l_type = 0, l_whence = 0, l_start = 0, l_len = 0, l_pid = 99\<rparr>
        (\<lambda>fd cmd lk e w. ((0, if cmd = 5 then lk\<lparr>l_type := 2, l_pid := 42\<rparr> else lk), e, w @ [lk]))
        (\<lambda>_ _ _ e w. (0, e, w))) [LInt 3, LInt 5, LTab 0]
      ((sample_state [])\<lparr>tabs := (\<lambda>_. [(LStr ''l_type'', LInt 1), (LStr ''l_start'', LInt 10)])\<rparr>) = Ok [LInt 0] t \<and>
    tbl_get (tabs t 0) (LStr ''l_pid'') = LInt 42 \<and>
    call_c (Pfcntl sample_env \<lparr>F_GETLK = 5, F_SETLK = 6, F_SETLKW = 7\<rparr>
        \<lparr>l_type = 0, l_whence = 0, l_start = 0, l_len = 0, l_pid = 98\<rparr>
        (\<lambda>fd cmd lk e w. ((0, if cmd = 5 then lk\<lparr>l_type := 2, l_pid := 42\<rparr> else lk), e, w @ [lk]))
        (\<lambda>_ _ _ e w. (0, e, w))) [LInt 3, LInt 6, LTab 0] t = Ok [LInt 0] t' \<and>
    world t' = [\<lparr>l_type = 1, l_whence = 0, l_start = 10, l_len = 0, l_pid = 99\<rparr>,
      \<lparr>l_type = 2, l_whence = 0, l_start = 10, l_len = 0, l_pid = 98\<rparr>]"
proof -
  let ?K = "\<lparr>F_GETLK = 5, F_SETLK = 6, F_SETLKW = 7\<rparr>"
  let ?c = "\<lambda>(fd :: cint) (cmd :: cint) (lk :: flock) (e :: cint) (w :: flock list).
    ((0 :: cint, if cmd = 5 then lk\<lparr>l_type := 2, l_pid := 42\<rparr> else lk), e, w @ [lk])"
  let ?s = "(sample_state [])\<lparr>tabs := (\<lambda>_. [(LStr ''l_type'', LInt 1), (LStr ''l_start'', LInt 10)])\<rparr> :: flock list lst"
  have a1: "args_lock sample_env [LInt 3, LInt 5, LTab 0] = Inr (3, 5, 0)"
    by (simp add: args_lock_def arg_defs arg_table_def at_simps to_cint_def)
  have a2: "args_lock sample_env [LInt 3, LInt 6, LTab 0] = Inr (3, 6, 0)"
    by (simp add: args_lock_def arg_defs arg_table_def at_simps to_cint_def)
  have K: "is_lock_cmd ?K 5" "is_lock_cmd ?K 6" by (simp_all add: is_lock_cmd_def)
  show ?thesis
    using fcntl_lock_roundtrip [where c_fcntl_lock = ?c and c_fcntl = "\<lambda>_ _ _ e w. (0, e, w)" and s = ?s
        and ?lock0.0 = "\<lparr>l_type = 0, l_whence = 0, l_start = 0, l_len = 0, l_pid = 99\<rparr>"
        and ?lock1.0 = "\<lparr>l_type = 0, l_whence = 0, l_start = 0, l_len = 0, l_pid = 98\<rparr>",
        OF a1 K(1) refl a2 K(2) refl]
    by (simp add: flock_of_table_def int_field_def tbl_get_def result_values_def to_cshort_def of_cint_def)
      (elim exE conjE, intro exI conjI, assumption+)
qed

section \<open>Opening the module\<close>

definition posix_fcntl_fns :: "entry list" where
  "posix_fcntl_fns = [
    Item ''Pfcntl'', Item ''Popen'', Only ''HAVE_POSIX_FADVISE'' (Item ''Pposix_fadvise'')]"

definition posix_fcntl_consts :: "entry list" where
  "posix_fcntl_consts = [
    Only ''AT_EACCESS'' (Item ''AT_EACCESS''), Only ''AT_FDCWD'' (Item ''AT_FDCWD''),
    Only ''AT_REMOVEDIR'' (Item ''AT_REMOVEDIR''),
    Only ''AT_SYMLINK_FOLLOW'' (Item ''AT_SYMLINK_FOLLOW''),
    Only ''AT_SYMLINK_NOFOLLOW'' (Item ''AT_SYMLINK_NOFOLLOW''),
    Only ''AT_EMPTY_PATH'' (Item ''AT_EMPTY_PATH''),
    Only ''AT_NO_AUTOMOUNT'' (Item ''AT_NO_AUTOMOUNT''), Item ''FD_CLOEXEC'', Item ''F_DUPFD'',
    Item ''F_GETFD'', Item ''F_SETFD'', Item ''F_GETFL'', Item ''F_SETFL'', Item ''F_GETLK'',
    Item ''F_SETLK'', Item ''F_SETLKW'', Item ''F_GETOWN'', Item ''F_SETOWN'', Item ''F_RDLCK'',
    Item ''F_WRLCK'', Item ''F_UNLCK'', Item ''O_RDONLY'', Item ''O_WRONLY'', Item ''O_RDWR'',
    Item ''O_APPEND'', Item ''O_CREAT'', OrZero ''O_DSYNC'', Item ''O_EXCL'', Item ''O_NOCTTY'',
    Item ''O_NONBLOCK'', OrZero ''O_RSYNC'', Item ''O_SYNC'', Item ''O_TRUNC'',
    OrZero ''O_CLOEXEC'', Only ''O_TMPFILE'' (Item ''O_TMPFILE''),
    Only ''POSIX_FADV_NORMAL'' (Item ''POSIX_FADV_NORMAL''),
    Only ''POSIX_FADV_SEQUENTIAL'' (Item ''POSIX_FADV_SEQUENTIAL''),
    Only ''POSIX_FADV_RANDOM'' (Item ''POSIX_FADV_RANDOM''),
    Only ''POSIX_FADV_NOREUSE'' (Item ''POSIX_FADV_NOREUSE''),
    Only ''POSIX_FADV_WILLNEED'' (Item ''POSIX_FADV_WILLNEED''),
    Only ''POSIX_FADV_DONTNEED'' (Item ''POSIX_FADV_DONTNEED'')]"

definition luaopen_posix_fcntl :: "host \<Rightarrow> ('w, nat) lm" where
  "luaopen_posix_fcntl H = open_module H ''fcntl'' posix_fcntl_fns posix_fcntl_consts"

lemma fcntl_names: "names_ok posix_fcntl_fns posix_fcntl_consts"
  by code_simp

end
