(* ===== verification/Fnmatch.thy ===== *)
theory Fnmatch
  imports Records Modules
begin

text \<open>\<^verbatim>\<open>ext/posix/fnmatch.c\<close>: matching a name against a pattern.\<close>

definition Pfnmatch ::
  "env \<Rightarrow> (string \<Rightarrow> string \<Rightarrow> cint \<Rightarrow> ('w, cint) sys) \<Rightarrow> ('w, nat) lm" where
  "Pfnmatch E c_fnmatch =
     bnd (luaL_checkstring E 1) (\<lambda>pattern.
     bnd (luaL_checkstring E 2) (\<lambda>x.
     bnd (optint E 3 0) (\<lambda>flags.
     thn (checknargs 3)
    (bnd (sys (c_fnmatch pattern x flags)) (\<lambda>r.
     pushintegerresult (of_cint r))))))"

definition args_fnmatch ::
  "env \<Rightarrow> 'w lst \<Rightarrow> lvalue list \<Rightarrow> err + (string \<times> string \<times> cint)" where
  "args_fnmatch E s args =
     sbind (arg_str E s 1 args) (\<lambda>p. sbind (arg_str E s 2 args) (\<lambda>x.
     sbind (arg_optint E 3 0 args) (\<lambda>f. sbind (at_most 3 args) (\<lambda>_. Inr (p, x, f)))))"

lemma Pfnmatch_run:
  "call_c (Pfnmatch E c_fnmatch) args s = (case args_fnmatch E s args of
       Inl e \<Rightarrow> Err e s
     | Inr (p, x, f) \<Rightarrow> (case c_fnmatch p x f (errno s) (world s) of
         (r, e, w) \<Rightarrow> Ok [LInt (of_cint r)] (s\<lparr>errno := e, world := w\<rparr>)))"
  by (simp add: Pfnmatch_def args_fnmatch_def wrapper_simps split: option.splits prod.splits)

lemma clean_Pfnmatch: "clean (Pfnmatch E c_fnmatch)"
  unfolding Pfnmatch_def by (rule clean_rules)+

section \<open>Opening the module\<close>

definition posix_fnmatch_fns :: "entry list" where
  "posix_fnmatch_fns = [
    Item ''Pfnmatch'']"

definition posix_fnmatch_consts :: "entry list" where
  "posix_fnmatch_consts = [
    Item ''FNM_PATHNAME'', Item ''FNM_NOESCAPE'', Item ''FNM_NOMATCH'', Item ''FNM_PERIOD'']"

definition luaopen_posix_fnmatch :: "host \<Rightarrow> ('w, nat) lm" where
  "luaopen_posix_fnmatch H = open_module H ''fnmatch'' posix_fnmatch_fns posix_fnmatch_consts"

lemma fnmatch_names: "names_ok posix_fnmatch_fns posix_fnmatch_consts"
  by code_simp

end
