(* ===== verification/Glob.thy ===== *)
theory Glob
  imports Arrays Modules
begin

text \<open>
  \<^verbatim>\<open>ext/posix/glob.c\<close>: pathname expansion.  \<open>c_glob\<close> returns the status and the paths it found;
  \<open>c_globfree\<close> releases them.
\<close>

definition Pglob ::
  "env \<Rightarrow> (string \<Rightarrow> cint \<Rightarrow> ('w, cint \<times> string list) sys) \<Rightarrow> ('w, unit) sys \<Rightarrow> ('w, nat) lm" where
  "Pglob E c_glob c_globfree =
     bnd (optstring E 1 (Some ''*'')) (\<lambda>pat.
     bnd (checkint E 2) (\<lambda>flags.
     thn (checknargs 2)
    (bnd (sys (c_glob (the pat) flags)) (\<lambda>r.
     if fst r \<noteq> 0 then
       seqn [lua_pushnil, lua_pushinteger (of_cint (fst r))] 2
     else
       thn (push_array Unsigned (map (\<lambda>x. LStr (cstr x)) (snd r)))
      (thn (sys c_globfree)
       (ret 1))))))"

definition args_glob :: "env \<Rightarrow> lvalue list \<Rightarrow> err + (string \<times> cint)" where
  "args_glob E args =
     sbind (arg_defstr E 1 ''*'' args) (\<lambda>p. sbind (arg_int E 2 args) (\<lambda>f.
     sbind (at_most 2 args) (\<lambda>_. Inr (p, f))))"

lemma clean_Pglob: "clean (Pglob E c d)"
  unfolding Pglob_def by (rule clean_rules settled_push_array)+

lemma Pglob_run:
  assumes "args_glob E args = Inr (p, f)"
    and "c_glob p f (errno s) (world s) = ((r, paths), e, w)" "length paths < 2 ^ 31"
    and "c_globfree e w = (u, e', w')"
  shows "call_c (Pglob E c_glob c_globfree) args s =
    (if r \<noteq> 0 then Ok [LNil, LInt (of_cint r)] (s\<lparr>errno := e, world := w\<rparr>)
     else Ok [LTab (ntab s)] (add_sequence (map (\<lambda>x. LStr (cstr x)) paths)
            (s\<lparr>errno := e', world := w'\<rparr>)))"
proof -
  let ?vs = "map (\<lambda>x. LStr (cstr x)) paths"
  have "push_array Unsigned ?vs t = Ok () (with_sequence ?vs t)" for t :: "'a lst"
    by (rule push_array_run) (use assms(3) in auto)
  note arr = this
  obtain d where d: "val_int E (at 2 args) = Some d" "f = to_cint d" and len: "length args \<le> 2"
    and p: "if type_of (at 1 args) \<le> TNIL then p = ''*''
      else \<exists>y. val_str E (at 1 args) = Some y \<and> p = cstr y"
    using assms(1) by (auto simp: args_glob_def accepted)
  show ?thesis
  proof (cases "type_of (at 1 args) \<le> TNIL")
    case True
    then show ?thesis using assms(2,4) d len p arr
      by (simp add: Pglob_def call_c_def run_simps sys_def)
  next
    case False
    then obtain y where "val_str E (at 1 args) = Some y \<and> p = cstr y" using p by auto
    then show ?thesis using False assms(2,4) d len arr
      by (simp add: Pglob_def call_c_def run_simps sys_def put_at_same_type)
  qed
qed

section \<open>Opening the module\<close>

definition posix_glob_fns :: "entry list" where
  "posix_glob_fns = [
    Item ''Pglob'']"

definition posix_glob_consts :: "entry list" where
  "posix_glob_consts = [
    Item ''GLOB_ERR'', Item ''GLOB_MARK'', Item ''GLOB_NOCHECK'', Item ''GLOB_ABORTED'',
    Item ''GLOB_NOMATCH'', Item ''GLOB_NOSPACE'']"

definition luaopen_posix_glob :: "host \<Rightarrow> ('w, nat) lm" where
  "luaopen_posix_glob H = open_module H ''glob'' posix_glob_fns posix_glob_consts"

lemma glob_names: "names_ok posix_glob_fns posix_glob_consts"
  by code_simp

end
