(* ===== verification/Grp.thy ===== *)
theory Grp
  imports Arrays Modules
begin

text \<open>
  \<^verbatim>\<open>ext/posix/grp.c\<close>: the group database.  A group is a table whose field \<open>gr_mem\<close> is a second
  table, the sequence of member names.
\<close>

record grp =
  gr_gid :: cint
  gr_name :: "string option"
  gr_mem :: "string list option"

definition member_values :: "string list \<Rightarrow> lvalue list" where
  "member_values ms = map (\<lambda>m. LStr (cstr m)) ms"

definition pushgroup :: "grp option \<Rightarrow> ('w, nat) lm" where
  "pushgroup g = (case g of
      None \<Rightarrow> thn lua_pushnil (ret 1)
    | Some h \<Rightarrow>
        thn lua_createtable
       (thn (for_each [IntF ''gr_gid'' (of_cuint (gr_gid h)), StrF ''gr_name'' (gr_name h)] put_rfield)
       (thn (case gr_mem h of
               None \<Rightarrow> ret ()
             | Some ms \<Rightarrow> thn (push_array Signed (member_values ms)) (lua_setfield (-2) ''gr_mem''))
       (thn (settypemetatable ''PosixGroup'')
        (ret 1)))))"

definition Pendgrent :: "('w, unit) sys \<Rightarrow> ('w, nat) lm" where
  "Pendgrent c_endgrent = thn (checknargs 0) (thn (sys c_endgrent) (ret 0))"

definition Pgetgrent :: "('w, grp option) sys \<Rightarrow> ('w, unit) sys \<Rightarrow> ('w, nat) lm" where
  "Pgetgrent c_getgrent c_endgrent =
     thn (checknargs 0)
    (bnd (sys c_getgrent) (\<lambda>g.
     bnd (asks errno) (\<lambda>e.
     thn (when_do (g = None \<and> e = 0) (sys c_endgrent))
         (pushgroup g))))"

definition Pgetgrgid :: "env \<Rightarrow> (cint \<Rightarrow> ('w, grp option) sys) \<Rightarrow> ('w, nat) lm" where
  "Pgetgrgid E c_getgrgid =
     bnd (checkinteger E 1) (\<lambda>gid.
     thn (checknargs 1)
    (thn (set_errno 0)
    (bnd (sys (c_getgrgid (to_cint gid))) (\<lambda>g.
     bnd (asks errno) (\<lambda>e.
     if g = None \<and> e \<noteq> 0 then pusherror E (Some ''getgrgid'') else pushgroup g)))))"

definition Pgetgrnam :: "env \<Rightarrow> (string \<Rightarrow> ('w, grp option) sys) \<Rightarrow> ('w, nat) lm" where
  "Pgetgrnam E c_getgrnam =
     bnd (luaL_checkstring E 1) (\<lambda>name.
     thn (checknargs 1)
    (thn (set_errno 0)
    (bnd (sys (c_getgrnam name)) (\<lambda>g.
     bnd (asks errno) (\<lambda>e.
     if g = None \<and> e \<noteq> 0 then pusherror E (Some ''getgrnam'') else pushgroup g)))))"

definition Psetgrent :: "('w, unit) sys \<Rightarrow> ('w, nat) lm" where
  "Psetgrent c_setgrent = thn (checknargs 0) (thn (sys c_setgrent) (ret 0))"

section \<open>Behaviour\<close>

text \<open>
  \<open>group_at s' a b g\<close>: table \<open>a\<close> is the group \<open>g\<close>, whose members, when there are any, are
  the sequence in table \<open>b\<close>.
\<close>

definition group_at :: "'w lst \<Rightarrow> nat \<Rightarrow> nat \<Rightarrow> grp \<Rightarrow> bool" where
  "group_at s a b g \<longleftrightarrow>
     metas s a = Some ''PosixGroup'' \<and>
     tbl_get (tabs s a) (LStr ''gr_gid'') = LInt (of_cuint (gr_gid g)) \<and>
     tbl_get (tabs s a) (LStr ''gr_name'') =
       (case gr_name g of None \<Rightarrow> LNil | Some n \<Rightarrow> LStr (cstr n)) \<and>
     (case gr_mem g of
        None \<Rightarrow> tbl_get (tabs s a) (LStr ''gr_mem'') = LNil
      | Some ms \<Rightarrow> tbl_get (tabs s a) (LStr ''gr_mem'') = LTab b \<and>
                  tabs s b = sequence (member_values ms))"

lemma members_pushed:
  "length ms < 2 ^ 31 - 1 \<Longrightarrow>
   push_array Signed (member_values ms) s = Ok () (with_sequence (member_values ms) s)"
  by (rule push_array_run) (auto simp: member_values_def)

lemma group_fields_run:
  "stk s = xs @ [LTab a] \<Longrightarrow>
   for_each fs put_rfield s = Ok () (set_tab a (tbl.put_all (tabs s a) (named (rfields fs))) s)"
  by (rule writes_run [OF writes_rfields])

lemma pushgroup_run:
  assumes "\<And>ms. gr_mem g = Some ms \<Longrightarrow> length ms < 2 ^ 31 - 1"
  shows "\<exists>s'. pushgroup (Some g) s = Ok 1 (s'\<lparr>stk := stk s @ [LTab (ntab s)]\<rparr>) \<and>
    group_at s' (ntab s) (Suc (ntab s)) g \<and> (\<forall>a < ntab s. tabs s' a = tabs s a) \<and>
    world s' = world s \<and> errno s' = errno s \<and> live s' = live s"
proof -
  let ?a = "ntab s" and ?fs = "[IntF ''gr_gid'' (of_cuint (gr_gid g)), StrF ''gr_name'' (gr_name g)]"
  let ?s1 = "set_tab ?a (tbl.put_all [] (named (rfields ?fs))) (new_table s)"
  have fs: "for_each ?fs put_rfield (new_table s) = Ok () ?s1"
    using group_fields_run [of "new_table s" "stk s" ?a ?fs] by simp
  show ?thesis
  proof (cases "gr_mem g")
    case None
    let ?s2 = "tag_table ''PosixGroup'' ?a ?s1"
    have "pushgroup (Some g) s = Ok 1 ?s2"
      using None fs
      by (simp add: pushgroup_def run_simps settypemetatable_run [where xs = "stk s"] del: for_each.simps)
    moreover have "group_at ?s2 ?a (Suc ?a) g"
      using None by (cases "gr_name g") (simp_all add: group_at_def)
    ultimately show ?thesis by (intro exI [of _ ?s2]) (simp add: stk_self)
  next
    case (Some ms)
    let ?t = "with_sequence (member_values ms) ?s1"
    let ?s2 = "tab_update ?a (LStr ''gr_mem'') (LTab (Suc ?a)) (?t\<lparr>stk := stk s @ [LTab ?a]\<rparr>)"
    let ?s3 = "tag_table ''PosixGroup'' ?a ?s2"
    have arr: "push_array Signed (member_values ms) ?s1 = Ok () ?t"
      using assms [OF Some] by (rule members_pushed)
    have set: "lua_setfield (-2) ''gr_mem'' ?t = Ok () ?s2"
      by (rule lua_setfield_run) simp_all
    have "pushgroup (Some g) s = Ok 1 ?s3"
      using Some fs arr set
      by (simp add: pushgroup_def run_simps settypemetatable_run [where xs = "stk s"]
          del: for_each.simps with_sequence_simps)
    moreover have "group_at ?s3 ?a (Suc ?a) g"
      using Some by (cases "gr_name g") (simp_all add: group_at_def)
    ultimately show ?thesis by (intro exI [of _ ?s3]) (simp add: stk_self)
  qed
qed

lemma settled_pushgroup: "settled (pushgroup g)"
  unfolding pushgroup_def
  by (intro settled_base settled_push_array settled_results settled_put_rfield)

lemma clean_grp:
  "clean (Pendgrent c0)" "clean (Pgetgrent c1 c0)" "clean (Pgetgrgid E c2)" "clean (Pgetgrnam E c3)"
  "clean (Psetgrent c0)"
  unfolding Pendgrent_def Pgetgrent_def Pgetgrgid_def Pgetgrnam_def Psetgrent_def
  by (rule clean_rules settled_pushgroup)+

section \<open>Opening the module\<close>

definition posix_grp_fns :: "entry list" where
  "posix_grp_fns = [
    Item ''Pendgrent'', Item ''Pgetgrent'', Item ''Pgetgrgid'', Item ''Pgetgrnam'',
    Item ''Psetgrent'']"

definition luaopen_posix_grp :: "host \<Rightarrow> ('w, nat) lm" where
  "luaopen_posix_grp H = open_module H ''grp'' posix_grp_fns []"

lemma grp_names: "names_ok posix_grp_fns []"
  by code_simp

end
