(* ===== verification/Libgen.thy ===== *)
theory Libgen
  imports Records Modules
begin

text \<open>
  \<^verbatim>\<open>ext/posix/libgen.c\<close>: \<open>basename\<close> and \<open>dirname\<close> may write to their argument, so each works on
  a copy in a block of the Lua allocator.
\<close>

definition Pbasename :: "env \<Rightarrow> (string \<Rightarrow> string) \<Rightarrow> ('w, nat) lm" where
  "Pbasename E c_basename =
     bnd (luaL_checkstring E 1) (\<lambda>path.
     thn (checknargs 1)
    (let path_len = of_nat (length path) + 1 in
     bnd (lua_alloc E path_len) (\<lambda>b. case b of
       None \<Rightarrow> pusherror E (Some ''lalloc'')
     | Some p \<Rightarrow>
         thn (lua_pushstring (c_basename path))
        (thn (lua_free b path_len)
         (ret 1)))))"

definition Pdirname :: "env \<Rightarrow> (string \<Rightarrow> string) \<Rightarrow> ('w, nat) lm" where
  "Pdirname E c_dirname =
     bnd (luaL_checkstring E 1) (\<lambda>path.
     thn (checknargs 1)
    (let path_len = of_nat (length path) + 1 in
     bnd (lua_alloc E path_len) (\<lambda>b. case b of
       None \<Rightarrow> pusherror E (Some ''lalloc'')
     | Some p \<Rightarrow>
         thn (lua_pushstring (c_dirname path))
        (thn (lua_free b path_len)
         (ret 1)))))"

lemma clean_Pbasename: "clean (Pbasename E c)" "clean (Pdirname E c)"
  unfolding Pbasename_def Pdirname_def
  by (rule clean_bnd clean_thn clean_let quiet_args clean_after settled_rules settled_option)+

lemma balanced_Pbasename: "balanced (Pbasename E c)" "balanced (Pdirname E c)"
  unfolding Pbasename_def Pdirname_def
  by (rule balanced_block_thn balanced_let balanced_bnd balanced_thn balanced_quiet quiet_rules)+

section \<open>Opening the module\<close>

definition posix_libgen_fns :: "entry list" where
  "posix_libgen_fns = [
    Item ''Pbasename'', Item ''Pdirname'']"

definition luaopen_posix_libgen :: "host \<Rightarrow> ('w, nat) lm" where
  "luaopen_posix_libgen H = open_module H ''libgen'' posix_libgen_fns []"

lemma libgen_names: "names_ok posix_libgen_fns []"
  by code_simp

end
