(* ===== verification/LuaString.thy ===== *)
theory LuaString
  imports Prelude
begin

text \<open>
  The part of Lua's \<open>string\<close> library (reference manual, section 6.4) that \<^verbatim>\<open>lib/posix/*.lua\<close> calls:
  \<open>sub\<close> of one character, \<open>match\<close> used as a test, and \<open>gsub\<close>, either with a function that gets the
  captures of every match or with the empty replacement.  A pattern is a list of items, matched the
  way the manual says: an item \<open>c*\<close> or \<open>c+\<close> takes the longest run and gives characters back until
  the rest of the pattern matches.  The character classes are those of the \<open>C\<close> locale.
\<close>

section \<open>Patterns\<close>

text \<open>\<open>.\<close>, \<open>%s\<close>, \<open>%a\<close>, \<open>[abc]\<close> (a plain character is a set of one) and \<open>[^abc]\<close>.\<close>

datatype cls = Any | Space | Alpha | OneOf string | NoneOf string

fun in_cls :: "cls \<Rightarrow> char \<Rightarrow> bool" where
  "in_cls Any x \<longleftrightarrow> True"
| "in_cls Space x \<longleftrightarrow> x \<in> {CHR 0x09, CHR 0x0A, CHR 0x0B, CHR 0x0C, CHR 0x0D, CHR '' ''}"
| "in_cls Alpha x \<longleftrightarrow>
     (let n = (of_char x :: nat) in 65 \<le> n \<and> n \<le> 90 \<or> 97 \<le> n \<and> n \<le> 122)"
| "in_cls (OneOf cs) x \<longleftrightarrow> x \<in> set cs"
| "in_cls (NoneOf cs) x \<longleftrightarrow> x \<notin> set cs"

text \<open>Captures are not nested: \<open>Open\<close> notes the position, \<open>Close\<close> cuts the text out.\<close>

datatype pitem = One cls | Star cls | Plus cls | Open | Close | Finish

text \<open>\<open>longest n f\<close> tries \<open>n\<close>, \<open>n - 1\<close>, \dots, \<open>0\<close>: \<open>max_expand\<close> of \<^verbatim>\<open>lstrlib.c\<close>.\<close>

fun longest :: "nat \<Rightarrow> (nat \<Rightarrow> 'a option) \<Rightarrow> 'a option" where
  "longest 0 f = f 0"
| "longest (Suc n) f = (case f (Suc n) of Some r \<Rightarrow> Some r | None \<Rightarrow> longest n f)"

definition run :: "cls \<Rightarrow> string \<Rightarrow> nat" where
  "run c s = length (takeWhile (in_cls c) s)"

text \<open>
  \<open>pmatch ps s open caps\<close>: the captures and the rest of the subject when \<open>ps\<close> matches at the
  beginning of \<open>s\<close>; \<open>open\<close> is the subject at the capture that is being made.
\<close>

primrec pmatch :: "pitem list \<Rightarrow> string \<Rightarrow> string \<Rightarrow> string list \<Rightarrow> (string list \<times> string) option" where
  "pmatch [] s op caps = Some (caps, s)"
| "pmatch (p # ps) s op caps = (case p of
      One c \<Rightarrow> (case s of [] \<Rightarrow> None | x # xs \<Rightarrow> if in_cls c x then pmatch ps xs op caps else None)
    | Star c \<Rightarrow> longest (run c s) (\<lambda>n. pmatch ps (drop n s) op caps)
    | Plus c \<Rightarrow> (case s of [] \<Rightarrow> None
        | x # xs \<Rightarrow> if in_cls c x then longest (run c xs) (\<lambda>n. pmatch ps (drop n xs) op caps)
                    else None)
    | Open \<Rightarrow> pmatch ps s s caps
    | Close \<Rightarrow> pmatch ps s [] (caps @ [take (length op - length s) op])
    | Finish \<Rightarrow> if s = [] then pmatch ps s op caps else None)"

text \<open>\<open>match (s, '^ps')\<close> and \<open>match (s, 'ps')\<close> as tests.\<close>

definition match_at :: "string \<Rightarrow> pitem list \<Rightarrow> bool" where
  "match_at s ps \<longleftrightarrow> pmatch ps s [] [] \<noteq> None"

fun match_in :: "string \<Rightarrow> pitem list \<Rightarrow> bool" where
  "match_in [] ps = match_at [] ps"
| "match_in (x # xs) ps = (match_at (x # xs) ps \<or> match_in xs ps)"

text \<open>
  \<open>gsub (s, 'ps', f)\<close>: the captures that \<open>f\<close> gets, one list per match.  After an empty match, and
  where there is none, the search goes on one character later.
\<close>

function gsub_calls :: "pitem list \<Rightarrow> string \<Rightarrow> string list list" where
  "gsub_calls ps s = (case pmatch ps s [] [] of
      Some (caps, r) \<Rightarrow>
        if length r < length s then caps # gsub_calls ps r
        else caps # (case s of [] \<Rightarrow> [] | x # xs \<Rightarrow> gsub_calls ps xs)
    | None \<Rightarrow> (case s of [] \<Rightarrow> [] | x # xs \<Rightarrow> gsub_calls ps xs))"
  by pat_completeness auto

termination
  by (relation "measure (\<lambda>(ps, s). length s)") auto

declare gsub_calls.simps [simp del]

text \<open>\<open>gsub (s, c, '')\<close> for a class \<open>c\<close>: the characters of the class are left out.\<close>

definition gsub_drop :: "cls \<Rightarrow> string \<Rightarrow> string" where
  "gsub_drop c s = filter (\<lambda>x. \<not> in_cls c x) s"

text \<open>\<open>sub (s, i, i)\<close> for \<open>i \<ge> 1\<close>.\<close>

definition sub1 :: "string \<Rightarrow> nat \<Rightarrow> string" where
  "sub1 s i = (if 0 < i \<and> i \<le> length s then [s ! (i - 1)] else [])"

section \<open>Matching\<close>

lemma longest_now: "f n = Some r \<Longrightarrow> longest n f = Some r"
  by (cases n) simp_all

lemma longest_iff: "longest n f \<noteq> None \<longleftrightarrow> (\<exists>k\<le>n. f k \<noteq> None)"
  by (induction n) (auto split: option.splits simp: le_Suc_eq)

text \<open>A run that the rest of the pattern can follow is taken whole.\<close>

definition stops :: "cls \<Rightarrow> string \<Rightarrow> bool" where
  "stops c s \<longleftrightarrow> (case s of [] \<Rightarrow> True | x # _ \<Rightarrow> \<not> in_cls c x)"

lemma run_append: "\<forall>x\<in>set xs. in_cls c x \<Longrightarrow> stops c ys \<Longrightarrow> run c (xs @ ys) = length xs"
  by (induction xs) (auto simp: run_def stops_def split: list.splits)

lemma pmatch_Star:
  assumes "\<forall>x\<in>set xs. in_cls c x" "stops c ys" "pmatch ps ys op caps = Some r"
  shows "pmatch (Star c # ps) (xs @ ys) op caps = Some r"
  using assms by (simp add: run_append longest_now)

lemma pmatch_Plus:
  assumes "\<forall>x\<in>set xs. in_cls c x" "xs \<noteq> []" "stops c ys" "pmatch ps ys op caps = Some r"
  shows "pmatch (Plus c # ps) (xs @ ys) op caps = Some r"
  using assms by (cases xs) (simp_all add: run_append longest_now)

lemma pmatch_Open: "pmatch (Open # ps) s op caps = pmatch ps s s caps"
  by simp

lemma pmatch_Close: "pmatch (Close # ps) ys (xs @ ys) caps = pmatch ps ys [] (caps @ [xs])"
  by simp

text \<open>\<open>^c+$\<close> holds of the non-empty words over \<open>c\<close>; a single class is searched for.\<close>

lemma run_le: "run c s \<le> length s"
  by (simp add: run_def length_takeWhile_le)

lemma run_all: "length s \<le> run c s \<longleftrightarrow> (\<forall>x\<in>set s. in_cls c x)"
  using run_le [of c s] by (induction s) (auto simp: run_def)

lemma match_whole: "match_at s [Plus c, Finish] \<longleftrightarrow> s \<noteq> [] \<and> (\<forall>x\<in>set s. in_cls c x)"
proof (cases s)
  case (Cons x xs)
  have "(\<exists>k\<le>run c xs. length xs \<le> k) \<longleftrightarrow> length xs \<le> run c xs"
    "(\<exists>k. (length xs \<le> k \<longrightarrow> k \<le> run c xs) \<and> length xs \<le> k) \<longleftrightarrow> length xs \<le> run c xs"
    by (meson le_trans order_refl)+
  then have "match_at s [Plus c, Finish] \<longleftrightarrow> in_cls c x \<and> length xs \<le> run c xs"
    by (simp add: Cons match_at_def longest_iff del: not_None_eq)
  then show ?thesis by (simp add: Cons run_all)
qed (simp add: match_at_def)

lemma match_one: "match_in s [One c] \<longleftrightarrow> (\<exists>x\<in>set s. in_cls c x)"
  by (induction s) (auto simp: match_at_def)

lemma gsub_calls_Cons:
  assumes "pmatch ps s [] [] = Some (caps, r)" "length r < length s"
  shows "gsub_calls ps s = caps # gsub_calls ps r"
  by (subst gsub_calls.simps) (simp add: assms)

end
