(* ===== verification/LuaBase.thy ===== *)
theory LuaBase
  imports LuaString Contracts
begin

text \<open>
  \<^verbatim>\<open>lib/posix/_bitwise.lua\<close> and \<^verbatim>\<open>lib/posix/_base.lua\<close>: variadic bitwise operations, the text of a
  file mode, and argument errors raised from Lua.

  A Lua function is a computation over the interpreter state, as a binding is; it calls the
  bindings through \<^const>\<open>call_c\<close>.  Integers are the 64-bit integers of Lua 5.3 and later.  The
  optional \<open>typecheck\<close> package is not installed, so \<open>argscheck\<close> returns the function it is given.
\<close>

section \<open>Lua functions\<close>

type_synonym 'w luafn = "lvalue list \<Rightarrow> ('w, lvalue list) lm"

text \<open>A missing argument, or result, is nil.\<close>

definition argn :: "nat \<Rightarrow> lvalue list \<Rightarrow> lvalue" where
  "argn n args = (if n \<noteq> 0 \<and> n \<le> length args then args ! (n - 1) else LNil)"

text \<open>
  What the Lua runtime says: where in the program the function at a level was called, which
  \<open>error\<close> puts before the message, and the message for an operand of the wrong type.
\<close>

record lua_texts =
  where_at :: "int \<Rightarrow> string"
  bad_operand :: "string \<Rightarrow> lvalue \<Rightarrow> string"

definition throw :: "err \<Rightarrow> ('w, 'a) lm" where
  "throw e s = Err e s"

definition lua_error :: "lua_texts \<Rightarrow> string \<Rightarrow> int \<Rightarrow> ('w, 'a) lm" where
  "lua_error T msg level = throw (LuaError (LStr (where_at T level @ msg)))"

text \<open>An operand of an arithmetic or bitwise operation.\<close>

definition int_operand :: "env \<Rightarrow> lua_texts \<Rightarrow> lvalue \<Rightarrow> ('w, lint) lm" where
  "int_operand E T v = (case val_int E (Some v) of
      Some n \<Rightarrow> ret n
    | None \<Rightarrow> lua_error T (bad_operand T ''perform bitwise operation on'' v) 1)"

text \<open>\<open>t.k\<close> for a table.\<close>

definition get_field :: "lua_texts \<Rightarrow> lvalue \<Rightarrow> string \<Rightarrow> ('w, lvalue) lm" where
  "get_field T v k = (case v of
      LTab a \<Rightarrow> asks (\<lambda>s. tbl_get (tabs s a) (LStr k))
    | _ \<Rightarrow> lua_error T (bad_operand T ''index'' v) 1)"

lemma throw_run [run_simps]: "throw e s = Err e s"
  by (simp add: throw_def)

lemma lua_error_run [run_simps]:
  "lua_error T msg level s = Err (LuaError (LStr (where_at T level @ msg))) s"
  by (simp add: lua_error_def run_simps)

lemma int_operand_LInt [run_simps]: "int_operand E T (LInt n) s = Ok n s"
  by (simp add: int_operand_def run_simps)

lemma get_field_LTab [run_simps]: "get_field T (LTab a) k s = Ok (tbl_get (tabs s a) (LStr k)) s"
  by (simp add: get_field_def run_simps)

lemma argn_simps [simp]:
  "argn n [] = LNil"
  "argn 1 (x # xs) = x" "argn (Suc 0) (x # xs) = x"
  "argn 2 (x # y # xs) = y" "argn 3 (x # y # z # xs) = z"
  by (auto simp: argn_def)

section \<open>Bitwise operations\<close>

definition band :: "lint \<Rightarrow> lint list \<Rightarrow> lint" where
  "band a vs = foldl (AND) a vs"

definition bor :: "lint \<Rightarrow> lint list \<Rightarrow> lint" where
  "bor a vs = foldl (OR) a vs"

definition bnot :: "lint \<Rightarrow> lint" where
  "bnot a = NOT a"

lemmas bitwise_defs = band_def bor_def bnot_def

section \<open>Mode bits\<close>

record mode_bits =
  S_IRUSR :: lint
  S_IWUSR :: lint
  S_IXUSR :: lint
  S_IRGRP :: lint
  S_IWGRP :: lint
  S_IXGRP :: lint
  S_IROTH :: lint
  S_IWOTH :: lint
  S_IXOTH :: lint
  S_ISUID :: lint
  S_ISGID :: lint
  S_IRWXU :: lint
  S_IRWXG :: lint
  S_IRWXO :: lint

text \<open>
  POSIX: each permission is a bit of its own, and the three masks are what they are named for.
\<close>

definition single :: "lint \<Rightarrow> bool" where
  "single b \<longleftrightarrow> list_ex (\<lambda>n. b = push_bit n 1) [0..<64]"

definition good_modes :: "mode_bits \<Rightarrow> bool" where
  "good_modes B \<longleftrightarrow>
     (let bs = [S_IRUSR B, S_IWUSR B, S_IXUSR B, S_IRGRP B, S_IWGRP B, S_IXGRP B,
                S_IROTH B, S_IWOTH B, S_IXOTH B, S_ISUID B, S_ISGID B]
      in list_all single bs \<and> distinct bs) \<and>
     S_IRWXU B = S_IRUSR B OR S_IWUSR B OR S_IXUSR B \<and>
     S_IRWXG B = S_IRGRP B OR S_IWGRP B OR S_IXGRP B \<and>
     S_IRWXO B = S_IROTH B OR S_IWOTH B OR S_IXOTH B"

text \<open>The values of every host we know of.\<close>

definition usual_modes :: mode_bits where
  "usual_modes = \<lparr>S_IRUSR = 256, S_IWUSR = 128, S_IXUSR = 64, S_IRGRP = 32, S_IWGRP = 16,
     S_IXGRP = 8, S_IROTH = 4, S_IWOTH = 2, S_IXOTH = 1, S_ISUID = 2048, S_ISGID = 1024,
     S_IRWXU = 448, S_IRWXG = 56, S_IRWXO = 7\<rparr>"

definition MODE_MAP :: "mode_bits \<Rightarrow> (char \<times> lint) list" where
  "MODE_MAP B =
     [(CHR ''r'', S_IRUSR B), (CHR ''w'', S_IWUSR B), (CHR ''x'', S_IXUSR B),
      (CHR ''r'', S_IRGRP B), (CHR ''w'', S_IWGRP B), (CHR ''x'', S_IXGRP B),
      (CHR ''r'', S_IROTH B), (CHR ''w'', S_IWOTH B), (CHR ''x'', S_IXOTH B)]"

definition pushmode :: "mode_bits \<Rightarrow> lint \<Rightarrow> string" where
  "pushmode B mode =
     (let m = map (\<lambda>(c, b). if band mode [b] \<noteq> 0 then c else CHR ''-'') (MODE_MAP B);
          m = (if band mode [S_ISUID B] \<noteq> 0
               then m[2 := (if band mode [S_IXUSR B] \<noteq> 0 then CHR ''s'' else CHR ''S'')] else m);
          m = (if band mode [S_ISGID B] \<noteq> 0
               then m[5 := (if band mode [S_IXGRP B] \<noteq> 0 then CHR ''s'' else CHR ''S'')] else m)
      in m)"

definition argerror :: "lua_texts \<Rightarrow> string \<Rightarrow> int \<Rightarrow> string option \<Rightarrow> int \<Rightarrow> ('w, 'a) lm" where
  "argerror T name i extramsg level =
     (let s = ''bad argument #'' @ int_str (of_int i) @ '' to '' @ [CHR 0x27] @ name @ [CHR 0x27];
          s = (case extramsg of None \<Rightarrow> s | Some x \<Rightarrow> s @ '' ('' @ x @ '')'')
      in lua_error T s (level + 1))"

section \<open>Single bits\<close>

definition has :: "lint \<Rightarrow> lint \<Rightarrow> bool" where
  "has m b \<longleftrightarrow> m AND b \<noteq> 0"

lemma single_push_bit: "n < 64 \<Longrightarrow> single (push_bit n 1)"
  by (auto simp: single_def list_ex_iff)

lemma single_bit: "single b \<Longrightarrow> \<exists>n<64. \<forall>k. bit b k \<longleftrightarrow> k = n"
  by (auto simp: single_def list_ex_iff bit_simps)

lemma has_bit: "n < 64 \<Longrightarrow> \<forall>k. bit b k \<longleftrightarrow> k = n \<Longrightarrow> has m b \<longleftrightarrow> bit m n"
  by (auto simp: has_def bit_eq_iff [of "m AND b" 0] bit_simps)

lemma has_or: "has (x OR y) b \<longleftrightarrow> has x b \<or> has y b"
  by (auto simp: has_def bit_eq_iff bit_simps)

lemma has_and: "single b \<Longrightarrow> has (x AND y) b \<longleftrightarrow> has x b \<and> has y b"
  by (auto dest!: single_bit simp: has_bit bit_simps)

lemma has_not: "single b \<Longrightarrow> has (NOT x) b \<longleftrightarrow> \<not> has x b"
  by (auto dest!: single_bit simp: has_bit bit_simps)

lemma has_single: "single b \<Longrightarrow> single c \<Longrightarrow> has b c \<longleftrightarrow> b = c"
  by (auto dest!: single_bit simp: has_bit intro: bit_word_eqI)

lemma has_0 [simp]: "\<not> has 0 b"
  by (simp add: has_def)

lemmas has_simps = has_or has_and has_not has_single

lemma mask_single: "single b \<Longrightarrow> m AND b = (if has m b then b else 0)"
  by (rule bit_word_eqI) (auto dest!: single_bit simp: has_bit bit_simps)

lemma usual_modes_good: "good_modes usual_modes"
proof -
  have "single 256" "single 128" "single 64" "single 32" "single 16" "single 8" "single 4"
    "single 2" "single 1" "single 2048" "single 1024"
    using single_push_bit [of 8] single_push_bit [of 7] single_push_bit [of 6] single_push_bit [of 5]
      single_push_bit [of 4] single_push_bit [of 3] single_push_bit [of 2] single_push_bit [of 1]
      single_push_bit [of 0] single_push_bit [of 11] single_push_bit [of 10]
    by simp_all
  then show ?thesis
    by (simp add: good_modes_def usual_modes_def)
qed

definition sample_texts :: lua_texts where
  "sample_texts = \<lparr>where_at = (\<lambda>_. ''x.lua:1: ''), bad_operand = (\<lambda>op v. ''attempt to '' @ op)\<rparr>"

end
