(* ===== verification/LuaModes.thy ===== *)
theory LuaModes
  imports LuaBase
begin

text \<open>
  File modes as text: the parser \<open>mode_munch\<close> of \<^verbatim>\<open>lib/posix/compat.lua\<close> (nine characters, octal or
  symbolic clauses), what its symbolic clauses mean as operations on sets of permissions, and the round
  trip with \<open>pushmode\<close>.
\<close>

section \<open>Reading a mode\<close>

definition RWXALL :: "mode_bits \<Rightarrow> lint" where
  "RWXALL B = bor (S_IRWXU B) [S_IRWXG B, S_IRWXO B]"

text \<open>The loop over positions \<open>i\<close>, \<dots>, \<open>9\<close>; \<open>None\<close> is the early return of nil.\<close>

function rwxrwxrwx_from :: "mode_bits \<Rightarrow> string \<Rightarrow> nat \<Rightarrow> lint \<Rightarrow> lint option" where
  "rwxrwxrwx_from B modestr i mode =
     (if 9 < i then Some mode
      else if sub1 modestr i = [fst (MODE_MAP B ! (i - 1))] then
        rwxrwxrwx_from B modestr (i + 1) (bor mode [snd (MODE_MAP B ! (i - 1))])
      else if sub1 modestr i = ''s'' then
        if i = 3 then rwxrwxrwx_from B modestr (i + 1) (bor mode [S_ISUID B, S_IXUSR B])
        else if i = 6 then rwxrwxrwx_from B modestr (i + 1) (bor mode [S_ISGID B, S_IXGRP B])
        else None
      else rwxrwxrwx_from B modestr (i + 1) mode)"
  by pat_completeness auto

termination
  by (relation "measure (\<lambda>(B, modestr, i, mode). 10 - i)") auto

declare rwxrwxrwx_from.simps [simp del]

definition rwxrwxrwx :: "mode_bits \<Rightarrow> string \<Rightarrow> lint option" where
  "rwxrwxrwx B modestr = rwxrwxrwx_from B modestr 1 0"

definition digit_value :: "char \<Rightarrow> lint" where
  "digit_value x = of_nat (of_char x - 48)"

definition octal_mode :: "string \<Rightarrow> lint" where
  "octal_mode modestr = foldl (\<lambda>mode x. mode * 8 + digit_value x) 0 modestr"

text \<open>The patterns of \<open>mode_munch\<close>.\<close>

definition rswx_dash :: cls where
  "rswx_dash = OneOf ''-rswx''"

definition octal_digit :: cls where
  "octal_digit = OneOf ''01234567''"

definition symbolic_head :: "pitem list" where
  "symbolic_head = [Plus (OneOf ''ugoa''), Star Space, One (OneOf ''-+=''), Star Space,
     Plus (OneOf ''rswx''), Star (OneOf '','')]"

definition symbolic_clause :: "pitem list" where
  "symbolic_clause = [Star Space, Open, Plus Alpha, Close, Star Space, Open, One Any, Close,
     Star Space, Open, Plus Alpha, Close, Star (OneOf '','')]"

text \<open>The function that \<open>gsub\<close> calls for every clause, on the mode so far.\<close>

definition munch_clause :: "mode_bits \<Rightarrow> lint \<Rightarrow> string list \<Rightarrow> lint" where
  "munch_clause B mode caps =
     (let who = caps ! 0; op = caps ! 1; what = caps ! 2;
          bits = 0; bobs = 0;
          bits = (if match_in who [One (OneOf ''ua'')] then bor bits [S_ISUID B, S_IRWXU B] else bits);
          bits = (if match_in who [One (OneOf ''ga'')] then bor bits [S_ISGID B, S_IRWXG B] else bits);
          bits = (if match_in who [One (OneOf ''oa'')] then bor bits [S_IRWXO B] else bits);
          bobs = (if match_in what [One (OneOf ''r'')] then bor bobs [S_IRUSR B, S_IRGRP B, S_IROTH B]
                  else bobs);
          bobs = (if match_in what [One (OneOf ''w'')] then bor bobs [S_IWUSR B, S_IWGRP B, S_IWOTH B]
                  else bobs);
          bobs = (if match_in what [One (OneOf ''x'')] then bor bobs [S_IXUSR B, S_IXGRP B, S_IXOTH B]
                  else bobs);
          bobs = (if match_in what [One (OneOf ''s'')] then bor bobs [S_ISUID B, S_ISGID B] else bobs)
      in if op = ''+'' then bor mode [band bits [bobs]]
         else if op = ''-'' then band mode [bnot (band bits [bobs])]
         else if op = ''='' then bor (band mode [bnot bits]) [band bits [bobs]]
         else mode)"

text \<open>The mode or nil, and the error message or nil.\<close>

definition mode_munch :: "mode_bits \<Rightarrow> lint \<Rightarrow> string option \<Rightarrow> lint option \<times> string option" where
  "mode_munch B mode modestr = (case modestr of
      None \<Rightarrow> (None, Some ''string expected, got no value'')
    | Some m \<Rightarrow>
        if length m = 9 \<and> match_at m [Plus rswx_dash, Finish] then (rwxrwxrwx B m, None)
        else if match_at m [Plus octal_digit, Finish] then (Some (octal_mode m), None)
        else if match_at m symbolic_head then
          (Some (foldl (munch_clause B) mode (gsub_calls symbolic_clause m)), None)
        else (None, Some ''bad mode''))"

section \<open>Symbolic modes\<close>

lemma pmatch_capture:
  assumes "\<forall>x\<in>set xs. in_cls c x" "xs \<noteq> []" "stops c ys" "pmatch ps ys [] (caps @ [xs]) = Some r"
  shows "pmatch (Open # Plus c # Close # ps) (xs @ ys) op caps = Some r"
proof -
  have "pmatch (Plus c # Close # ps) (xs @ ys) (xs @ ys) caps = Some r"
    by (rule pmatch_Plus) (use assms in simp_all)
  then show ?thesis by (subst pmatch_Open)
qed

lemma pmatch_capture_one:
  "pmatch (Open # One Any # Close # ps) (x # ys) op caps = pmatch ps ys [] (caps @ [[x]])"
  by simp

lemma pmatch_Star_none:
  "stops c ys \<Longrightarrow> pmatch ps ys op caps = Some r \<Longrightarrow> pmatch (Star c # ps) ys op caps = Some r"
  using pmatch_Star [of "[]"] by simp

text \<open>
  A clause is who it is for, an operator and what it is about, with optional spaces around the
  operator; clauses are separated by commas.
\<close>

record clause =
  who :: string
  gap1 :: string
  oper :: char
  gap2 :: string
  what :: string

definition good_clause :: "clause \<Rightarrow> bool" where
  "good_clause c \<longleftrightarrow>
     who c \<noteq> [] \<and> list_all (\<lambda>x. x \<in> set ''ugoa'') (who c) \<and> list_all (in_cls Space) (gap1 c) \<and>
     oper c \<in> set ''-+='' \<and> list_all (in_cls Space) (gap2 c) \<and>
     what c \<noteq> [] \<and> list_all (\<lambda>x. x \<in> set ''rswx'') (what c)"

fun render :: "clause list \<Rightarrow> string" where
  "render [] = []"
| "render (c # cs) = who c @ gap1 c @ oper c # gap2 c @ what c @
     (if cs = [] then [] else CHR '','' # render cs)"

definition clause_caps :: "clause \<Rightarrow> string list" where
  "clause_caps c = [who c, [oper c], what c]"

lemma stops_skip: "\<forall>x\<in>set xs. \<not> in_cls c x \<Longrightarrow> stops c ys \<Longrightarrow> stops c (xs @ ys)"
  by (cases xs) (simp_all add: stops_def)

lemma stops_Cons [simp]: "stops c (x # xs) \<longleftrightarrow> \<not> in_cls c x" "stops c []"
  by (simp_all add: stops_def)

lemma stops_ConsI: "\<not> in_cls c x \<Longrightarrow> stops c (x # xs)"
  by simp

lemma stops_append: "xs \<noteq> [] \<Longrightarrow> \<forall>x\<in>set xs. \<not> in_cls c x \<Longrightarrow> stops c (xs @ ys)"
  by (cases xs) (simp_all add: stops_def)

lemma who_letter:
  "x \<in> set ''ugoa'' \<Longrightarrow> in_cls Alpha x" "x \<in> set ''ugoa'' \<Longrightarrow> \<not> in_cls Space x"
  "x \<in> set ''ugoa'' \<Longrightarrow> \<not> in_cls (OneOf '','') x"
  by auto

lemma what_letter:
  "x \<in> set ''rswx'' \<Longrightarrow> in_cls Alpha x" "x \<in> set ''rswx'' \<Longrightarrow> \<not> in_cls Space x"
  by auto

lemma op_letter:
  "x \<in> set ''-+='' \<Longrightarrow> \<not> in_cls Alpha x" "x \<in> set ''-+='' \<Longrightarrow> \<not> in_cls Space x"
  "x \<in> set ''-+='' \<Longrightarrow> \<not> in_cls (OneOf ''ugoa'') x"
  by auto

lemma gap_letter:
  "in_cls Space x \<Longrightarrow> \<not> in_cls Alpha x" "in_cls Space x \<Longrightarrow> \<not> in_cls (OneOf ''ugoa'') x"
  by auto

lemma good_clauseD:
  assumes "good_clause c"
  shows "who c \<noteq> []" "what c \<noteq> []" "oper c \<in> set ''-+=''"
    "\<forall>x\<in>set (who c). x \<in> set ''ugoa''" "\<forall>x\<in>set (what c). x \<in> set ''rswx''"
    "\<forall>x\<in>set (gap1 c). in_cls Space x" "\<forall>x\<in>set (gap2 c). in_cls Space x"
  using assms unfolding good_clause_def list_all_iff by blast+

lemma stops_gap:
  assumes "\<forall>x\<in>set xs. in_cls Space x" "\<not> in_cls c y" "\<And>x. in_cls Space x \<Longrightarrow> \<not> in_cls c x"
  shows "stops c (xs @ y # ys)"
  using assms by (cases xs) (auto simp del: in_cls.simps)

lemma clause_match:
  assumes "good_clause c" and rest: "rest = [] \<or> rest = CHR '','' # r \<and> stops (OneOf '','') r"
  shows "pmatch symbolic_clause (who c @ gap1 c @ oper c # gap2 c @ what c @ rest) [] [] =
     Some (clause_caps c, if rest = [] then [] else tl rest)"
proof -
  note g = good_clauseD [OF assms(1)]
  have u: "\<forall>x\<in>set (who c). in_cls Alpha x" "\<forall>x\<in>set (who c). \<not> in_cls Space x"
    using g(4) who_letter by blast+
  have w: "\<forall>x\<in>set (what c). in_cls Alpha x" "\<forall>x\<in>set (what c). \<not> in_cls Space x"
    using g(5) what_letter by blast+
  have o: "\<not> in_cls Alpha (oper c)" "\<not> in_cls Space (oper c)"
    using g(3) op_letter by blast+
  have "stops Alpha rest"
    using rest by auto
  note side = g(1,2,6,7) u w o gap_letter this
  let ?R = "Some (clause_caps c, if rest = [] then [] else tl rest)"
  have "pmatch [Star (OneOf '','')] rest [] (clause_caps c) = ?R"
    using rest pmatch_Star [of "'',''" "OneOf '',''" r "[]" "[]" "clause_caps c"]
    by (auto simp: run_def)
  then have "pmatch [Open, Plus Alpha, Close, Star (OneOf '','')] (what c @ rest) [] [who c, [oper c]] = ?R"
    by (intro pmatch_capture side) (simp add: clause_caps_def)
  then have "pmatch [Star Space, Open, Plus Alpha, Close, Star (OneOf '','')] (gap2 c @ what c @ rest) []
      [who c, [oper c]] = ?R"
    by (intro pmatch_Star stops_append side)
  then have "pmatch [Open, One Any, Close, Star Space, Open, Plus Alpha, Close, Star (OneOf '','')]
      (oper c # gap2 c @ what c @ rest) [] [who c] = ?R"
    by (subst pmatch_capture_one) simp
  then have "pmatch [Star Space, Open, One Any, Close, Star Space, Open, Plus Alpha, Close,
      Star (OneOf '','')] (gap1 c @ oper c # gap2 c @ what c @ rest) [] [who c] = ?R"
    by (intro pmatch_Star stops_ConsI side)
  then have "pmatch [Open, Plus Alpha, Close, Star Space, Open, One Any, Close, Star Space, Open,
      Plus Alpha, Close, Star (OneOf '','')] (who c @ gap1 c @ oper c # gap2 c @ what c @ rest) [] [] = ?R"
    by (intro pmatch_capture stops_gap side) (unfold append.simps)
  then show ?thesis
    unfolding symbolic_clause_def by (intro pmatch_Star_none stops_append side)
qed


lemma render_stops: "list_all good_clause cs \<Longrightarrow> stops (OneOf '','') (render cs)"
proof (cases cs)
  case (Cons c cs')
  moreover assume "list_all good_clause cs"
  ultimately have "good_clause c" by simp
  note g = good_clauseD [OF this]
  show ?thesis
    unfolding Cons render.simps by (intro stops_append g ballI) (use g(4) who_letter(3) in blast)
qed simp

lemma clause_nonempty: "good_clause c \<Longrightarrow> render (c # cs) \<noteq> []"
  by (simp add: good_clause_def)

lemma gsub_render:
  assumes "list_all good_clause cs"
  shows "gsub_calls symbolic_clause (render cs) = map clause_caps cs"
  using assms
proof (induction cs)
  case Nil
  have "pmatch symbolic_clause [] [] [] = None"
    by (simp add: symbolic_clause_def run_def)
  then show ?case by (simp add: gsub_calls.simps)
next
  case (Cons c cs)
  let ?rest = "if cs = [] then [] else CHR '','' # render cs"
  have "pmatch symbolic_clause (render (c # cs)) [] [] = Some (clause_caps c, render cs)"
    using clause_match [of c ?rest "render cs"] Cons.prems render_stops [of cs]
    by (cases "cs = []") simp_all
  moreover have "length (render cs) < length (render (c # cs))"
    using Cons.prems by (cases "cs = []") (simp_all add: good_clause_def)
  ultimately show ?case
    using Cons.IH Cons.prems by (simp add: gsub_calls_Cons del: render.simps)
qed

lemma pmatch_Star_ends: "pmatch [Star c] s op caps \<noteq> None"
  by (auto simp: longest_iff simp del: not_None_eq)

lemma head_match:
  assumes "good_clause c"
  shows "match_at (render (c # cs)) symbolic_head"
proof -
  note g = good_clauseD [OF assms]
  define rest where "rest = (if cs = [] then [] else CHR '','' # render cs)"
  obtain R where R: "pmatch [Star (OneOf '','')] rest [] [] = Some R"
    using pmatch_Star_ends by blast
  have u: "\<forall>x\<in>set (who c). in_cls (OneOf ''ugoa'') x"
    and w: "\<forall>x\<in>set (what c). in_cls (OneOf ''rswx'') x" "\<forall>x\<in>set (what c). \<not> in_cls Space x"
    and o: "in_cls (OneOf ''-+='') (oper c)" "\<not> in_cls (OneOf ''ugoa'') (oper c)" "\<not> in_cls Space (oper c)"
    using g(3,4,5) what_letter op_letter by (simp_all only: in_cls.simps(4)) blast+
  have "stops (OneOf ''rswx'') rest" by (simp add: rest_def)
  note side = g(1,2,6,7) u w o gap_letter this
  have "pmatch [Plus (OneOf ''rswx''), Star (OneOf '','')] (what c @ rest) [] [] = Some R"
    by (intro pmatch_Plus side R)
  then have "pmatch [Star Space, Plus (OneOf ''rswx''), Star (OneOf '','')] (gap2 c @ what c @ rest)
      [] [] = Some R"
    by (intro pmatch_Star stops_append side)
  then have "pmatch [One (OneOf ''-+=''), Star Space, Plus (OneOf ''rswx''), Star (OneOf '','')]
      (oper c # gap2 c @ what c @ rest) [] [] = Some R"
    by (simp only: pmatch.simps pitem.case list.case side if_True)
  then have "pmatch [Star Space, One (OneOf ''-+=''), Star Space, Plus (OneOf ''rswx''),
      Star (OneOf '','')] (gap1 c @ oper c # gap2 c @ what c @ rest) [] [] = Some R"
    by (intro pmatch_Star stops_ConsI side)
  then have "pmatch symbolic_head (who c @ gap1 c @ oper c # gap2 c @ what c @ rest) [] [] = Some R"
    unfolding symbolic_head_def by (intro pmatch_Plus stops_gap side) simp
  then show ?thesis by (simp add: match_at_def rest_def)
qed


text \<open>What a clause means: operations on the set of permissions.\<close>

datatype whom = User | Group | Others

datatype perm = Read whom | Write whom | Exec whom | SetUid | SetGid

fun bit_of :: "mode_bits \<Rightarrow> perm \<Rightarrow> lint" where
  "bit_of B (Read User) = S_IRUSR B"
| "bit_of B (Write User) = S_IWUSR B"
| "bit_of B (Exec User) = S_IXUSR B"
| "bit_of B (Read Group) = S_IRGRP B"
| "bit_of B (Write Group) = S_IWGRP B"
| "bit_of B (Exec Group) = S_IXGRP B"
| "bit_of B (Read Others) = S_IROTH B"
| "bit_of B (Write Others) = S_IWOTH B"
| "bit_of B (Exec Others) = S_IXOTH B"
| "bit_of B SetUid = S_ISUID B"
| "bit_of B SetGid = S_ISGID B"

definition perms :: "mode_bits \<Rightarrow> lint \<Rightarrow> perm set" where
  "perms B m = {p. has m (bit_of B p)}"

definition who_perms :: "string \<Rightarrow> perm set" where
  "who_perms w =
     (if CHR ''u'' \<in> set w \<or> CHR ''a'' \<in> set w then {SetUid, Read User, Write User, Exec User} else {}) \<union>
     (if CHR ''g'' \<in> set w \<or> CHR ''a'' \<in> set w then {SetGid, Read Group, Write Group, Exec Group} else {}) \<union>
     (if CHR ''o'' \<in> set w \<or> CHR ''a'' \<in> set w then {Read Others, Write Others, Exec Others} else {})"

definition what_perms :: "string \<Rightarrow> perm set" where
  "what_perms w =
     (if CHR ''r'' \<in> set w then range Read else {}) \<union>
     (if CHR ''w'' \<in> set w then range Write else {}) \<union>
     (if CHR ''x'' \<in> set w then range Exec else {}) \<union>
     (if CHR ''s'' \<in> set w then {SetUid, SetGid} else {})"

definition apply_clause :: "clause \<Rightarrow> perm set \<Rightarrow> perm set" where
  "apply_clause c P =
     (let sel = who_perms (who c); it = sel \<inter> what_perms (what c)
      in if oper c = CHR ''+'' then P \<union> it
         else if oper c = CHR ''-'' then P - it
         else (P - sel) \<union> it)"

lemma whom_UNIV: "(UNIV :: whom set) = {User, Group, Others}"
  using whom.exhaust by auto

lemma whom_cases: "(w = User \<Longrightarrow> P) \<Longrightarrow> (w = Group \<Longrightarrow> P) \<Longrightarrow> (w = Others \<Longrightarrow> P) \<Longrightarrow> P"
  by (cases w) simp_all

definition all_perms :: "perm list" where
  "all_perms = [Read User, Write User, Exec User, Read Group, Write Group, Exec Group,
     Read Others, Write Others, Exec Others, SetUid, SetGid]"

lemma all_perms: "p \<in> set all_perms"
proof (cases p)
  case (Read w) then show ?thesis by (cases w) (simp_all add: all_perms_def)
next
  case (Write w) then show ?thesis by (cases w) (simp_all add: all_perms_def)
next
  case (Exec w) then show ?thesis by (cases w) (simp_all add: all_perms_def)
qed (simp_all add: all_perms_def)

lemma good_modes_iff:
  "good_modes B \<longleftrightarrow> list_all single (map (bit_of B) all_perms) \<and> distinct (map (bit_of B) all_perms) \<and>
     S_IRWXU B = S_IRUSR B OR S_IWUSR B OR S_IXUSR B \<and>
     S_IRWXG B = S_IRGRP B OR S_IWGRP B OR S_IXGRP B \<and>
     S_IRWXO B = S_IROTH B OR S_IWOTH B OR S_IXOTH B"
  by (simp only: good_modes_def all_perms_def list.map bit_of.simps Let_def conj_assoc)

lemma good_single: "good_modes B \<Longrightarrow> single (bit_of B p)"
  using all_perms [of p] by (simp add: good_modes_iff list_all_iff)

lemma good_distinct: "good_modes B \<Longrightarrow> bit_of B p = bit_of B q \<longleftrightarrow> p = q"
  using all_perms [of p] all_perms [of q] by (auto simp: good_modes_iff distinct_map dest: inj_onD)

text \<open>A bit of the host is the set of one permission; the bitwise operations are those on sets.\<close>

lemma perms_or: "perms B (x OR y) = perms B x \<union> perms B y"
  by (auto simp: perms_def has_or)

lemma perms_and: "good_modes B \<Longrightarrow> perms B (x AND y) = perms B x \<inter> perms B y"
  by (auto simp: perms_def has_and good_single)

lemma perms_not: "good_modes B \<Longrightarrow> perms B (NOT x) = - perms B x"
  by (auto simp: perms_def has_not good_single)

lemma perms_0 [simp]: "perms B 0 = {}"
  by (simp add: perms_def)

lemma perms_bit: "good_modes B \<Longrightarrow> perms B (bit_of B p) = {p}"
  by (auto simp: perms_def has_single good_single good_distinct)

lemma perms_bits:
  assumes "good_modes B"
  shows "perms B (S_IRUSR B) = {Read User}" "perms B (S_IWUSR B) = {Write User}"
    "perms B (S_IXUSR B) = {Exec User}" "perms B (S_IRGRP B) = {Read Group}"
    "perms B (S_IWGRP B) = {Write Group}" "perms B (S_IXGRP B) = {Exec Group}"
    "perms B (S_IROTH B) = {Read Others}" "perms B (S_IWOTH B) = {Write Others}"
    "perms B (S_IXOTH B) = {Exec Others}" "perms B (S_ISUID B) = {SetUid}"
    "perms B (S_ISGID B) = {SetGid}"
  using perms_bit [OF assms] by (metis bit_of.simps)+

lemma perms_masks:
  assumes "good_modes B"
  shows "perms B (S_IRWXU B) = {Read User, Write User, Exec User}"
    "perms B (S_IRWXG B) = {Read Group, Write Group, Exec Group}"
    "perms B (S_IRWXO B) = {Read Others, Write Others, Exec Others}"
proof -
  have "S_IRWXU B = S_IRUSR B OR S_IWUSR B OR S_IXUSR B" "S_IRWXG B = S_IRGRP B OR S_IWGRP B OR S_IXGRP B"
    "S_IRWXO B = S_IROTH B OR S_IWOTH B OR S_IXOTH B"
    using assms by (simp_all add: good_modes_def)
  then show "perms B (S_IRWXU B) = {Read User, Write User, Exec User}"
    "perms B (S_IRWXG B) = {Read Group, Write Group, Exec Group}"
    "perms B (S_IRWXO B) = {Read Others, Write Others, Exec Others}"
    using perms_bits [OF assms] by (simp_all add: perms_or insert_commute)
qed

lemmas perms_simps = perms_or perms_and perms_not perms_bits perms_masks

text \<open>The two masks of a clause.\<close>

definition who_mask :: "mode_bits \<Rightarrow> string \<Rightarrow> lint" where
  "who_mask B w =
     (if CHR ''u'' \<in> set w \<or> CHR ''a'' \<in> set w then S_ISUID B OR S_IRWXU B else 0) OR
     (if CHR ''g'' \<in> set w \<or> CHR ''a'' \<in> set w then S_ISGID B OR S_IRWXG B else 0) OR
     (if CHR ''o'' \<in> set w \<or> CHR ''a'' \<in> set w then S_IRWXO B else 0)"

definition what_mask :: "mode_bits \<Rightarrow> string \<Rightarrow> lint" where
  "what_mask B w =
     (if CHR ''r'' \<in> set w then S_IRUSR B OR S_IRGRP B OR S_IROTH B else 0) OR
     (if CHR ''w'' \<in> set w then S_IWUSR B OR S_IWGRP B OR S_IWOTH B else 0) OR
     (if CHR ''x'' \<in> set w then S_IXUSR B OR S_IXGRP B OR S_IXOTH B else 0) OR
     (if CHR ''s'' \<in> set w then S_ISUID B OR S_ISGID B else 0)"

lemma bor_if:
  "(if c then bor b [x] else b) = b OR (if c then x else 0)"
  "(if c then bor b [x, y] else b) = b OR (if c then x OR y else 0)"
  "(if c then bor b [x, y, z] else b) = b OR (if c then x OR y OR z else 0)"
  by (simp_all add: bor_def or.assoc)

lemma match_chars:
  "match_in w [One (OneOf [a])] \<longleftrightarrow> a \<in> set w"
  "match_in w [One (OneOf [a, b])] \<longleftrightarrow> a \<in> set w \<or> b \<in> set w"
  by (auto simp: match_one)

lemma munch_clause_masks:
  "munch_clause B m [w, [p], x] =
     (let it = who_mask B w AND what_mask B x
      in if p = CHR ''+'' then m OR it else if p = CHR ''-'' then m AND NOT it
         else if p = CHR ''='' then (m AND NOT (who_mask B w)) OR it else m)"
  unfolding munch_clause_def who_mask_def what_mask_def bor_if match_chars Let_def
  by (simp only: bor_def band_def bnot_def foldl.simps or.left_neutral nth_Cons_0
      nth_Cons_numeral One_nat_def nth_Cons_Suc or.assoc list.inject simp_thms numeral_2_eq_2)

lemma perms_who_mask: "good_modes B \<Longrightarrow> perms B (who_mask B w) = who_perms w"
  by (simp add: who_mask_def who_perms_def perms_simps insert_commute)

lemma perms_what_mask: "good_modes B \<Longrightarrow> perms B (what_mask B w) = what_perms w"
  by (simp add: what_mask_def what_perms_def perms_simps whom_UNIV insert_commute)

lemma munch_clause_perms:
  assumes "good_modes B" "good_clause c"
  shows "perms B (munch_clause B m (clause_caps c)) = apply_clause c (perms B m)"
  using assms good_clauseD(3) [OF assms(2)]
  by (auto simp: clause_caps_def munch_clause_masks apply_clause_def perms_simps perms_who_mask
      perms_what_mask Let_def)

lemma perms_foldl:
  assumes "good_modes B" "list_all good_clause cs"
  shows "perms B (foldl (munch_clause B) m (map clause_caps cs)) =
    foldl (\<lambda>P c. apply_clause c P) (perms B m) cs"
  using assms(2) by (induction cs arbitrary: m) (simp_all add: munch_clause_perms assms(1))

text \<open>The bits that are no permission stay as they are.\<close>

definition perm_mask :: "mode_bits \<Rightarrow> lint" where
  "perm_mask B = bor (RWXALL B) [S_ISUID B, S_ISGID B]"

lemma who_mask_within:
  assumes "good_modes B"
  shows "who_mask B w AND NOT (perm_mask B) = 0"
  using assms by (auto simp: who_mask_def perm_mask_def RWXALL_def bitwise_defs bit_eq_iff bit_simps)

lemma clause_other_bits:
  assumes "good_modes B"
  shows "munch_clause B m (clause_caps c) AND NOT (perm_mask B) = m AND NOT (perm_mask B)"
  using who_mask_within [OF assms, of "who c"]
  by (auto simp: clause_caps_def munch_clause_masks Let_def bit_eq_iff bit_simps)

section \<open>Modes as nine characters\<close>

lemma pushmode_chars:
  "pushmode B m =
     [if has m (S_IRUSR B) then CHR ''r'' else CHR ''-'',
      if has m (S_IWUSR B) then CHR ''w'' else CHR ''-'',
      if has m (S_ISUID B) then if has m (S_IXUSR B) then CHR ''s'' else CHR ''S''
      else if has m (S_IXUSR B) then CHR ''x'' else CHR ''-'',
      if has m (S_IRGRP B) then CHR ''r'' else CHR ''-'',
      if has m (S_IWGRP B) then CHR ''w'' else CHR ''-'',
      if has m (S_ISGID B) then if has m (S_IXGRP B) then CHR ''s'' else CHR ''S''
      else if has m (S_IXGRP B) then CHR ''x'' else CHR ''-'',
      if has m (S_IROTH B) then CHR ''r'' else CHR ''-'',
      if has m (S_IWOTH B) then CHR ''w'' else CHR ''-'',
      if has m (S_IXOTH B) then CHR ''x'' else CHR ''-'']"
proof -
  have eq: "band m [b] \<noteq> 0 \<longleftrightarrow> has m b" for b by (simp add: band_def has_def)
  show ?thesis
    unfolding pushmode_def eq MODE_MAP_def Let_def
    by (cases "has m (S_ISUID B)"; cases "has m (S_ISGID B)"; simp add: eval_nat_numeral)
qed

text \<open>One step of the loop.\<close>

lemma from_past: "9 < i \<Longrightarrow> rwxrwxrwx_from B t i mode = Some mode"
  by (subst rwxrwxrwx_from.simps) simp

lemma from_plain:
  assumes "1 \<le> i" "i \<le> 9" "i \<le> length t" "single b" "MODE_MAP B ! (i - 1) = (c, b)"
    "c \<noteq> CHR ''-''" "t ! (i - 1) = (if has m b then c else CHR ''-'')"
  shows "rwxrwxrwx_from B t i mode = rwxrwxrwx_from B t (i + 1) (mode OR (m AND b))"
  using assms by (subst rwxrwxrwx_from.simps) (simp add: sub1_def bor_def mask_single)

lemma from_user:
  assumes "3 \<le> length t" "single (S_IXUSR B)" "single (S_ISUID B)"
    "has m (S_ISUID B) \<longrightarrow> has m (S_IXUSR B)"
    "t ! 2 = (if has m (S_ISUID B) then CHR ''s'' else if has m (S_IXUSR B) then CHR ''x'' else CHR ''-'')"
  shows "rwxrwxrwx_from B t 3 mode =
    rwxrwxrwx_from B t 4 (mode OR (m AND S_ISUID B) OR (m AND S_IXUSR B))"
  using assms by (subst rwxrwxrwx_from.simps) (simp add: sub1_def bor_def mask_single MODE_MAP_def or.assoc)

lemma from_group:
  assumes "6 \<le> length t" "single (S_IXGRP B)" "single (S_ISGID B)"
    "has m (S_ISGID B) \<longrightarrow> has m (S_IXGRP B)"
    "t ! 5 = (if has m (S_ISGID B) then CHR ''s'' else if has m (S_IXGRP B) then CHR ''x'' else CHR ''-'')"
  shows "rwxrwxrwx_from B t 6 mode =
    rwxrwxrwx_from B t 7 (mode OR (m AND S_ISGID B) OR (m AND S_IXGRP B))"
  using assms by (subst rwxrwxrwx_from.simps) (simp add: sub1_def bor_def mask_single MODE_MAP_def or.assoc)

text \<open>A mode whose set-id bits come with the execute bit has a text that can be read.\<close>

definition printable :: "mode_bits \<Rightarrow> lint \<Rightarrow> bool" where
  "printable B m \<longleftrightarrow> (has m (S_ISUID B) \<longrightarrow> has m (S_IXUSR B)) \<and> (has m (S_ISGID B) \<longrightarrow> has m (S_IXGRP B))"

lemma length_pushmode: "length (pushmode B m) = 9"
  by (simp add: pushmode_chars)

lemma pushmode_nth:
  "pushmode B m ! 0 = (if has m (S_IRUSR B) then CHR ''r'' else CHR ''-'')"
  "pushmode B m ! Suc 0 = (if has m (S_IWUSR B) then CHR ''w'' else CHR ''-'')"
  "printable B m \<Longrightarrow> pushmode B m ! 2 =
     (if has m (S_ISUID B) then CHR ''s'' else if has m (S_IXUSR B) then CHR ''x'' else CHR ''-'')"
  "pushmode B m ! 3 = (if has m (S_IRGRP B) then CHR ''r'' else CHR ''-'')"
  "pushmode B m ! 4 = (if has m (S_IWGRP B) then CHR ''w'' else CHR ''-'')"
  "printable B m \<Longrightarrow> pushmode B m ! 5 =
     (if has m (S_ISGID B) then CHR ''s'' else if has m (S_IXGRP B) then CHR ''x'' else CHR ''-'')"
  "pushmode B m ! 6 = (if has m (S_IROTH B) then CHR ''r'' else CHR ''-'')"
  "pushmode B m ! 7 = (if has m (S_IWOTH B) then CHR ''w'' else CHR ''-'')"
  "pushmode B m ! 8 = (if has m (S_IXOTH B) then CHR ''x'' else CHR ''-'')"
  by (simp_all add: pushmode_chars printable_def)

lemma rwxrwxrwx_pushmode:
  assumes "good_modes B" "printable B m"
  shows "rwxrwxrwx B (pushmode B m) = Some (m AND perm_mask B)"
proof -
  let ?t = "pushmode B m"
  note s = good_single [OF assms(1)]
  note s = s [of "Read User", simplified] s [of "Write User", simplified] s [of "Exec User", simplified]
    s [of "Read Group", simplified] s [of "Write Group", simplified] s [of "Exec Group", simplified]
    s [of "Read Others", simplified] s [of "Write Others", simplified] s [of "Exec Others", simplified]
    s [of SetUid, simplified] s [of SetGid, simplified]
  note p = assms(2) [unfolded printable_def]
  note plain = from_plain [where m = m and t = ?t and B = B]
  note evs = MODE_MAP_def length_pushmode s pushmode_nth assms(2) p
  have "rwxrwxrwx B ?t = rwxrwxrwx_from B ?t 1 0" by (simp add: rwxrwxrwx_def)
  also have "\<dots> = rwxrwxrwx_from B ?t 2 (m AND S_IRUSR B)"
    using plain [of 1 "S_IRUSR B" "CHR ''r''" 0] by (simp add: evs numeral_2_eq_2)
  also have "\<dots> = rwxrwxrwx_from B ?t 3 (m AND S_IRUSR B OR m AND S_IWUSR B)"
    using plain [of 2 "S_IWUSR B" "CHR ''w''"] by (simp add: evs)
  also have "\<dots> = rwxrwxrwx_from B ?t 4 (m AND S_IRUSR B OR m AND S_IWUSR B OR m AND S_ISUID B OR
      m AND S_IXUSR B)"
    using from_user [of ?t B m] by (simp add: evs or.assoc)
  also have "\<dots> = rwxrwxrwx_from B ?t 5 (m AND S_IRUSR B OR m AND S_IWUSR B OR m AND S_ISUID B OR
      m AND S_IXUSR B OR m AND S_IRGRP B)"
    using plain [of 4 "S_IRGRP B" "CHR ''r''"] by (simp add: evs or.assoc)
  also have "\<dots> = rwxrwxrwx_from B ?t 6 (m AND S_IRUSR B OR m AND S_IWUSR B OR m AND S_ISUID B OR
      m AND S_IXUSR B OR m AND S_IRGRP B OR m AND S_IWGRP B)"
    using plain [of 5 "S_IWGRP B" "CHR ''w''"] by (simp add: evs or.assoc)
  also have "\<dots> = rwxrwxrwx_from B ?t 7 (m AND S_IRUSR B OR m AND S_IWUSR B OR m AND S_ISUID B OR
      m AND S_IXUSR B OR m AND S_IRGRP B OR m AND S_IWGRP B OR m AND S_ISGID B OR m AND S_IXGRP B)"
    using from_group [of ?t B m] by (simp add: evs or.assoc)
  also have "\<dots> = rwxrwxrwx_from B ?t 8 (m AND S_IRUSR B OR m AND S_IWUSR B OR m AND S_ISUID B OR
      m AND S_IXUSR B OR m AND S_IRGRP B OR m AND S_IWGRP B OR m AND S_ISGID B OR m AND S_IXGRP B OR
      m AND S_IROTH B)"
    using plain [of 7 "S_IROTH B" "CHR ''r''"] by (simp add: evs or.assoc)
  also have "\<dots> = rwxrwxrwx_from B ?t 9 (m AND S_IRUSR B OR m AND S_IWUSR B OR m AND S_ISUID B OR
      m AND S_IXUSR B OR m AND S_IRGRP B OR m AND S_IWGRP B OR m AND S_ISGID B OR m AND S_IXGRP B OR
      m AND S_IROTH B OR m AND S_IWOTH B)"
    using plain [of 8 "S_IWOTH B" "CHR ''w''"] by (simp add: evs or.assoc)
  also have "\<dots> = rwxrwxrwx_from B ?t 10 (m AND S_IRUSR B OR m AND S_IWUSR B OR m AND S_ISUID B OR
      m AND S_IXUSR B OR m AND S_IRGRP B OR m AND S_IWGRP B OR m AND S_ISGID B OR m AND S_IXGRP B OR
      m AND S_IROTH B OR m AND S_IWOTH B OR m AND S_IXOTH B)"
    using plain [of 9 "S_IXOTH B" "CHR ''x''"] by (simp add: evs or.assoc)
  also have "\<dots> = Some (m AND perm_mask B)"
    using assms(1) unfolding good_modes_def perm_mask_def RWXALL_def bor_def
    by (simp add: from_past bit.conj_disj_distrib or.assoc or.commute or.left_commute)
  finally show ?thesis .
qed

lemma pushmode_readable:
  "match_at (pushmode B m) [Plus rswx_dash, Finish] \<longleftrightarrow> printable B m"
proof -
  have if_char: "in_cls rswx_dash (if c then x else y) \<longleftrightarrow> (if c then in_cls rswx_dash x else in_cls rswx_dash y)"
    for c x y by simp
  have chars: "in_cls rswx_dash (CHR ''r'')" "in_cls rswx_dash (CHR ''w'')" "in_cls rswx_dash (CHR ''x'')"
    "in_cls rswx_dash (CHR ''s'')" "in_cls rswx_dash (CHR ''-'')" "\<not> in_cls rswx_dash (CHR ''S'')"
    by (simp_all add: rswx_dash_def)
  show ?thesis
    unfolding match_whole pushmode_chars printable_def list.set ball_simps if_char by (simp add: chars)
qed

lemma pushmode_no_clause: "\<not> match_at (pushmode B m) [Plus octal_digit, Finish]"
  "\<not> match_at (pushmode B m) symbolic_head"
proof -
  obtain x xs where x: "pushmode B m = x # xs" "x = CHR ''r'' \<or> x = CHR ''-''"
    by (simp add: pushmode_chars split del: if_split) presburger
  show "\<not> match_at (pushmode B m) [Plus octal_digit, Finish]"
    using x by (auto simp: match_whole octal_digit_def)
  show "\<not> match_at (pushmode B m) symbolic_head"
    using x by (auto simp: match_at_def symbolic_head_def)
qed

lemma munch_pushmode:
  assumes "good_modes B"
  shows "mode_munch B m0 (Some (pushmode B m)) =
    (if printable B m then (Some (m AND perm_mask B), None) else (None, Some ''bad mode''))"
  using assms
  by (simp add: mode_munch_def length_pushmode pushmode_readable pushmode_no_clause rwxrwxrwx_pushmode)

lemma symbolic_munch:
  assumes "list_all good_clause cs" "cs \<noteq> []"
  shows "mode_munch B m (Some (render cs)) =
    (Some (foldl (munch_clause B) m (map clause_caps cs)), None)"
proof -
  obtain c cs' where cs: "cs = c # cs'" "good_clause c" using assms by (cases cs) auto
  then obtain x xs where x: "render cs = x # xs" "x \<in> set ''ugoa''"
    using good_clauseD(1,4) [OF cs(2)] by (cases "who c") auto
  have "\<not> match_at (render cs) [Plus rswx_dash, Finish]" "\<not> match_at (render cs) [Plus octal_digit, Finish]"
    using x by (auto simp: match_whole rswx_dash_def octal_digit_def)
  moreover have "match_at (render cs) symbolic_head"
    using head_match [OF cs(2)] cs(1) by simp
  ultimately show ?thesis
    using assms(1) by (simp add: mode_munch_def gsub_render)
qed

lemma foldl_other_bits:
  assumes "good_modes B"
  shows "foldl (munch_clause B) m (map clause_caps cs) AND NOT (perm_mask B) = m AND NOT (perm_mask B)"
  by (induction cs arbitrary: m) (simp_all add: clause_other_bits assms)

definition sample_clauses :: "clause list" where
  "sample_clauses =
     [\<lparr>who = ''u'', gap1 = [], oper = CHR ''+'', gap2 = [], what = ''x''\<rparr>,
      \<lparr>who = ''go'', gap1 = '' '', oper = CHR ''='', gap2 = '' '', what = ''r''\<rparr>]"

lemma sample_clauses_good: "list_all good_clause sample_clauses" "sample_clauses \<noteq> []"
  by (simp_all add: sample_clauses_def good_clause_def)

lemma sample_perms:
  "perms usual_modes 438 = {Read User, Write User, Read Group, Write Group, Read Others, Write Others}"
proof -
  have "p \<in> perms usual_modes 438 \<longleftrightarrow>
      p \<in> {Read User, Write User, Read Group, Write Group, Read Others, Write Others}" for p
  proof (cases p)
    case (Read w) then show ?thesis by (cases w) (simp_all add: perms_def has_def usual_modes_def)
  next
    case (Write w) then show ?thesis by (cases w) (simp_all add: perms_def has_def usual_modes_def)
  next
    case (Exec w) then show ?thesis by (cases w) (simp_all add: perms_def has_def usual_modes_def)
  qed (simp_all add: perms_def has_def usual_modes_def)
  then show ?thesis by blast
qed

lemma sample_applied:
  "foldl (\<lambda>P c. apply_clause c P) (perms usual_modes 438) sample_clauses =
     {Read User, Write User, Exec User, Read Group, Read Others}"
  by (auto simp: sample_perms sample_clauses_def apply_clause_def who_perms_def what_perms_def Let_def whom_UNIV)

text \<open>
  Property C32: a symbolic mode is what it says.  For every list of clauses (who, operator, what, with
  spaces around the operator), the text of the list is parsed into exactly these clauses, and the
  permissions of the result are those of the mode before after adding, removing or assigning what
  each clause names, in order; the bits of the mode that are no permission stay.
\<close>

theorem symbolic_mode:
  assumes "good_modes B" "list_all good_clause cs" "cs \<noteq> []"
  shows "\<exists>m'. mode_munch B m (Some (render cs)) = (Some m', None) \<and>
    perms B m' = foldl (\<lambda>P c. apply_clause c P) (perms B m) cs \<and>
    m' AND NOT (perm_mask B) = m AND NOT (perm_mask B)"
  using assms by (simp add: symbolic_munch perms_foldl foldl_other_bits)

theorem symbolic_mode_witness:
  "\<exists>m'. mode_munch usual_modes 438 (Some ''u+x,go = r'') = (Some m', None) \<and>
    perms usual_modes m' = {Read User, Write User, Exec User, Read Group, Read Others} \<and>
    m' AND NOT (perm_mask usual_modes) = 438 AND NOT (perm_mask usual_modes)"
proof -
  have "render sample_clauses = ''u+x,go = r''" by (simp add: sample_clauses_def)
  then show ?thesis
    using symbolic_mode [OF usual_modes_good sample_clauses_good, of 438] by (simp add: sample_applied)
qed

text \<open>
  Property C33: reading the nine characters that \<open>pushmode\<close> prints gives the permissions back, set-id
  bits included, whatever the mode before; a set-id bit without the execute bit is printed as \<open>S\<close>,
  and that text is refused.
\<close>

theorem mode_text_roundtrip:
  assumes "good_modes B"
  shows "mode_munch B m0 (Some (pushmode B m)) =
    (if printable B m then (Some (m AND perm_mask B), None) else (None, Some ''bad mode''))"
  using assms by (rule munch_pushmode)

theorem mode_text_roundtrip_witness:
  "mode_munch usual_modes 0 (Some ''rwsr-xr--'') = (Some 2540, None)"
proof -
  have "pushmode usual_modes 2540 = ''rwsr-xr--''"
    by (simp add: pushmode_chars has_def usual_modes_def)
  moreover have "printable usual_modes 2540"
    by (simp add: printable_def has_def usual_modes_def)
  moreover have "2540 AND perm_mask usual_modes = 2540"
    by (simp add: perm_mask_def RWXALL_def bor_def usual_modes_def)
  ultimately show ?thesis
    using mode_text_roundtrip [OF usual_modes_good, of 0 2540] by simp
qed

text \<open>The documented short form \<open>+x\<close> is refused.\<close>

lemma plus_alone_refused: "mode_munch B m (Some ''+x'') = (None, Some ''bad mode'')"
  by (simp add: mode_munch_def match_whole octal_digit_def match_at_def symbolic_head_def)

end
