(* ===== verification/SysStat.thy ===== *)
theory SysStat
  imports Records Modules
begin

text \<open>
  \<^verbatim>\<open>ext/posix/sys/stat.c\<close>: file state records, file types, modes.  The macros \<open>S_ISBLK\<close>, \<dots> of the
  host are parameters; \<open>mode_t\<close> is an unsigned 32-bit word.
\<close>

record stat_buf =
  st_dev :: lint
  st_ino :: lint
  st_mode :: cint
  st_nlink :: lint
  st_uid :: cint
  st_gid :: cint
  st_rdev :: lint
  st_size :: lint
  st_blksize :: lint
  st_blocks :: lint
  st_atime :: lint
  st_mtime :: lint
  st_ctime :: lint

definition stat_members :: "stat_buf \<Rightarrow> rfield list" where
  "stat_members st = [
     IntF ''st_dev'' (st_dev st), IntF ''st_ino'' (st_ino st),
     IntF ''st_mode'' (of_cuint (st_mode st)), IntF ''st_nlink'' (st_nlink st),
     IntF ''st_uid'' (of_cuint (st_uid st)), IntF ''st_gid'' (of_cuint (st_gid st)),
     IntF ''st_rdev'' (st_rdev st), IntF ''st_size'' (st_size st),
     IntF ''st_blksize'' (st_blksize st), IntF ''st_blocks'' (st_blocks st),
     IntF ''st_atime'' (st_atime st), IntF ''st_mtime'' (st_mtime st),
     IntF ''st_ctime'' (st_ctime st)]"

definition pushstat :: "stat_buf option \<Rightarrow> ('w, nat) lm" where
  "pushstat st = (case st of
      None \<Rightarrow> thn lua_pushnil (ret 1)
    | Some b \<Rightarrow> make_record ''PosixStat'' (stat_members b))"

definition PS_ISBLK :: "env \<Rightarrow> (cint \<Rightarrow> cint) \<Rightarrow> ('w, nat) lm" where
  "PS_ISBLK E S_ISBLK =
     thn (checknargs 1) (bnd (checkinteger E 1) (\<lambda>m. pushintegerresult (of_cint (S_ISBLK (to_cint m)))))"

definition PS_ISCHR :: "env \<Rightarrow> (cint \<Rightarrow> cint) \<Rightarrow> ('w, nat) lm" where
  "PS_ISCHR E S_ISCHR =
     thn (checknargs 1) (bnd (checkinteger E 1) (\<lambda>m. pushintegerresult (of_cint (S_ISCHR (to_cint m)))))"

definition PS_ISDIR :: "env \<Rightarrow> (cint \<Rightarrow> cint) \<Rightarrow> ('w, nat) lm" where
  "PS_ISDIR E S_ISDIR =
     thn (checknargs 1) (bnd (checkinteger E 1) (\<lambda>m. pushintegerresult (of_cint (S_ISDIR (to_cint m)))))"

definition PS_ISFIFO :: "env \<Rightarrow> (cint \<Rightarrow> cint) \<Rightarrow> ('w, nat) lm" where
  "PS_ISFIFO E S_ISFIFO =
     thn (checknargs 1) (bnd (checkinteger E 1) (\<lambda>m. pushintegerresult (of_cint (S_ISFIFO (to_cint m)))))"

definition PS_ISLNK :: "env \<Rightarrow> (cint \<Rightarrow> cint) \<Rightarrow> ('w, nat) lm" where
  "PS_ISLNK E S_ISLNK =
     thn (checknargs 1) (bnd (checkinteger E 1) (\<lambda>m. pushintegerresult (of_cint (S_ISLNK (to_cint m)))))"

definition PS_ISREG :: "env \<Rightarrow> (cint \<Rightarrow> cint) \<Rightarrow> ('w, nat) lm" where
  "PS_ISREG E S_ISREG =
     thn (checknargs 1) (bnd (checkinteger E 1) (\<lambda>m. pushintegerresult (of_cint (S_ISREG (to_cint m)))))"

definition PS_ISSOCK :: "env \<Rightarrow> (cint \<Rightarrow> cint) \<Rightarrow> ('w, nat) lm" where
  "PS_ISSOCK E S_ISSOCK =
     thn (checknargs 1) (bnd (checkinteger E 1) (\<lambda>m. pushintegerresult (of_cint (S_ISSOCK (to_cint m)))))"

definition Pchmod :: "env \<Rightarrow> (string \<Rightarrow> cint \<Rightarrow> ('w, cint) sys) \<Rightarrow> ('w, nat) lm" where
  "Pchmod E c_chmod =
     bnd (luaL_checkstring E 1) (\<lambda>path.
     thn (checknargs 2)
    (bnd (checkinteger E 2) (\<lambda>mode.
     bnd (sys (c_chmod path (to_cint mode))) (\<lambda>r. pushresult E r (Some path)))))"

definition Plstat :: "env \<Rightarrow> (string \<Rightarrow> ('w, cint \<times> stat_buf) sys) \<Rightarrow> ('w, nat) lm" where
  "Plstat E c_lstat =
     bnd (luaL_checkstring E 1) (\<lambda>path.
     thn (checknargs 1)
    (bnd (sys (c_lstat path)) (\<lambda>r.
     if fst r = -1 then pusherror E (Some path) else pushstat (Some (snd r)))))"

definition Pfstat :: "env \<Rightarrow> (cint \<Rightarrow> ('w, cint \<times> stat_buf) sys) \<Rightarrow> ('w, nat) lm" where
  "Pfstat E c_fstat =
     bnd (checkint E 1) (\<lambda>fd.
     thn (checknargs 1)
    (bnd (sys (c_fstat fd)) (\<lambda>r.
     if fst r = -1 then pusherror E (Some ''fstat'') else pushstat (Some (snd r)))))"

text \<open>The default mode is octal 777.\<close>

definition Pmkdir :: "env \<Rightarrow> (string \<Rightarrow> cint \<Rightarrow> ('w, cint) sys) \<Rightarrow> ('w, nat) lm" where
  "Pmkdir E c_mkdir =
     bnd (luaL_checkstring E 1) (\<lambda>path.
     thn (checknargs 2)
    (bnd (optinteger E 2 511) (\<lambda>mode.
     bnd (sys (c_mkdir path (to_cint mode))) (\<lambda>r. pushresult E r (Some path)))))"

definition Pmkfifo :: "env \<Rightarrow> (string \<Rightarrow> cint \<Rightarrow> ('w, cint) sys) \<Rightarrow> ('w, nat) lm" where
  "Pmkfifo E c_mkfifo =
     bnd (luaL_checkstring E 1) (\<lambda>path.
     thn (checknargs 2)
    (bnd (optinteger E 2 511) (\<lambda>mode.
     bnd (sys (c_mkfifo path (to_cint mode))) (\<lambda>r. pushresult E r (Some path)))))"

definition Pstat :: "env \<Rightarrow> (string \<Rightarrow> ('w, cint \<times> stat_buf) sys) \<Rightarrow> ('w, nat) lm" where
  "Pstat E c_stat =
     bnd (luaL_checkstring E 1) (\<lambda>path.
     thn (checknargs 1)
    (bnd (sys (c_stat path)) (\<lambda>r.
     if fst r = -1 then pusherror E (Some path) else pushstat (Some (snd r)))))"

definition Pumask :: "env \<Rightarrow> (cint \<Rightarrow> ('w, cint) sys) \<Rightarrow> ('w, nat) lm" where
  "Pumask E c_umask =
     thn (checknargs 1)
    (bnd (checkinteger E 1) (\<lambda>mode.
     bnd (sys (c_umask (to_cint mode))) (\<lambda>r. pushintegerresult (of_cuint r))))"

section \<open>Behaviour\<close>

interpretation stat_buf: record_push "\<lambda>b. pushstat (Some b)" "''PosixStat''" stat_members
  by unfold_locales (simp_all add: pushstat_def stat_members_def)

definition args_mode :: "env \<Rightarrow> 'w lst \<Rightarrow> lvalue list \<Rightarrow> err + (string \<times> cint)" where
  "args_mode E s args =
     sbind (arg_str E s 1 args) (\<lambda>p. sbind (at_most 2 args) (\<lambda>_. sbind (arg_integer E 2 args) (\<lambda>m.
     Inr (p, to_cint m))))"

definition args_optmode :: "env \<Rightarrow> 'w lst \<Rightarrow> lvalue list \<Rightarrow> err + (string \<times> cint)" where
  "args_optmode E s args =
     sbind (arg_str E s 1 args) (\<lambda>p. sbind (at_most 2 args) (\<lambda>_. sbind (arg_optinteger E 2 511 args) (\<lambda>m.
     Inr (p, to_cint m))))"

definition args_umask :: "env \<Rightarrow> 'w lst \<Rightarrow> lvalue list \<Rightarrow> err + cint" where
  "args_umask E s args =
     sbind (at_most 1 args) (\<lambda>_. sbind (arg_integer E 1 args) (\<lambda>m. Inr (to_cint m)))"

interpretation chmod: sys_wrapper "Pchmod E c" "args_mode E" "\<lambda>(p, m). c p m" E "\<lambda>(p, m). Some p" for E c
  by unfold_locales
    (simp add: Pchmod_def args_mode_def wrapper_simps split: option.splits prod.splits)

interpretation mkdir: sys_wrapper "Pmkdir E c" "args_optmode E" "\<lambda>(p, m). c p m" E "\<lambda>(p, m). Some p"
  for E c
  by unfold_locales
    (simp add: Pmkdir_def args_optmode_def wrapper_simps split: option.splits prod.splits)

interpretation mkfifo: sys_wrapper "Pmkfifo E c" "args_optmode E" "\<lambda>(p, m). c p m" E "\<lambda>(p, m). Some p"
  for E c
  by unfold_locales
    (simp add: Pmkfifo_def args_optmode_def wrapper_simps split: option.splits prod.splits)

interpretation umask: sys_value "Pumask E c" "args_umask E" c "\<lambda>r. LInt (of_cuint r)" for E c
  by unfold_locales
    (simp add: Pumask_def args_umask_def wrapper_simps split: option.splits prod.splits)

interpretation s_isblk: sys_value "PS_ISBLK E f" "args_umask E" "\<lambda>m e w. (f m, e, w)"
    "\<lambda>r. LInt (of_cint r)" for E f
  by unfold_locales (simp add: PS_ISBLK_def args_umask_def wrapper_simps split: option.splits prod.splits)

interpretation s_ischr: sys_value "PS_ISCHR E f" "args_umask E" "\<lambda>m e w. (f m, e, w)"
    "\<lambda>r. LInt (of_cint r)" for E f
  by unfold_locales (simp add: PS_ISCHR_def args_umask_def wrapper_simps split: option.splits prod.splits)

interpretation s_isdir: sys_value "PS_ISDIR E f" "args_umask E" "\<lambda>m e w. (f m, e, w)"
    "\<lambda>r. LInt (of_cint r)" for E f
  by unfold_locales (simp add: PS_ISDIR_def args_umask_def wrapper_simps split: option.splits prod.splits)

interpretation s_isfifo: sys_value "PS_ISFIFO E f" "args_umask E" "\<lambda>m e w. (f m, e, w)"
    "\<lambda>r. LInt (of_cint r)" for E f
  by unfold_locales (simp add: PS_ISFIFO_def args_umask_def wrapper_simps split: option.splits prod.splits)

interpretation s_islnk: sys_value "PS_ISLNK E f" "args_umask E" "\<lambda>m e w. (f m, e, w)"
    "\<lambda>r. LInt (of_cint r)" for E f
  by unfold_locales (simp add: PS_ISLNK_def args_umask_def wrapper_simps split: option.splits prod.splits)

interpretation s_isreg: sys_value "PS_ISREG E f" "args_umask E" "\<lambda>m e w. (f m, e, w)"
    "\<lambda>r. LInt (of_cint r)" for E f
  by unfold_locales (simp add: PS_ISREG_def args_umask_def wrapper_simps split: option.splits prod.splits)

interpretation s_issock: sys_value "PS_ISSOCK E f" "args_umask E" "\<lambda>m e w. (f m, e, w)"
    "\<lambda>r. LInt (of_cint r)" for E f
  by unfold_locales (simp add: PS_ISSOCK_def args_umask_def wrapper_simps split: option.splits prod.splits)

lemma settled_pushstat: "settled (pushstat b)"
  by (simp add: pushstat_def settled_make_record settled_rules split: option.splits)

lemma clean_stat:
  "clean (Pchmod E c1)" "clean (Plstat E c2)" "clean (Pfstat E c3)" "clean (Pmkdir E c1)"
  "clean (Pmkfifo E c1)" "clean (Pstat E c2)" "clean (Pumask E c4)"
  unfolding Pchmod_def Plstat_def Pfstat_def Pmkdir_def Pmkfifo_def Pstat_def Pumask_def
  by (rule clean_rules settled_pushstat)+

text \<open>The three look-ups agree: the record found, or the error triple under the path's name.\<close>

definition stat_result ::
  "env \<Rightarrow> string \<Rightarrow> cint \<times> stat_buf \<Rightarrow> 'w lst \<Rightarrow> ('w, lvalue list) out" where
  "stat_result E info r s =
     (if fst r = -1 then Ok (error_values E (Some info) (errno s)) s
      else Ok [LTab (ntab s)] (add_record ''PosixStat'' (stat_buf.flds (snd r)) s))"

lemma stat_runs:
  "args_path E s args = Inr p \<Longrightarrow> c p (errno s) (world s) = (r, e, w) \<Longrightarrow>
   call_c (Pstat E c) args s = stat_result E p r (s\<lparr>errno := e, world := w\<rparr>)"
  "args_path E s args = Inr p \<Longrightarrow> c p (errno s) (world s) = (r, e, w) \<Longrightarrow>
   call_c (Plstat E c) args s = stat_result E p r (s\<lparr>errno := e, world := w\<rparr>)"
  "args_fd E s args = Inr fd \<Longrightarrow> d fd (errno s) (world s) = (r, e, w) \<Longrightarrow>
   call_c (Pfstat E d) args s = stat_result E ''fstat'' r (s\<lparr>errno := e, world := w\<rparr>)"
  by (auto simp: Pstat_def Plstat_def Pfstat_def args_path_def args_fd_def accepted call_c_def run_simps
      sys_def stat_result_def stat_buf.push_run put_at_same_type error_values_def)

section \<open>Opening the module\<close>

definition posix_sys_stat_fns :: "entry list" where
  "posix_sys_stat_fns = [
    Item ''PS_ISBLK'', Item ''PS_ISCHR'', Item ''PS_ISDIR'', Item ''PS_ISFIFO'',
    Item ''PS_ISLNK'', Item ''PS_ISREG'', Item ''PS_ISSOCK'', Item ''Pchmod'', Item ''Plstat'',
    Item ''Pfstat'', Item ''Pmkdir'', Item ''Pmkfifo'', Item ''Pstat'', Item ''Pumask'']"

definition posix_sys_stat_consts :: "entry list" where
  "posix_sys_stat_consts = [
    Item ''S_IFMT'', Item ''S_IFBLK'', Item ''S_IFCHR'', Item ''S_IFDIR'', Item ''S_IFIFO'',
    Item ''S_IFLNK'', Item ''S_IFREG'', Item ''S_IFSOCK'', Item ''S_IRWXU'', Item ''S_IRUSR'',
    Item ''S_IWUSR'', Item ''S_IXUSR'', Item ''S_IRWXG'', Item ''S_IRGRP'', Item ''S_IWGRP'',
    Item ''S_IXGRP'', Item ''S_IRWXO'', Item ''S_IROTH'', Item ''S_IWOTH'', Item ''S_IXOTH'',
    Item ''S_ISGID'', Item ''S_ISUID'']"

definition luaopen_posix_sys_stat :: "host \<Rightarrow> ('w, nat) lm" where
  "luaopen_posix_sys_stat H = open_module H ''sys.stat'' posix_sys_stat_fns posix_sys_stat_consts"

lemma sys_stat_names: "names_ok posix_sys_stat_fns posix_sys_stat_consts"
  by code_simp

end
