(* ===== verification/Marshal.thy ===== *)
theory Marshal
  imports Records
begin

text \<open>
  Structures read from tables.  A reader checks that its argument is a table, takes one field
  after the other with \<open>checkintfield\<close>, \<open>optintfield\<close>, \dots, and rejects unknown field names.
  What it reads is stated as a pure function from the table (\<open>of_int\<close>, \<open>of_optint\<close>, \dots, \<open>of_names\<close>);
  the interface \<open>record_copy\<close> is the promise that a structure the bindings pushed is read back
  unchanged.
\<close>

section \<open>Pure readers\<close>

definition ofsum :: "err + 'a \<Rightarrow> ('w, 'a) lm" where
  "ofsum m s = (case m of Inl e \<Rightarrow> Err e (s\<lparr>stk := []\<rparr>) | Inr x \<Rightarrow> Ok x s)"

lemma ofsum_simps [simp]:
  "ofsum (Inl e) s = Err e (s\<lparr>stk := []\<rparr>)" "ofsum (Inr x) s = Ok x s"
  by (simp_all add: ofsum_def)

lemma bnd_of: "m s = ofsum x s \<Longrightarrow> (\<And>v. f v s = ofsum (g v) s) \<Longrightarrow> bnd m f s = ofsum (sbind x g) s"
  by (cases x) (simp_all add: bnd_def)

lemma thn_of: "m s = ofsum x s \<Longrightarrow> m' s = ofsum y s \<Longrightarrow> thn m m' s = ofsum (sbind x (\<lambda>_. y)) s"
  by (cases x) (simp_all add: thn_def)

lemma ret_of: "ret x s = ofsum (Inr x) s"
  by (simp add: ret_def)

definition bad_field :: "int \<Rightarrow> string \<Rightarrow> string \<Rightarrow> lvalue \<Rightarrow> err" where
  "bad_field i expected k v = ArgError i (field_msg expected k (vtype v))"

definition of_integer :: "env \<Rightarrow> int \<Rightarrow> string \<Rightarrow> ltable \<Rightarrow> err + lint" where
  "of_integer E i k t =
     (let v = tbl_get t (LStr k) in
      if vtype v = TNUMBER then Inr (int_field E t k) else Inl (bad_field i ''integer'' k v))"

definition of_int :: "env \<Rightarrow> int \<Rightarrow> string \<Rightarrow> ltable \<Rightarrow> err + cint" where
  "of_int E i k t = sbind (of_integer E i k t) (\<lambda>n. Inr (to_cint n))"

definition of_optinteger :: "env \<Rightarrow> int \<Rightarrow> string \<Rightarrow> cint \<Rightarrow> ltable \<Rightarrow> err + lint" where
  "of_optinteger E i k d t =
     (if tbl_get t (LStr k) = LNil then Inr (of_cint d) else of_integer E i k t)"

definition of_optint :: "env \<Rightarrow> int \<Rightarrow> string \<Rightarrow> cint \<Rightarrow> ltable \<Rightarrow> err + cint" where
  "of_optint E i k d t = sbind (of_optinteger E i k d t) (\<lambda>n. Inr (to_cint n))"

definition of_str :: "int \<Rightarrow> string \<Rightarrow> ltable \<Rightarrow> err + string" where
  "of_str i k t = (case tbl_get t (LStr k) of
      LStr x \<Rightarrow> Inr (cstr x) | v \<Rightarrow> Inl (bad_field i ''string'' k v))"

definition of_lstr :: "int \<Rightarrow> string \<Rightarrow> ltable \<Rightarrow> err + string" where
  "of_lstr i k t = (case tbl_get t (LStr k) of
      LStr x \<Rightarrow> Inr x | v \<Rightarrow> Inl (bad_field i ''string'' k v))"

definition of_optstr :: "int \<Rightarrow> string \<Rightarrow> string option \<Rightarrow> ltable \<Rightarrow> err + string option" where
  "of_optstr i k d t =
     (if tbl_get t (LStr k) = LNil then Inr d else sbind (of_str i k t) (\<lambda>x. Inr (Some x)))"

definition of_names :: "env \<Rightarrow> int \<Rightarrow> string list \<Rightarrow> ltable \<Rightarrow> err + unit" where
  "of_names E i S t = (case first_complaint E S t of None \<Rightarrow> Inr () | Some c \<Rightarrow> Inl (ArgError i c))"

lemmas of_defs = of_integer_def of_int_def of_optinteger_def of_optint_def of_str_def of_lstr_def
  of_optstr_def of_names_def bad_field_def

lemma field_of:
  assumes "at i (stk s) = Some (LTab a)"
  shows "checkintegerfield E i k s = ofsum (of_integer E i k (tabs s a)) s"
    and "checkintfield E i k s = ofsum (of_int E i k (tabs s a)) s"
    and "optintegerfield E i k d s = ofsum (of_optinteger E i k d (tabs s a)) s"
    and "optintfield E i k d s = ofsum (of_optint E i k d (tabs s a)) s"
    and "optlongfield E i k d s = ofsum (of_optinteger E i k d (tabs s a)) s"
    and "checkstringfield E i k s = ofsum (of_str i k (tabs s a)) s"
    and "checklstringfield E i k s = ofsum (of_lstr i k (tabs s a)) s"
    and "optstringfield E i k x s = ofsum (of_optstr i k x (tabs s a)) s"
  using assms
  by (simp_all add: field_runs optlongfield_def of_defs Let_def split: lvalue.splits)

lemma luaL_checktype_table:
  "at i (stk s) = Some (LTab a) \<Longrightarrow> thn (luaL_checktype i TTABLE) m s = m s"
  by (simp add: run_simps type_of_def)

lemma names_of:
  assumes "float_text E" "list_all field_name S" "0 < i" "at i (stk s) = Some (LTab a)"
    "wf_table (tabs s a)"
  shows "checkfieldnames E i S s = ofsum (of_names E i S (tabs s a)) s"
  by (simp add: checkfieldnames_run [OF assms] of_names_def split: option.splits)

text \<open>No complaint about a table whose keys are field names.\<close>

lemma names_of_named:
  assumes "0 < i" "at i (stk s) = Some (LTab a)" "tabs s a = named kvs" "wf_table (named kvs)"
    and S: "\<forall>k \<in> fst ` set kvs. cstr k \<in> set S"
  shows "checkfieldnames E i S s = Ok () s"
proof -
  let ?f = "\<lambda>_ k v s. Ok () s :: ('a, unit) out"
  have "entry_body (\<lambda>_. thn (checkismember E i S) (lua_pop 1)) ?f a (tabs s a) (stk s) (\<lambda>_. True)"
    unfolding entry_body_def using S assms(3)
    by (force simp: run_simps checkismember_run key_complaint_def named_def)
  then have "checkfieldnames E i S s = fold_entries ?f (tabs s a) () s"
    unfolding checkfieldnames_def by (rule table_loop_run) (use assms in auto)
  also have "fold_entries ?f t () s = Ok () s" for t
    by (induction t) (auto simp: run_simps)
  finally show ?thesis .
qed

section \<open>Reading back what was pushed\<close>

text \<open>
  \<open>read i\<close> takes the structure from the table at stack index \<open>i\<close>; \<open>ok\<close> are the structures that a
  table can hold without loss.
\<close>

locale record_copy = record_push push tag members
  for push :: "'r \<Rightarrow> ('w, nat) lm" and tag members +
  fixes read :: "int \<Rightarrow> ('w, 'r) lm"
    and ok :: "'r \<Rightarrow> bool"
  assumes reads: "ok r \<Longrightarrow> 0 < i \<Longrightarrow> at i (stk s) = Some (LTab a) \<Longrightarrow>
    tabs s a = named (rfields (members r)) \<Longrightarrow> read i s = Ok r s"
begin

lemma read_pushed:
  "ok r \<Longrightarrow> push r s = Ok n s' \<Longrightarrow> read (int (length (stk s')))  s' = Ok r s'"
  by (rule reads [where a = "ntab s"])
    (auto simp: push_run at_def slot_def nth_append flds_def)

lemma pushed_injective:
  "ok r \<Longrightarrow> ok r' \<Longrightarrow> push r s = push r' s \<Longrightarrow> r = r'"
  using read_pushed [of r s 1 "with_record tag (flds r) s"]
    read_pushed [of r' s 1 "with_record tag (flds r') s"]
  by (simp add: push_run)

end

end
