(* ===== verification/SysMsg.thy ===== *)
theory SysMsg
  imports Marshal Modules
begin

text \<open>
  \<^verbatim>\<open>ext/posix/sys/msg.c\<close>: System V message queues.  A \<open>long\<close> has 8 bytes.  The buffer for a message
  is a block of the Lua allocator that starts with the message type; the text follows at
  offset 8.
\<close>

record ipc_perm =
  perm_uid :: cint
  perm_gid :: cint
  perm_cuid :: cint
  perm_cgid :: cint
  perm_mode :: cint

record msqid_ds =
  msg_qnum :: lint
  msg_qbytes :: lint
  msg_lspid :: cint
  msg_lrpid :: cint
  msg_stime :: lint
  msg_rtime :: lint
  msg_ctime :: lint
  msg_perm :: ipc_perm

definition perm_members :: "ipc_perm \<Rightarrow> rfield list" where
  "perm_members p = [
     IntF ''uid'' (of_cuint (perm_uid p)), IntF ''gid'' (of_cuint (perm_gid p)),
     IntF ''cuid'' (of_cuint (perm_cuid p)), IntF ''cgid'' (of_cuint (perm_cgid p)),
     IntF ''mode'' (of_cuint (perm_mode p))]"

definition msqid_members :: "msqid_ds \<Rightarrow> rfield list" where
  "msqid_members m = [
     IntF ''msg_qnum'' (msg_qnum m), IntF ''msg_qbytes'' (msg_qbytes m),
     IntF ''msg_lspid'' (of_cint (msg_lspid m)), IntF ''msg_lrpid'' (of_cint (msg_lrpid m)),
     IntF ''msg_stime'' (msg_stime m), IntF ''msg_rtime'' (msg_rtime m),
     IntF ''msg_ctime'' (msg_ctime m)]"

definition pushmsqid :: "msqid_ds option \<Rightarrow> ('w, nat) lm" where
  "pushmsqid msqid = (case msqid of
      None \<Rightarrow> thn lua_pushnil (ret 1)
    | Some m \<Rightarrow> seqn [
        lua_createtable,
        for_each (msqid_members m) put_rfield,
        lua_createtable,
        for_each (perm_members (msg_perm m)) put_rfield,
        lua_setfield (-2) ''msg_perm'',
        settypemetatable ''PosixMsqid''] 1)"

definition Smsqid_fields :: "string list" where
  "Smsqid_fields = [''msg_qbytes'', ''msg_perm'']"

definition Sipcperm_fields :: "string list" where
  "Sipcperm_fields = [''uid'', ''gid'', ''mode'']"

text \<open>The members that \<open>IPC_SET\<close> uses.\<close>

record msqid_set =
  set_qbytes :: lint
  set_uid :: cint
  set_gid :: cint
  set_mode :: cint

definition tomsqid :: "env \<Rightarrow> int \<Rightarrow> ('w, msqid_set) lm" where
  "tomsqid E index =
     thn (luaL_checktype index TTABLE)
    (bnd (checkintegerfield E index ''msg_qbytes'') (\<lambda>qbytes.
     thn (checkfieldtype E index ''msg_perm'' TTABLE (Some ''table''))
    (bnd lua_gettop (\<lambda>n.
     let subindex = int n in
     bnd (checkintegerfield E subindex ''uid'') (\<lambda>uid.
     bnd (checkintegerfield E subindex ''gid'') (\<lambda>gid.
     bnd (checkintfield E subindex ''mode'') (\<lambda>mode.
     thn (checkfieldnames E index Smsqid_fields)
    (thn (checkfieldnames E subindex Sipcperm_fields)
         (ret \<lparr>set_qbytes = qbytes, set_uid = to_cint uid, set_gid = to_cint gid,
               set_mode = mode\<rparr>)))))))))"

record msg_cmds =
  IPC_RMID :: cint
  IPC_SET :: cint
  IPC_STAT :: cint

record 'w msgctl_api =
  msgctl_rmid :: "cint \<Rightarrow> ('w, cint) sys"
  msgctl_set :: "cint \<Rightarrow> msqid_set \<Rightarrow> ('w, cint) sys"
  msgctl_stat :: "cint \<Rightarrow> ('w, cint \<times> msqid_ds) sys"

definition Pmsgctl :: "env \<Rightarrow> msg_cmds \<Rightarrow> 'w msgctl_api \<Rightarrow> ('w, nat) lm" where
  "Pmsgctl E K A =
     bnd (checkint E 1) (\<lambda>id.
     bnd (checkint E 2) (\<lambda>cmd.
     if cmd = IPC_RMID K then
       thn (checknargs 2)
      (bnd (sys (msgctl_rmid A id)) (\<lambda>r. pushresult E r (Some ''msgctl'')))
     else if cmd = IPC_SET K then
       thn (checknargs 3)
      (bnd (tomsqid E 3) (\<lambda>m.
       bnd (sys (msgctl_set A id m)) (\<lambda>r. pushresult E r (Some ''msgctl''))))
     else if cmd = IPC_STAT K then
       thn (checknargs 2)
      (bnd (sys (msgctl_stat A id)) (\<lambda>r.
       if fst r <s 0 then pusherror E (Some ''msgctl'') else pushmsqid (Some (snd r))))
     else
       thn (checknargs 3) (pusherror E (Some ''unsupported cmd value''))))"

text \<open>The arguments of \<open>msgget\<close> are taken from left to right (C leaves the order open).\<close>

definition Pmsgget :: "env \<Rightarrow> (cint \<Rightarrow> cint \<Rightarrow> ('w, cint) sys) \<Rightarrow> ('w, nat) lm" where
  "Pmsgget E c_msgget =
     thn (checknargs 2)
    (bnd (checkinteger E 1) (\<lambda>key.
     bnd (optint E 2 0) (\<lambda>flg.
     bnd (sys (c_msgget (to_cint key) flg)) (\<lambda>r. pushresult E r (Some ''msgget'')))))"

text \<open>
  \<open>msgsnd\<close> takes \<open>msgsz\<close> bytes of text; the size passed counts the type as well, so it reads eight
  bytes behind the block: \<open>beyond\<close>.
\<close>

definition sizeof_long :: nat where
  "sizeof_long = 8"

definition Pmsgsnd ::
  "env \<Rightarrow> string \<Rightarrow> (cint \<Rightarrow> lint \<Rightarrow> string \<Rightarrow> cint \<Rightarrow> ('w, cint) sys) \<Rightarrow> ('w, nat) lm" where
  "Pmsgsnd E beyond c_msgsnd =
     bnd (checkint E 1) (\<lambda>msgid.
     bnd (checklong E 2) (\<lambda>msgtype.
     bnd (luaL_checklstring E 3) (\<lambda>msgp.
     bnd (optint E 4 0) (\<lambda>msgflg.
     thn (checknargs 4)
    (let msgsz = sizeof_long + length msgp in
     bnd (lua_alloc E (of_nat msgsz)) (\<lambda>msg. case msg of
       None \<Rightarrow> pusherror E (Some ''lalloc'')
     | Some p \<Rightarrow>
         bnd (bnd (sys (c_msgsnd msgid msgtype (take msgsz (msgp @ beyond)) msgflg)) (\<lambda>r.
              thn (lua_pushinteger (of_cint r)) (ret r))) (\<lambda>r.
         thn (lua_free msg (of_nat msgsz))
        (if r = -1 then pusherror E None else ret 1))))))))"

text \<open>
  \<open>msgrcv\<close> writes the type and up to \<open>msgsz\<close> bytes of text into a block of \<open>msgsz\<close> bytes in all;
  it returns the length of the text, the type and the text.
\<close>

definition Pmsgrcv ::
  "env \<Rightarrow> (cint \<Rightarrow> nat \<Rightarrow> lint \<Rightarrow> cint \<Rightarrow> ('w, cint \<times> lint \<times> string) sys) \<Rightarrow> ('w, nat) lm" where
  "Pmsgrcv E c_msgrcv =
     bnd (checkint E 1) (\<lambda>msgid.
     bnd (checkinteger E 2) (\<lambda>msgsz.
     bnd (optlong E 3 0) (\<lambda>msgtyp.
     bnd (optint E 4 0) (\<lambda>msgflg.
     thn (checknargs 4)
    (bnd (lua_alloc E msgsz) (\<lambda>msg. case msg of
       None \<Rightarrow> pusherror E (Some ''lalloc'')
     | Some p \<Rightarrow>
         bnd (bnd (sys (c_msgrcv msgid (unat msgsz) msgtyp msgflg)) (\<lambda>(res, mtype, mtext).
              thn (when_do (res \<noteq> -1)
                    (if unat msgsz < sizeof_long + length mtext
                     then raise (Undefined ''write behind a block'')
                     else let n = unat (of_cint res - of_nat sizeof_long) in
                       if length mtext < n then raise (Undefined ''read of unwritten bytes'')
                       else seq [lua_pushinteger mtype, lua_pushlstring (take n mtext)]))
                  (ret res))) (\<lambda>res.
         thn (lua_free msg msgsz)
        (if res = -1 then pusherror E None else ret 2))))))))"

section \<open>Behaviour\<close>

definition args_msgget :: "env \<Rightarrow> 'w lst \<Rightarrow> lvalue list \<Rightarrow> err + (cint \<times> cint)" where
  "args_msgget E s args =
     sbind (at_most 2 args) (\<lambda>_. sbind (arg_integer E 1 args) (\<lambda>k. sbind (arg_optint E 2 0 args) (\<lambda>f.
     Inr (to_cint k, f))))"

interpretation msgget: sys_wrapper "Pmsgget E c" "args_msgget E" "\<lambda>(k, f). c k f" E
    "\<lambda>_. Some ''msgget''" for E c
  by unfold_locales
    (simp add: Pmsgget_def args_msgget_def wrapper_simps split: option.splits prod.splits)

lemma settled_pushmsqid: "settled (pushmsqid m)"
  unfolding pushmsqid_def by (rule settled_rules settled_put_rfield)+

lemma quiet_tomsqid: "quiet (tomsqid E i)"
  unfolding tomsqid_def by (rule quiet_rules)+

lemma clean_msg: "clean (Pmsgctl E K A)" "clean (Pmsgget E c)" "clean (Pmsgsnd E b c')" "clean (Pmsgrcv E d)"
  unfolding Pmsgctl_def Pmsgget_def Pmsgsnd_def Pmsgrcv_def
  by (rule clean_rules quiet_tomsqid settled_pushmsqid)+

lemma balanced_msg: "balanced (Pmsgsnd E b c)" "balanced (Pmsgrcv E d)"
  unfolding Pmsgsnd_def Pmsgrcv_def Let_def
  by (rule balanced_rules balanced_quiet quiet_rules)+

text \<open>The bytes handed to the kernel: the text and what follows the block.\<close>

definition sent_bytes :: "string \<Rightarrow> string \<Rightarrow> string" where
  "sent_bytes beyond text = text @ take sizeof_long beyond"

lemma of_nat_lint_nonzero: "0 < n \<Longrightarrow> n < 2 ^ 64 \<Longrightarrow> (of_nat n :: lint) \<noteq> 0"
  by (auto simp: word_of_nat_eq_0_iff dest!: dvd_imp_le)

lemma Pmsgsnd_run:
  assumes "alloc_ok E (nptr s) (of_nat (8 + length text))" "length text < 2 ^ 63"
    and "c (to_cint q) ty (sent_bytes beyond text) 0 (errno s) (world s) = (r, e, w)"
  shows "call_c (Pmsgsnd E beyond c) [LInt q, LInt ty, LStr text] s =
    Ok (if r = -1 then error_values E None e else [LInt (of_cint r)])
       (s\<lparr>nptr := Suc (nptr s), errno := e, world := w\<rparr>)"
proof -
  have nz: "(of_nat (8 + length text) :: lint) \<noteq> 0"
    using assms(2) by (intro of_nat_lint_nonzero) simp_all
  show ?thesis using assms(1,3) nz
    by (simp add: Pmsgsnd_def call_c_def run_simps at_numeral at_one type_of_def type_le_nil
        sizeof_long_def lua_alloc_def lua_free_def sys_def sent_bytes_def Let_def error_values_def
        put_at_def slot_def)
qed

lemma Pmsgrcv_run:
  assumes "alloc_ok E (nptr s) n" "n \<noteq> 0"
    and "c (to_cint q) (unat n) 0 0 (errno s) (world s) = ((r, ty, m), e, w)" "r \<noteq> -1"
  shows "call_c (Pmsgrcv E c) [LInt q, LInt n] s =
    (if unat n < 8 + length m
     then Err (Undefined ''write behind a block'')
       (s\<lparr>live := (nptr s, n) # live s, nptr := Suc (nptr s), errno := e, world := w\<rparr>)
     else if length m < unat (of_cint r - 8)
     then Err (Undefined ''read of unwritten bytes'')
       (s\<lparr>live := (nptr s, n) # live s, nptr := Suc (nptr s), errno := e, world := w\<rparr>)
     else Ok [LInt ty, LStr (take (unat (of_cint r - 8)) m)]
       (s\<lparr>nptr := Suc (nptr s), errno := e, world := w\<rparr>))"
  using assms
  by (simp add: Pmsgrcv_def call_c_def run_simps at_numeral at_one type_of_def type_le_nil
      sizeof_long_def lua_alloc_def lua_free_def sys_def Let_def)

lemma count_less_8:
  assumes "n + 8 < 2 ^ 31"
  shows "unat (of_cint (of_nat (n + 8)) - 8) = n"
proof -
  have "sint (of_cint (of_nat (n + 8)) - 8) = int n"
    using assms sint_of_nat_cint [of "n + 8"] by (subst sint_minus) (simp_all add: sint_of_cint in_lint_def)
  then show ?thesis using unat_nonneg [of "of_cint (of_nat (n + 8)) - 8"] by simp
qed

text \<open>
  Property C8: a text sent with \<open>msgsnd\<close> over a queue that hands on what it was given comes back
  from \<open>msgrcv\<close> with its type and all its bytes (NUL included), provided the receiver asks for
  at least 16 bytes more than the text, and the size fits the \<open>int\<close> in which \<open>msgrcv\<close> keeps it; neither call leaks its block.  On the way the kernel is
  given eight bytes that lie behind the sender's block, and \<open>msgrcv\<close> drops eight again.
\<close>

theorem message_roundtrip:
  assumes alloc: "\<forall>k m. alloc_ok E k m"
    and size: "length text + 8 < 2 ^ 31" "length beyond \<ge> 8" "length text + 16 \<le> unat n"
    and snd: "c_snd (to_cint q) ty (sent_bytes beyond text) 0 (errno s) (world s) = (0, e, w)"
    and rcv: "c_rcv (to_cint q) (unat n) 0 0 e w =
      ((of_nat (length text + 8), ty, sent_bytes beyond text), e', w')"
  shows "\<exists>s1. call_c (Pmsgsnd E beyond c_snd) [LInt q, LInt ty, LStr text] s = Ok [LInt 0] s1 \<and>
    live s1 = live s \<and>
    call_c (Pmsgrcv E c_rcv) [LInt q, LInt n] s1 =
      Ok [LInt ty, LStr text] (s\<lparr>nptr := nptr s + 2, errno := e', world := w'\<rparr>)"
proof -
  let ?s1 = "s\<lparr>nptr := Suc (nptr s), errno := e, world := w\<rparr>"
  have snd1: "call_c (Pmsgsnd E beyond c_snd) [LInt q, LInt ty, LStr text] s = Ok [LInt 0] ?s1"
    using Pmsgsnd_run [where E = E and s = s and c = c_snd, OF _ _ snd] alloc size(1) by simp
  moreover define r :: cint where "r = of_nat (length text + 8)"
  have "sint r \<noteq> sint (-1 :: cint)"
    unfolding r_def sint_of_nat_cint [OF size(1)] sint_n1 by simp
  then have "r \<noteq> -1" by (rule contrapos_nn) (simp only:)
  moreover have "unat (of_cint r - 8) = length text" unfolding r_def by (rule count_less_8 [OF size(1)])
  moreover have "n \<noteq> 0" using size(3) by auto
  ultimately have "call_c (Pmsgrcv E c_rcv) [LInt q, LInt n] ?s1 =
      Ok [LInt ty, LStr text] (s\<lparr>nptr := nptr s + 2, errno := e', world := w'\<rparr>)"
    using Pmsgrcv_run [of E ?s1 n c_rcv q r ty "sent_bytes beyond text" e' w']
      alloc size rcv [folded r_def] by (simp add: sent_bytes_def sizeof_long_def)
  with snd1 show ?thesis by (intro exI [of _ ?s1]) simp
qed

theorem message_roundtrip_witness:
  "\<exists>s1. call_c (Pmsgsnd sample_env ''01234567'' (\<lambda>q t m f e w. (0, e, w @ [(t, m)])))
        [LInt 3, LInt 9, LStr ''ab''] (sample_state []) = Ok [LInt 0] s1 \<and> live s1 = [] \<and>
    call_c (Pmsgrcv sample_env (\<lambda>q n t f e w. ((of_nat (length (snd (hd w))), hd w), e, tl w)))
        [LInt 3, LInt 18] s1 = Ok [LInt 9, LStr ''ab''] ((sample_state [])\<lparr>nptr := Suc (Suc 0)\<rparr>)"
  using message_roundtrip [of sample_env "''ab''" "''01234567''" 18
      "\<lambda>q t m f e w. (0, e, w @ [(t, m)])" 3 9 "sample_state []" 0 "[(9, sent_bytes ''01234567'' ''ab'')]"
      "\<lambda>q n t f e w. ((of_nat (length (snd (hd w))), hd w), e, tl w)" 0 "[]"]
  by (simp add: sent_bytes_def sizeof_long_def sample_state_def)

text \<open>
  \<open>msgrcv\<close> for \<open>n\<close> bytes writes behind its block whenever the message is longer than
  \<open>n - 8\<close> bytes, although the kernel accepts messages of up to \<open>n\<close>.
\<close>

lemma msgrcv_overrun:
  assumes "alloc_ok E (nptr s) n" "unat n = length m + k" "k < 8" "0 < unat n"
    and "c (to_cint q) (unat n) 0 0 (errno s) (world s) = ((r, ty, m), e, w)" "r \<noteq> -1"
  shows "\<exists>s'. call_c (Pmsgrcv E c) [LInt q, LInt n] s = Err (Undefined ''write behind a block'') s'"
proof -
  have "n \<noteq> 0" using assms(4) by auto
  then show ?thesis using Pmsgrcv_run [where c = c and s = s, OF assms(1) _ assms(5,6)] assms(2,3) by simp
qed

text \<open>What \<open>IPC_SET\<close> takes from its table.\<close>

definition msqid_of :: "env \<Rightarrow> int \<Rightarrow> (nat \<Rightarrow> ltable) \<Rightarrow> nat \<Rightarrow> int \<Rightarrow> err + msqid_set" where
  "msqid_of E i ts a j =
     sbind (of_integer E i ''msg_qbytes'' (ts a)) (\<lambda>qb.
     case tbl_get (ts a) (LStr ''msg_perm'') of
       LTab b \<Rightarrow>
         sbind (of_integer E j ''uid'' (ts b)) (\<lambda>u. sbind (of_integer E j ''gid'' (ts b)) (\<lambda>g.
         sbind (of_int E j ''mode'' (ts b)) (\<lambda>m.
         sbind (of_names E i Smsqid_fields (ts a)) (\<lambda>_. sbind (of_names E j Sipcperm_fields (ts b)) (\<lambda>_.
         Inr \<lparr>set_qbytes = qb, set_uid = to_cint u, set_gid = to_cint g, set_mode = m\<rparr>)))))
     | v \<Rightarrow> Inl (bad_field i ''table'' ''msg_perm'' v))"

lemma msg_field_names: "list_all field_name Smsqid_fields" "list_all field_name Sipcperm_fields"
  by (simp_all add: Smsqid_fields_def Sipcperm_fields_def field_name_def numeral_start_def)

lemma tomsqid_run:
  assumes "float_text E" "0 < i" "at i (stk s) = Some (LTab a)"
    and wf: "\<And>b. wf_table (tabs s b)"
  shows "\<exists>s'. tomsqid E i s = ofsum (msqid_of E i (tabs s) a (int (length (stk s)) + 1)) s' \<and>
    s'\<lparr>stk := stk s\<rparr> = s"
proof (cases "of_integer E i ''msg_qbytes'' (tabs s a)")
  case (Inl e)
  with assms show ?thesis unfolding tomsqid_def luaL_checktype_table [OF assms(3)]
    by (intro exI [of _ s]) (simp add: bnd_def field_of msqid_of_def stk_self)
next
  case (Inr qb)
  show ?thesis
  proof (cases "\<exists>b. tbl_get (tabs s a) (LStr ''msg_perm'') = LTab b")
    case False
    then have "vtype (tbl_get (tabs s a) (LStr ''msg_perm'')) \<noteq> TTABLE" by (simp add: vtype_table)
    with Inr assms False show ?thesis unfolding tomsqid_def luaL_checktype_table [OF assms(3)]
      by (intro exI [of _ s])
        (simp add: run_simps field_of msqid_of_def stk_self checkfieldtype_run bad_field_def
          split: lvalue.splits)
  next
    case True
    then obtain b where b: "tbl_get (tabs s a) (LStr ''msg_perm'') = LTab b" by blast
    let ?s = "s\<lparr>stk := stk s @ [LTab b]\<rparr>"
    obtain n j where n: "lua_gettop ?s = Ok n ?s" "int n = j" and j_def: "j = int (length (stk s)) + 1"
      by (rule that [of "Suc (length (stk s))" "int (length (stk s)) + 1"]) (simp_all add: run_simps)
    have j: "0 < j" "at j (stk ?s) = Some (LTab b)"
      unfolding j_def by (simp_all add: at_def slot_def nth_append nat_add_distrib)
    have i: "at i (stk ?s) = Some (LTab a)" using assms(2,3) by (simp add: at_append_pos)
    have tabs: "tabs ?s = tabs s" by simp
    have wf': "wf_table (tabs ?s c)" for c using wf by simp
    note run = field_of [OF j(2), unfolded tabs]
      names_of [OF assms(1) msg_field_names(1) assms(2) i wf', unfolded tabs]
      names_of [OF assms(1) msg_field_names(2) j wf', unfolded tabs]
    have "tomsqid E i s = ofsum (msqid_of E i (tabs s) a j) ?s"
      unfolding tomsqid_def luaL_checktype_table [OF assms(3)] Let_def
      by (simp add: bnd_def thn_def ret_def field_of [OF assms(3)] Inr checkfieldtype_run [OF assms(3)] b n run
          msqid_of_def ofsum_def sbind_def split: sum.splits)
    then have "tomsqid E i s = ofsum (msqid_of E i (tabs s) a (int (length (stk s)) + 1)) ?s"
      by (simp only: j_def)
    then show ?thesis by (intro exI [of _ ?s]) (simp add: stk_self)
  qed
qed

section \<open>Opening the module\<close>

definition posix_sys_msg_fns :: "entry list" where
  "posix_sys_msg_fns = [
    Only ''HAVE_SYSV_MESSAGING'' (Item ''Pmsgctl''),
    Only ''HAVE_SYSV_MESSAGING'' (Item ''Pmsgget''),
    Only ''HAVE_SYSV_MESSAGING'' (Item ''Pmsgsnd''),
    Only ''HAVE_SYSV_MESSAGING'' (Item ''Pmsgrcv'')]"

definition posix_sys_msg_consts :: "entry list" where
  "posix_sys_msg_consts = [
    Only ''HAVE_SYSV_MESSAGING'' (Item ''IPC_CREAT''),
    Only ''HAVE_SYSV_MESSAGING'' (Only ''MSG_EXCEPT'' (Item ''MSG_EXCEPT'')),
    Only ''HAVE_SYSV_MESSAGING'' (Item ''IPC_EXCL''),
    Only ''HAVE_SYSV_MESSAGING'' (Only ''MSG_NOERROR'' (Item ''MSG_NOERROR'')),
    Only ''HAVE_SYSV_MESSAGING'' (Item ''IPC_NOWAIT''),
    Only ''HAVE_SYSV_MESSAGING'' (Item ''IPC_PRIVATE''),
    Only ''HAVE_SYSV_MESSAGING'' (Item ''IPC_RMID''),
    Only ''HAVE_SYSV_MESSAGING'' (Item ''IPC_SET''),
    Only ''HAVE_SYSV_MESSAGING'' (Item ''IPC_STAT'')]"

definition luaopen_posix_sys_msg :: "host \<Rightarrow> ('w, nat) lm" where
  "luaopen_posix_sys_msg H = open_module H ''sys.msg'' posix_sys_msg_fns posix_sys_msg_consts"

lemma sys_msg_names: "names_ok posix_sys_msg_fns posix_sys_msg_consts"
  by code_simp

end
