(* ===== verification/Syslog.thy ===== *)
theory Syslog
  imports Contracts Modules
begin

text \<open>
  \<^verbatim>\<open>ext/posix/syslog.c\<close>.  \<open>openlog\<close> keeps the pointer to the identification string, so \<open>Popenlog\<close>
  files the string in the registry under the address of the function.
\<close>

text \<open>The registry key, the address of \<open>Popenlog\<close>.\<close>

definition Popenlog_key :: lvalue where
  "Popenlog_key = LLight 1"

definition save_ident :: "string \<Rightarrow> ('w, unit) lm" where
  "save_ident ident s = Ok () (s\<lparr>regs := tbl_set (regs s) Popenlog_key (LStr (cstr ident))\<rparr>)"

definition Popenlog ::
  "env \<Rightarrow> cint \<Rightarrow> (string \<Rightarrow> cint \<Rightarrow> cint \<Rightarrow> ('w, unit) sys) \<Rightarrow> ('w, nat) lm" where
  "Popenlog E LOG_USER c_openlog =
     bnd (luaL_checkstring E 1) (\<lambda>ident.
     bnd (optint E 2 0) (\<lambda>option.
     bnd (optint E 3 LOG_USER) (\<lambda>facility.
     thn (checknargs 3)
    (thn (save_ident ident)
    (thn (lua_pushstring ident)
    (thn (sys (c_openlog ident option facility))
     (ret 0)))))))"

definition Psyslog :: "env \<Rightarrow> (cint \<Rightarrow> string \<Rightarrow> ('w, unit) sys) \<Rightarrow> ('w, nat) lm" where
  "Psyslog E c_syslog =
     bnd (checkint E 1) (\<lambda>priority.
     bnd (luaL_checkstring E 2) (\<lambda>msg.
     thn (checknargs 2)
    (thn (sys (c_syslog priority msg)) (ret 0))))"

definition Pcloselog :: "('w, unit) sys \<Rightarrow> ('w, nat) lm" where
  "Pcloselog c_closelog = thn (checknargs 0) (thn (sys c_closelog) (ret 0))"

definition Psetlogmask :: "env \<Rightarrow> (cint \<Rightarrow> ('w, cint) sys) \<Rightarrow> ('w, nat) lm" where
  "Psetlogmask E c_setlogmask =
     thn (checknargs 1)
    (bnd (optint E 1 0) (\<lambda>mask.
     bnd (sys (c_setlogmask mask)) (\<lambda>r. pushresult E r (Some ''setlogmask''))))"

definition PLOG_MASK :: "env \<Rightarrow> (cint \<Rightarrow> cint) \<Rightarrow> ('w, nat) lm" where
  "PLOG_MASK E LOG_MASK =
     thn (checknargs 1) (bnd (checkint E 1) (\<lambda>p. pushintegerresult (of_cint (LOG_MASK p))))"

section \<open>Wrappers and rejected calls\<close>

definition args_setlogmask :: "env \<Rightarrow> 'w lst \<Rightarrow> lvalue list \<Rightarrow> err + cint" where
  "args_setlogmask E s args = sbind (at_most 1 args) (\<lambda>_. arg_optint E 1 0 args)"

definition args_log_mask :: "env \<Rightarrow> 'w lst \<Rightarrow> lvalue list \<Rightarrow> err + cint" where
  "args_log_mask E s args = sbind (at_most 1 args) (\<lambda>_. arg_int E 1 args)"

interpretation setlogmask: sys_wrapper "Psetlogmask E c" "args_setlogmask E" c E
    "\<lambda>_. Some ''setlogmask''" for E c
  by unfold_locales
    (simp add: Psetlogmask_def args_setlogmask_def wrapper_simps split: option.splits prod.splits)

interpretation log_mask: sys_value "PLOG_MASK E f" "args_log_mask E" "\<lambda>p e w. (f p, e, w)"
    "\<lambda>r. LInt (of_cint r)" for E f
  by unfold_locales
    (simp add: PLOG_MASK_def args_log_mask_def wrapper_simps split: option.splits prod.splits)

lemma settled_save_ident: "settled (save_ident x)"
  by (simp add: settled_def save_ident_def)

lemma clean_syslog:
  "clean (Popenlog E k c1)" "clean (Psyslog E c2)" "clean (Pcloselog c3)" "clean (Psetlogmask E c4)"
  "clean (PLOG_MASK E f)"
  unfolding Popenlog_def Psyslog_def Pcloselog_def Psetlogmask_def PLOG_MASK_def
  by (rule clean_rules settled_save_ident clean_settled [OF settled_save_ident [THEN settled_thn]])+

text \<open>The registry keeps the string that the system logger points to.\<close>

lemma Popenlog_run:
  assumes "arg_str E s 1 args = Inr ident" "arg_optint E 2 0 args = Inr o1"
    "arg_optint E 3 k args = Inr f1" "length args \<le> 3"
    and "c ident o1 f1 (errno s) (world s) = (u, e, w)"
  shows "call_c (Popenlog E k c) args s =
    Ok [] (s\<lparr>regs := tbl_set (regs s) Popenlog_key (LStr ident), errno := e, world := w\<rparr>)"
proof -
  obtain y where y: "val_str E (at 1 args) = Some y" "ident = cstr y"
    using assms(1) by (auto simp: accepted)
  have opt: "optint E 2 0 (s\<lparr>stk := put_at 1 (LStr y) args\<rparr>) = Ok o1 (s\<lparr>stk := put_at 1 (LStr y) args\<rparr>)"
    "optint E 3 k (s\<lparr>stk := put_at 1 (LStr y) args\<rparr>) = Ok f1 (s\<lparr>stk := put_at 1 (LStr y) args\<rparr>)"
    using assms(2,3) by (auto simp: accepted optint_run split: if_splits)
  have "cstr (cstr y) = cstr y" by (simp add: cstr_def takeWhile_idem)
  with y opt assms(4,5) show ?thesis
    by (simp add: Popenlog_def call_c_def bnd_def thn_def luaL_checkstring_run checknargs_run
        put_at_same_type save_ident_def lua_pushstring_run sys_def ret_def)
qed

section \<open>Opening the module\<close>

definition posix_syslog_fns :: "entry list" where
  "posix_syslog_fns = [
    Only ''LPOSIX_2001_COMPLIANT'' (Item ''PLOG_MASK''),
    Only ''LPOSIX_2001_COMPLIANT'' (Item ''Popenlog''),
    Only ''LPOSIX_2001_COMPLIANT'' (Item ''Psyslog''),
    Only ''LPOSIX_2001_COMPLIANT'' (Item ''Pcloselog''),
    Only ''LPOSIX_2001_COMPLIANT'' (Item ''Psetlogmask'')]"

definition posix_syslog_consts :: "entry list" where
  "posix_syslog_consts = [
    Only ''LPOSIX_2001_COMPLIANT'' (Item ''LOG_CONS''),
    Only ''LPOSIX_2001_COMPLIANT'' (Item ''LOG_NDELAY''),
    Only ''LPOSIX_2001_COMPLIANT'' (Item ''LOG_PID''),
    Only ''LPOSIX_2001_COMPLIANT'' (Item ''LOG_AUTH''),
    Only ''LPOSIX_2001_COMPLIANT'' (Item ''LOG_CRON''),
    Only ''LPOSIX_2001_COMPLIANT'' (Item ''LOG_DAEMON''),
    Only ''LPOSIX_2001_COMPLIANT'' (Item ''LOG_KERN''),
    Only ''LPOSIX_2001_COMPLIANT'' (Item ''LOG_LOCAL0''),
    Only ''LPOSIX_2001_COMPLIANT'' (Item ''LOG_LOCAL1''),
    Only ''LPOSIX_2001_COMPLIANT'' (Item ''LOG_LOCAL2''),
    Only ''LPOSIX_2001_COMPLIANT'' (Item ''LOG_LOCAL3''),
    Only ''LPOSIX_2001_COMPLIANT'' (Item ''LOG_LOCAL4''),
    Only ''LPOSIX_2001_COMPLIANT'' (Item ''LOG_LOCAL5''),
    Only ''LPOSIX_2001_COMPLIANT'' (Item ''LOG_LOCAL6''),
    Only ''LPOSIX_2001_COMPLIANT'' (Item ''LOG_LOCAL7''),
    Only ''LPOSIX_2001_COMPLIANT'' (Item ''LOG_LPR''),
    Only ''LPOSIX_2001_COMPLIANT'' (Item ''LOG_MAIL''),
    Only ''LPOSIX_2001_COMPLIANT'' (Item ''LOG_NEWS''),
    Only ''LPOSIX_2001_COMPLIANT'' (Item ''LOG_USER''),
    Only ''LPOSIX_2001_COMPLIANT'' (Item ''LOG_UUCP''),
    Only ''LPOSIX_2001_COMPLIANT'' (Item ''LOG_EMERG''),
    Only ''LPOSIX_2001_COMPLIANT'' (Item ''LOG_ALERT''),
    Only ''LPOSIX_2001_COMPLIANT'' (Item ''LOG_CRIT''),
    Only ''LPOSIX_2001_COMPLIANT'' (Item ''LOG_ERR''),
    Only ''LPOSIX_2001_COMPLIANT'' (Item ''LOG_WARNING''),
    Only ''LPOSIX_2001_COMPLIANT'' (Item ''LOG_NOTICE''),
    Only ''LPOSIX_2001_COMPLIANT'' (Item ''LOG_INFO''),
    Only ''LPOSIX_2001_COMPLIANT'' (Item ''LOG_DEBUG''),
    Only ''LPOSIX_2001_COMPLIANT'' (Only ''LOG_AUTHPRIV'' (Item ''LOG_AUTHPRIV'')),
    Only ''LPOSIX_2001_COMPLIANT'' (Only ''LOG_FTP'' (Item ''LOG_FTP'')),
    Only ''LPOSIX_2001_COMPLIANT'' (Only ''LOG_SYSLOG'' (Item ''LOG_SYSLOG''))]"

definition luaopen_posix_syslog :: "host \<Rightarrow> ('w, nat) lm" where
  "luaopen_posix_syslog H = open_module H ''syslog'' posix_syslog_fns posix_syslog_consts"

lemma syslog_names: "names_ok posix_syslog_fns posix_syslog_consts"
  by code_simp

end
