(* ===== verification/LuaCompat.thy ===== *)
theory LuaCompat
  imports LuaModes SysStat Fcntl SysMsg Syslog
begin

text \<open>
  \<^verbatim>\<open>lib/posix/compat.lua\<close>: the functions of earlier releases that take a file mode as text, over the
  bindings of \<^verbatim>\<open>sys/stat.c\<close>, \<^verbatim>\<open>fcntl.c\<close>, \<^verbatim>\<open>sys/msg.c\<close> and \<^verbatim>\<open>syslog.c\<close>.
\<close>

section \<open>The functions\<close>

text \<open>
  \<open>mode_munch\<close> on a Lua value: of anything but nil and a string it cannot take the length, or
  \<open>string.match\<close> refuses it.
\<close>

definition munch :: "lua_texts \<Rightarrow> mode_bits \<Rightarrow> lint \<Rightarrow> lvalue \<Rightarrow> ('w, lint option \<times> string option) lm"
where
  "munch T B mode v = (case v of
      LNil \<Rightarrow> ret (mode_munch B mode None)
    | LStr m \<Rightarrow> ret (mode_munch B mode (Some m))
    | _ \<Rightarrow> lua_error T (bad_operand T ''get length of'' v) 1)"

definition compat_chmod ::
  "env \<Rightarrow> lua_texts \<Rightarrow> mode_bits \<Rightarrow> (string \<Rightarrow> ('w, cint \<times> stat_buf) sys) \<Rightarrow>
   (string \<Rightarrow> cint \<Rightarrow> ('w, cint) sys) \<Rightarrow> 'w luafn" where
  "compat_chmod E T B c_stat c_chmod args =
     (let path = argn 1 args; modestr = argn 2 args in
     bnd (call_c (Pstat E c_stat) [path]) (\<lambda>st.
     bnd (if truthy (argn 1 st) then get_field T (argn 1 st) ''st_mode'' else ret LNil) (\<lambda>mode.
     bnd (int_operand E T (if truthy mode then mode else LInt 0)) (\<lambda>mode.
     bnd (munch T B mode modestr) (\<lambda>(bits, e).
     case bits of
       None \<Rightarrow> argerror T ''chmod'' 2 e 2
     | Some bits \<Rightarrow> call_c (Pchmod E c_chmod) [path, LInt (band bits [RWXALL B])])))))"

record open_flags =
  O_CREAT :: lint
  O_WRONLY :: lint
  O_TRUNC :: lint

definition FCREAT :: "open_flags \<Rightarrow> lint" where
  "FCREAT F = bor (O_CREAT F) [O_WRONLY F, O_TRUNC F]"

definition compat_creat ::
  "env \<Rightarrow> lua_texts \<Rightarrow> mode_bits \<Rightarrow> open_flags \<Rightarrow> (string \<Rightarrow> cint \<Rightarrow> cint \<Rightarrow> ('w, cint) sys) \<Rightarrow> 'w luafn" where
  "compat_creat E T B F c_open args =
     bnd (munch T B 0 (argn 2 args)) (\<lambda>(bits, e).
     case bits of
       None \<Rightarrow> argerror T ''creat'' 2 e 2
     | Some bits \<Rightarrow> call_c (Popen E c_open) [argn 1 args, LInt (FCREAT F), LInt (band bits [RWXALL B])])"

definition compat_mkdir ::
  "env \<Rightarrow> mode_bits \<Rightarrow> (string \<Rightarrow> cint \<Rightarrow> ('w, cint) sys) \<Rightarrow> 'w luafn" where
  "compat_mkdir E B c_mkdir args = call_c (Pmkdir E c_mkdir) [argn 1 args, LInt (RWXALL B)]"

definition compat_mkfifo ::
  "env \<Rightarrow> mode_bits \<Rightarrow> (string \<Rightarrow> cint \<Rightarrow> ('w, cint) sys) \<Rightarrow> 'w luafn" where
  "compat_mkfifo E B c_mkfifo args = call_c (Pmkfifo E c_mkfifo) [argn 1 args, LInt (RWXALL B)]"

definition compat_msgget ::
  "env \<Rightarrow> lua_texts \<Rightarrow> mode_bits \<Rightarrow> (cint \<Rightarrow> cint \<Rightarrow> ('w, cint) sys) \<Rightarrow> 'w luafn" where
  "compat_msgget E T B c_msgget args =
     bnd (munch T B 0 (argn 3 args)) (\<lambda>(bits, e).
     case bits of
       None \<Rightarrow> argerror T ''msgget'' 3 e 2
     | Some bits \<Rightarrow>
         bnd (int_operand E T (argn 2 args)) (\<lambda>msgflg.
         call_c (Pmsgget E c_msgget) [argn 1 args, LInt (bor msgflg [band bits [RWXALL B]])]))"

definition compat_open ::
  "env \<Rightarrow> lua_texts \<Rightarrow> mode_bits \<Rightarrow> open_flags \<Rightarrow> (string \<Rightarrow> cint \<Rightarrow> cint \<Rightarrow> ('w, cint) sys) \<Rightarrow> 'w luafn" where
  "compat_open E T B F c_open args =
     bnd (int_operand E T (argn 2 args)) (\<lambda>oflags.
     if band oflags [O_CREAT F] \<noteq> 0 then
       bnd (munch T B 0 (argn 3 args)) (\<lambda>(bits, e).
       case bits of
         None \<Rightarrow> argerror T ''open'' 3 e 2
       | Some bits \<Rightarrow> call_c (Popen E c_open) [argn 1 args, argn 2 args, LInt (band bits [RWXALL B])])
     else call_c (Popen E c_open) [argn 1 args, argn 2 args, LNil])"

text \<open>The loop over the arguments stops at the first nil or false.\<close>

fun setlogmask_loop ::
  "env \<Rightarrow> lua_texts \<Rightarrow> (cint \<Rightarrow> cint) \<Rightarrow> lvalue list \<Rightarrow> lint \<Rightarrow> ('w, lint) lm" where
  "setlogmask_loop E T LOG_MASK [] acc = ret acc"
| "setlogmask_loop E T LOG_MASK (v # vs) acc =
     (if truthy v then
        bnd (call_c (PLOG_MASK E LOG_MASK) [v]) (\<lambda>r.
        bnd (int_operand E T (argn 1 r)) (\<lambda>b.
        setlogmask_loop E T LOG_MASK vs (bor acc [b])))
      else ret acc)"

definition compat_setlogmask ::
  "env \<Rightarrow> lua_texts \<Rightarrow> (cint \<Rightarrow> cint) \<Rightarrow> (cint \<Rightarrow> ('w, cint) sys) \<Rightarrow> 'w luafn" where
  "compat_setlogmask E T LOG_MASK c_setlogmask args =
     bnd (setlogmask_loop E T LOG_MASK args 0) (\<lambda>m.
     call_c (Psetlogmask E c_setlogmask) [LInt m])"

definition compat_umask ::
  "env \<Rightarrow> lua_texts \<Rightarrow> mode_bits \<Rightarrow> (cint \<Rightarrow> ('w, cint) sys) \<Rightarrow> 'w luafn" where
  "compat_umask E T B c_umask args =
     (let modestr = (if truthy (argn 1 args) then argn 1 args else LStr '''') in
     bnd (call_c (Pumask E c_umask) [LInt 0]) (\<lambda>old.
     thn (call_c (Pumask E c_umask) [argn 1 old])
    (bnd (int_operand E T (argn 1 old)) (\<lambda>mode.
     let mode = band (bnot mode) [RWXALL B] in
     if modestr = LStr '''' then ret [LStr (pushmode B mode)]
     else
       bnd (munch T B mode modestr) (\<lambda>(bits, e).
       case bits of
         None \<Rightarrow> argerror T ''umask'' 1 e 2
       | Some bits \<Rightarrow>
           let mode = band bits [RWXALL B] in
           thn (call_c (Pumask E c_umask) [LInt (bnot mode)])
            (ret [LStr (pushmode B mode)]))))))"

section \<open>Down to the system call\<close>

lemma args_path_one: "args_path E s [LStr p] = Inr (cstr p)"
  by (simp add: args_path_def accepted at_one)

lemma args_mode_two: "args_mode E s [LStr p, LInt m] = Inr (cstr p, to_cint m)"
  by (simp add: args_mode_def accepted at_simps)

lemma st_mode_field:
  "tbl_get (named (stat_buf.flds st)) (LStr ''st_mode'') = LInt (of_cuint (st_mode st))"
  by (simp add: tbl_get_named stat_buf.flds_def stat_members_def)

text \<open>The mode \<open>chmod\<close> starts from, and the interpreter after the look-up.\<close>

definition looked_up :: "cint \<times> stat_buf \<Rightarrow> lint" where
  "looked_up r = (if fst r = -1 then 0 else of_cuint (st_mode (snd r)))"

definition stat_seen :: "cint \<times> stat_buf \<Rightarrow> 'w lst \<Rightarrow> 'w lst" where
  "stat_seen r s = (if fst r = -1 then s else add_record ''PosixStat'' (stat_buf.flds (snd r)) s)"

lemma chmod_run:
  assumes "c_stat (cstr path) (errno s) (world s) = (r, e, w)"
    and "mode_munch B (looked_up r) (Some t) = (Some m, q)"
  shows "compat_chmod E T B c_stat c_chmod [LStr path, LStr t] s =
    (case c_chmod (cstr path) (to_cint (m AND RWXALL B)) e w of
       (i, e', w') \<Rightarrow> Ok (result_values E (Some (cstr path)) i e')
         ((stat_seen r (s\<lparr>errno := e, world := w\<rparr>))\<lparr>errno := e', world := w'\<rparr>))"
proof (cases "fst r = -1")
  case True
  then show ?thesis using assms
    by (simp add: compat_chmod_def Let_def run_simps stat_runs(1) [where c = c_stat, OF args_path_one assms(1)] stat_result_def
        error_values_def looked_up_def stat_seen_def munch_def chmod.runs args_mode_two band_def
        split: prod.splits)
next
  case False
  then show ?thesis using assms
    by (simp add: compat_chmod_def Let_def run_simps stat_runs(1) [where c = c_stat, OF args_path_one assms(1)] stat_result_def
        st_mode_field looked_up_def stat_seen_def munch_def chmod.runs args_mode_two band_def
        split: prod.splits)
qed

lemma perms_RWXALL:
  assumes "good_modes B"
  shows "perms B (RWXALL B) = - {SetUid, SetGid}"
proof -
  have "p \<in> perms B (RWXALL B) \<longleftrightarrow> p \<notin> {SetUid, SetGid}" for p
  proof (cases p)
    case (Read w) then show ?thesis
      using assms by (cases w) (simp_all add: RWXALL_def bor_def perms_simps)
  next
    case (Write w) then show ?thesis
      using assms by (cases w) (simp_all add: RWXALL_def bor_def perms_simps)
  next
    case (Exec w) then show ?thesis
      using assms by (cases w) (simp_all add: RWXALL_def bor_def perms_simps)
  qed (use assms in \<open>simp_all add: RWXALL_def bor_def perms_simps\<close>)
  then show ?thesis by blast
qed

text \<open>
  Property C34: \<open>chmod\<close> with clauses reads the permissions of the file (none when it cannot be looked
  up), applies the clauses, and makes one system call with the resulting permissions less the set-id
  bits; the values and \<open>errno\<close> are those of that call.
\<close>

theorem chmod_clauses:
  assumes "good_modes B" "list_all good_clause cs" "cs \<noteq> []"
    and "c_stat (cstr path) (errno s) (world s) = (r, e, w)"
  shows "\<exists>m. perms B m = foldl (\<lambda>P c. apply_clause c P) (perms B (looked_up r)) cs - {SetUid, SetGid} \<and>
    m AND NOT (RWXALL B) = 0 \<and>
    compat_chmod E T B c_stat c_chmod [LStr path, LStr (render cs)] s =
      (case c_chmod (cstr path) (to_cint m) e w of
         (i, e', w') \<Rightarrow> Ok (result_values E (Some (cstr path)) i e')
           ((stat_seen r (s\<lparr>errno := e, world := w\<rparr>))\<lparr>errno := e', world := w'\<rparr>))"
proof -
  let ?m = "foldl (munch_clause B) (looked_up r) (map clause_caps cs)"
  have "perms B (?m AND RWXALL B) =
      foldl (\<lambda>P c. apply_clause c P) (perms B (looked_up r)) cs - {SetUid, SetGid}"
    using assms(1,2) by (auto simp: perms_and perms_RWXALL perms_foldl)
  moreover have "(?m AND RWXALL B) AND NOT (RWXALL B) = 0"
    by (simp add: and.assoc)
  moreover note chmod_run [where c_stat = c_stat, OF assms(4) symbolic_munch [OF assms(2,3)],
      where E = E and T = T and c_chmod = c_chmod]
  ultimately show ?thesis by (intro exI [of _ "?m AND RWXALL B"] conjI)
qed


section \<open>The file mode creation mask\<close>

lemma args_umask_one: "args_umask E s [LInt m] = Inr (to_cint m)"
  by (simp add: args_umask_def accepted at_simps)

text \<open>
  A kernel that keeps the mask: \<open>umask\<close> installs the permission bits of its argument and returns
  the mask before.
\<close>

definition keeps_mask :: "('w \<Rightarrow> cint) \<Rightarrow> (cint \<Rightarrow> 'w \<Rightarrow> 'w) \<Rightarrow> (cint \<Rightarrow> ('w, cint) sys) \<Rightarrow> bool" where
  "keeps_mask get put c_umask \<longleftrightarrow>
     (\<forall>m e w. c_umask m e w = (get w, e, put (m AND 511) w)) \<and>
     (\<forall>m w. get (put m w) = m AND 511) \<and> (\<forall>m m' w. put m' (put m w) = put m' w) \<and>
     (\<forall>w. put (get w) w = w) \<and> (\<forall>w. get w AND 511 = get w)"

lemma complement_back:
  assumes "m AND 511 = (m :: cint)"
  shows "to_cint (NOT (NOT (of_cuint m) AND 511)) AND 511 = m"
proof -
  have m: "(511 :: cint) = mask 9" "(511 :: lint) = mask 9"
    by (simp_all add: mask_eq_exp_minus_1)
  show ?thesis
    using assms unfolding m by (auto simp: bit_eq_iff bit_simps to_cint_def of_cuint_def)
qed


lemmas complement_simps = complement_back complement_back [simplified]

lemma no_setid:
  assumes "good_modes B"
  shows "\<not> has (x AND RWXALL B) (S_ISUID B)" "\<not> has (x AND RWXALL B) (S_ISGID B)"
proof -
  have "SetUid \<notin> perms B (x AND RWXALL B)" "SetGid \<notin> perms B (x AND RWXALL B)"
    using assms by (simp_all add: perms_and perms_RWXALL)
  then show "\<not> has (x AND RWXALL B) (S_ISUID B)" "\<not> has (x AND RWXALL B) (S_ISGID B)"
    by (simp_all add: perms_def)
qed

lemma pushmode_read_back:
  assumes "good_modes B"
  shows "mode_munch B m0 (Some (pushmode B (x AND RWXALL B))) = (Some (x AND RWXALL B), None)"
proof -
  have "(x AND RWXALL B) AND perm_mask B = x AND RWXALL B"
    by (auto simp: perm_mask_def bor_def bit_eq_iff bit_simps)
  then show ?thesis
    using assms by (simp add: munch_pushmode printable_def no_setid)
qed

lemma pushmode_not_empty: "pushmode B m \<noteq> []"
  using length_pushmode [of B m] by auto

lemma umask_call:
  assumes "keeps_mask get put c"
  shows "call_c (Pumask E c) [LInt m] s =
    Ok [LInt (of_cuint (get (world s)))] (s\<lparr>world := put (to_cint m AND 511) (world s)\<rparr>)"
  using assms by (simp add: umask.runs args_umask_one keeps_mask_def)

text \<open>
  Property C35: \<open>umask()\<close> only looks: it returns the permissions that the mask lets through, as text, and
  the mask is in the end what it was, though it has to be cleared to be read.  Passing that text back
  later, whatever the mask has become, installs the first mask again; the call returns the permissions
  it has installed, not those of the mask it found.
\<close>

theorem umask_restores:
  assumes "good_modes B" "RWXALL B = 511" "keeps_mask get put c"
  defines "t \<equiv> \<lambda>s. pushmode B (NOT (of_cuint (get (world s))) AND RWXALL B)"
  shows "compat_umask E T B c [] s = Ok [LStr (t s)] s \<and>
    compat_umask E T B c [LStr (t s)] s' =
      Ok [LStr (t s)] (s'\<lparr>world := put (get (world s)) (world s')\<rparr>)"
proof -
  note k = umask_call [OF assms(3)] assms(3) [unfolded keeps_mask_def]
    pushmode_read_back [OF assms(1), unfolded assms(2)]
  show ?thesis
    using assms(1,2)
    by (simp add: compat_umask_def Let_def run_simps k t_def munch_def pushmode_not_empty
        band_def bnot_def complement_simps)
qed


text \<open>
  Creating a file with a printed mode: one \<open>open\<close> with the creation flags and exactly the permissions
  of the mode; a text that is no mode makes none, and names the argument.
\<close>

lemma args_open_three:
  "args_open E s [LStr p, LInt f, LInt m] = Inr (cstr p, to_cint f, to_cint m)"
  by (simp add: args_open_def accepted at_simps type_of_def less_eq_ltype_def)

theorem creat_mode:
  assumes "good_modes B"
  shows "compat_creat E T B F c [LStr p, LStr (pushmode B (m AND RWXALL B))] s =
      (case c (cstr p) (to_cint (FCREAT F)) (to_cint (m AND RWXALL B)) (errno s) (world s) of
         (i, e, w) \<Rightarrow> Ok (result_values E (Some (cstr p)) i e) (s\<lparr>errno := e, world := w\<rparr>))"
  using pushmode_read_back [OF assms, of 0 m]
  by (simp add: compat_creat_def run_simps munch_def open_call.runs args_open_three band_def and.assoc)

lemma no_mode_no_call:
  assumes "mode_munch B 0 q = (None, x)" "v = (case q of None \<Rightarrow> LNil | Some t \<Rightarrow> LStr t)"
  shows "\<exists>msg. compat_creat E T B F c [p, v] s = Err (LuaError (LStr msg)) s"
    "\<exists>msg. compat_msgget E T B d [p, f, v] s = Err (LuaError (LStr msg)) s"
    "\<exists>msg. has n (O_CREAT F) \<longrightarrow> compat_open E T B F c [p, LInt n, v] s = Err (LuaError (LStr msg)) s"
  using assms
  by (auto simp: compat_creat_def compat_msgget_def compat_open_def run_simps munch_def argerror_def Let_def
      band_def has_def split: option.splits)

text \<open>A kernel that records the modes it is given; every file is \<open>rw-rw-rw-\<close>.\<close>

definition sample_buf :: stat_buf where
  "sample_buf = \<lparr>st_dev = 0, st_ino = 0, st_mode = 438, st_nlink = 1, st_uid = 0, st_gid = 0, st_rdev = 0,
     st_size = 0, st_blksize = 0, st_blocks = 0, st_atime = 0, st_mtime = 0, st_ctime = 0\<rparr>"

definition sample_stat :: "string \<Rightarrow> (cint list, cint \<times> stat_buf) sys" where
  "sample_stat p e w = ((0, sample_buf), e, w)"

definition note_mode :: "string \<Rightarrow> cint \<Rightarrow> (cint list, cint) sys" where
  "note_mode p m e w = (0, e, w @ [m])"

theorem chmod_clauses_witness:
  "\<exists>m s'. perms usual_modes m = {Read User, Write User, Exec User, Read Group, Read Others} \<and>
     compat_chmod sample_env sample_texts usual_modes sample_stat note_mode
       [LStr ''f'', LStr ''u+x,go = r''] (sample_state []) = Ok [LInt 0] s' \<and>
     world s' = [to_cint m]"
proof -
  have r: "render sample_clauses = ''u+x,go = r''" by (simp add: sample_clauses_def)
  have m: "looked_up (0, sample_buf) = 438"
    by (simp add: looked_up_def sample_buf_def of_cuint_def)
  have "sample_stat (cstr ''f'') (errno (sample_state [])) (world (sample_state [])) =
      ((0, sample_buf), 0, [])"
    by (simp add: sample_stat_def sample_state_def)
  from chmod_clauses [where c_stat = sample_stat, OF usual_modes_good sample_clauses_good this,
      where E = sample_env and T = sample_texts and c_chmod = note_mode]
  show ?thesis
    unfolding r m sample_applied by (auto simp: note_mode_def result_values_def)
qed

text \<open>A kernel whose state is the mask, nine bits.\<close>

definition mask_kernel :: "cint \<Rightarrow> (9 word, cint) sys" where
  "mask_kernel m e w = (ucast w, e, ucast (m AND 511))"

lemma mask_kernel_keeps: "keeps_mask ucast (\<lambda>m w. ucast m) mask_kernel"
proof -
  have m: "(511 :: cint) = mask 9" by (simp add: mask_eq_exp_minus_1)
  have "ucast (m AND 511 :: cint) = (ucast m :: 9 word)" "ucast (ucast m :: 9 word) = m AND 511"
    "ucast (ucast w :: cint) = w" "ucast w AND 511 = (ucast w :: cint)" for m :: cint and w :: "9 word"
    unfolding m by (auto simp: bit_eq_iff bit_simps dest: bit_imp_le_length)
  then show ?thesis by (simp add: keeps_mask_def mask_kernel_def)
qed

theorem umask_restores_witness:
  "compat_umask sample_env sample_texts usual_modes mask_kernel [] (sample_state 18) =
     Ok [LStr ''rwxr-xr-x''] (sample_state 18) \<and>
   compat_umask sample_env sample_texts usual_modes mask_kernel [LStr ''rwxr-xr-x''] (sample_state 63) =
     Ok [LStr ''rwxr-xr-x''] (sample_state 18)"
proof -
  have all: "RWXALL usual_modes = 511"
    by (simp add: RWXALL_def bor_def usual_modes_def)
  have t: "pushmode usual_modes (NOT (of_cuint (ucast (world (sample_state (18 :: 9 word))))) AND
      RWXALL usual_modes) = ''rwxr-xr-x''"
    unfolding all by (simp add: pushmode_chars has_def usual_modes_def sample_state_def of_cuint_def)
  have "(sample_state (63 :: 9 word))\<lparr>world := ucast (ucast (world (sample_state (18 :: 9 word))) :: cint)\<rparr> =
      sample_state 18"
    by (simp add: sample_state_def)
  then show ?thesis
    using umask_restores [OF usual_modes_good all mask_kernel_keeps, of sample_env sample_texts
        "sample_state 18" "sample_state 63"]
    unfolding t by simp
qed

theorem creat_mode_witness:
  "\<exists>s'. compat_creat sample_env sample_texts usual_modes \<lparr>O_CREAT = 64, O_WRONLY = 1, O_TRUNC = 512\<rparr>
     (\<lambda>p f m e w. (3, e, w @ [f, m])) [LStr ''f'', LStr ''rw-r-----''] (sample_state []) = Ok [LInt 3] s' \<and>
   world s' = [577, 416]"
proof -
  have m: "416 AND RWXALL usual_modes = 416" by (simp add: RWXALL_def bor_def usual_modes_def)
  have t: "pushmode usual_modes 416 = ''rw-r-----''"
    by (simp add: pushmode_chars has_def usual_modes_def)
  show ?thesis
    using creat_mode [OF usual_modes_good, of sample_env sample_texts
        "\<lparr>O_CREAT = 64, O_WRONLY = 1, O_TRUNC = 512\<rparr>" "\<lambda>p f m e w. (3, e, w @ [f, m])" "''f''" 416 "sample_state []"]
    unfolding m t
    by (simp add: result_values_def FCREAT_def bor_def to_cint_def of_cint_def sample_state_def)
qed


text \<open>\<open>setlogmask\<close> passes on the masks of its arguments together.\<close>

lemma setlogmask_loop_run:
  "setlogmask_loop E T f (map LInt ns) acc s =
     Ok (foldl (\<lambda>a n. a OR of_cint (f (to_cint n))) acc ns) s"
  by (induction ns arbitrary: acc)
    (simp_all add: run_simps log_mask.runs args_log_mask_def arg_defs at_simps bor_def)

lemma setlogmask_run:
  "compat_setlogmask E T f c (map LInt ns) s =
     (case c (to_cint (foldl (\<lambda>a n. a OR of_cint (f (to_cint n))) 0 ns)) (errno s) (world s) of
        (i, e, w) \<Rightarrow> Ok (result_values E (Some ''setlogmask'') i e) (s\<lparr>errno := e, world := w\<rparr>))"
  by (simp add: compat_setlogmask_def run_simps setlogmask_loop_run setlogmask.runs args_setlogmask_def
      arg_defs at_simps type_of_def less_eq_ltype_def)

text \<open>\<open>mkdir\<close> and \<open>mkfifo\<close> ask for all permissions, which the system cuts by the mask.\<close>

lemma mkdir_run:
  "compat_mkdir E B c [LStr p] s =
     (case c (cstr p) (to_cint (RWXALL B)) (errno s) (world s) of
        (i, e, w) \<Rightarrow> Ok (result_values E (Some (cstr p)) i e) (s\<lparr>errno := e, world := w\<rparr>))"
  "compat_mkfifo E B c [LStr p] s =
     (case c (cstr p) (to_cint (RWXALL B)) (errno s) (world s) of
        (i, e, w) \<Rightarrow> Ok (result_values E (Some (cstr p)) i e) (s\<lparr>errno := e, world := w\<rparr>))"
  by (simp_all add: compat_mkdir_def compat_mkfifo_def mkdir.runs mkfifo.runs args_optmode_def arg_defs
      at_simps type_of_def less_eq_ltype_def)

text \<open>The flags and the mode of a message queue are documented as optional; without a mode it fails.\<close>

lemma msgget_needs_mode:
  "compat_msgget E T B c [key, flags] s =
     Err (LuaError (LStr (where_at T 3 @
       ''bad argument #3 to '' @ [CHR 0x27] @ ''msgget'' @ [CHR 0x27] @ '' (string expected, got no value)''))) s"
proof -
  have "argn 3 [key, flags] = LNil" by (simp add: argn_def)
  moreover have "int_str 3 = ''3''"
    by (simp add: int_str_def int_dec_def nat_dec.simps)
  ultimately show ?thesis
    by (simp add: compat_msgget_def munch_def mode_munch_def run_simps argerror_def Let_def)
qed

end
