(* ===== verification/Stdlib.thy ===== *)
theory Stdlib
  imports Records Modules
begin

text \<open>
  \<^verbatim>\<open>ext/posix/stdlib.c\<close>: the environment, temporary files, pseudo-terminals, path names.
  Strings that the C library returns are copied onto the stack at once.
\<close>

definition Pabort :: "('w, nat) lm" where
  "Pabort = thn (checknargs 0) (raise Aborted)"

section \<open>The environment\<close>

text \<open>
  An entry of \<open>environ\<close> is split at its first \<open>=\<close>; without one the whole entry is the key.
\<close>

definition EQ :: char where
  "EQ = CHR ''=''"

definition env_key :: "string \<Rightarrow> string" where
  "env_key e = takeWhile (\<lambda>c. c \<noteq> EQ) e"

definition env_value :: "string \<Rightarrow> lvalue" where
  "env_value e = (case dropWhile (\<lambda>c. c \<noteq> EQ) e of [] \<Rightarrow> LBool True | _ # v \<Rightarrow> LStr v)"

definition push_env_entry :: "string \<Rightarrow> ('w, unit) lm" where
  "push_env_entry e =
     (if EQ \<notin> set e
      then seq [lua_pushstring e, lua_pushboolean True, lua_settable (-3)]
      else seq [lua_pushlstring (takeWhile (\<lambda>c. c \<noteq> EQ) e),
                lua_pushstring (tl (dropWhile (\<lambda>c. c \<noteq> EQ) e)),
                lua_settable (-3)])"

definition Pgetenv ::
  "env \<Rightarrow> ('w, string list) sys \<Rightarrow> (string \<Rightarrow> ('w, string option) sys) \<Rightarrow> ('w, nat) lm" where
  "Pgetenv E c_environ c_getenv =
     thn (checknargs 1)
    (bnd (lua_isnoneornil 1) (\<lambda>none.
     if none then
       thn lua_newtable
      (bnd (sys c_environ) (\<lambda>es. thn (for_each es push_env_entry) (ret 1)))
     else
       bnd (optstring E 1 (Some ''lua_isnoneornil prevents this happening'')) (\<lambda>name.
       bnd (sys (c_getenv (the name))) (\<lambda>v. thn (lua_pushcharp v) (ret 1)))))"

definition Psetenv ::
  "env \<Rightarrow> (string \<Rightarrow> string \<Rightarrow> bool \<Rightarrow> ('w, cint) sys) \<Rightarrow> (string \<Rightarrow> ('w, cint) sys) \<Rightarrow> ('w, nat) lm"
  where
  "Psetenv E c_setenv c_unsetenv =
     bnd (luaL_checkstring E 1) (\<lambda>name.
     bnd (optstring E 2 None) (\<lambda>v.
     thn (checknargs 3)
    (case v of
       None \<Rightarrow> thn (sys (c_unsetenv name)) (pushresult E 0 None)
     | Some x \<Rightarrow>
         bnd (lua_isnoneornil 3) (\<lambda>none.
         bnd (lua_toboolean 3) (\<lambda>b.
         bnd (sys (c_setenv name x (none \<or> b))) (\<lambda>r. pushresult E r None))))))"

section \<open>Temporary files\<close>

text \<open>
  \<open>mkdtemp\<close> and \<open>mkstemp\<close> write the name they chose into the copy of the template, a block of
  the Lua allocator.  The flag says whether the host is \<open>LPOSIX_2008_COMPLIANT\<close>.
\<close>

definition Pmkdtemp :: "bool \<Rightarrow> env \<Rightarrow> (string \<Rightarrow> ('w, string option) sys) \<Rightarrow> ('w, nat) lm" where
  "Pmkdtemp compliant E c_mkdtemp =
     (if compliant then
        bnd (luaL_checkstring E 1) (\<lambda>path.
        let path_len = of_nat (length path + 1) in
        thn (checknargs 1)
       (bnd (lua_alloc E path_len) (\<lambda>tmppath. case tmppath of
          None \<Rightarrow> pusherror E (Some ''lalloc'')
        | Some p \<Rightarrow>
            bnd (bnd (sys (c_mkdtemp path)) (\<lambda>r.
                 thn (case r of None \<Rightarrow> ret () | Some x \<Rightarrow> lua_pushstring x) (ret r))) (\<lambda>r.
            thn (lua_free tmppath path_len)
           (if r = None then pusherror E (Some path) else ret 1)))))
      else binding_notimplemented ''mkdtemp'' ''C'')"

definition Pmkstemp :: "env \<Rightarrow> (string \<Rightarrow> ('w, cint \<times> string) sys) \<Rightarrow> ('w, nat) lm" where
  "Pmkstemp E c_mkstemp =
     bnd (luaL_checkstring E 1) (\<lambda>path.
     let path_len = of_nat (length path + 1) in
     thn (checknargs 1)
    (bnd (lua_alloc E path_len) (\<lambda>tmppath. case tmppath of
       None \<Rightarrow> pusherror E (Some ''lalloc'')
     | Some p \<Rightarrow>
         bnd (bnd (sys (c_mkstemp path)) (\<lambda>r.
              thn (when_do (fst r \<noteq> -1)
                    (seq [lua_pushinteger (of_cint (fst r)), lua_pushstring (snd r)]))
                  (ret (fst r)))) (\<lambda>r.
         thn (lua_free tmppath path_len)
        (if r = -1 then pusherror E (Some path) else ret 2)))))"

section \<open>Pseudo-terminals and paths\<close>

definition Pgrantpt :: "env \<Rightarrow> (cint \<Rightarrow> ('w, cint) sys) \<Rightarrow> ('w, nat) lm" where
  "Pgrantpt E c_grantpt =
     bnd (checkint E 1) (\<lambda>fd. thn (checknargs 1)
    (bnd (sys (c_grantpt fd)) (\<lambda>r. pushresult E r (Some ''grantpt''))))"

definition Popenpt :: "env \<Rightarrow> (string \<Rightarrow> cint \<Rightarrow> ('w, cint) sys) \<Rightarrow> ('w, nat) lm" where
  "Popenpt E c_open =
     bnd (checkint E 1) (\<lambda>flags. thn (checknargs 1)
    (bnd (sys (c_open ''/dev/ptmx'' flags)) (\<lambda>r. pushresult E r None)))"

definition Pptsname :: "env \<Rightarrow> (cint \<Rightarrow> ('w, string option) sys) \<Rightarrow> ('w, nat) lm" where
  "Pptsname E c_ptsname =
     bnd (checkint E 1) (\<lambda>fd.
     thn (checknargs 1)
    (bnd (sys (c_ptsname fd)) (\<lambda>slave.
     if slave = None then pusherror E (Some ''getptsname'') else pushstringresult slave)))"

text \<open>\<open>realpath\<close> returns a block of \<open>malloc\<close>, which is freed after the copy.\<close>

definition Prealpath :: "env \<Rightarrow> (string \<Rightarrow> ('w, string option) sys) \<Rightarrow> ('w, nat) lm" where
  "Prealpath E c_realpath =
     thn (checknargs 1)
    (bnd (luaL_checkstring E 1) (\<lambda>path.
     bnd (sys (c_realpath path)) (\<lambda>r. case r of
       None \<Rightarrow> pusherror E (Some ''realpath'')
     | Some x \<Rightarrow> thn (lua_pushstring x) (ret 1))))"

definition Punlockpt :: "env \<Rightarrow> (cint \<Rightarrow> ('w, cint) sys) \<Rightarrow> ('w, nat) lm" where
  "Punlockpt E c_unlockpt =
     bnd (checkint E 1) (\<lambda>fd. thn (checknargs 1)
    (bnd (sys (c_unlockpt fd)) (\<lambda>r. pushresult E r (Some ''unlockpt''))))"

section \<open>Wrappers and rejected calls\<close>

interpretation grantpt: sys_wrapper "Pgrantpt E c" "args_fd E" c E "\<lambda>_. Some ''grantpt''" for E c
  by unfold_locales (simp add: Pgrantpt_def wrapper_simps split: option.splits prod.splits)

interpretation openpt: sys_wrapper "Popenpt E c" "args_fd E" "c ''/dev/ptmx''" E "\<lambda>_. None" for E c
  by unfold_locales (simp add: Popenpt_def wrapper_simps split: option.splits prod.splits)

interpretation unlockpt: sys_wrapper "Punlockpt E c" "args_fd E" c E "\<lambda>_. Some ''unlockpt''" for E c
  by unfold_locales (simp add: Punlockpt_def wrapper_simps split: option.splits prod.splits)

lemma settled_push_env: "settled (push_env_entry e)"
  unfolding push_env_entry_def by (rule settled_rules)+

lemma clean_stdlib:
  "clean Pabort" "clean (Pgetenv E c1 c2)" "clean (Psetenv E c3 c4)" "clean (Pmkdtemp b E c2)"
  "clean (Pmkstemp E c5)" "clean (Pgrantpt E c6)" "clean (Popenpt E c7)" "clean (Pptsname E c8)"
  "clean (Prealpath E c2)" "clean (Punlockpt E c6)"
  unfolding Pabort_def Pgetenv_def Psetenv_def Pmkdtemp_def Pmkstemp_def Pgrantpt_def Popenpt_def
    Pptsname_def Prealpath_def Punlockpt_def
  by (rule clean_rules settled_push_env)+

lemma balanced_stdlib: "balanced (Pmkdtemp b E c2)" "balanced (Pmkstemp E c5)"
  unfolding Pmkdtemp_def Pmkstemp_def Let_def
  by (rule balanced_rules balanced_quiet quiet_rules)+

section \<open>The whole environment\<close>

text \<open>Entries come from C strings.\<close>

definition env_entry :: "string \<Rightarrow> lvalue \<times> lvalue" where
  "env_entry e = (LStr (env_key e), env_value e)"

lemma push_env_entry_run:
  assumes "stk s = xs @ [LTab a]" "NUL \<notin> set e"
  shows "push_env_entry e s = Ok () (tab_update a (LStr (env_key e)) (env_value e) s)"
proof (cases "EQ \<in> set e")
  case False
  then have tw: "takeWhile (\<lambda>c. c \<noteq> EQ) e = e" "dropWhile (\<lambda>c. c \<noteq> EQ) e = []" by auto
  from False assms show ?thesis
    by (simp add: tw push_env_entry_def run_simps cstr_id env_key_def env_value_def stk_self
        lua_settable_run [where xs = "xs @ [LTab a]" and a = a] at_def slot_def nth_append tab_update_def)
next
  case True
  then obtain v where v: "dropWhile (\<lambda>c. c \<noteq> EQ) e = EQ # v"
    by (metis (mono_tags, lifting) dropWhile_eq_Nil_conv hd_Cons_tl hd_dropWhile)
  then have "NUL \<notin> set v" using assms(2) set_dropWhileD [of _ "\<lambda>c. c \<noteq> EQ" e] by auto
  with True v assms show ?thesis
    by (simp add: push_env_entry_def run_simps cstr_id env_key_def env_value_def stk_self
        lua_settable_run [where xs = "xs @ [LTab a]" and a = a] at_def slot_def nth_append tab_update_def)
qed

lemma push_env_run:
  assumes "stk s = xs @ [LTab a]" "\<forall>e \<in> set es. NUL \<notin> set e"
  shows "for_each es push_env_entry s =
    Ok () (set_tab a (tbl.put_all (tabs s a) (map env_entry es)) s)"
  using assms
proof (induction es arbitrary: s)
  case (Cons e es)
  have "for_each (e # es) push_env_entry s =
      for_each es push_env_entry (tab_update a (LStr (env_key e)) (env_value e) s)"
    using Cons.prems by (simp add: run_simps push_env_entry_run [where xs = xs and a = a])
  with Cons show ?case by (simp add: tab_update_def env_entry_def)
qed (simp add: run_simps)

lemma Pgetenv_all:
  assumes "c_environ (errno s) (world s) = (es, e, w)" "\<forall>x \<in> set es. NUL \<notin> set x"
  shows "\<exists>s'. call_c (Pgetenv E c_environ c_getenv) [] s = Ok [LTab (ntab s)] s' \<and>
    tabs s' (ntab s) = tbl.put_all [] (map env_entry es) \<and> world s' = w \<and> errno s' = e"
  using assms
  by (simp add: Pgetenv_def call_c_def run_simps sys_def new_table_def at_def slot_def type_of_def
      type_le_nil push_env_run [where xs = "[]" and a = "ntab s"])

text \<open>What \<open>getenv(3)\<close> answers: the value of the first entry with that name.\<close>

definition env_lookup :: "string list \<Rightarrow> string \<Rightarrow> string option" where
  "env_lookup es k = map_option (\<lambda>e. tl (dropWhile (\<lambda>c. c \<noteq> EQ) e))
     (find (\<lambda>e. EQ \<in> set e \<and> env_key e = k) es)"

lemma env_value_eq: "EQ \<in> set e \<Longrightarrow> env_value e = LStr (tl (dropWhile (\<lambda>c. c \<noteq> EQ) e))"
  by (auto simp: env_value_def split: list.splits)

lemma env_table_lookup:
  assumes "distinct (map env_key es)" "\<forall>e \<in> set es. EQ \<in> set e"
  shows "tbl_get (tbl.put_all [] (map env_entry es)) (LStr k) =
    (case env_lookup es k of None \<Rightarrow> LNil | Some v \<Rightarrow> LStr v)"
proof -
  have "map_of (map env_entry es) (LStr k) =
      map_option env_value (find (\<lambda>e. EQ \<in> set e \<and> env_key e = k) es)"
    using assms(2) by (induction es) (auto simp: env_entry_def)
  moreover have "distinct (map fst (map env_entry es))"
    using assms(1) by (simp add: env_entry_def distinct_map inj_on_def comp_def)
  moreover have "x \<in> set es" if "find (\<lambda>e. EQ \<in> set e \<and> env_key e = k) es = Some x" for x
    using that by (auto simp: find_Some_iff)
  ultimately show ?thesis using assms(2)
    by (auto simp: tbl.get_put_all_map_of env_lookup_def env_value_eq split: option.splits)
qed

text \<open>
  Property C21: the table of the whole environment that \<open>getenv()\<close> returns and the single look-up
  \<open>getenv(name)\<close> agree on every name, when the entries of \<open>environ\<close> have different names.
\<close>

theorem getenv_agrees:
  assumes "c_environ (errno s) (world s) = (es, e, w)"
    and "\<forall>x \<in> set es. NUL \<notin> set x" "distinct (map env_key es)" "\<forall>x \<in> set es. EQ \<in> set x"
    and "NUL \<notin> set k" "c_getenv k e w = (env_lookup es k, e', w')"
  shows "\<exists>s1 s2. call_c (Pgetenv E c_environ c_getenv) [] s = Ok [LTab (ntab s)] s1 \<and>
    call_c (Pgetenv E c_environ c_getenv) [LStr k] s1 = Ok [tbl_get (tabs s1 (ntab s)) (LStr k)] s2"
proof -
  obtain s1 where s1: "call_c (Pgetenv E c_environ c_getenv) [] s = Ok [LTab (ntab s)] s1"
    "tabs s1 (ntab s) = tbl.put_all [] (map env_entry es)" "world s1 = w" "errno s1 = e"
    using Pgetenv_all [where s = s and c_environ = c_environ, OF assms(1,2)] by blast
  have nul: "cstr v = v" if "env_lookup es k = Some v" for v
  proof -
    from that obtain x where x: "x \<in> set es" "v = tl (dropWhile (\<lambda>c. c \<noteq> EQ) x)"
      by (auto simp: env_lookup_def find_Some_iff) (metis nth_mem)
    have "set (tl ys) \<subseteq> set ys" for ys :: string by (cases ys) auto
    then have "set v \<subseteq> set x" unfolding x(2) by (blast dest: set_dropWhileD)
    with assms(2) x(1) show ?thesis by (intro cstr_id) blast
  qed
  have "call_c (Pgetenv E c_environ c_getenv) [LStr k] s1 =
      Ok [case env_lookup es k of None \<Rightarrow> LNil | Some v \<Rightarrow> LStr v] (s1\<lparr>errno := e', world := w'\<rparr>)"
    using assms(5,6) s1(3,4) nul
    by (auto simp: Pgetenv_def call_c_def run_simps sys_def at_one type_of_def type_le_nil cstr_id
        split: option.splits)
  with s1 env_table_lookup [OF assms(3,4)] show ?thesis by auto
qed

theorem getenv_agrees_witness:
  "\<exists>s1 s2. call_c (Pgetenv sample_env (\<lambda>e w. (w, e, w)) (\<lambda>k e w. (env_lookup w k, e, w))) []
      (sample_state [''HOME=/root'', ''A=b=c'']) = Ok [LTab 0] s1 \<and>
    call_c (Pgetenv sample_env (\<lambda>e w. (w, e, w)) (\<lambda>k e w. (env_lookup w k, e, w))) [LStr ''A''] s1 =
      Ok [tbl_get (tabs s1 0) (LStr ''A'')] s2"
  using getenv_agrees [of "\<lambda>e w. (w, e, w)" "sample_state [''HOME=/root'', ''A=b=c'']"
      "[''HOME=/root'', ''A=b=c'']" 0 "[''HOME=/root'', ''A=b=c'']" "''A''"
      "\<lambda>k e w. (env_lookup w k, e, w)" 0 "[''HOME=/root'', ''A=b=c'']" sample_env]
  by (simp add: NUL_def EQ_def env_key_def)

lemma Psetenv_run:
  assumes "arg_str E s 1 args = Inr name" "arg_optstr E 2 None args = Inr v" "length args \<le> 3"
  shows "call_c (Psetenv E c_setenv c_unsetenv) args s = (case v of
      None \<Rightarrow> (case c_unsetenv name (errno s) (world s) of (r, e, w) \<Rightarrow>
        Ok [LInt 0] (s\<lparr>errno := e, world := w\<rparr>))
    | Some x \<Rightarrow>
        (case c_setenv name x (case at 3 args of None \<Rightarrow> True | Some u \<Rightarrow> u = LNil \<or> truthy u)
            (errno s) (world s) of
          (r, e, w) \<Rightarrow> Ok (result_values E None r e) (s\<lparr>errno := e, world := w\<rparr>)))"
proof -
  have over: "(type_of (at 3 args) \<le> TNIL \<or> (case at 3 args of None \<Rightarrow> False | Some v \<Rightarrow> truthy v)) =
      (case at 3 args of None \<Rightarrow> True | Some u \<Rightarrow> u = LNil \<or> truthy u)"
    by (auto simp: type_of_def type_le_nil vtype_nil split: option.splits)
  obtain y where y: "val_str E (at 1 args) = Some y" "name = cstr y"
    using assms(1) by (auto simp: accepted)
  note run = Psetenv_def call_c_def run_simps sys_def put_at_same_type over result_values_def
  show ?thesis
  proof (cases "type_of (at 2 args) \<le> TNIL")
    case True
    then have "v = None" using assms(2) by (simp add: accepted)
    with True y assms(3) show ?thesis by (simp add: run split: prod.splits)
  next
    case False
    then obtain z where z: "val_str E (at 2 args) = Some z" "v = Some (cstr z)"
      using assms(2) by (auto simp: accepted)
    with False y assms(3) show ?thesis by (simp add: run split: prod.splits)
  qed
qed

text \<open>
  \<open>setenv(name, value, flag)\<close> overwrites an existing variable for every flag but
  \<open>false\<close>, and \<open>setenv(name)\<close> reports success whatever \<open>unsetenv\<close> answered.
\<close>

lemma setenv_overwrites:
  assumes "arg_str E s 1 args = Inr name" "arg_optstr E 2 None args = Inr v" "length args \<le> 3"
  shows "call_c (Psetenv E c_setenv c_unsetenv) args s = (case v of
      None \<Rightarrow> (case c_unsetenv name (errno s) (world s) of (r, e, w) \<Rightarrow>
        Ok [LInt 0] (s\<lparr>errno := e, world := w\<rparr>))
    | Some x \<Rightarrow> (case c_setenv name x (at 3 args \<noteq> Some (LBool False)) (errno s) (world s) of
          (r, e, w) \<Rightarrow> Ok (result_values E None r e) (s\<lparr>errno := e, world := w\<rparr>)))"
proof -
  have flag: "(case at 3 args of None \<Rightarrow> True | Some u \<Rightarrow> u = LNil \<or> truthy u) \<longleftrightarrow> at 3 args \<noteq> Some (LBool False)"
    by (auto split: option.splits elim: truthy.elims)
  show ?thesis unfolding Psetenv_run [OF assms] flag by (rule refl)
qed

section \<open>Opening the module\<close>

definition posix_stdlib_fns :: "entry list" where
  "posix_stdlib_fns = [
    Item ''Pabort'', Item ''Pgetenv'', Item ''Pgrantpt'', Item ''Pmkdtemp'', Item ''Pmkstemp'',
    Item ''Popenpt'', Item ''Pptsname'', Item ''Prealpath'', Item ''Psetenv'', Item ''Punlockpt'']"

definition luaopen_posix_stdlib :: "host \<Rightarrow> ('w, nat) lm" where
  "luaopen_posix_stdlib H = open_module H ''stdlib'' posix_stdlib_fns []"

lemma stdlib_names: "names_ok posix_stdlib_fns []"
  by code_simp

end
