(* ===== verification/UnistdBasic.thy ===== *)
theory UnistdBasic
  imports Arrays Modules
begin

text \<open>
  \<^verbatim>\<open>ext/posix/unistd.c\<close>, first part: the bindings that make one system call on descriptors,
  paths, process and user ids.
\<close>

section \<open>User and group arguments\<close>

text \<open>A missing id is \<open>-1\<close>, a number is taken as it is, a string is looked up.\<close>

definition myget_id :: "env \<Rightarrow> (string \<Rightarrow> ('w, cint option) sys) \<Rightarrow> int \<Rightarrow> ('w, cint) lm" where
  "myget_id E c_lookup i =
     bnd (lua_isnoneornil i) (\<lambda>none.
     if none then ret (-1)
     else bnd (lua_isinteger i) (\<lambda>isint.
     if isint then bnd (lua_tointeger E i) (\<lambda>n. ret (to_cint n))
     else bnd (lua_isstring i) (\<lambda>isstr.
     if isstr then
       bnd (lua_tolstring E i) (\<lambda>r.
       bnd (sys (c_lookup (cstr (the r)))) (\<lambda>p. case p of
           None \<Rightarrow> ret (-1)
         | Some uid \<Rightarrow> ret uid))
     else argtypeerror i ''integer, nil or string'')))"

definition mygetuid :: "env \<Rightarrow> (string \<Rightarrow> ('w, cint option) sys) \<Rightarrow> int \<Rightarrow> ('w, cint) lm" where
  "mygetuid E c_getpwnam_uid i = myget_id E c_getpwnam_uid i"

definition mygetgid :: "env \<Rightarrow> (string \<Rightarrow> ('w, cint option) sys) \<Rightarrow> int \<Rightarrow> ('w, cint) lm" where
  "mygetgid E c_getgrnam_gid i = myget_id E c_getgrnam_gid i"

section \<open>The bindings\<close>

definition P_exit :: "env \<Rightarrow> ('w, nat) lm" where
  "P_exit E = bnd (checkinteger E 1) (\<lambda>r. thn (checknargs 1) (raise (Exits (to_cint r))))"

text \<open>The characters of the mode string; \<open>F_OK\<close> is the initial value.\<close>

record access_modes =
  F_OK :: cint
  R_OK :: cint
  W_OK :: cint
  X_OK :: cint

fun access_mode :: "access_modes \<Rightarrow> string \<Rightarrow> cint \<Rightarrow> ('w, cint) lm" where
  "access_mode M [] mode = ret mode"
| "access_mode M (c # cs) mode =
     (if c = CHR '' '' then access_mode M cs mode
      else if c = CHR ''r'' then access_mode M cs (mode OR R_OK M)
      else if c = CHR ''w'' then access_mode M cs (mode OR W_OK M)
      else if c = CHR ''x'' then access_mode M cs (mode OR X_OK M)
      else if c = CHR ''f'' then access_mode M cs (mode OR F_OK M)
      else badoption 2 ''mode'' c)"

definition Paccess :: "env \<Rightarrow> access_modes \<Rightarrow> (string \<Rightarrow> cint \<Rightarrow> ('w, cint) sys) \<Rightarrow> ('w, nat) lm" where
  "Paccess E M c_access =
     bnd (luaL_checkstring E 1) (\<lambda>path.
     thn (checknargs 2)
    (bnd (optstring E 2 (Some ''f'')) (\<lambda>m.
     bnd (access_mode M (the m) (F_OK M)) (\<lambda>mode.
     bnd (sys (c_access path mode)) (\<lambda>r.
     pushresult E r (Some path))))))"

definition Palarm :: "env \<Rightarrow> (cint \<Rightarrow> ('w, cint) sys) \<Rightarrow> ('w, nat) lm" where
  "Palarm E c_alarm =
     bnd (checkint E 1) (\<lambda>seconds.
     thn (checknargs 1)
    (bnd (sys (c_alarm seconds)) (\<lambda>r. pushintegerresult (of_cuint r))))"

definition Pchdir :: "env \<Rightarrow> (string \<Rightarrow> ('w, cint) sys) \<Rightarrow> ('w, nat) lm" where
  "Pchdir E c_chdir =
     bnd (luaL_checkstring E 1) (\<lambda>path.
     thn (checknargs 1)
    (bnd (sys (c_chdir path)) (\<lambda>r. pushresult E r (Some path))))"

definition Pchown ::
  "env \<Rightarrow> (string \<Rightarrow> ('w, cint option) sys) \<Rightarrow> (string \<Rightarrow> ('w, cint option) sys) \<Rightarrow>
   (string \<Rightarrow> cint \<Rightarrow> cint \<Rightarrow> ('w, cint) sys) \<Rightarrow> ('w, nat) lm" where
  "Pchown E c_getpwnam_uid c_getgrnam_gid c_chown =
     bnd (luaL_checkstring E 1) (\<lambda>path.
     bnd (mygetuid E c_getpwnam_uid 2) (\<lambda>uid.
     bnd (mygetgid E c_getgrnam_gid 3) (\<lambda>gid.
     thn (checknargs 3)
    (bnd (sys (c_chown path uid gid)) (\<lambda>r. pushresult E r (Some path))))))"

definition Pclose :: "env \<Rightarrow> (cint \<Rightarrow> ('w, cint) sys) \<Rightarrow> ('w, nat) lm" where
  "Pclose E c_close =
     bnd (checkint E 1) (\<lambda>fd.
     thn (checknargs 1)
    (bnd (sys (c_close fd)) (\<lambda>r. pushresult E r None)))"

definition Pcrypt :: "env \<Rightarrow> (string \<Rightarrow> string \<Rightarrow> ('w, string option) sys) \<Rightarrow> ('w, nat) lm" where
  "Pcrypt E c_crypt =
     bnd (luaL_checkstring E 1) (\<lambda>str.
     bnd (luaL_checkstring E 2) (\<lambda>salt.
     if length salt < 2 then raise (LuaError (LStr ''not enough salt''))
     else thn (checknargs 2)
      (bnd (sys (c_crypt str salt)) (\<lambda>r. pushstringresult r))))"

definition Pdup :: "env \<Rightarrow> (cint \<Rightarrow> ('w, cint) sys) \<Rightarrow> ('w, nat) lm" where
  "Pdup E c_dup =
     bnd (checkint E 1) (\<lambda>fd.
     thn (checknargs 1)
    (bnd (sys (c_dup fd)) (\<lambda>r. pushresult E r None)))"

definition Pdup2 :: "env \<Rightarrow> (cint \<Rightarrow> cint \<Rightarrow> ('w, cint) sys) \<Rightarrow> ('w, nat) lm" where
  "Pdup2 E c_dup2 =
     bnd (checkint E 1) (\<lambda>fd.
     bnd (checkint E 2) (\<lambda>newfd.
     thn (checknargs 2)
    (bnd (sys (c_dup2 fd newfd)) (\<lambda>r. pushresult E r None))))"

definition Pfdatasync :: "env \<Rightarrow> (cint \<Rightarrow> ('w, cint) sys) \<Rightarrow> ('w, nat) lm" where
  "Pfdatasync E c_fdatasync =
     bnd (checkint E 1) (\<lambda>fd.
     thn (checknargs 1)
    (bnd (sys (c_fdatasync fd)) (\<lambda>r. pushresult E r None)))"

definition Pfork :: "env \<Rightarrow> ('w, cint) sys \<Rightarrow> ('w, nat) lm" where
  "Pfork E c_fork =
     thn (checknargs 0) (bnd (sys c_fork) (\<lambda>r. pushresult E r None))"

definition Pfsync :: "env \<Rightarrow> (cint \<Rightarrow> ('w, cint) sys) \<Rightarrow> ('w, nat) lm" where
  "Pfsync E c_fsync =
     bnd (checkint E 1) (\<lambda>fd.
     thn (checknargs 1)
    (bnd (sys (c_fsync fd)) (\<lambda>r. pushresult E r None)))"

definition Pgetegid :: "('w, cint) sys \<Rightarrow> ('w, nat) lm" where
  "Pgetegid c_getegid =
     thn (checknargs 0) (bnd (sys c_getegid) (\<lambda>r. pushintegerresult (of_cuint r)))"

definition Pgeteuid :: "('w, cint) sys \<Rightarrow> ('w, nat) lm" where
  "Pgeteuid c_geteuid =
     thn (checknargs 0) (bnd (sys c_geteuid) (\<lambda>r. pushintegerresult (of_cuint r)))"

definition Pgetgid :: "('w, cint) sys \<Rightarrow> ('w, nat) lm" where
  "Pgetgid c_getgid =
     thn (checknargs 0) (bnd (sys c_getgid) (\<lambda>r. pushintegerresult (of_cuint r)))"

definition Pgetlogin :: "('w, string option) sys \<Rightarrow> ('w, nat) lm" where
  "Pgetlogin c_getlogin =
     thn (checknargs 0) (bnd (sys c_getlogin) (\<lambda>r. pushstringresult r))"

definition Pgetpgrp :: "('w, cint) sys \<Rightarrow> ('w, nat) lm" where
  "Pgetpgrp c_getpgrp =
     thn (checknargs 0) (bnd (sys c_getpgrp) (\<lambda>r. pushintegerresult (of_cint r)))"

definition Pgetpid :: "('w, cint) sys \<Rightarrow> ('w, nat) lm" where
  "Pgetpid c_getpid =
     thn (checknargs 0) (bnd (sys c_getpid) (\<lambda>r. pushintegerresult (of_cint r)))"

definition Pgetppid :: "('w, cint) sys \<Rightarrow> ('w, nat) lm" where
  "Pgetppid c_getppid =
     thn (checknargs 0) (bnd (sys c_getppid) (\<lambda>r. pushintegerresult (of_cint r)))"

definition Pgetuid :: "('w, cint) sys \<Rightarrow> ('w, nat) lm" where
  "Pgetuid c_getuid =
     thn (checknargs 0) (bnd (sys c_getuid) (\<lambda>r. pushintegerresult (of_cuint r)))"

text \<open>\<open>c_gethostid\<close> is absent on a host without \<open>HAVE_GETHOSTID\<close>.\<close>

definition Pgethostid :: "('w, lint) sys option \<Rightarrow> ('w, nat) lm" where
  "Pgethostid c_gethostid =
     thn (checknargs 0) (case c_gethostid of
       Some f \<Rightarrow> bnd (sys f) (\<lambda>r. pushintegerresult r)
     | None \<Rightarrow> seqn [lua_pushnil, lua_pushstring ''unsupported by this host''] 2)"

definition Pisatty :: "env \<Rightarrow> (cint \<Rightarrow> ('w, cint) sys) \<Rightarrow> ('w, nat) lm" where
  "Pisatty E c_isatty =
     bnd (checkint E 1) (\<lambda>fd.
     thn (checknargs 1)
    (bnd (sys (c_isatty fd)) (\<lambda>r.
     pushresult E (if r = 0 then -1 else 1) (Some ''isatty''))))"

definition Plchown ::
  "env \<Rightarrow> (string \<Rightarrow> ('w, cint option) sys) \<Rightarrow> (string \<Rightarrow> ('w, cint option) sys) \<Rightarrow>
   (string \<Rightarrow> cint \<Rightarrow> cint \<Rightarrow> ('w, cint) sys) \<Rightarrow> ('w, nat) lm" where
  "Plchown E c_getpwnam_uid c_getgrnam_gid c_lchown =
     bnd (luaL_checkstring E 1) (\<lambda>path.
     bnd (mygetuid E c_getpwnam_uid 2) (\<lambda>uid.
     bnd (mygetgid E c_getgrnam_gid 3) (\<lambda>gid.
     thn (checknargs 3)
    (bnd (sys (c_lchown path uid gid)) (\<lambda>r. pushresult E r (Some path))))))"

definition Plink ::
  "env \<Rightarrow> (string \<Rightarrow> string \<Rightarrow> ('w, cint) sys) \<Rightarrow> (string \<Rightarrow> string \<Rightarrow> ('w, cint) sys) \<Rightarrow>
   ('w, nat) lm" where
  "Plink E c_symlink c_link =
     bnd (luaL_checkstring E 1) (\<lambda>oldpath.
     bnd (luaL_checkstring E 2) (\<lambda>newpath.
     bnd (optboolean 3 False) (\<lambda>symbolicp.
     thn (checknargs 3)
    (bnd (sys ((if symbolicp then c_symlink else c_link) oldpath newpath)) (\<lambda>r.
     pushresult E r None)))))"

definition Plinkat ::
  "env \<Rightarrow> (cint \<Rightarrow> string \<Rightarrow> cint \<Rightarrow> string \<Rightarrow> cint \<Rightarrow> ('w, cint) sys) \<Rightarrow> ('w, nat) lm" where
  "Plinkat E c_linkat =
     bnd (checkint E 1) (\<lambda>olddirfd.
     bnd (luaL_checkstring E 2) (\<lambda>oldpath.
     bnd (checkint E 3) (\<lambda>newdirfd.
     bnd (luaL_checkstring E 4) (\<lambda>newpath.
     bnd (checkint E 5) (\<lambda>flags.
     thn (checknargs 5)
    (bnd (sys (c_linkat olddirfd oldpath newdirfd newpath flags)) (\<lambda>r.
     pushresult E r None)))))))"

text \<open>\<open>pushresult\<close> takes an \<open>int\<close>: the new offset is truncated.\<close>

definition Plseek :: "env \<Rightarrow> (cint \<Rightarrow> lint \<Rightarrow> cint \<Rightarrow> ('w, lint) sys) \<Rightarrow> ('w, nat) lm" where
  "Plseek E c_lseek =
     bnd (checkint E 1) (\<lambda>fd.
     bnd (checkinteger E 2) (\<lambda>offset.
     bnd (checkint E 3) (\<lambda>whence.
     thn (checknargs 3)
    (bnd (sys (c_lseek fd offset whence)) (\<lambda>r. pushresult E (to_cint r) None)))))"

definition Pnice :: "env \<Rightarrow> (cint \<Rightarrow> ('w, cint) sys) \<Rightarrow> ('w, nat) lm" where
  "Pnice E c_nice =
     bnd (checkint E 1) (\<lambda>inc.
     thn (checknargs 1)
    (bnd (sys (c_nice inc)) (\<lambda>r. pushresult E r (Some ''nice''))))"

definition Ppathconf :: "env \<Rightarrow> (string \<Rightarrow> cint \<Rightarrow> ('w, lint) sys) \<Rightarrow> ('w, nat) lm" where
  "Ppathconf E c_pathconf =
     bnd (luaL_checkstring E 1) (\<lambda>path.
     thn (checknargs 2)
    (bnd (checkint E 2) (\<lambda>key.
     bnd (sys (c_pathconf path key)) (\<lambda>r. pushintegerresult r))))"

definition Ppipe :: "env \<Rightarrow> ('w, cint \<times> cint \<times> cint) sys \<Rightarrow> ('w, nat) lm" where
  "Ppipe E c_pipe =
     thn (checknargs 0)
    (bnd (sys c_pipe) (\<lambda>(rc, fd0, fd1).
     if rc <s 0 then pusherror E (Some ''pipe'')
     else seqn [lua_pushinteger (of_cint fd0), lua_pushinteger (of_cint fd1)] 2))"

definition Prmdir :: "env \<Rightarrow> (string \<Rightarrow> ('w, cint) sys) \<Rightarrow> ('w, nat) lm" where
  "Prmdir E c_rmdir =
     bnd (luaL_checkstring E 1) (\<lambda>path.
     thn (checknargs 1)
    (bnd (sys (c_rmdir path)) (\<lambda>r. pushresult E r (Some path))))"

record 'w setids =
  c_seteuid :: "cint \<Rightarrow> ('w, cint) sys"
  c_setuid :: "cint \<Rightarrow> ('w, cint) sys"
  c_setegid :: "cint \<Rightarrow> ('w, cint) sys"
  c_setgid :: "cint \<Rightarrow> ('w, cint) sys"
  c_setsid :: "('w, cint) sys"
  c_setpgid :: "cint \<Rightarrow> cint \<Rightarrow> ('w, cint) sys"

definition Psetpid ::
  "env \<Rightarrow> (string \<Rightarrow> ('w, cint option) sys) \<Rightarrow> (string \<Rightarrow> ('w, cint option) sys) \<Rightarrow> 'w setids \<Rightarrow>
   ('w, nat) lm" where
  "Psetpid E c_getpwnam_uid c_getgrnam_gid S =
     bnd (luaL_checkstring E 1) (\<lambda>what.
     let w = (case what of [] \<Rightarrow> NUL | c # _ \<Rightarrow> c);
         finish = (\<lambda>call. bnd (sys call) (\<lambda>r. pushresult E r None)) in
     thn (checknargs (if w = CHR ''p'' then 3 else 2))
    (if w = CHR ''U'' then bnd (mygetuid E c_getpwnam_uid 2) (\<lambda>uid. finish (c_seteuid S uid))
     else if w = CHR ''u'' then bnd (mygetuid E c_getpwnam_uid 2) (\<lambda>uid. finish (c_setuid S uid))
     else if w = CHR ''G'' then bnd (mygetgid E c_getgrnam_gid 2) (\<lambda>gid. finish (c_setegid S gid))
     else if w = CHR ''g'' then bnd (mygetgid E c_getgrnam_gid 2) (\<lambda>gid. finish (c_setgid S gid))
     else if w = CHR ''s'' then finish (c_setsid S)
     else if w = CHR ''p'' then
       bnd (checkinteger E 2) (\<lambda>pid.
       bnd (checkinteger E 3) (\<lambda>pgid.
       finish (c_setpgid S (to_cint pid) (to_cint pgid))))
     else badoption 1 ''id'' w))"

definition Psleep :: "env \<Rightarrow> (cint \<Rightarrow> ('w, cint) sys) \<Rightarrow> ('w, nat) lm" where
  "Psleep E c_sleep =
     bnd (checkint E 1) (\<lambda>seconds.
     thn (checknargs 1)
    (bnd (sys (c_sleep seconds)) (\<lambda>r. pushintegerresult (of_cuint r))))"

definition Psync :: "('w, unit) sys \<Rightarrow> ('w, nat) lm" where
  "Psync c_sync = thn (checknargs 0) (thn (sys c_sync) (ret 0))"

definition Psysconf :: "env \<Rightarrow> (cint \<Rightarrow> ('w, lint) sys) \<Rightarrow> ('w, nat) lm" where
  "Psysconf E c_sysconf =
     thn (checknargs 1)
    (bnd (checkint E 1) (\<lambda>key.
     bnd (sys (c_sysconf key)) (\<lambda>r. pushintegerresult r)))"

definition Pttyname :: "env \<Rightarrow> (cint \<Rightarrow> ('w, string option) sys) \<Rightarrow> ('w, nat) lm" where
  "Pttyname E c_ttyname =
     bnd (optint E 1 0) (\<lambda>fd.
     thn (checknargs 1)
    (bnd (sys (c_ttyname fd)) (\<lambda>name. case name of
       Some n \<Rightarrow> pushstringresult (Some n)
     | None \<Rightarrow>
         bnd (asks errno) (\<lambda>e.
         if e \<noteq> 0 then pusherror E (Some ''ttyname'')
         else seqn [lua_pushnil, lua_pushstring ''not a tty''] 2))))"

definition Ptcgetpgrp :: "env \<Rightarrow> (cint \<Rightarrow> ('w, cint) sys) \<Rightarrow> ('w, nat) lm" where
  "Ptcgetpgrp E c_tcgetpgrp =
     bnd (checkint E 1) (\<lambda>fd.
     bnd (sys (c_tcgetpgrp fd)) (\<lambda>r. pushresult E r None))"

definition Ptcsetpgrp :: "env \<Rightarrow> (cint \<Rightarrow> cint \<Rightarrow> ('w, cint) sys) \<Rightarrow> ('w, nat) lm" where
  "Ptcsetpgrp E c_tcsetpgrp =
     bnd (checkint E 1) (\<lambda>fd.
     bnd (checkinteger E 2) (\<lambda>pgid.
     bnd (sys (c_tcsetpgrp fd (to_cint pgid))) (\<lambda>r. pushresult E r None)))"

definition Punlink :: "env \<Rightarrow> (string \<Rightarrow> ('w, cint) sys) \<Rightarrow> ('w, nat) lm" where
  "Punlink E c_unlink =
     bnd (luaL_checkstring E 1) (\<lambda>path.
     thn (checknargs 1)
    (bnd (sys (c_unlink path)) (\<lambda>r. pushresult E r (Some path))))"

definition Pftruncate :: "env \<Rightarrow> (cint \<Rightarrow> lint \<Rightarrow> ('w, cint) sys) \<Rightarrow> ('w, nat) lm" where
  "Pftruncate E c_ftruncate =
     bnd (checkint E 1) (\<lambda>fd.
     bnd (checkinteger E 2) (\<lambda>length.
     thn (checknargs 2)
    (bnd (sys (c_ftruncate fd length)) (\<lambda>r. pushresult E r None))))"

definition Ptruncate :: "env \<Rightarrow> (string \<Rightarrow> lint \<Rightarrow> ('w, cint) sys) \<Rightarrow> ('w, nat) lm" where
  "Ptruncate E c_truncate =
     bnd (luaL_checkstring E 1) (\<lambda>path.
     bnd (checkinteger E 2) (\<lambda>length.
     thn (checknargs 2)
    (bnd (sys (c_truncate path length)) (\<lambda>r. pushresult E r (Some path)))))"

section \<open>One system call each\<close>

interpretation close_call: sys_wrapper "Pclose E c" "args_fd E" "c" E "\<lambda>_. None" for E c
  by unfold_locales (simp add: Pclose_def wrapper_simps split: option.splits prod.splits)

interpretation dup_call: sys_wrapper "Pdup E c" "args_fd E" "c" E "\<lambda>_. None" for E c
  by unfold_locales (simp add: Pdup_def wrapper_simps split: option.splits prod.splits)

interpretation fdatasync_call: sys_wrapper "Pfdatasync E c" "args_fd E" "c" E "\<lambda>_. None" for E c
  by unfold_locales (simp add: Pfdatasync_def wrapper_simps split: option.splits prod.splits)

interpretation fsync_call: sys_wrapper "Pfsync E c" "args_fd E" "c" E "\<lambda>_. None" for E c
  by unfold_locales (simp add: Pfsync_def wrapper_simps split: option.splits prod.splits)

interpretation nice_call: sys_wrapper "Pnice E c" "args_fd E" "c" E "\<lambda>_. Some ''nice''" for E c
  by unfold_locales (simp add: Pnice_def wrapper_simps split: option.splits prod.splits)

interpretation dup2_call: sys_wrapper "Pdup2 E c" "args_fd2 E" "\<lambda>(a, b). c a b" E "\<lambda>_. None" for E c
  by unfold_locales (simp add: Pdup2_def wrapper_simps split: option.splits prod.splits)

interpretation fork_call: sys_wrapper "Pfork E c" "args_none" "\<lambda>_. c" E "\<lambda>_. None" for E c
  by unfold_locales (simp add: Pfork_def wrapper_simps split: option.splits prod.splits)

interpretation chdir_call: sys_wrapper "Pchdir E c" "args_path E" "c" E "Some" for E c
  by unfold_locales (simp add: Pchdir_def wrapper_simps split: option.splits prod.splits)

interpretation rmdir_call: sys_wrapper "Prmdir E c" "args_path E" "c" E "Some" for E c
  by unfold_locales (simp add: Prmdir_def wrapper_simps split: option.splits prod.splits)

interpretation unlink_call: sys_wrapper "Punlink E c" "args_path E" "c" E "Some" for E c
  by unfold_locales (simp add: Punlink_def wrapper_simps split: option.splits prod.splits)

definition args_fd_off :: "env \<Rightarrow> lvalue list \<Rightarrow> err + (cint \<times> lint)" where
  "args_fd_off E args =
     sbind (arg_int E 1 args) (\<lambda>fd. sbind (arg_integer E 2 args) (\<lambda>n.
     sbind (at_most 2 args) (\<lambda>_. Inr (fd, n))))"

definition args_path_off :: "env \<Rightarrow> 'w lst \<Rightarrow> lvalue list \<Rightarrow> err + (string \<times> lint)" where
  "args_path_off E s args =
     sbind (arg_str E s 1 args) (\<lambda>p. sbind (arg_integer E 2 args) (\<lambda>n.
     sbind (at_most 2 args) (\<lambda>_. Inr (p, n))))"

definition args_lseek :: "env \<Rightarrow> lvalue list \<Rightarrow> err + (cint \<times> lint \<times> cint)" where
  "args_lseek E args =
     sbind (arg_int E 1 args) (\<lambda>fd. sbind (arg_integer E 2 args) (\<lambda>n. sbind (arg_int E 3 args) (\<lambda>w.
     sbind (at_most 3 args) (\<lambda>_. Inr (fd, n, w)))))"

interpretation ftruncate_call: sys_wrapper "Pftruncate E c" "\<lambda>s. args_fd_off E"
    "\<lambda>(fd, n). c fd n" E "\<lambda>_. None" for E c
  by unfold_locales
    (simp add: Pftruncate_def args_fd_off_def wrapper_simps split: option.splits prod.splits)

interpretation truncate_call: sys_wrapper "Ptruncate E c" "args_path_off E"
    "\<lambda>(p, n). c p n" E "\<lambda>(p, n). Some p" for E c
  by unfold_locales
    (simp add: Ptruncate_def args_path_off_def wrapper_simps split: option.splits prod.splits)

lemma Plseek_run:
  "args_lseek E args = Inr (fd, off, wh) \<Longrightarrow> c fd off wh (errno s) (world s) = (r, e, w) \<Longrightarrow>
   call_c (Plseek E c) args s =
     Ok (result_values E None (to_cint r) e) (s\<lparr>errno := e, world := w\<rparr>)"
  by (auto simp: Plseek_def args_lseek_def accepted call_c_def run_simps sys_def)

interpretation getegid_value: sys_value "Pgetegid c" args_none "\<lambda>_. c" "\<lambda>r. LInt (of_cuint r)" for c
  by unfold_locales (simp add: Pgetegid_def wrapper_simps split: option.splits prod.splits)

interpretation geteuid_value: sys_value "Pgeteuid c" args_none "\<lambda>_. c" "\<lambda>r. LInt (of_cuint r)" for c
  by unfold_locales (simp add: Pgeteuid_def wrapper_simps split: option.splits prod.splits)

interpretation getgid_value: sys_value "Pgetgid c" args_none "\<lambda>_. c" "\<lambda>r. LInt (of_cuint r)" for c
  by unfold_locales (simp add: Pgetgid_def wrapper_simps split: option.splits prod.splits)

interpretation getuid_value: sys_value "Pgetuid c" args_none "\<lambda>_. c" "\<lambda>r. LInt (of_cuint r)" for c
  by unfold_locales (simp add: Pgetuid_def wrapper_simps split: option.splits prod.splits)

interpretation getpgrp_value: sys_value "Pgetpgrp c" args_none "\<lambda>_. c" "\<lambda>r. LInt (of_cint r)" for c
  by unfold_locales (simp add: Pgetpgrp_def wrapper_simps split: option.splits prod.splits)

interpretation getpid_value: sys_value "Pgetpid c" args_none "\<lambda>_. c" "\<lambda>r. LInt (of_cint r)" for c
  by unfold_locales (simp add: Pgetpid_def wrapper_simps split: option.splits prod.splits)

interpretation getppid_value: sys_value "Pgetppid c" args_none "\<lambda>_. c" "\<lambda>r. LInt (of_cint r)" for c
  by unfold_locales (simp add: Pgetppid_def wrapper_simps split: option.splits prod.splits)

interpretation alarm_value: sys_value "Palarm E c" "args_fd E" c "\<lambda>r. LInt (of_cuint r)" for E c
  by unfold_locales (simp add: Palarm_def wrapper_simps split: option.splits prod.splits)

interpretation sleep_value: sys_value "Psleep E c" "args_fd E" c "\<lambda>r. LInt (of_cuint r)" for E c
  by unfold_locales (simp add: Psleep_def wrapper_simps split: option.splits prod.splits)

section \<open>Access modes\<close>

definition mode_chars :: string where
  "mode_chars = '' rwxf''"

definition mode_bits :: "access_modes \<Rightarrow> string \<Rightarrow> cint" where
  "mode_bits M x = F_OK M OR (if CHR ''r'' \<in> set x then R_OK M else 0) OR
     (if CHR ''w'' \<in> set x then W_OK M else 0) OR (if CHR ''x'' \<in> set x then X_OK M else 0)"

lemma or_cint_simps:
  "(a :: cint) OR a OR b = a OR b" "(a :: cint) OR (b OR a) = b OR a" "(a :: cint) OR a = a"
  "(a :: cint) OR (a OR b) = a OR b"
  by (auto intro: bit_eqI simp: bit_simps)

lemma access_mode_fold:
  "set x \<subseteq> set mode_chars \<Longrightarrow>
   access_mode M x m s = Ok (m OR (if CHR ''f'' \<in> set x then F_OK M else 0) OR
     (if CHR ''r'' \<in> set x then R_OK M else 0) OR (if CHR ''w'' \<in> set x then W_OK M else 0) OR
     (if CHR ''x'' \<in> set x then X_OK M else 0)) s"
proof (induction x arbitrary: m)
  case (Cons c x)
  then have "c \<in> {CHR '' '', CHR ''r'', CHR ''w'', CHR ''x'', CHR ''f''}"
    by (auto simp: mode_chars_def)
  with Cons show ?case
    by (elim insertE) (auto simp: or_cint_simps or.assoc or.commute or.left_commute)
qed (simp add: run_simps)

lemma access_mode_ok:
  assumes "set x \<subseteq> set mode_chars"
  shows "access_mode M x (F_OK M) s = Ok (mode_bits M x) s"
  unfolding access_mode_fold [OF assms] mode_bits_def
  by (simp add: or_cint_simps or.assoc)

lemma access_mode_bad:
  "\<not> set x \<subseteq> set mode_chars \<Longrightarrow>
   access_mode M x m s = arg_error 2 (''invalid mode option '' @ [CHR 0x27,
     hd (filter (\<lambda>c. c \<notin> set mode_chars) x), CHR 0x27]) s"
  by (induction x arbitrary: m) (auto simp: mode_chars_def badoption_def run_simps)

definition args_access :: "env \<Rightarrow> 'w lst \<Rightarrow> lvalue list \<Rightarrow> err + (string \<times> string)" where
  "args_access E s args =
     sbind (arg_str E s 1 args) (\<lambda>p. sbind (at_most 2 args) (\<lambda>_.
     sbind (arg_defstr E 2 ''f'' args) (\<lambda>m. Inr (p, m))))"

lemma args_access_run:
  assumes "args_access E s args = Inr (p, m)"
  shows "\<exists>ys. Paccess E M c (s\<lparr>stk := args\<rparr>) =
    bnd (access_mode M m (F_OK M)) (\<lambda>mode. bnd (sys (c p mode)) (\<lambda>r. pushresult E r (Some p)))
      (s\<lparr>stk := ys\<rparr>)"
proof -
  obtain y where y: "val_str E (at 1 args) = Some y" "p = cstr y" and len: "length args \<le> 2"
    and m: "if type_of (at 2 args) \<le> TNIL then m = ''f''
      else \<exists>z. val_str E (at 2 args) = Some z \<and> m = cstr z"
    using assms by (auto simp: args_access_def accepted)
  let ?ys = "put_at 1 (LStr y) args"
  show ?thesis
  proof (cases "type_of (at 2 args) \<le> TNIL")
    case True
    with m have "m = ''f''" by simp
    with True y len show ?thesis
      by (intro exI [of _ ?ys]) (simp add: Paccess_def bnd_def thn_def luaL_checkstring_run
        checknargs_run optstring_run put_at_same_type)
  next
    case False
    with m obtain z where z: "val_str E (at 2 args) = Some z" "m = cstr z" by auto
    with False y len show ?thesis
      by (intro exI [of _ "put_at 2 (LStr z) ?ys"]) (simp add: Paccess_def bnd_def thn_def
        luaL_checkstring_run checknargs_run optstring_run put_at_same_type)
  qed
qed

lemma Paccess_run:
  assumes "args_access E s args = Inr (p, m)" "set m \<subseteq> set mode_chars"
    and "c p (mode_bits M m) (errno s) (world s) = (r, e, w)"
  shows "call_c (Paccess E M c) args s =
    Ok (result_values E (Some p) r e) (s\<lparr>errno := e, world := w\<rparr>)"
proof -
  obtain ys where "Paccess E M c (s\<lparr>stk := args\<rparr>) =
    bnd (access_mode M m (F_OK M)) (\<lambda>mode. bnd (sys (c p mode)) (\<lambda>r. pushresult E r (Some p)))
      (s\<lparr>stk := ys\<rparr>)" using args_access_run [OF assms(1)] by blast
  with assms(3) show ?thesis
    by (simp add: call_c_def bnd_def access_mode_ok [OF assms(2)] sys_def pushresult_run)
qed

section \<open>User and group arguments\<close>

lemma myget_id_run:
  "myget_id E c i s = (case at i (stk s) of
      None \<Rightarrow> Ok (-1) s
    | Some LNil \<Rightarrow> Ok (-1) s
    | Some (LInt n) \<Rightarrow> Ok (to_cint n) s
    | Some v \<Rightarrow> (case val_str E (Some v) of
        Some x \<Rightarrow> (case c (cstr x) (errno s) (world s) of (p, e, w) \<Rightarrow>
          Ok (case p of None \<Rightarrow> -1 | Some uid \<Rightarrow> uid)
             (s\<lparr>stk := put_at i (LStr x) (stk s), errno := e, world := w\<rparr>))
      | None \<Rightarrow> arg_error i (got_msg ''integer, nil or string'' (Some v)) s))"
  by (auto simp: myget_id_def run_simps type_of_def type_le_nil sys_def
      split: option.splits lvalue.splits prod.splits)

lemma clean_myget_id: "clean (myget_id E c i)"
  unfolding myget_id_def
  by (rule clean_bnd clean_if quiet_prims quiet_prims2 clean_after settled_rules clean_results)+

section \<open>Rejected calls\<close>

lemma settled_access_mode: "quiet (access_mode M x m)"
  by (induction x arbitrary: m) (auto intro!: quiet_rules)

lemma clean_unistd_basic:
  "clean (P_exit E)" "clean (Paccess E M a0)" "clean (Palarm E a1)" "clean (Pchdir E a2)"
  "clean (Pclose E a3)" "clean (Pcrypt E a4)" "clean (Pdup E a5)" "clean (Pdup2 E a6)"
  "clean (Pfdatasync E a7)" "clean (Pfork E a8)" "clean (Pfsync E a9)" "clean (Pgetegid b0)"
  "clean (Pgeteuid b1)" "clean (Pgetgid b2)" "clean (Pgetlogin b3)" "clean (Pgetpgrp b4)"
  "clean (Pgetpid b5)" "clean (Pgetppid b6)" "clean (Pgetuid b7)" "clean (Pgethostid b8)"
  "clean (Pisatty E b9)" "clean (Plink E d0 d1)" "clean (Plinkat E d2)" "clean (Plseek E d3)"
  "clean (Pnice E d4)" "clean (Ppathconf E d5)" "clean (Ppipe E d6)" "clean (Prmdir E d7)"
  "clean (Psleep E d8)" "clean (Psync d9)" "clean (Psysconf E e0)" "clean (Pttyname E e1)"
  "clean (Ptcgetpgrp E e2)" "clean (Ptcsetpgrp E e3)" "clean (Punlink E e4)"
  "clean (Pftruncate E e5)" "clean (Ptruncate E e6)"
  unfolding P_exit_def Paccess_def Palarm_def Pchdir_def Pclose_def Pcrypt_def Pdup_def Pdup2_def
    Pfdatasync_def Pfork_def Pfsync_def Pgetegid_def Pgeteuid_def Pgetgid_def Pgetlogin_def
    Pgetpgrp_def Pgetpid_def Pgetppid_def Pgetuid_def Pgethostid_def Pisatty_def Plink_def
    Plinkat_def Plseek_def Pnice_def Ppathconf_def Ppipe_def Prmdir_def Psleep_def Psync_def
    Psysconf_def Pttyname_def Ptcgetpgrp_def Ptcsetpgrp_def Punlink_def Pftruncate_def Ptruncate_def
  by (rule settled_access_mode clean_rules)+

lemma clean_Psetpid: "clean (Psetpid E u g S)"
  unfolding Psetpid_def mygetuid_def mygetgid_def Let_def
  by (rule clean_bnd clean_thn quiet_args clean_if clean_bnd_settled [OF clean_myget_id]
      settled_rules clean_after clean_results)+

section \<open>access\<close>

text \<open>
  \<open>access\<close> asks the kernel about the union of the permissions its mode string names
  (whatever their order, spaces skipped, \<open>F_OK\<close> always included) and reports the result; a mode
  string with any other character is refused before the kernel is asked, the message naming the
  first one.
\<close>

lemma access_modes_checked:
  assumes "args_access E s args = Inr (p, m)"
    and "c p (mode_bits M m) (errno s) (world s) = (r, e, w)"
  shows "call_c (Paccess E M c) args s =
    (if set m \<subseteq> set mode_chars then Ok (result_values E (Some p) r e) (s\<lparr>errno := e, world := w\<rparr>)
     else Err (ArgError 2 (''invalid mode option '' @ [CHR 0x27,
       hd (filter (\<lambda>ch. ch \<notin> set mode_chars) m), CHR 0x27])) s)"
proof (cases "set m \<subseteq> set mode_chars")
  case False
  obtain ys where "Paccess E M c (s\<lparr>stk := args\<rparr>) =
    bnd (access_mode M m (F_OK M)) (\<lambda>mode. bnd (sys (c p mode)) (\<lambda>r. pushresult E r (Some p)))
      (s\<lparr>stk := ys\<rparr>)" using args_access_run [OF assms(1)] by blast
  with False show ?thesis
    by (simp add: call_c_def bnd_def access_mode_bad [OF False] stk_self)
next
  case True
  then show ?thesis by (simp add: Paccess_run [where c = c and M = M, OF assms(1) True assms(2)])
qed

end
