(* ===== verification/LuaInit.thy ===== *)
theory LuaInit
  imports LuaCompat Stdlib UnistdBasic Errno Glob
begin

text \<open>
  The rest of \<^verbatim>\<open>lib/posix/init.lua\<close>: \<open>openpty\<close> over \<^verbatim>\<open>stdlib.c\<close> and \<^verbatim>\<open>fcntl.c\<close>, \<open>glob\<close> over
  \<^verbatim>\<open>glob.c\<close>, and \<open>euidaccess\<close> over \<^verbatim>\<open>unistd.c\<close> and \<^verbatim>\<open>sys/stat.c\<close>.
\<close>

section \<open>Pseudo-terminals\<close>

record 'w ptyapi =
  os_open2 :: "string \<Rightarrow> cint \<Rightarrow> ('w, cint) sys" \<comment> \<open>\<open>posix_openpt\<close>, or \<open>open\<close> of the master device\<close>
  os_grantpt :: "cint \<Rightarrow> ('w, cint) sys"
  os_unlockpt :: "cint \<Rightarrow> ('w, cint) sys"
  os_ptsname :: "cint \<Rightarrow> ('w, string option) sys"
  os_open :: "string \<Rightarrow> cint \<Rightarrow> cint \<Rightarrow> ('w, cint) sys"
  pty_close :: "cint \<Rightarrow> ('w, cint) sys"

text \<open>\<open>flags\<close> is \<open>bor (O_RDWR, O_NOCTTY)\<close>.  Every exit but the first success comes by the \<open>close\<close>.\<close>

definition Popenpty :: "env \<Rightarrow> 'w ptyapi \<Rightarrow> lint \<Rightarrow> lint \<Rightarrow> 'w luafn" where
  "Popenpty E P O_RDWR O_NOCTTY args =
     (let flags = LInt (bor O_RDWR [O_NOCTTY]);
          give_up = (\<lambda>master r. thn (call_c (Pclose E (pty_close P)) [master])
                                 (ret [LNil, argn 2 r, argn 3 r])) in
     bnd (call_c (Popenpt E (os_open2 P)) [flags]) (\<lambda>r0.
     let master = argn 1 r0 in
     if truthy master then
       bnd (call_c (Pgrantpt E (os_grantpt P)) [master]) (\<lambda>r1.
       if truthy (argn 1 r1) then
         bnd (call_c (Punlockpt E (os_unlockpt P)) [master]) (\<lambda>r2.
         if truthy (argn 1 r2) then
           bnd (call_c (Pptsname E (os_ptsname P)) [master]) (\<lambda>r3.
           let slave_name = argn 1 r3 in
           if truthy slave_name then
             bnd (call_c (Popen E (os_open P)) [slave_name, flags]) (\<lambda>r4.
             let slave = argn 1 r4 in
             if truthy slave then ret [master, slave, slave_name]
             else give_up master r4)
           else give_up master r3)
         else give_up master r2)
       else give_up master r1)
     else ret [LNil, argn 2 r0, argn 3 r0]))"

section \<open>Path name patterns\<close>

text \<open>\<open>args\<close> may be a pattern, a table with \<open>pattern\<close> and \<open>MARK\<close>, or anything else for the default.\<close>

definition Pglob_lua :: "env \<Rightarrow> lua_texts \<Rightarrow> lint \<Rightarrow> (string \<Rightarrow> cint \<Rightarrow> ('w, cint \<times> string list) sys) \<Rightarrow>
    ('w, unit) sys \<Rightarrow> 'w luafn" where
  "Pglob_lua E T GLOB_MARK c_glob c_globfree args =
     bnd (case argn 1 args of
            LStr p \<Rightarrow> ret (LStr p, LNil)
          | LTab a \<Rightarrow>
              bnd (get_field T (LTab a) ''pattern'') (\<lambda>p.
              bnd (get_field T (LTab a) ''MARK'') (\<lambda>m. ret (p, m)))
          | _ \<Rightarrow> ret (LNil, LNil)) (\<lambda>(pattern, mark).
     call_c (Pglob E c_glob c_globfree) [pattern, LInt (if truthy mark then GLOB_MARK else 0)])"

section \<open>Access for the effective user\<close>

record 'w idapi =
  os_geteuid :: "('w, cint) sys"
  os_getegid :: "('w, cint) sys"
  os_getuid :: "('w, cint) sys"
  os_getgid :: "('w, cint) sys"
  os_access :: "string \<Rightarrow> cint \<Rightarrow> ('w, cint) sys"
  os_stat :: "string \<Rightarrow> ('w, cint \<times> stat_buf) sys"

text \<open>
  \<open>string\<close> functions take a number for its numeral; anything else that is no string they refuse.
\<close>

definition str_operand :: "env \<Rightarrow> lua_texts \<Rightarrow> lvalue \<Rightarrow> ('w, string) lm" where
  "str_operand E T v = (case val_str E (Some v) of
      Some x \<Rightarrow> ret x
    | None \<Rightarrow> lua_error T (bad_operand T ''use as a string'' v) 1)"

definition sub_range :: "string \<Rightarrow> nat \<Rightarrow> nat \<Rightarrow> string" where
  "sub_range x i j = take (Suc j - i) (drop (i - 1) x)"

text \<open>
  \<open>set\<close> is not a name of the module: indexing it raises an error.  The last \<open>gsub\<close> is called without a
  replacement, which \<open>gsub\<close> refuses, so what would come after it is never reached.
\<close>

definition Peuidaccess :: "env \<Rightarrow> lua_texts \<Rightarrow> access_modes \<Rightarrow> 'w idapi \<Rightarrow> 'w luafn" where
  "Peuidaccess E T M P args =
     (let file = argn 1 args; mode = argn 2 args in
     bnd (call_c (Pgeteuid (os_geteuid P)) []) (\<lambda>r. let euid = argn 1 r in
     bnd (call_c (Pgetegid (os_getegid P)) []) (\<lambda>r. let egid = argn 1 r in
     bnd (call_c (Pgetuid (os_getuid P)) []) (\<lambda>r. let uid = argn 1 r in
     bnd (if uid = euid then bnd (call_c (Pgetgid (os_getgid P)) []) (\<lambda>r. ret (argn 1 r = egid))
          else ret False) (\<lambda>same.
     if same then call_c (Paccess E M (os_access P)) [file, mode]
     else
       bnd (call_c (Pstat E (os_stat P)) [file]) (\<lambda>r. let stats = argn 1 r in
       if \<not> truthy stats then ret []
       else
         bnd (get_field T stats ''st_mode'') (\<lambda>st_mode.
         bnd (if euid = LInt 0 then
                bnd (str_operand E T mode) (\<lambda>m.
                if \<not> match_in m [One (OneOf ''x'')] then ret True
                else bnd (str_operand E T st_mode) (\<lambda>sm. ret (match_in sm [One (OneOf ''x'')])))
              else ret False) (\<lambda>super.
         if super then ret [LInt 0]
         else
           bnd (str_operand E T mode) (\<lambda>m.
           let mode = gsub_drop (NoneOf ''rwx'') m in
           if mode = '''' then ret [LInt 0]
           else
             bnd (str_operand E T st_mode) (\<lambda>sm.
             bnd (get_field T stats ''st_uid'') (\<lambda>st_uid.
             bnd (get_field T stats ''st_gid'') (\<lambda>st_gid.
             bnd (if euid = st_uid then ret (sub_range sm 7 9)
                  else if egid = st_gid then ret (sub_range sm 4 6)
                  else lua_error T (bad_operand T ''index'' LNil) 1) (\<lambda>granted.
             let granted = gsub_drop (NoneOf ''rwx'') granted in
             throw (ArgError 3 ''string/function/table expected''))))))))))))))"

section \<open>openpty\<close>

text \<open>
  The descriptors a kernel has open: opening yields a new one or fails, closing takes one away, and the
  calls on the master leave them alone.
\<close>

definition counts_fds :: "('w \<Rightarrow> cint set) \<Rightarrow> 'w ptyapi \<Rightarrow> bool" where
  "counts_fds openfds P \<longleftrightarrow>
     (\<forall>p f e w r e' w'. os_open2 P p f e w = (r, e', w') \<longrightarrow>
        (if r = -1 then openfds w' = openfds w else r \<notin> openfds w \<and> openfds w' = insert r (openfds w))) \<and>
     (\<forall>p f m e w r e' w'. os_open P p f m e w = (r, e', w') \<longrightarrow>
        (if r = -1 then openfds w' = openfds w else r \<notin> openfds w \<and> openfds w' = insert r (openfds w))) \<and>
     (\<forall>a e w r e' w'. os_grantpt P a e w = (r, e', w') \<longrightarrow> openfds w' = openfds w) \<and>
     (\<forall>a e w r e' w'. os_unlockpt P a e w = (r, e', w') \<longrightarrow> openfds w' = openfds w) \<and>
     (\<forall>a e w q e' w'. os_ptsname P a e w = (q, e', w') \<longrightarrow> openfds w' = openfds w) \<and>
     (\<forall>a e w r e' w'. pty_close P a e w = (r, e', w') \<longrightarrow> openfds w' = openfds w - {a})"

lemma counts_fdsD:
  assumes "counts_fds openfds P"
  shows "os_open2 P p f e w = (r, e', w') \<Longrightarrow>
      if r = -1 then openfds w' = openfds w else r \<notin> openfds w \<and> openfds w' = insert r (openfds w)"
    "os_open P p f m e w = (r, e', w') \<Longrightarrow>
      if r = -1 then openfds w' = openfds w else r \<notin> openfds w \<and> openfds w' = insert r (openfds w)"
    "os_grantpt P a e w = (r, e', w') \<Longrightarrow> openfds w' = openfds w"
    "os_unlockpt P a e w = (r, e', w') \<Longrightarrow> openfds w' = openfds w"
    "os_ptsname P a e w = (q, e', w') \<Longrightarrow> openfds w' = openfds w"
    "pty_close P a e w = (r, e', w') \<Longrightarrow> openfds w' = openfds w - {a}"
  using assms unfolding counts_fds_def by metis+

lemma args_fd_one: "args_fd E s [LInt n] = Inr (to_cint n)"
  by (simp add: args_fd_def arg_defs at_simps)

lemma args_open_two: "args_open E s [LStr p, LInt f] = Inr (cstr p, to_cint f, 511)"
  by (simp add: args_open_def accepted at_simps type_of_def less_eq_ltype_def to_cint_def)

lemma ptsname_run:
  assumes "c a (errno s) (world s) = (q, e, w)"
  shows "call_c (Pptsname E c) [LInt (of_cint a)] s =
    Ok (case q of None \<Rightarrow> error_values E (Some ''getptsname'') e | Some x \<Rightarrow> [LStr (cstr x)])
       (s\<lparr>errno := e, world := w\<rparr>)"
  using assms
  by (cases q) (simp_all add: Pptsname_def call_c_def run_simps sys_def at_simps error_values_def pushstringresult_run)

lemma give_up_run:
  assumes "counts_fds openfds P" "openfds (world s) = insert a F" "a \<notin> F"
  shows "\<exists>s'. thn (call_c (Pclose E (pty_close P)) [LInt (of_cint a)])
      (ret [LNil, argn 2 (error_values E q e), argn 3 (error_values E q e)]) s = Ok (error_values E q e) s' \<and>
    openfds (world s') = F"
proof -
  obtain c e' w where c: "pty_close P a (errno s) (world s) = (c, e', w)" by (metis surj_pair)
  then have "openfds w = F" using counts_fdsD(6) [OF assms(1) c] assms(2,3) by auto
  with c show ?thesis by (simp add: run_simps close_call.runs args_fd_one error_values_def)
qed

lemma result_fails: "result_values E q (-1) e = error_values E q e"
  by (simp add: result_values_def)

lemma result_ok: "i \<noteq> -1 \<Longrightarrow> result_values E q i e = [LInt (of_cint i)]"
  by (simp add: result_values_def)

lemma argn_error [simp]: "argn (Suc 0) (error_values E q e) = LNil"
  by (simp add: error_values_def)

text \<open>What \<open>openpty\<close> does once the master is open; its last step separately.\<close>

definition pty_outcome :: "env \<Rightarrow> ('w \<Rightarrow> cint set) \<Rightarrow> cint set \<Rightarrow> ('w, lvalue list) out \<Rightarrow> bool" where
  "pty_outcome E openfds F r \<longleftrightarrow> (\<exists>vs s'. r = Ok vs s' \<and>
    ((\<exists>a b name. vs = [LInt (of_cint a), LInt (of_cint b), LStr name] \<and> a \<noteq> b \<and> a \<noteq> -1 \<and> b \<noteq> -1 \<and>
        a \<notin> F \<and> b \<notin> F \<and> openfds (world s') = insert a (insert b F)) \<or>
     (\<exists>q e. vs = error_values E q e) \<and> openfds (world s') = F))"

lemma openpty_slave:
  assumes "counts_fds openfds P" "a \<notin> F" "openfds w3 = insert a F" "a \<noteq> -1" "g \<noteq> -1" "u \<noteq> -1"
    and r0: "os_open2 P ''/dev/ptmx'' (to_cint (bor f [n])) (errno s) (world s) = (a, e0, w0)"
    and r1: "os_grantpt P a e0 w0 = (g, e1, w1)" and r2: "os_unlockpt P a e1 w1 = (u, e2, w2)"
    and r3: "os_ptsname P a e2 w2 = (Some x, e3, w3)"
  shows "pty_outcome E openfds F (Popenpty E P f n args s)"
proof -
  let ?f = "bor f [n]"
  note law = counts_fdsD [OF assms(1)]
  have pts: "call_c (Pptsname E (os_ptsname P)) [LInt (of_cint a)] (s\<lparr>errno := e2, world := w2\<rparr>) =
      Ok [LStr (cstr x)] (s\<lparr>errno := e3, world := w3\<rparr>)"
    using ptsname_run [of "os_ptsname P" a "s\<lparr>errno := e2, world := w2\<rparr>" "Some x" e3 w3 E] r3 by simp
  note steps = r0 r1 r2 r3 pts run_simps Let_def openpt.runs grantpt.runs unlockpt.runs args_fd_one result_fails
    result_ok assms(4-6)
  obtain b e4 w4 where r4: "os_open P (cstr x) (to_cint ?f) 511 e3 w3 = (b, e4, w4)" by (metis surj_pair)
  show ?thesis
  proof (cases "b = -1")
    case True
    then have "openfds w4 = insert a F" using law(2) [OF r4] assms(3) by simp
    then show ?thesis
      using True give_up_run [OF assms(1) _ assms(2), where E = E and s = "s\<lparr>errno := e4, world := w4\<rparr>"
          and q = "Some (cstr x)" and e = e4]
      by (auto simp: pty_outcome_def Popenpty_def steps open_call.runs args_open_two r4)
  next
    case False
    then have "b \<notin> insert a F" "openfds w4 = insert b (insert a F)" using law(2) [OF r4] assms(3) by simp_all
    moreover have "Popenpty E P f n args s =
        Ok [LInt (of_cint a), LInt (of_cint b), LStr (cstr x)] (s\<lparr>errno := e4, world := w4\<rparr>)"
      using False by (simp add: Popenpty_def steps open_call.runs args_open_two r4)
    ultimately show ?thesis
      unfolding pty_outcome_def using False assms(2,4)
      by (intro exI conjI disjI1) (assumption | simp add: insert_commute | blast)+
  qed
qed

lemma openpty_opened:
  assumes "counts_fds openfds P" and a: "a \<noteq> -1"
    and r0: "os_open2 P ''/dev/ptmx'' (to_cint (bor f [n])) (errno s) (world s) = (a, e0, w0)"
  shows "pty_outcome E openfds (openfds (world s)) (Popenpty E P f n args s)"
proof -
  note law = counts_fdsD [OF assms(1)]
  let ?F = "openfds (world s)"
  obtain g e1 w1 where r1: "os_grantpt P a e0 w0 = (g, e1, w1)" by (metis surj_pair)
  obtain u e2 w2 where r2: "os_unlockpt P a e1 w1 = (u, e2, w2)" by (metis surj_pair)
  obtain q e3 w3 where r3: "os_ptsname P a e2 w2 = (q, e3, w3)" by (metis surj_pair)
  have F: "a \<notin> ?F" "openfds w0 = insert a ?F" "openfds w1 = insert a ?F" "openfds w2 = insert a ?F"
      "openfds w3 = insert a ?F"
    using law(1) [OF r0] law(3) [OF r1] law(4) [OF r2] law(5) [OF r3] a by auto
  note up = give_up_run [OF assms(1) _ F(1), where E = E]
  have pts: "call_c (Pptsname E (os_ptsname P)) [LInt (of_cint a)] (s\<lparr>errno := e2, world := w2\<rparr>) =
      Ok (case q of None \<Rightarrow> error_values E (Some ''getptsname'') e3 | Some x \<Rightarrow> [LStr (cstr x)])
         (s\<lparr>errno := e3, world := w3\<rparr>)"
    using ptsname_run [of "os_ptsname P" a "s\<lparr>errno := e2, world := w2\<rparr>" q e3 w3 E] r3 by simp
  note steps = r0 r1 r2 r3 pts run_simps Let_def openpt.runs grantpt.runs unlockpt.runs args_fd_one result_fails
    result_ok a
  consider (grant) "g = -1" | (unlock) "g \<noteq> -1" "u = -1" | (name) "g \<noteq> -1" "u \<noteq> -1" "q = None"
    | (slave) x where "g \<noteq> -1" "u \<noteq> -1" "q = Some x"
    by (cases q) blast+
  then show ?thesis
  proof cases
    case grant
    then show ?thesis
      using up [of "s\<lparr>errno := e1, world := w1\<rparr>" "Some ''grantpt''" e1] F(3)
      by (auto simp: pty_outcome_def Popenpty_def steps)
  next
    case unlock
    then show ?thesis
      using up [of "s\<lparr>errno := e2, world := w2\<rparr>" "Some ''unlockpt''" e2] F(4)
      by (auto simp: pty_outcome_def Popenpty_def steps)
  next
    case name
    then show ?thesis
      using up [of "s\<lparr>errno := e3, world := w3\<rparr>" "Some ''getptsname''" e3] F(5)
      by (auto simp: pty_outcome_def Popenpty_def steps)
  next
    case (slave x)
    then show ?thesis
      using openpty_slave [OF assms(1) F(1) F(5) a _ _ r0 r1 r2] r3 by blast
  qed
qed

text \<open>
  Property C36: \<open>openpty\<close> never leaks a descriptor.  It either returns the master, the slave and the name of
  the slave, and exactly these two descriptors are open in addition to those before, or it returns nil
  with the message and the number of the error of the step that failed, and the open descriptors are those
  before, whichever of its five steps fails.
\<close>

theorem openpty_no_leak:
  assumes "counts_fds openfds P"
  shows "\<exists>vs s'. Popenpty E P f n args s = Ok vs s' \<and>
    ((\<exists>a b name. vs = [LInt (of_cint a), LInt (of_cint b), LStr name] \<and> a \<noteq> b \<and> a \<noteq> -1 \<and> b \<noteq> -1 \<and>
        a \<notin> openfds (world s) \<and> b \<notin> openfds (world s) \<and>
        openfds (world s') = insert a (insert b (openfds (world s)))) \<or>
     (\<exists>q e. vs = error_values E q e) \<and> openfds (world s') = openfds (world s))"
proof -
  let ?F = "openfds (world s)"
  obtain a e0 w0 where r0: "os_open2 P ''/dev/ptmx'' (to_cint (bor f [n])) (errno s) (world s) = (a, e0, w0)"
    by (metis surj_pair)
  show ?thesis
  proof (cases "a = -1")
    case True
    have "Popenpty E P f n args s = Ok (error_values E None e0) (s\<lparr>errno := e0, world := w0\<rparr>)"
      using r0 True
      by (simp add: Popenpty_def run_simps Let_def openpt.runs args_fd_one result_fails) (simp add: error_values_def)
    then show ?thesis using counts_fdsD(1) [OF assms r0] True by auto
  next
    case False
    from openpty_opened [OF assms this r0] show ?thesis by (simp only: pty_outcome_def)
  qed
qed


text \<open>A kernel with three free descriptors, whose \<open>grantpt\<close> may refuse.\<close>

definition sample_open :: "cint list \<Rightarrow> cint" where
  "sample_open w = (if 3 \<notin> set w then 3 else if 4 \<notin> set w then 4 else -1)"

definition sample_pty :: "bool \<Rightarrow> cint list ptyapi" where
  "sample_pty ok = \<lparr>
     os_open2 = (\<lambda>p f e w. let r = sample_open w in (r, if r = -1 then 24 else e, if r = -1 then w else r # w)),
     os_grantpt = (\<lambda>a e w. if ok then (0, e, w) else (-1, 13, w)),
     os_unlockpt = (\<lambda>a e w. (0, e, w)),
     os_ptsname = (\<lambda>a e w. (Some ''/dev/pts/0'', e, w)),
     os_open = (\<lambda>p f m e w. let r = sample_open w in (r, if r = -1 then 24 else e, if r = -1 then w else r # w)),
     pty_close = (\<lambda>a e w. (0, e, filter (\<lambda>x. x \<noteq> a) w))\<rparr>"

lemma sample_pty_counts: "counts_fds set (sample_pty ok)"
  by (auto simp: counts_fds_def sample_pty_def sample_open_def Let_def)

theorem openpty_no_leak_witness:
  "\<exists>vs s'. Popenpty sample_env (sample_pty False) 2 256 [] (sample_state [0, 1, 2]) = Ok vs s' \<and>
    ((\<exists>a b name. vs = [LInt (of_cint a), LInt (of_cint b), LStr name] \<and> a \<noteq> b \<and> a \<noteq> -1 \<and> b \<noteq> -1 \<and>
        a \<notin> {0, 1, 2} \<and> b \<notin> {0, 1, 2} \<and> set (world s') = insert a (insert b {0, 1, 2})) \<or>
     (\<exists>q e. vs = error_values sample_env q e) \<and> set (world s') = {0, 1, 2})"
  using openpty_no_leak [OF sample_pty_counts, of sample_env False 2 256 "[]" "sample_state [0, 1, 2]"]
  by (simp add: sample_state_def)

section \<open>euidaccess\<close>

lemma nat_dec_digits: "set (nat_dec n) \<subseteq> set ''0123456789''"
proof (induction n rule: nat_dec.induct)
  case (1 n)
  have d: "''0123456789'' ! k \<in> set ''0123456789''" if "k < 10" for k
    using that by (intro nth_mem) simp
  show ?case
    using 1 d [of n] d [of "n mod 10"] by (subst nat_dec.simps) (simp del: nth_Cons_numeral)
qed

lemma int_str_no_letter: "x \<notin> set ''-0123456789'' \<Longrightarrow> x \<notin> set (int_str n)"
  using nat_dec_digits by (fastforce simp: int_str_def int_dec_def split: if_splits)

lemma int_str_no_x: "\<not> match_in (int_str n) [One (OneOf ''x'')]"
  using int_str_no_letter [of "CHR ''x''" n] by (auto simp: match_one)

text \<open>Calls that return the ids of the process and change nothing.\<close>

definition ids_are :: "'w idapi \<Rightarrow> cint \<Rightarrow> cint \<Rightarrow> cint \<Rightarrow> cint \<Rightarrow> bool" where
  "ids_are P eu eg ru rg \<longleftrightarrow> os_geteuid P = (\<lambda>e w. (eu, e, w)) \<and> os_getegid P = (\<lambda>e w. (eg, e, w)) \<and>
     os_getuid P = (\<lambda>e w. (ru, e, w)) \<and> os_getgid P = (\<lambda>e w. (rg, e, w))"

lemma id_runs:
  assumes "ids_are P eu eg ru rg"
  shows "call_c (Pgeteuid (os_geteuid P)) [] s = Ok [LInt (of_cuint eu)] s"
    "call_c (Pgetegid (os_getegid P)) [] s = Ok [LInt (of_cuint eg)] s"
    "call_c (Pgetuid (os_getuid P)) [] s = Ok [LInt (of_cuint ru)] s"
    "call_c (Pgetgid (os_getgid P)) [] s = Ok [LInt (of_cuint rg)] s"
  using assms
  by (simp_all add: ids_are_def Pgeteuid_def Pgetegid_def Pgetuid_def Pgetgid_def call_c_def run_simps
      sys_def checknargs_run pushintegerresult_run)

lemma of_cuint_eq: "of_cuint a = of_cuint b \<longleftrightarrow> a = b"
  by (metis to_of_cuint)

lemma of_cuint_0: "of_cuint 0 = 0"
  by (simp add: of_cuint_def)

text \<open>
  Property C38: in a process whose effective ids are not its real ones, \<open>euidaccess\<close> never looks at the
  permissions of the file.  For a file that cannot be looked up it returns nothing; it grants the access
  when the mode names none of \<open>rwx\<close>, or when the process is the super-user's and the mode does not name
  \<open>x\<close>; every other call raises an error, whatever the permissions and the owner of the file.
\<close>

theorem euidaccess_never_decides:
  assumes "ids_are P eu eg ru rg" "eu \<noteq> ru \<or> eg \<noteq> rg"
    and "os_stat P (cstr file) (errno s) (world s) = (r, e, w)"
  shows "if fst r = -1 then
      Peuidaccess E T M P [LStr file, LStr mode] s = Ok [] (s\<lparr>errno := e, world := w\<rparr>)
    else if eu = 0 \<and> CHR ''x'' \<notin> set mode \<or> set mode \<inter> set ''rwx'' = {} then
      \<exists>s'. Peuidaccess E T M P [LStr file, LStr mode] s = Ok [LInt 0] s'
    else \<exists>x s'. Peuidaccess E T M P [LStr file, LStr mode] s = Err x s'"
proof -
  let ?s = "s\<lparr>errno := e, world := w\<rparr>"
  have x: "match_in mode [One (OneOf ''x'')] \<longleftrightarrow> CHR ''x'' \<in> set mode"
    by (auto simp: match_one)
  have none: "gsub_drop (NoneOf ''rwx'') mode = [] \<longleftrightarrow> set mode \<inter> set ''rwx'' = {}"
    by (auto simp: gsub_drop_def filter_empty_conv)
  have eu: "of_cuint eu = 0 \<longleftrightarrow> eu = 0"
    using of_cuint_eq [of eu 0] by (simp add: of_cuint_0)
  have stat: "call_c (Pstat E (os_stat P)) [LStr file] s = stat_result E (cstr file) r ?s"
    using stat_runs(1) [where c = "os_stat P", OF args_path_one assms(3)] by simp
  have other: "ru = eu \<longrightarrow> rg \<noteq> eg" using assms(2) by auto
  show ?thesis
  proof (cases "fst r = -1")
    case True
    then show ?thesis
      using other
      by (simp add: Peuidaccess_def Let_def run_simps id_runs [OF assms(1)] of_cuint_eq stat stat_result_def)
  next
    case False
    note evs = Peuidaccess_def Let_def run_simps id_runs [OF assms(1)] of_cuint_eq stat stat_result_def
      st_mode_field str_operand_def int_str_no_x x none eu of_cuint_0 False
    show ?thesis
      using other by (auto simp: evs)
  qed
qed


definition sample_ids :: "unit idapi" where
  "sample_ids = \<lparr>os_geteuid = (\<lambda>e w. (0, e, w)), os_getegid = (\<lambda>e w. (0, e, w)),
     os_getuid = (\<lambda>e w. (1000, e, w)), os_getgid = (\<lambda>e w. (0, e, w)),
     os_access = (\<lambda>p m e w. (0, e, w)), os_stat = (\<lambda>p e w. ((0, sample_buf), e, w))\<rparr>"

definition sample_modes :: access_modes where
  "sample_modes = \<lparr>F_OK = 0, R_OK = 4, W_OK = 2, X_OK = 1\<rparr>"

theorem euidaccess_never_decides_witness:
  "(\<exists>s'. Peuidaccess sample_env sample_texts sample_modes sample_ids [LStr ''f'', LStr ''rw''] (sample_state ()) = Ok [LInt 0] s') \<and>
   (\<exists>x s'. Peuidaccess sample_env sample_texts sample_modes sample_ids [LStr ''f'', LStr ''x''] (sample_state ()) = Err x s')"
proof -
  have ids: "ids_are sample_ids 0 0 1000 0" by (simp add: ids_are_def sample_ids_def)
  have st: "os_stat sample_ids (cstr ''f'') (errno (sample_state ())) (world (sample_state ())) =
      ((0, sample_buf), 0, ())"
    by (simp add: sample_ids_def sample_state_def)
  show ?thesis
    using euidaccess_never_decides [OF ids _ st, of sample_env sample_texts sample_modes "''rw''"]
      euidaccess_never_decides [OF ids _ st, of sample_env sample_texts sample_modes "''x''"] by simp
qed

end
