(* ===== verification/LuaTimers.thy ===== *)
theory LuaTimers
  imports LuaBase
begin

text \<open>
  The arithmetic on time values of \<^verbatim>\<open>lib/posix/init.lua\<close>: \<open>timeradd\<close>, \<open>timersub\<close> and \<open>timercmp\<close>.
  A time value is a table with the fields \<open>tv_sec\<close> and \<open>tv_usec\<close>, as \<open>gettimeofday\<close> returns, or \<open>sec\<close>
  and \<open>usec\<close>, as these functions return.  The fields are integers, numerals or absent; arithmetic
  on floats is not modelled.
\<close>

section \<open>Fields\<close>

text \<open>\<open>tonumber (v) or 0\<close>\<close>

definition number_or_0 :: "env \<Rightarrow> lvalue \<Rightarrow> ('w, lint) lm" where
  "number_or_0 E v = (case v of
      LInt n \<Rightarrow> ret n
    | LStr x \<Rightarrow> ret (case str2int E x of Some n \<Rightarrow> n | None \<Rightarrow> 0)
    | LFlt f \<Rightarrow> throw (Undefined ''float arithmetic is not modelled'')
    | _ \<Rightarrow> ret 0)"

text \<open>An operand of \<open>-\<close>.\<close>

definition minus_operand :: "env \<Rightarrow> lua_texts \<Rightarrow> lvalue \<Rightarrow> ('w, lint) lm" where
  "minus_operand E T v = (case v of
      LFlt f \<Rightarrow> throw (Undefined ''float arithmetic is not modelled'')
    | _ \<Rightarrow> int_operand E T v)"

text \<open>Both fields of a time value, under the names that are there.\<close>

definition time_fields :: "env \<Rightarrow> lua_texts \<Rightarrow> lvalue \<Rightarrow> ('w, lint \<times> lint) lm" where
  "time_fields E T x =
     bnd (get_field T x ''tv_sec'') (\<lambda>tv_sec.
     bnd (get_field T x ''tv_usec'') (\<lambda>tv_usec.
     if truthy tv_sec \<or> truthy tv_usec then
       bnd (number_or_0 E tv_sec) (\<lambda>sec. bnd (number_or_0 E tv_usec) (\<lambda>usec. ret (sec, usec)))
     else
       bnd (get_field T x ''sec'') (\<lambda>sec.
       bnd (get_field T x ''usec'') (\<lambda>usec.
       bnd (number_or_0 E sec) (\<lambda>sec. bnd (number_or_0 E usec) (\<lambda>usec. ret (sec, usec)))))))"

text \<open>A table constructor.\<close>

definition make_table :: "ltable \<Rightarrow> ('w, lvalue) lm" where
  "make_table t s = Ok (LTab (ntab s))
     (s\<lparr>ntab := Suc (ntab s), tabs := (tabs s)(ntab s := t), metas := (metas s)(ntab s := None)\<rparr>)"

definition time_table :: "lint \<Rightarrow> lint \<Rightarrow> ltable" where
  "time_table sec usec = [(LStr ''sec'', LInt sec), (LStr ''usec'', LInt usec)]"

section \<open>The operations\<close>

lemma sint_carry: "1000000 < sint (u :: lint) \<Longrightarrow> sint (u - 1000000) = sint u - 1000000"
  using sint_less [of u] by (subst sint_minus) (simp_all add: in_lint_def)

lemma sint_borrow: "sint (u :: lint) < 0 \<Longrightarrow> sint (u + 1000000) = sint u + 1000000"
  using sint_ge [of u] by (subst sint_plus) (simp_all add: in_lint_def)

function carry :: "lint \<Rightarrow> lint \<Rightarrow> lint \<times> lint" where
  "carry sec usec = (if 1000000 <s usec then carry (sec + 1) (usec - 1000000) else (sec, usec))"
  by pat_completeness auto

termination
  by (relation "measure (\<lambda>(sec, usec). nat (sint usec))") (auto simp: word_sless_alt sint_carry)

function borrow :: "lint \<Rightarrow> lint \<Rightarrow> lint \<times> lint" where
  "borrow sec usec = (if usec <s 0 then borrow (sec - 1) (usec + 1000000) else (sec, usec))"
  by pat_completeness auto

termination
  by (relation "measure (\<lambda>(sec, usec). nat (- sint usec))") (auto simp: word_sless_alt sint_borrow)

declare carry.simps [simp del] borrow.simps [simp del]

definition Ptimeradd :: "env \<Rightarrow> lua_texts \<Rightarrow> 'w luafn" where
  "Ptimeradd E T args =
     bnd (time_fields E T (argn 1 args)) (\<lambda>(xs, xu).
     bnd (time_fields E T (argn 2 args)) (\<lambda>(ys, yu).
     let (sec, usec) = carry (0 + xs + ys) (0 + xu + yu)
     in bnd (make_table (time_table sec usec)) (\<lambda>t. ret [t])))"

definition Ptimersub :: "env \<Rightarrow> lua_texts \<Rightarrow> 'w luafn" where
  "Ptimersub E T args =
     bnd (time_fields E T (argn 1 args)) (\<lambda>(xs, xu).
     bnd (time_fields E T (argn 2 args)) (\<lambda>(ys, yu).
     let (sec, usec) = borrow (xs - ys) (xu - yu)
     in bnd (make_table (time_table sec usec)) (\<lambda>t. ret [t])))"

text \<open>\<open>a or b\<close>\<close>

definition either :: "lvalue \<Rightarrow> lvalue \<Rightarrow> lvalue" where
  "either a b = (if truthy a then a else b)"

text \<open>Both locals \<open>x\<close> and \<open>y\<close> hold new tables; \<open>~=\<close> compares the values, \<open>-\<close> needs numbers.\<close>

definition cmp_fields :: "lua_texts \<Rightarrow> lvalue \<Rightarrow> ('w, lvalue \<times> lvalue) lm" where
  "cmp_fields T x =
     bnd (get_field T x ''tv_sec'') (\<lambda>tv_sec. bnd (get_field T x ''sec'') (\<lambda>sec.
     bnd (get_field T x ''tv_usec'') (\<lambda>tv_usec. bnd (get_field T x ''usec'') (\<lambda>usec.
     ret (either (either tv_sec sec) (LInt 0), either (either tv_usec usec) (LInt 0))))))"

definition Ptimercmp :: "env \<Rightarrow> lua_texts \<Rightarrow> 'w luafn" where
  "Ptimercmp E T args =
     bnd (cmp_fields T (argn 1 args)) (\<lambda>(xs, xu).
     bnd (cmp_fields T (argn 2 args)) (\<lambda>(ys, yu).
     if xs \<noteq> ys then
       bnd (minus_operand E T xs) (\<lambda>a. bnd (minus_operand E T ys) (\<lambda>b. ret [LInt (a - b)]))
     else
       bnd (minus_operand E T xu) (\<lambda>a. bnd (minus_operand E T yu) (\<lambda>b. ret [LInt (a - b)]))))"

section \<open>Time values\<close>

text \<open>A table that holds a time, under either pair of names.\<close>

definition holds_time :: "ltable \<Rightarrow> lint \<Rightarrow> lint \<Rightarrow> bool" where
  "holds_time t sec usec \<longleftrightarrow>
     tbl_get t (LStr ''tv_sec'') = LInt sec \<and> tbl_get t (LStr ''tv_usec'') = LInt usec \<or>
     tbl_get t (LStr ''tv_sec'') = LNil \<and> tbl_get t (LStr ''tv_usec'') = LNil \<and>
     tbl_get t (LStr ''sec'') = LInt sec \<and> tbl_get t (LStr ''usec'') = LInt usec"

definition micros :: "lint \<Rightarrow> bool" where
  "micros u \<longleftrightarrow> 0 \<le> sint u \<and> sint u < 1000000"

lemma time_fields_run:
  "holds_time (tabs s a) sec usec \<Longrightarrow> time_fields E T (LTab a) s = Ok (sec, usec) s"
  by (auto simp: holds_time_def time_fields_def run_simps number_or_0_def)

lemma holds_time_table: "holds_time (time_table sec usec) sec usec"
  by (simp add: holds_time_def time_table_def tbl_get_def)

lemma cmp_fields_run:
  "holds_time (tabs s a) sec usec \<Longrightarrow> tbl_get (tabs s a) (LStr ''sec'') \<in> {LNil, LInt sec} \<Longrightarrow>
   cmp_fields T (LTab a) s = Ok (LInt sec, LInt usec) s"
  by (auto simp: holds_time_def cmp_fields_def run_simps either_def)

lemma make_table_run:
  "make_table t s = Ok (LTab (ntab s))
     (s\<lparr>ntab := Suc (ntab s), tabs := (tabs s)(ntab s := t), metas := (metas s)(ntab s := None)\<rparr>)"
  by (simp add: make_table_def)

definition with_time :: "lint \<times> lint \<Rightarrow> 'w lst \<Rightarrow> 'w lst" where
  "with_time t s = s\<lparr>ntab := Suc (ntab s), tabs := (tabs s)(ntab s := time_table (fst t) (snd t)),
     metas := (metas s)(ntab s := None)\<rparr>"

lemma timeradd_run:
  assumes "holds_time (tabs s a) xs xu" "holds_time (tabs s b) ys yu"
  shows "Ptimeradd E T [LTab a, LTab b] s =
    Ok [LTab (ntab s)] (with_time (carry (xs + ys) (xu + yu)) s)"
  using assms
  by (simp add: Ptimeradd_def run_simps time_fields_run make_table_run with_time_def split: prod.splits)

lemma timersub_run:
  assumes "holds_time (tabs s a) xs xu" "holds_time (tabs s b) ys yu"
  shows "Ptimersub E T [LTab a, LTab b] s =
    Ok [LTab (ntab s)] (with_time (borrow (xs - ys) (xu - yu)) s)"
  using assms
  by (simp add: Ptimersub_def run_simps time_fields_run make_table_run with_time_def split: prod.splits)

lemma sint_micros_plus: "micros u \<Longrightarrow> micros v \<Longrightarrow> sint (u + v) = sint u + sint v"
  by (rule sint_plus) (simp add: micros_def in_lint_def)

lemma sint_micros_minus: "0 \<le> sint u \<Longrightarrow> micros v \<Longrightarrow> sint (u - v) = sint u - sint v"
  using sint_less [of u] by (intro sint_minus) (simp add: micros_def in_lint_def)

lemma carry_micros:
  assumes "micros u" "micros v"
  shows "carry sec (u + v) =
    (if 1000000 < sint u + sint v then (sec + 1, u + v - 1000000) else (sec, u + v))"
proof (cases "1000000 < sint u + sint v")
  case True
  then have "1000000 < sint (u + v)" by (simp add: sint_micros_plus assms)
  moreover from this have "\<not> 1000000 < sint (u + v - 1000000)"
    using assms by (simp add: sint_carry sint_micros_plus micros_def)
  ultimately show ?thesis using True
    by (simp add: carry.simps [of _ "u + v"] carry.simps [of _ "u + v - 1000000"] word_sless_alt)
next
  case False
  then show ?thesis
    by (simp add: carry.simps [of _ "u + v"] word_sless_alt sint_micros_plus assms)
qed

lemma borrow_carry:
  assumes "micros u" "micros v"
  shows "borrow (fst (carry (x + y) (u + v)) - y) (snd (carry (x + y) (u + v)) - v) = (x, u)"
proof (cases "1000000 < sint u + sint v")
  case True
  have "sint (u - 1000000) = sint u - 1000000"
    using assms by (subst sint_minus) (simp_all add: micros_def in_lint_def)
  moreover have "u + v - 1000000 - v = u - 1000000" by simp
  ultimately have "borrow (x + y + 1 - y) (u + v - 1000000 - v) = borrow x u"
    using assms by (subst borrow.simps) (simp add: word_sless_alt micros_def)
  moreover have "borrow x u = (x, u)"
    using assms by (subst borrow.simps) (simp add: word_sless_alt micros_def)
  ultimately show ?thesis using True by (simp only: carry_micros [OF assms] if_True fst_conv snd_conv)
next
  case False
  have "borrow x u = (x, u)"
    using assms by (subst borrow.simps) (simp add: word_sless_alt micros_def)
  then show ?thesis using False by (simp add: carry_micros assms)
qed

text \<open>
  Property C37: \<open>timeradd\<close> adds two time values and \<open>timersub\<close> undoes it.  For every pair of time values with
  microseconds in range, under the names of \<open>gettimeofday\<close> or of this module, the table of \<open>timeradd\<close> has
  the sum of the seconds and of the microseconds, with one second carried exactly when there are more
  than a million microseconds, so that at most a million are left (a full second of them is not
  carried); \<open>timersub\<close> of that table and the second value gives the seconds and microseconds of the
  first.  The seconds may even wrap.
\<close>

theorem timer_roundtrip:
  assumes "holds_time (tabs s a) xs xu" "holds_time (tabs s b) ys yu" "micros xu" "micros yu"
    and "b < ntab s"
  shows "\<exists>n m s' s''. Ptimeradd E T [LTab a, LTab b] s = Ok [LTab n] s' \<and>
    holds_time (tabs s' n)
      (if 1000000 < sint xu + sint yu then xs + ys + 1 else xs + ys)
      (word_of_int (if 1000000 < sint xu + sint yu then sint xu + sint yu - 1000000 else sint xu + sint yu)) \<and>
    Ptimersub E T [LTab n, LTab b] s' = Ok [LTab m] s'' \<and> holds_time (tabs s'' m) xs xu"
proof -
  let ?c = "carry (xs + ys) (xu + yu)" and ?n = "ntab s"
  let ?s = "with_time ?c s"
  have "holds_time (tabs ?s ?n) (fst ?c) (snd ?c)" "holds_time (tabs ?s b) ys yu"
    using assms by (simp_all add: with_time_def holds_time_table)
  note sub = timersub_run [OF this, of E T]
  let ?t = "with_time (borrow (fst ?c - ys) (snd ?c - yu)) ?s"
  have "?c = (if 1000000 < sint xu + sint yu then xs + ys + 1 else xs + ys,
      word_of_int (if 1000000 < sint xu + sint yu then sint xu + sint yu - 1000000 else sint xu + sint yu))"
    by (simp add: carry_micros assms(3,4))
  then have "holds_time (tabs ?s ?n) (if 1000000 < sint xu + sint yu then xs + ys + 1 else xs + ys)
      (word_of_int (if 1000000 < sint xu + sint yu then sint xu + sint yu - 1000000 else sint xu + sint yu))"
    using holds_time_table by (simp only: with_time_def fst_conv snd_conv) (simp add: holds_time_table)
  moreover have "holds_time (tabs ?t (ntab ?s)) xs xu"
    by (simp add: borrow_carry assms(3,4)) (simp add: with_time_def holds_time_table)
  ultimately show ?thesis using timeradd_run [OF assms(1,2), of E T] sub by blast
qed

definition timers_sample :: "unit lst" where
  "timers_sample = (sample_state ())\<lparr>tabs := (\<lambda>a. if a = 0
       then [(LStr ''tv_sec'', LInt 7), (LStr ''tv_usec'', LInt 600000)]
       else [(LStr ''sec'', LInt 2), (LStr ''usec'', LInt 500000)]), ntab := 2\<rparr>"

theorem timer_roundtrip_witness:
  "\<exists>n m s' s''. Ptimeradd sample_env sample_texts [LTab 0, LTab 1] timers_sample = Ok [LTab n] s' \<and>
    holds_time (tabs s' n) 10 100000 \<and>
    Ptimersub sample_env sample_texts [LTab n, LTab 1] s' = Ok [LTab m] s'' \<and> holds_time (tabs s'' m) 7 600000"
  using timer_roundtrip [of timers_sample 0 7 600000 1 2 500000 sample_env sample_texts]
  by (simp add: timers_sample_def holds_time_def tbl_get_def micros_def)

text \<open>
  The sum of two times keeps its value, but one of a whole second of microseconds is not carried, and
  \<open>timercmp\<close> takes it for less than the time it equals.
\<close>

lemma carry_value:
  assumes "micros u" "micros v"
  shows "sint (snd (carry sec (u + v))) \<le> 1000000"
    "snd (carry sec (u + v)) = 1000000 \<longleftrightarrow> sint u + sint v = 1000000"
proof -
  have *: "sint (u + v) = sint u + sint v" by (rule sint_micros_plus [OF assms])
  have eq: "w = 1000000 \<longleftrightarrow> sint w = 1000000" for w :: lint
    using signed_word_eqI [of w 1000000] by auto
  show "sint (snd (carry sec (u + v))) \<le> 1000000"
    using assms by (simp add: carry_micros * sint_carry micros_def)
  show "snd (carry sec (u + v)) = 1000000 \<longleftrightarrow> sint u + sint v = 1000000"
    using assms by (simp add: carry_micros eq * sint_carry micros_def)
qed

lemma timercmp_run:
  assumes "cmp_fields T (LTab a) s = Ok (LInt xs, LInt xu) s" "cmp_fields T (LTab b) s = Ok (LInt ys, LInt yu) s"
  shows "Ptimercmp E T [LTab a, LTab b] s = Ok [LInt (if xs \<noteq> ys then xs - ys else xu - yu)] s"
  using assms by (simp add: Ptimercmp_def run_simps minus_operand_def)

lemma timeradd_not_carried:
  assumes "holds_time (tabs s a) 0 500000" "holds_time (tabs s b) 1 0" "b < ntab s"
    "tbl_get (tabs s b) (LStr ''sec'') \<in> {LNil, LInt 1}"
  shows "\<exists>s'. Ptimeradd E T [LTab a, LTab a] s = Ok [LTab (ntab s)] s' \<and>
    holds_time (tabs s' (ntab s)) 0 1000000 \<and>
    Ptimercmp E T [LTab (ntab s), LTab b] s' = Ok [LInt (-1)] s'"
proof -
  let ?s = "with_time (0, 1000000) s"
  have "carry 0 1000000 = (0, 1000000)" by (simp add: carry.simps)
  then have "Ptimeradd E T [LTab a, LTab a] s = Ok [LTab (ntab s)] ?s"
    using timeradd_run [OF assms(1,1), of E T] by simp
  moreover have "holds_time (tabs ?s (ntab s)) 0 1000000"
    by (simp add: with_time_def holds_time_table)
  moreover have "cmp_fields T (LTab (ntab s)) ?s = Ok (LInt 0, LInt 1000000) ?s"
    by (rule cmp_fields_run) (simp_all add: with_time_def holds_time_table, simp add: time_table_def tbl_get_def)
  moreover have "cmp_fields T (LTab b) ?s = Ok (LInt 1, LInt 0) ?s"
    using assms(2-4) by (intro cmp_fields_run) (simp_all add: with_time_def)
  ultimately show ?thesis using timercmp_run [of T "ntab s" ?s 0 1000000 b 1 0 E] by auto
qed

end
