(* ===== verification/Time.thy ===== *)
theory Time
  imports Marshal Modules
begin

text \<open>
  \<^verbatim>\<open>ext/posix/time.c\<close>: the structures \<open>timespec\<close> and \<open>tm\<close> as tables, both ways, and the calls
  that use them.  Whether the host's \<open>struct tm\<close> has \<open>tm_gmtoff\<close> and \<open>tm_zone\<close>
  (\<open>HAVE_TM_GMTOFF\<close>, \<open>HAVE_TM_ZONE\<close>) are the flags \<open>G\<close> and \<open>Z\<close>; an absent member stays 0.
\<close>

section \<open>Time as tables\<close>

record timespec =
  tv_sec :: lint
  tv_nsec :: lint

definition Stimespec_fields :: "string list" where
  "Stimespec_fields = [''tv_sec'', ''tv_nsec'']"

definition totimespec :: "env \<Rightarrow> int \<Rightarrow> ('w, timespec) lm" where
  "totimespec E index =
     thn (luaL_checktype index TTABLE)
    (bnd (optintegerfield E index ''tv_sec'' 0) (\<lambda>sec.
     bnd (optlongfield E index ''tv_nsec'' 0) (\<lambda>nsec.
     thn (checkfieldnames E index Stimespec_fields)
         (ret \<lparr>tv_sec = sec, tv_nsec = nsec\<rparr>))))"

definition timespec_members :: "timespec \<Rightarrow> rfield list" where
  "timespec_members ts = [IntF ''tv_sec'' (tv_sec ts), IntF ''tv_nsec'' (tv_nsec ts)]"

definition pushtimespec :: "timespec option \<Rightarrow> ('w, nat) lm" where
  "pushtimespec ts = (case ts of
      None \<Rightarrow> thn lua_pushnil (ret 1)
    | Some t \<Rightarrow> make_record ''PosixTimespec'' (timespec_members t))"

record tm =
  tm_sec :: cint
  tm_min :: cint
  tm_hour :: cint
  tm_mday :: cint
  tm_mon :: cint
  tm_year :: cint
  tm_wday :: cint
  tm_yday :: cint
  tm_isdst :: cint
  tm_gmtoff :: lint
  tm_zone :: "string option"

definition nulltm :: tm where
  "nulltm = \<lparr>tm_sec = 0, tm_min = 0, tm_hour = 0, tm_mday = 0, tm_mon = 0, tm_year = 0,
     tm_wday = 0, tm_yday = 0, tm_isdst = 0, tm_gmtoff = 0, tm_zone = None\<rparr>"

definition Stm_fields :: "string list" where
  "Stm_fields = [
     ''tm_sec'', ''tm_min'', ''tm_hour'', ''tm_mday'', ''tm_mon'', ''tm_year'', ''tm_wday'',
     ''tm_yday'', ''tm_isdst'', ''tm_gmtoff'', ''tm_zone'']"

definition totm :: "env \<Rightarrow> bool \<Rightarrow> bool \<Rightarrow> int \<Rightarrow> ('w, tm) lm" where
  "totm E G Z index =
     thn (luaL_checktype index TTABLE)
    (bnd (optintfield E index ''tm_sec'' 0) (\<lambda>sec.
     bnd (optintfield E index ''tm_min'' 0) (\<lambda>min.
     bnd (optintfield E index ''tm_hour'' 0) (\<lambda>hour.
     bnd (optintfield E index ''tm_mday'' 0) (\<lambda>mday.
     bnd (optintfield E index ''tm_mon'' 0) (\<lambda>mon.
     bnd (optintfield E index ''tm_year'' 0) (\<lambda>year.
     bnd (optintfield E index ''tm_wday'' 0) (\<lambda>wday.
     bnd (optintfield E index ''tm_yday'' 0) (\<lambda>yday.
     bnd (optintfield E index ''tm_isdst'' 0) (\<lambda>isdst.
     bnd (if G then bnd (optintfield E index ''tm_gmtoff'' 0) (\<lambda>g. ret (of_cint g))
          else ret (tm_gmtoff nulltm)) (\<lambda>gmtoff.
     bnd (if Z then optstringfield E index ''tm_zone'' None else ret (tm_zone nulltm)) (\<lambda>zone.
     thn (checkfieldnames E index Stm_fields)
         (ret \<lparr>tm_sec = sec, tm_min = min, tm_hour = hour, tm_mday = mday, tm_mon = mon,
               tm_year = year, tm_wday = wday, tm_yday = yday, tm_isdst = isdst,
               tm_gmtoff = gmtoff, tm_zone = zone\<rparr>)))))))))))))"

definition tm_members :: "bool \<Rightarrow> bool \<Rightarrow> tm \<Rightarrow> rfield list" where
  "tm_members G Z t = [
     IntF ''tm_sec'' (of_cint (tm_sec t)), IntF ''tm_min'' (of_cint (tm_min t)),
     IntF ''tm_hour'' (of_cint (tm_hour t)), IntF ''tm_mday'' (of_cint (tm_mday t)),
     IntF ''tm_mon'' (of_cint (tm_mon t)), IntF ''tm_year'' (of_cint (tm_year t)),
     IntF ''tm_wday'' (of_cint (tm_wday t)), IntF ''tm_yday'' (of_cint (tm_yday t)),
     IntF ''tm_isdst'' (of_cint (tm_isdst t))] @
     (if G then [IntF ''tm_gmtoff'' (tm_gmtoff t)] else []) @
     (if Z then [StrF ''tm_zone'' (tm_zone t)] else [])"

definition pushtm :: "bool \<Rightarrow> bool \<Rightarrow> tm option \<Rightarrow> ('w, nat) lm" where
  "pushtm G Z t = (case t of
      None \<Rightarrow> thn lua_pushnil (ret 1)
    | Some u \<Rightarrow> make_record ''PosixTm'' (tm_members G Z u))"

section \<open>The functions\<close>

definition Pclock_getres :: "env \<Rightarrow> (cint \<Rightarrow> ('w, cint \<times> timespec) sys) \<Rightarrow> ('w, nat) lm" where
  "Pclock_getres E c_clock_getres =
     bnd (checkint E 1) (\<lambda>clk.
     thn (checknargs 1)
    (bnd (sys (c_clock_getres clk)) (\<lambda>r.
     if fst r = -1 then pusherror E (Some ''clock_getres'') else pushtimespec (Some (snd r)))))"

definition Pclock_gettime :: "env \<Rightarrow> (cint \<Rightarrow> ('w, cint \<times> timespec) sys) \<Rightarrow> ('w, nat) lm" where
  "Pclock_gettime E c_clock_gettime =
     bnd (checkint E 1) (\<lambda>clk.
     thn (checknargs 1)
    (bnd (sys (c_clock_gettime clk)) (\<lambda>r.
     if fst r = -1 then pusherror E (Some ''clock_gettime'') else pushtimespec (Some (snd r)))))"

text \<open>\<open>gmtime_r\<close> and \<open>localtime_r\<close> return \<open>None\<close> for \<open>NULL\<close>.\<close>

definition Pgmtime :: "env \<Rightarrow> bool \<Rightarrow> bool \<Rightarrow> (lint \<Rightarrow> ('w, tm option) sys) \<Rightarrow> ('w, nat) lm" where
  "Pgmtime E G Z c_gmtime_r =
     bnd (checklong E 1) (\<lambda>epoch.
     thn (checknargs 1)
    (bnd (sys (c_gmtime_r epoch)) (\<lambda>t.
     if t = None then pusherror E (Some ''gmtime'') else pushtm G Z t)))"

definition Plocaltime :: "env \<Rightarrow> bool \<Rightarrow> bool \<Rightarrow> (lint \<Rightarrow> ('w, tm option) sys) \<Rightarrow> ('w, nat) lm" where
  "Plocaltime E G Z c_localtime_r =
     bnd (checklong E 1) (\<lambda>epoch.
     thn (checknargs 1)
    (bnd (sys (c_localtime_r epoch)) (\<lambda>t.
     if t = None then pusherror E (Some ''localtime'') else pushtm G Z t)))"

definition Pmktime :: "env \<Rightarrow> bool \<Rightarrow> bool \<Rightarrow> (tm \<Rightarrow> ('w, lint) sys) \<Rightarrow> ('w, nat) lm" where
  "Pmktime E G Z c_mktime =
     thn (checknargs 1)
    (bnd (totm E G Z 1) (\<lambda>t.
     bnd (sys (c_mktime t)) (\<lambda>epoch.
     if epoch <s 0 then ret 0 else pushintegerresult epoch)))"

definition Pnanosleep ::
  "env \<Rightarrow> cint \<Rightarrow> (timespec \<Rightarrow> ('w, cint \<times> timespec) sys) \<Rightarrow> ('w, nat) lm" where
  "Pnanosleep E EINTR c_nanosleep =
     bnd (totimespec E 1) (\<lambda>req.
     thn (checknargs 1)
    (bnd (sys (c_nanosleep req)) (\<lambda>a.
     bnd (pushresult E (fst a) (Some ''nanosleep'')) (\<lambda>r.
     bnd (asks errno) (\<lambda>e.
     if r = 3 \<and> e = EINTR
     then bnd (pushtimespec (Some (snd a))) (\<lambda>k. ret (r + k))
     else ret r)))))"

text \<open>
  The result of \<open>strftime\<close> into a buffer of 256 bytes; \<open>None\<close> when it does not fit, the buffer
  then being undefined.
\<close>

definition Pstrftime ::
  "env \<Rightarrow> bool \<Rightarrow> bool \<Rightarrow> (nat \<Rightarrow> string \<Rightarrow> tm \<Rightarrow> ('w, string option) sys) \<Rightarrow> ('w, nat) lm" where
  "Pstrftime E G Z c_strftime =
     bnd (luaL_checkstring E 1) (\<lambda>fmt.
     bnd (totm E G Z 2) (\<lambda>t.
     thn (checknargs 2)
    (bnd (sys (c_strftime 256 fmt t)) (\<lambda>r. case r of
       None \<Rightarrow> raise (Undefined ''undefined buffer contents'')
     | Some tmp \<Rightarrow> pushstringresult (Some tmp)))))"

text \<open>\<open>strptime\<close> returns how many characters it consumed and the time, from the time it is given.\<close>

definition Pstrptime ::
  "env \<Rightarrow> bool \<Rightarrow> bool \<Rightarrow> (string \<Rightarrow> string \<Rightarrow> tm \<Rightarrow> ('w, (nat \<times> tm) option) sys) \<Rightarrow> ('w, nat) lm"
  where
  "Pstrptime E G Z c_strptime =
     bnd (luaL_checkstring E 1) (\<lambda>x.
     bnd (luaL_checkstring E 2) (\<lambda>fmt.
     thn (checknargs 2)
    (bnd (sys (c_strptime x fmt nulltm)) (\<lambda>r. case r of
       None \<Rightarrow> ret 0
     | Some nt \<Rightarrow>
         bnd (pushtm G Z (Some (snd nt))) (\<lambda>_.
         thn (lua_pushinteger (of_nat (fst nt) + 1)) (ret 2))))))"

definition Ptime :: "env \<Rightarrow> ('w, lint) sys \<Rightarrow> ('w, nat) lm" where
  "Ptime E c_time =
     bnd (sys c_time) (\<lambda>t.
     thn (checknargs 0)
    (if t = -1 then pusherror E (Some ''time'') else thn (lua_pushinteger t) (ret 1)))"

section \<open>What the readers accept\<close>

text \<open>The time a table stands for: absent fields are 0, unknown fields are refused.\<close>

definition timespec_of :: "env \<Rightarrow> int \<Rightarrow> ltable \<Rightarrow> err + timespec" where
  "timespec_of E i t =
     sbind (of_optinteger E i ''tv_sec'' 0 t) (\<lambda>sec.
     sbind (of_optinteger E i ''tv_nsec'' 0 t) (\<lambda>nsec.
     sbind (of_names E i Stimespec_fields t) (\<lambda>_. Inr \<lparr>tv_sec = sec, tv_nsec = nsec\<rparr>)))"

definition tm_of :: "env \<Rightarrow> bool \<Rightarrow> bool \<Rightarrow> int \<Rightarrow> ltable \<Rightarrow> err + tm" where
  "tm_of E G Z i t =
     sbind (of_optint E i ''tm_sec'' 0 t) (\<lambda>sec. sbind (of_optint E i ''tm_min'' 0 t) (\<lambda>min.
     sbind (of_optint E i ''tm_hour'' 0 t) (\<lambda>hour. sbind (of_optint E i ''tm_mday'' 0 t) (\<lambda>mday.
     sbind (of_optint E i ''tm_mon'' 0 t) (\<lambda>mon. sbind (of_optint E i ''tm_year'' 0 t) (\<lambda>year.
     sbind (of_optint E i ''tm_wday'' 0 t) (\<lambda>wday. sbind (of_optint E i ''tm_yday'' 0 t) (\<lambda>yday.
     sbind (of_optint E i ''tm_isdst'' 0 t) (\<lambda>isdst.
     sbind (if G then sbind (of_optint E i ''tm_gmtoff'' 0 t) (\<lambda>g. Inr (of_cint g)) else Inr 0) (\<lambda>gmtoff.
     sbind (if Z then of_optstr i ''tm_zone'' None t else Inr None) (\<lambda>zone.
     sbind (of_names E i Stm_fields t) (\<lambda>_.
       Inr \<lparr>tm_sec = sec, tm_min = min, tm_hour = hour, tm_mday = mday, tm_mon = mon,
             tm_year = year, tm_wday = wday, tm_yday = yday, tm_isdst = isdst,
             tm_gmtoff = gmtoff, tm_zone = zone\<rparr>))))))))))))"

lemma time_field_names: "list_all field_name Stimespec_fields" "list_all field_name Stm_fields"
  by (simp_all add: Stimespec_fields_def Stm_fields_def field_name_def numeral_start_def)

lemma totimespec_run:
  assumes "float_text E" "0 < i" "at i (stk s) = Some (LTab a)" "wf_table (tabs s a)"
  shows "totimespec E i s = ofsum (timespec_of E i (tabs s a)) s"
  unfolding totimespec_def luaL_checktype_table [OF assms(3)] timespec_of_def
  by (rule bnd_of thn_of field_of [OF assms(3)] names_of [OF assms(1) time_field_names(1) assms(2,3,4)] ret_of)+

lemma totm_run:
  assumes "float_text E" "0 < i" "at i (stk s) = Some (LTab a)" "wf_table (tabs s a)"
  shows "totm E G Z i s = ofsum (tm_of E G Z i (tabs s a)) s"
  unfolding totm_def luaL_checktype_table [OF assms(3)] tm_of_def
  by (cases G; cases Z; simp only: if_True if_False nulltm_def tm.simps;
     (rule bnd_of thn_of field_of [OF assms(3)] names_of [OF assms(1) time_field_names(2) assms(2,3,4)] ret_of)+)

section \<open>Round trips\<close>

interpretation timespec_copy: record_copy "\<lambda>t. pushtimespec (Some t)" "''PosixTimespec''"
    timespec_members "totimespec E" "\<lambda>_. True" for E
proof unfold_locales
  fix r :: timespec and i :: int and s :: "'w lst" and a
  assume i: "0 < i" "at i (stk s) = Some (LTab a)"
    and t: "tabs s a = named (rfields (timespec_members r))"
  have wf: "wf_table (named (rfields (timespec_members r)))"
    by (simp add: timespec_members_def wf_table_def)
  have names: "checkfieldnames E i Stimespec_fields s = Ok () s"
    by (rule names_of_named [OF i t wf])
      (simp add: timespec_members_def Stimespec_fields_def cstr_def NUL_def)
  show "totimespec E i s = Ok r s" unfolding totimespec_def luaL_checktype_table [OF i(2)]
    by (cases r)
      (simp add: run_simps field_of [OF i(2)] t names of_defs int_field_def timespec_members_def)
qed (simp_all add: pushtimespec_def timespec_members_def)

text \<open>The times that fit a table: \<open>tm_gmtoff\<close> is read back as an \<open>int\<close>.\<close>

definition tm_ok :: "bool \<Rightarrow> bool \<Rightarrow> tm \<Rightarrow> bool" where
  "tm_ok G Z t \<longleftrightarrow>
     (if G then of_cint (to_cint (tm_gmtoff t)) = tm_gmtoff t else tm_gmtoff t = 0) \<and>
     (if Z then (case tm_zone t of None \<Rightarrow> True | Some x \<Rightarrow> cstr x = x) else tm_zone t = None)"

lemma tm_members_distinct: "distinct (map rfield_name (tm_members G Z t))"
  by (simp add: tm_members_def)

lemma tm_members_names: "k \<in> fst ` set (rfields (tm_members G Z t)) \<Longrightarrow> cstr k \<in> set Stm_fields"
  by (auto simp: tm_members_def rfields_def Stm_fields_def cstr_def NUL_def str_field_def
      split: if_splits option.splits)

interpretation tm_copy: record_copy "\<lambda>t. pushtm G Z (Some t)" "''PosixTm''" "tm_members G Z"
    "totm E G Z" "tm_ok G Z" for E G Z
proof unfold_locales
  fix r :: tm and i :: int and s :: "'w lst" and a
  assume ok: "tm_ok G Z r" and i: "0 < i" "at i (stk s) = Some (LTab a)"
    and t: "tabs s a = named (rfields (tm_members G Z r))"
  have wf: "wf_table (named (rfields (tm_members G Z r)))"
    using rfields_distinct [OF tm_members_distinct, of G Z r] rfields_present [of "tm_members G Z r"]
    by (simp add: wf_table_def distinct_named named_values) (auto simp: named_def)
  have names: "checkfieldnames E i Stm_fields s = Ok () s"
    by (rule names_of_named [OF i t wf]) (simp add: tm_members_names)
  show "totm E G Z i s = Ok r s" unfolding totm_def luaL_checktype_table [OF i(2)]
    using ok
    by (cases r; cases G; cases Z)
      (auto simp: run_simps field_of [OF i(2)] t names of_defs int_field_def tm_members_def
        nulltm_def tm_ok_def str_field_def split: option.splits)
qed (simp_all add: pushtm_def tm_members_distinct)

text \<open>
  Property C9: a broken-down time returned by \<open>gmtime\<close> or \<open>localtime\<close> and passed on to
  \<open>mktime\<close> or \<open>strftime\<close> reaches the C library unchanged (UTC offsets within the range of
  \<open>int\<close>, zone names that are C strings).
\<close>

theorem tm_roundtrip:
  assumes "tm_ok G Z t" "c_localtime epoch (errno s) (world s) = (Some t, e, w)"
    and "call_c (Plocaltime E G Z c_localtime) [LInt epoch] s = Ok vs s'"
  shows "\<exists>v. vs = [v] \<and> call_c (Pmktime E G Z c_mktime) [v] s' =
    (case c_mktime t e w of (n, e', w') \<Rightarrow>
       Ok (if n <s 0 then [] else [LInt n]) (s'\<lparr>errno := e', world := w'\<rparr>))"
proof -
  have s': "vs = [LTab (ntab s)]"
      "s' = add_record ''PosixTm'' (tm_copy.flds G Z t) (s\<lparr>errno := e, world := w\<rparr>)"
    using assms(2,3)
    by (simp_all add: Plocaltime_def call_c_def run_simps at_one sys_def tm_copy.push_run)
  have "totm E G Z 1 (s'\<lparr>stk := [LTab (ntab s)]\<rparr>) = Ok t (s'\<lparr>stk := [LTab (ntab s)]\<rparr>)"
    by (rule tm_copy.reads [OF assms(1), where a = "ntab s"])
      (simp_all add: s' at_one tm_copy.flds_def)
  then show ?thesis
    by (cases "c_mktime t e w")
      (simp add: s'(1) Pmktime_def call_c_def run_simps sys_def s'(2) stk_self)
qed

theorem tm_roundtrip_witness:
  "let t = nulltm\<lparr>tm_year := 70, tm_mday := 1, tm_gmtoff := 3600, tm_zone := Some ''CET''\<rparr>;
       s = sample_state []
   in tm_ok True True t \<and>
      (\<exists>v s'. call_c (Plocaltime sample_env True True (\<lambda>_ e w. (Some t, e, w))) [LInt 0] s = Ok [v] s' \<and>
        call_c (Pmktime sample_env True True (\<lambda>u e w. (5, e, u # w))) [v] s' = Ok [LInt 5] (s'\<lparr>world := [t]\<rparr>))"
proof -
  let ?t = "nulltm\<lparr>tm_year := 70, tm_mday := 1, tm_gmtoff := 3600, tm_zone := Some ''CET''\<rparr>"
  let ?s = "sample_state [] :: tm list lst"
  let ?c = "\<lambda>_ e w. (Some ?t, e, w)"
  let ?s' = "add_record ''PosixTm'' (tm_copy.flds True True ?t) ?s"
  have ok: "tm_ok True True ?t"
    by (simp add: tm_ok_def cstr_def NUL_def to_cint_def of_cint_def)
  have run: "call_c (Plocaltime sample_env True True ?c) [LInt 0] ?s = Ok [LTab 0] ?s'"
    by (simp add: Plocaltime_def call_c_def run_simps at_one sys_def tm_copy.push_run sample_state_def)
  have "world ?s' = []" "errno ?s' = 0" by simp_all
  moreover have "\<not> (5 :: lint) <s 0" by (simp add: word_sless_alt)
  ultimately show ?thesis
    using tm_roundtrip [OF ok _ run, where c_mktime = "\<lambda>u e w. (5, e, u # w)"] ok run
    by (simp add: Let_def sample_state_def)
qed

section \<open>Behaviour of the calls\<close>

text \<open>
  \<open>nanosleep\<close> passes the seconds and nanoseconds of its argument to the kernel and
  reports the time left, as a fourth value, exactly when it was interrupted.
\<close>

lemma nanosleep_reports_rest:
  assumes "float_text E" "wf_table (tabs s a)" "timespec_of E 1 (tabs s a) = Inr req"
    and "c req (errno s) (world s) = ((r, rest), e, w)"
  shows "call_c (Pnanosleep E EINTR c) [LTab a] s =
    (let s1 = s\<lparr>errno := e, world := w\<rparr> in
     if r \<noteq> -1 then Ok [LInt (of_cint r)] s1
     else if e \<noteq> EINTR then Ok (error_values E (Some ''nanosleep'') e) s1
     else Ok (error_values E (Some ''nanosleep'') e @ [LTab (ntab s)])
            (add_record ''PosixTimespec'' [(''tv_sec'', LInt (tv_sec rest)), (''tv_nsec'', LInt (tv_nsec rest))] s1))"
proof -
  have "totimespec E 1 (s\<lparr>stk := [LTab a]\<rparr>) = Ok req (s\<lparr>stk := [LTab a]\<rparr>)"
    using totimespec_run [OF assms(1), of 1 "s\<lparr>stk := [LTab a]\<rparr>" a] assms(2,3) by (simp add: at_one)
  with assms(4) show ?thesis
    by (simp add: Pnanosleep_def call_c_def run_simps sys_def timespec_copy.push_run
        timespec_copy.flds_def timespec_members_def Let_def result_values_def)
qed

text \<open>
  \<open>mktime\<close> converts its table and returns the epoch time; for every time before
  the epoch it returns no value at all, the same as when the conversion fails.
\<close>

lemma mktime_before_epoch:
  assumes "float_text E" "wf_table (tabs s a)" "tm_of E G Z 1 (tabs s a) = Inr t"
    and "c t (errno s) (world s) = (n, e, w)"
  shows "call_c (Pmktime E G Z c) [LTab a] s =
    Ok (if sint n < 0 then [] else [LInt n]) (s\<lparr>errno := e, world := w\<rparr>)"
proof -
  have "totm E G Z 1 (s\<lparr>stk := [LTab a]\<rparr>) = Ok t (s\<lparr>stk := [LTab a]\<rparr>)"
    using totm_run [OF assms(1), of 1 "s\<lparr>stk := [LTab a]\<rparr>" a] assms(2,3) by (simp add: at_one)
  with assms(4) show ?thesis
    by (simp add: Pmktime_def call_c_def run_simps sys_def word_sless_alt)
qed

lemma settled_push_times: "settled (pushtm G Z t)" "settled (pushtimespec ts)"
  by (simp_all add: pushtm_def pushtimespec_def settled_make_record settled_rules split: option.splits)

lemma settled_nanosleep_rest:
  "settled (bnd (pushresult E r info) (\<lambda>k. bnd (asks errno) (\<lambda>e.
     if k = 3 \<and> e = c then bnd (pushtimespec ts) (\<lambda>j. ret (k + j)) else ret k)))"
  by (rule settled_rules settled_push_times)+

lemma quiet_readers: "quiet (totm E G Z i)" "quiet (totimespec E i)"
  unfolding totm_def totimespec_def by (rule quiet_rules)+

lemma clean_time:
  "clean (Pclock_getres E c1)" "clean (Pclock_gettime E c1)" "clean (Pgmtime E G Z c2)"
  "clean (Plocaltime E G Z c2)" "clean (Pmktime E G Z c3)" "clean (Pnanosleep E k c4)"
  "clean (Pstrftime E G Z c5)" "clean (Pstrptime E G Z c6)"
  unfolding Pclock_getres_def Pclock_gettime_def Pgmtime_def Plocaltime_def Pmktime_def
    Pnanosleep_def Pstrftime_def Pstrptime_def
  by (rule clean_rules quiet_readers settled_push_times settled_nanosleep_rest)+

section \<open>Opening the module\<close>

definition posix_time_fns :: "entry list" where
  "posix_time_fns = [
    Only ''_POSIX_TIMERS && _POSIX_TIMERS != -1'' (Item ''Pclock_getres''),
    Only ''_POSIX_TIMERS && _POSIX_TIMERS != -1'' (Item ''Pclock_gettime''), Item ''Pgmtime'',
    Item ''Plocaltime'', Item ''Pmktime'', Item ''Pnanosleep'', Item ''Pstrftime'',
    Item ''Pstrptime'', Item ''Ptime'']"

definition posix_time_consts :: "entry list" where
  "posix_time_consts = [
    Only ''CLOCK_MONOTONIC'' (Item ''CLOCK_MONOTONIC''),
    Only ''CLOCK_PROCESS_CPUTIME_ID'' (Item ''CLOCK_PROCESS_CPUTIME_ID''),
    Only ''CLOCK_REALTIME'' (Item ''CLOCK_REALTIME''),
    Only ''CLOCK_THREAD_CPUTIME_ID'' (Item ''CLOCK_THREAD_CPUTIME_ID'')]"

definition luaopen_posix_time :: "host \<Rightarrow> ('w, nat) lm" where
  "luaopen_posix_time H = open_module H ''time'' posix_time_fns posix_time_consts"

lemma time_names: "names_ok posix_time_fns posix_time_consts"
  by code_simp

end
