(* ===== verification/SysResource.thy ===== *)
theory SysResource
  imports Marshal Modules
begin

text \<open>\<^verbatim>\<open>ext/posix/sys/resource.c\<close>: resource limits as tables, both ways.\<close>

record rlimit =
  rlim_cur :: lint
  rlim_max :: lint

definition rlimit_members :: "rlimit \<Rightarrow> rfield list" where
  "rlimit_members r = [IntF ''rlim_cur'' (rlim_cur r), IntF ''rlim_max'' (rlim_max r)]"

definition pushrlimit :: "rlimit option \<Rightarrow> ('w, nat) lm" where
  "pushrlimit lim = (case lim of
      None \<Rightarrow> thn lua_pushnil (ret 1)
    | Some r \<Rightarrow> make_record ''PosixRlimit'' (rlimit_members r))"

definition Pgetrlimit :: "env \<Rightarrow> (cint \<Rightarrow> ('w, cint \<times> rlimit) sys) \<Rightarrow> ('w, nat) lm" where
  "Pgetrlimit E c_getrlimit =
     thn (checknargs 1)
    (bnd (checkint E 1) (\<lambda>resource.
     bnd (sys (c_getrlimit resource)) (\<lambda>r.
     if fst r <s 0 then pusherror E (Some ''getrlimit'') else pushrlimit (Some (snd r)))))"

definition Srlimit_fields :: "string list" where
  "Srlimit_fields = [''rlim_cur'', ''rlim_max'']"

text \<open>The part of \<open>Psetrlimit\<close> that reads the table.\<close>

definition read_rlimit :: "env \<Rightarrow> int \<Rightarrow> ('w, rlimit) lm" where
  "read_rlimit E index =
     bnd (checkintegerfield E index ''rlim_cur'') (\<lambda>cur.
     bnd (checkintegerfield E index ''rlim_max'') (\<lambda>max.
     thn (checkfieldnames E index Srlimit_fields)
         (ret \<lparr>rlim_cur = cur, rlim_max = max\<rparr>)))"

definition Psetrlimit :: "env \<Rightarrow> (cint \<Rightarrow> rlimit \<Rightarrow> ('w, cint) sys) \<Rightarrow> ('w, nat) lm" where
  "Psetrlimit E c_setrlimit =
     bnd (checkint E 1) (\<lambda>rid.
     thn (luaL_checktype 2 TTABLE)
    (thn (checknargs 2)
    (bnd (read_rlimit E 2) (\<lambda>lim.
     bnd (sys (c_setrlimit rid lim)) (\<lambda>r. pushresult E r (Some ''setrlimit''))))))"

interpretation rlimit_copy: record_copy "\<lambda>t. pushrlimit (Some t)" "''PosixRlimit''" rlimit_members
    "read_rlimit E" "\<lambda>_. True" for E
proof unfold_locales
  fix r :: rlimit and i :: int and s :: "'w lst" and a
  assume i: "0 < i" "at i (stk s) = Some (LTab a)"
    and t: "tabs s a = named (rfields (rlimit_members r))"
  have wf: "wf_table (named (rfields (rlimit_members r)))"
    by (simp add: rlimit_members_def wf_table_def)
  have names: "checkfieldnames E i Srlimit_fields s = Ok () s"
    by (rule names_of_named [OF i t wf])
      (simp add: rlimit_members_def Srlimit_fields_def cstr_def NUL_def)
  show "read_rlimit E i s = Ok r s" unfolding read_rlimit_def
    by (cases r)
      (simp add: run_simps field_of [OF i(2)] t names of_defs int_field_def rlimit_members_def)
qed (simp_all add: pushrlimit_def rlimit_members_def)

lemma settled_pushrlimit: "settled (pushrlimit r)"
  by (simp add: pushrlimit_def settled_make_record settled_rules split: option.splits)

lemma quiet_read_rlimit: "quiet (read_rlimit E i)"
  unfolding read_rlimit_def by (rule quiet_rules)+

lemma clean_rlimit: "clean (Pgetrlimit E c)" "clean (Psetrlimit E d)"
  unfolding Pgetrlimit_def Psetrlimit_def
  by (rule clean_rules quiet_read_rlimit settled_pushrlimit)+

text \<open>
  The limits returned by \<open>getrlimit\<close> can be handed back to \<open>setrlimit\<close>: the kernel is
  asked for exactly the limits it had reported, for all 64-bit values (\<open>RLIM_INFINITY\<close> included).
\<close>

lemma rlimit_roundtrip:
  assumes "c_get (to_cint k) (errno s) (world s) = ((0, lim), e, w)"
    and "call_c (Pgetrlimit E c_get) [LInt k] s = Ok vs s'"
  shows "\<exists>v. vs = [v] \<and> call_c (Psetrlimit E c_set) [LInt k, v] s' =
    (case c_set (to_cint k) lim e w of (r, e', w') \<Rightarrow>
       Ok (result_values E (Some ''setrlimit'') r e') (s'\<lparr>errno := e', world := w'\<rparr>))"
proof -
  have s': "vs = [LTab (ntab s)]"
      "s' = add_record ''PosixRlimit'' (rlimit_copy.flds lim) (s\<lparr>errno := e, world := w\<rparr>)"
    using assms
    by (simp_all add: Pgetrlimit_def call_c_def run_simps at_one sys_def rlimit_copy.push_run)
  have "read_rlimit E 2 (s'\<lparr>stk := [LInt k, LTab (ntab s)]\<rparr>) =
      Ok lim (s'\<lparr>stk := [LInt k, LTab (ntab s)]\<rparr>)"
    by (rule rlimit_copy.reads [OF TrueI, where a = "ntab s"])
      (simp_all add: s' at_numeral rlimit_copy.flds_def)
  then show ?thesis
    by (cases "c_set (to_cint k) lim e w")
      (simp add: s'(1) Psetrlimit_def call_c_def run_simps sys_def s'(2) stk_self at_numeral at_one
        type_of_def)
qed

section \<open>Opening the module\<close>

definition posix_sys_resource_fns :: "entry list" where
  "posix_sys_resource_fns = [
    Item ''Pgetrlimit'', Item ''Psetrlimit'']"

definition posix_sys_resource_consts :: "entry list" where
  "posix_sys_resource_consts = [
    Item ''RLIM_INFINITY'', Only ''RLIM_SAVED_CUR'' (Item ''RLIM_SAVED_CUR''),
    Only ''RLIM_SAVED_MAX'' (Item ''RLIM_SAVED_MAX''), Item ''RLIMIT_CORE'', Item ''RLIMIT_CPU'',
    Item ''RLIMIT_DATA'', Item ''RLIMIT_FSIZE'', Item ''RLIMIT_NOFILE'', Item ''RLIMIT_STACK'',
    Item ''RLIMIT_AS'']"

definition luaopen_posix_sys_resource :: "host \<Rightarrow> ('w, nat) lm" where
  "luaopen_posix_sys_resource H = open_module H ''sys.resource'' posix_sys_resource_fns posix_sys_resource_consts"

lemma sys_resource_names: "names_ok posix_sys_resource_fns posix_sys_resource_consts"
  by code_simp

end
