(* ===== verification/SysStatvfs.thy ===== *)
theory SysStatvfs
  imports Records Modules
begin

text \<open>\<^verbatim>\<open>ext/posix/sys/statvfs.c\<close>: file system statistics.\<close>

record statvfs =
  f_bsize :: lint
  f_frsize :: lint
  f_blocks :: lint
  f_bfree :: lint
  f_bavail :: lint
  f_files :: lint
  f_ffree :: lint
  f_favail :: lint
  f_fsid :: lint
  f_flag :: lint
  f_namemax :: lint

definition statvfs_members :: "statvfs \<Rightarrow> rfield list" where
  "statvfs_members sv = [
     IntF ''f_bsize'' (f_bsize sv), IntF ''f_frsize'' (f_frsize sv),
     IntF ''f_blocks'' (f_blocks sv), IntF ''f_bfree'' (f_bfree sv),
     IntF ''f_bavail'' (f_bavail sv), IntF ''f_files'' (f_files sv),
     IntF ''f_ffree'' (f_ffree sv), IntF ''f_favail'' (f_favail sv),
     IntF ''f_fsid'' (f_fsid sv), IntF ''f_flag'' (f_flag sv),
     IntF ''f_namemax'' (f_namemax sv)]"

definition pushstatvfs :: "statvfs option \<Rightarrow> ('w, nat) lm" where
  "pushstatvfs sv = (case sv of
      None \<Rightarrow> thn lua_pushnil (ret 1)
    | Some v \<Rightarrow> make_record ''PosixStatvfs'' (statvfs_members v))"

definition Pstatvfs :: "env \<Rightarrow> (string \<Rightarrow> ('w, cint \<times> statvfs) sys) \<Rightarrow> ('w, nat) lm" where
  "Pstatvfs E c_statvfs =
     bnd (luaL_checkstring E 1) (\<lambda>path.
     thn (checknargs 1)
    (bnd (sys (c_statvfs path)) (\<lambda>r.
     if fst r = -1 then pusherror E (Some path) else pushstatvfs (Some (snd r)))))"

interpretation statvfs: record_push "\<lambda>v. pushstatvfs (Some v)" "''PosixStatvfs''" statvfs_members
  by unfold_locales (simp_all add: pushstatvfs_def statvfs_members_def)

lemma clean_Pstatvfs: "clean (Pstatvfs E c)"
  unfolding Pstatvfs_def by (rule clean_rules statvfs.settled_push)+

lemma Pstatvfs_run:
  "args_path E s args = Inr path \<Longrightarrow> c path (errno s) (world s) = ((r, v), e, w) \<Longrightarrow>
   call_c (Pstatvfs E c) args s =
     (let s1 = s\<lparr>errno := e, world := w\<rparr> in
      if r = -1 then Ok (error_values E (Some path) e) s1
      else Ok [LTab (ntab s)] (add_record ''PosixStatvfs'' (statvfs.flds v) s1))"
  by (auto simp: Pstatvfs_def args_path_def accepted call_c_def run_simps sys_def statvfs.push_run
      error_values_def Let_def put_at_same_type)

section \<open>Opening the module\<close>

definition posix_sys_statvfs_fns :: "entry list" where
  "posix_sys_statvfs_fns = [
    Item ''Pstatvfs'']"

definition posix_sys_statvfs_consts :: "entry list" where
  "posix_sys_statvfs_consts = [
    Item ''ST_RDONLY'', Item ''ST_NOSUID'']"

definition luaopen_posix_sys_statvfs :: "host \<Rightarrow> ('w, nat) lm" where
  "luaopen_posix_sys_statvfs H = open_module H ''sys.statvfs'' posix_sys_statvfs_fns posix_sys_statvfs_consts"

lemma sys_statvfs_names: "names_ok posix_sys_statvfs_fns posix_sys_statvfs_consts"
  by code_simp

end
