(* ===== verification/SysTimes.thy ===== *)
theory SysTimes
  imports Records Modules "HOL-Library.Signed_Division"
begin

text \<open>
  \<^verbatim>\<open>ext/posix/sys/times.c\<close>: process times in seconds.  The clock rate is asked once and kept in
  a static variable.
\<close>

record tms =
  tms_utime :: lint
  tms_stime :: lint
  tms_cutime :: lint
  tms_cstime :: lint

text \<open>C division of \<open>long\<close> values truncates; the divisor 0 is undefined.\<close>

definition long_div :: "lint \<Rightarrow> lint \<Rightarrow> lint" where
  "long_div a b = word_of_int (sint a sdiv sint b)"

definition tms_members :: "lint \<Rightarrow> lint \<Rightarrow> tms \<Rightarrow> rfield list" where
  "tms_members clk_tck elapsed t = [
     IntF ''elapsed'' (long_div elapsed clk_tck),
     IntF ''tms_utime'' (long_div (tms_utime t) clk_tck),
     IntF ''tms_stime'' (long_div (tms_stime t) clk_tck),
     IntF ''tms_cutime'' (long_div (tms_cutime t) clk_tck),
     IntF ''tms_cstime'' (long_div (tms_cstime t) clk_tck)]"

definition pushtms :: "env \<Rightarrow> ('w, lint \<times> tms) sys \<Rightarrow> ('w, lint) sys \<Rightarrow> ('w, nat) lm" where
  "pushtms E c_times c_sysconf_clk_tck =
     bnd (sys c_times) (\<lambda>r.
     let elapsed = fst r; t = snd r in
     if elapsed = -1 then pusherror E (Some ''times'')
     else bnd (asks (\<lambda>s. statics s ''clk_tck'')) (\<lambda>clk0.
     thn (when_do (clk0 = 0) (bnd (sys c_sysconf_clk_tck) (set_static ''clk_tck'')))
    (bnd (asks (\<lambda>s. statics s ''clk_tck'')) (\<lambda>clk.
     if clk = 0 then raise (Undefined ''division by zero'')
     else make_record ''PosixTms'' (tms_members clk elapsed t)))))"

definition Ptimes :: "env \<Rightarrow> ('w, lint \<times> tms) sys \<Rightarrow> ('w, lint) sys \<Rightarrow> ('w, nat) lm" where
  "Ptimes E c_times c_sysconf_clk_tck =
     thn (checknargs 0) (pushtms E c_times c_sysconf_clk_tck)"

interpretation tms: record_push "\<lambda>t. make_record ''PosixTms'' (tms_members clk elapsed t)"
    "''PosixTms''" "tms_members clk elapsed" for clk elapsed
  by unfold_locales (simp_all add: tms_members_def)

lemma clean_Ptimes: "clean (Ptimes E c d)"
  unfolding Ptimes_def pushtms_def by (rule clean_rules tms.settled_push)+

lemma long_div_nonneg:
  assumes "0 \<le> sint a" "0 < sint b"
  shows "sint (long_div a b) = sint a div sint b"
proof -
  have "sint a div sint b \<le> sint a"
    using assms zdiv_mono2 [of "sint a" 1 "sint b"] by simp
  moreover have "0 \<le> sint a div sint b"
    using assms by (simp add: pos_imp_zdiv_nonneg_iff)
  moreover have "sint a < 2 ^ 63" using sint_lt [of a] by simp
  ultimately have "sint (word_of_int (sint a div sint b) :: lint) = sint a div sint b"
    by (simp add: sint_uint word_of_int_inverse signed_take_bit_int_eq_self_iff)
  moreover have "sint a sdiv sint b = sint a div sint b"
    using assms by (cases "sint a = 0") (simp_all add: signed_divide_int_def)
  ultimately show ?thesis by (simp only: long_div_def)
qed

text \<open>The clock rate is asked for by the first call only.\<close>

lemma pushtms_known:
  assumes "statics s ''clk_tck'' = clk" "clk \<noteq> 0"
    and "c_times (errno s) (world s) = ((el, t), e, w)" "el \<noteq> -1"
  shows "call_c (Ptimes E c_times c_sysconf) [] s =
    Ok [LTab (ntab s)] (add_record ''PosixTms'' (tms.flds clk el t) (s\<lparr>errno := e, world := w\<rparr>))"
  using assms
  by (simp add: Ptimes_def pushtms_def call_c_def run_simps sys_def Let_def tms.push_run
     )

lemma pushtms_first:
  assumes "statics s ''clk_tck'' = 0"
    and "c_times (errno s) (world s) = ((el, t), e, w)" "el \<noteq> -1"
    and "c_sysconf e w = (clk, e', w')" "clk \<noteq> 0"
  shows "call_c (Ptimes E c_times c_sysconf) [] s =
    Ok [LTab (ntab s)] (add_record ''PosixTms'' (tms.flds clk el t)
      (s\<lparr>errno := e', world := w', statics := (statics s)(''clk_tck'' := clk)\<rparr>))"
  using assms
  by (simp add: Ptimes_def pushtms_def call_c_def run_simps sys_def Let_def tms.push_run
     )

section \<open>Opening the module\<close>

definition posix_sys_times_fns :: "entry list" where
  "posix_sys_times_fns = [
    Item ''Ptimes'']"

definition luaopen_posix_sys_times :: "host \<Rightarrow> ('w, nat) lm" where
  "luaopen_posix_sys_times H = open_module H ''sys.times'' posix_sys_times_fns []"

lemma sys_times_names: "names_ok posix_sys_times_fns []"
  by code_simp

end
