(* ===== verification/SysUtsname.thy ===== *)
theory SysUtsname
  imports Records Modules
begin

text \<open>\<^verbatim>\<open>ext/posix/sys/utsname.c\<close>: the identification of the system.\<close>

record utsname =
  machine :: string
  nodename :: string
  release :: string
  sysname :: string
  un_version :: string

definition pushutsname :: "utsname \<Rightarrow> ('w, nat) lm" where
  "pushutsname u = make_record ''PosixUtsname'' [
     StrF ''machine'' (Some (machine u)),
     StrF ''nodename'' (Some (nodename u)),
     StrF ''release'' (Some (release u)),
     StrF ''sysname'' (Some (sysname u)),
     StrF ''version'' (Some (un_version u))]"

definition Puname :: "env \<Rightarrow> ('w, cint \<times> utsname) sys \<Rightarrow> ('w, nat) lm" where
  "Puname E c_uname =
     thn (checknargs 0)
    (bnd (sys c_uname) (\<lambda>r.
     if fst r = -1 then pusherror E (Some ''uname'') else pushutsname (snd r)))"

interpretation utsname: record_push pushutsname "''PosixUtsname''"
    "\<lambda>u. [StrF ''machine'' (Some (machine u)), StrF ''nodename'' (Some (nodename u)),
      StrF ''release'' (Some (release u)), StrF ''sysname'' (Some (sysname u)),
      StrF ''version'' (Some (un_version u))]"
  by unfold_locales (simp_all add: pushutsname_def)

lemma clean_Puname: "clean (Puname E c)"
  unfolding Puname_def by (rule clean_rules utsname.settled_push)+

lemma Puname_run:
  "length args = 0 \<Longrightarrow> c_uname (errno s) (world s) = ((r, u), e, w) \<Longrightarrow>
   call_c (Puname E c_uname) args s =
     (let s1 = s\<lparr>errno := e, world := w\<rparr> in
      if r = -1 then Ok (error_values E (Some ''uname'') e) s1
      else Ok [LTab (ntab s)] (add_record ''PosixUtsname'' (utsname.flds u) s1))"
  by (simp add: Puname_def call_c_def run_simps sys_def utsname.push_run error_values_def
      Let_def)

section \<open>Opening the module\<close>

definition posix_sys_utsname_fns :: "entry list" where
  "posix_sys_utsname_fns = [
    Item ''Puname'']"

definition luaopen_posix_sys_utsname :: "host \<Rightarrow> ('w, nat) lm" where
  "luaopen_posix_sys_utsname H = open_module H ''sys.utsname'' posix_sys_utsname_fns []"

lemma sys_utsname_names: "names_ok posix_sys_utsname_fns []"
  by code_simp

end
