(* ===== verification/SysTime.thy ===== *)
theory SysTime
  imports Records Modules
begin

text \<open>\<^verbatim>\<open>ext/posix/sys/time.c\<close>: the time of day.\<close>

record timeval =
  tv_sec :: lint
  tv_usec :: lint

definition pushtimeval :: "timeval option \<Rightarrow> ('w, nat) lm" where
  "pushtimeval tv = (case tv of
      None \<Rightarrow> thn lua_pushnil (ret 1)
    | Some t \<Rightarrow> make_record ''PosixTimeval'' [
        IntF ''tv_sec'' (tv_sec t),
        IntF ''tv_usec'' (tv_usec t)])"

definition Pgettimeofday :: "env \<Rightarrow> ('w, cint \<times> timeval) sys \<Rightarrow> ('w, nat) lm" where
  "Pgettimeofday E c_gettimeofday =
     thn (checknargs 0)
    (bnd (sys c_gettimeofday) (\<lambda>r.
     if fst r = -1 then pusherror E (Some ''gettimeofday'') else pushtimeval (Some (snd r))))"

interpretation timeval: record_push "\<lambda>t. pushtimeval (Some t)" "''PosixTimeval''"
    "\<lambda>t. [IntF ''tv_sec'' (tv_sec t), IntF ''tv_usec'' (tv_usec t)]"
  by unfold_locales (simp_all add: pushtimeval_def)

lemma clean_Pgettimeofday: "clean (Pgettimeofday E c)"
  unfolding Pgettimeofday_def by (rule clean_rules timeval.settled_push)+

lemma Pgettimeofday_run:
  "args = [] \<Longrightarrow> c (errno s) (world s) = ((r, t), e, w) \<Longrightarrow>
   call_c (Pgettimeofday E c) args s =
     (let s1 = s\<lparr>errno := e, world := w\<rparr> in
      if r = -1 then Ok (error_values E (Some ''gettimeofday'') e) s1
      else Ok [LTab (ntab s)] (add_record ''PosixTimeval'' (timeval.flds t) s1))"
  by (simp add: Pgettimeofday_def call_c_def run_simps sys_def timeval.push_run error_values_def
      Let_def)

section \<open>Opening the module\<close>

definition posix_sys_time_fns :: "entry list" where
  "posix_sys_time_fns = [
    Item ''Pgettimeofday'']"

definition luaopen_posix_sys_time :: "host \<Rightarrow> ('w, nat) lm" where
  "luaopen_posix_sys_time H = open_module H ''sys.time'' posix_sys_time_fns []"

lemma sys_time_names: "names_ok posix_sys_time_fns []"
  by code_simp

end
