(* ===== verification/SocketAddr.thy ===== *)
theory SocketAddr
  imports Marshal
begin

text \<open>
  \<^verbatim>\<open>ext/posix/sys/socket.c\<close>, first part: socket addresses as tables, both ways
  (\<open>pushsockaddrinfo\<close>, \<open>sockaddr_from_lua\<close>), and the promise that an address the bindings
  returned is read back unchanged.

  A \<open>struct sockaddr\<close> is a value of \<open>sockaddr\<close>; ports and flow labels are kept in network byte
  order, as in the structure.  The host is little endian.
\<close>

section \<open>Byte order\<close>

definition htons :: "cshort \<Rightarrow> cshort" where
  "htons h = (push_bit 8 h OR drop_bit 8 h)"

definition htonl :: "cint \<Rightarrow> cint" where
  "htonl i = (push_bit 24 i OR push_bit 8 (i AND 0xFF00) OR (drop_bit 8 i AND 0xFF00) OR drop_bit 24 i)"

abbreviation ntohs :: "cshort \<Rightarrow> cshort" where
  "ntohs \<equiv> htons"

abbreviation ntohl :: "cint \<Rightarrow> cint" where
  "ntohl \<equiv> htonl"

lemma htons_swap: "htons (htons h) = h"
  by (rule bit_word_eqI) (auto simp: htons_def bit_simps)

lemma FF00_mask: "(0xFF00 :: cint) = push_bit 8 (mask 8)"
  by (simp add: mask_eq_exp_minus_1)

lemma bit_htonl:
  "bit (htonl i) n =
     (if n < 8 then bit i (n + 24) else if n < 16 then bit i (n + 8)
      else if n < 24 then bit i (n - 8) else n < 32 \<and> bit i (n - 24))"
  unfolding htonl_def FF00_mask
  by (cases "n < 8"; cases "n < 16"; cases "n < 24")
    (auto simp: bit_simps add.commute dest: bit_imp_le_length)

lemma htonl_swap: "htonl (htonl i) = i"
proof (rule bit_word_eqI)
  fix n
  assume "n < LENGTH(32)"
  then consider "n < 8" | k where "n = 8 + k" "k < 8" | k where "n = 16 + k" "k < 8"
    | k where "n = 24 + k" "k < 8"
    by (cases "n < 8"; cases "n < 16"; cases "n < 24")
      (auto simp: not_less le_iff_add)
  then show "bit (htonl (htonl i)) n = bit i n"
    by cases (simp_all add: bit_htonl add.commute)
qed

section \<open>Addresses\<close>

text \<open>
  \<open>SaUn\<close> holds the bytes of \<open>sun_path\<close> that have been written (108 of them when the structure was
  cleared first).
\<close>

datatype sockaddr =
    SaIn (in_port: cshort) (in_addr: string)
  | SaIn6 (in6_port: cshort) (in6_addr: string) (in6_flowinfo: cint) (in6_scope: cint)
  | SaUn (un_path: string)
  | SaNl (nl_pid: cint) (nl_groups: cint)
  | SaLl (ll_ifindex: cint)
  | SaOther (other_family: cshort)

text \<open>
  The constants and the configuration of the host, and the conversions of the C library between
  addresses in binary and in text.
\<close>

record net =
  AF_INET :: cint
  AF_INET6 :: cint
  AF_UNIX :: cint
  AF_NETLINK :: cint
  AF_PACKET :: cint
  LINUX_NETLINK_H :: bool
  LINUX_IF_PACKET_H :: bool
  inet_pton4 :: "string \<Rightarrow> string option"
  inet_pton6 :: "string \<Rightarrow> string option"
  inet_ntop4 :: "string \<Rightarrow> string"
  inet_ntop6 :: "string \<Rightarrow> string"

fun sa_family :: "net \<Rightarrow> sockaddr \<Rightarrow> cint" where
  "sa_family H (SaIn _ _) = AF_INET H"
| "sa_family H (SaIn6 _ _ _ _) = AF_INET6 H"
| "sa_family H (SaUn _) = AF_UNIX H"
| "sa_family H (SaNl _ _) = AF_NETLINK H"
| "sa_family H (SaLl _) = AF_PACKET H"
| "sa_family H (SaOther f) = ucast f"

definition sun_path_size :: nat where
  "sun_path_size = 108"

text \<open>
  The structure is read as the one its family says; a member that was never written is
  indeterminate.
\<close>

definition stray :: "('w, 'a) lm" where
  "stray = raise (Undefined ''read of an unwritten member'')"

definition pushsockaddrinfo :: "net \<Rightarrow> cint \<Rightarrow> sockaddr \<Rightarrow> ('w, nat) lm" where
  "pushsockaddrinfo H family sa =
     seqn [
       lua_newtable,
       pushintegerfield ''family'' (of_cint family),
       (if family = AF_INET H then
          (case sa of
             SaIn port addr \<Rightarrow> seq [
               pushintegerfield ''port'' (of_ushort (ntohs port)),
               pushstringfield ''addr'' (Some (inet_ntop4 H addr))]
           | _ \<Rightarrow> stray)
        else if family = AF_INET6 H then
          (case sa of
             SaIn6 port addr flowinfo scope \<Rightarrow> seq [
               pushintegerfield ''port'' (of_ushort (ntohs port)),
               pushstringfield ''addr'' (Some (inet_ntop6 H addr)),
               pushintegerfield ''flowinfo'' (of_cuint (ntohl flowinfo)),
               pushintegerfield ''scope_id'' (of_cuint scope)]
           | _ \<Rightarrow> stray)
        else if family = AF_UNIX H then
          (case sa of
             SaUn path \<Rightarrow>
               if NUL \<in> set path \<or> length path = sun_path_size
               then pushlstringfield ''path'' path (length (cstr path))
               else stray
           | _ \<Rightarrow> stray)
        else if LINUX_NETLINK_H H \<and> family = AF_NETLINK H then
          (case sa of
             SaNl pid groups \<Rightarrow> seq [
               pushintegerfield ''pid'' (of_cuint pid),
               pushintegerfield ''groups'' (of_cuint groups)]
           | _ \<Rightarrow> stray)
        else if LINUX_IF_PACKET_H H \<and> family = AF_PACKET H then
          (case sa of
             SaLl ifindex \<Rightarrow> pushintegerfield ''ifindex'' (of_cint ifindex)
           | _ \<Rightarrow> stray)
        else ret ()),
       settypemetatable ''PosixAddrInfo''] 1"

subsection \<open>From a table\<close>

definition Safinet_fields :: "string list" where
  "Safinet_fields = [''flowinfo'', ''scope_id'', ''family'', ''port'', ''addr'', ''socktype'',
     ''canonname'', ''protocol'']"

definition Safunix_fields :: "string list" where
  "Safunix_fields = [''family'', ''path'']"

definition Safnetlink_fields :: "string list" where
  "Safnetlink_fields = [''family'', ''pid'', ''groups'']"

definition Safpacket_fields :: "string list" where
  "Safpacket_fields = [''family'', ''ifindex'']"

definition Safinet4_fields :: "string list" where
  "Safinet4_fields = drop 2 Safinet_fields"

definition Safinet6_fields :: "string list" where
  "Safinet6_fields = Safinet_fields"

text \<open>The sizes of the structures; a \<open>struct sockaddr_un\<close> is its path after two bytes of family.\<close>

definition sizeof_in :: nat where "sizeof_in = 16"
definition sizeof_in6 :: nat where "sizeof_in6 = 28"
definition sizeof_un :: nat where "sizeof_un = 110"
definition sizeof_nl :: nat where "sizeof_nl = 12"
definition sizeof_ll :: nat where "sizeof_ll = 20"

lemmas sizeof_defs = sizeof_in_def sizeof_in6_def sizeof_un_def sizeof_nl_def sizeof_ll_def

text \<open>
  The address and its length, or \<open>None\<close> for the result \<open>-1\<close>.  \<open>memset\<close> clears the structure, so all
  of \<open>sun_path\<close> is written.
\<close>

definition family_msg :: "cint \<Rightarrow> string" where
  "family_msg family = ''unsupported family type '' @ int_dec (sint family)"

definition sockaddr_from_lua :: "env \<Rightarrow> net \<Rightarrow> int \<Rightarrow> ('w, (sockaddr \<times> nat) option) lm" where
  "sockaddr_from_lua E H index =
     thn (luaL_checktype index TTABLE)
    (bnd (checkintfield E index ''family'') (\<lambda>family.
     if family = AF_INET H then
       bnd (checkintfield E index ''port'') (\<lambda>port.
       bnd (checkstringfield E index ''addr'') (\<lambda>addr.
       thn (checkfieldnames E index Safinet4_fields)
           (ret (case inet_pton4 H addr of
              None \<Rightarrow> None | Some b \<Rightarrow> Some (SaIn (htons (to_ushort port)) b, sizeof_in)))))
     else if family = AF_INET6 H then
       bnd (checkintfield E index ''port'') (\<lambda>port.
       bnd (checkstringfield E index ''addr'') (\<lambda>addr.
       bnd (optintegerfield E index ''flowinfo'' 0) (\<lambda>flowinfo.
       bnd (optintegerfield E index ''scope_id'' 0) (\<lambda>scope_id.
       thn (checkfieldnames E index Safinet6_fields)
           (ret (case inet_pton6 H addr of
              None \<Rightarrow> None
            | Some b \<Rightarrow> Some (SaIn6 (htons (to_ushort port)) b (htonl (to_cint flowinfo))
                (to_cint scope_id), sizeof_in6)))))))
     else if family = AF_UNIX H then
       bnd (checklstringfield E index ''path'') (\<lambda>path.
       thn (checkfieldnames E index Safunix_fields)
           (let pathlen = (if sun_path_size < length path then sun_path_size else length path) in
            ret (Some (SaUn (take pathlen path @ replicate (sun_path_size - pathlen) NUL),
              sizeof_un - sun_path_size + pathlen))))
     else if LINUX_NETLINK_H H \<and> family = AF_NETLINK H then
       bnd (checkintfield E index ''pid'') (\<lambda>pid.
       bnd (checkintfield E index ''groups'') (\<lambda>groups.
       thn (checkfieldnames E index Safnetlink_fields)
           (ret (Some (SaNl pid groups, sizeof_nl)))))
     else if LINUX_IF_PACKET_H H \<and> family = AF_PACKET H then
       bnd (checkintfield E index ''ifindex'') (\<lambda>ifindex.
       thn (checkfieldnames E index Safpacket_fields)
           (ret (Some (SaLl ifindex, sizeof_ll))))
     else
       thn (lua_pushstring (family_msg family))
      (thn (luaL_argcheck False index (family_msg family))
      (thn (lua_pop 1) (ret None)))))"

section \<open>What is read and what is written\<close>

text \<open>
  \<open>sockaddr_of\<close> is the address a table stands for, or the argument error for it; \<open>Inr None\<close> is a
  textual address that \<open>inet_pton\<close> rejects.
\<close>

definition inet_of :: "env \<Rightarrow> int \<Rightarrow> ltable \<Rightarrow> err + (cint \<times> string)" where
  "inet_of E i t =
     sbind (of_int E i ''port'' t) (\<lambda>port. sbind (of_str i ''addr'' t) (\<lambda>addr. Inr (port, addr)))"

definition sockaddr_of :: "env \<Rightarrow> net \<Rightarrow> int \<Rightarrow> ltable \<Rightarrow> err + (sockaddr \<times> nat) option" where
  "sockaddr_of E H i t =
     sbind (of_int E i ''family'' t) (\<lambda>family.
     if family = AF_INET H then
       sbind (of_int E i ''port'' t) (\<lambda>port.
       sbind (of_str i ''addr'' t) (\<lambda>addr.
       sbind (of_names E i Safinet4_fields t) (\<lambda>_.
       Inr (map_option (\<lambda>b. (SaIn (htons (to_ushort port)) b, 16)) (inet_pton4 H addr)))))
     else if family = AF_INET6 H then
       sbind (of_int E i ''port'' t) (\<lambda>port.
       sbind (of_str i ''addr'' t) (\<lambda>addr.
       sbind (of_optinteger E i ''flowinfo'' 0 t) (\<lambda>flow.
       sbind (of_optinteger E i ''scope_id'' 0 t) (\<lambda>scope.
       sbind (of_names E i Safinet6_fields t) (\<lambda>_.
       Inr (map_option (\<lambda>b. (SaIn6 (htons (to_ushort port)) b (htonl (to_cint flow)) (to_cint scope), 28))
         (inet_pton6 H addr)))))))
     else if family = AF_UNIX H then
       sbind (of_lstr i ''path'' t) (\<lambda>path.
       sbind (of_names E i Safunix_fields t) (\<lambda>_.
       Inr (Some (SaUn (take 108 (path @ replicate 108 NUL)), 2 + min 108 (length path)))))
     else if LINUX_NETLINK_H H \<and> family = AF_NETLINK H then
       sbind (of_int E i ''pid'' t) (\<lambda>pid.
       sbind (of_int E i ''groups'' t) (\<lambda>groups.
       sbind (of_names E i Safnetlink_fields t) (\<lambda>_. Inr (Some (SaNl pid groups, 12)))))
     else if LINUX_IF_PACKET_H H \<and> family = AF_PACKET H then
       sbind (of_int E i ''ifindex'' t) (\<lambda>ifindex.
       sbind (of_names E i Safpacket_fields t) (\<lambda>_. Inr (Some (SaLl ifindex, 20))))
     else Inl (ArgError i (family_msg family)))"

lemma saf_names:
  "list_all field_name Safinet4_fields" "list_all field_name Safinet6_fields"
  "list_all field_name Safunix_fields" "list_all field_name Safnetlink_fields"
  "list_all field_name Safpacket_fields"
  by (simp_all add: Safinet4_fields_def Safinet6_fields_def Safinet_fields_def Safunix_fields_def
      Safnetlink_fields_def Safpacket_fields_def field_name_def numeral_start_def)

lemma sun_path_filled:
  "take (if sun_path_size < length p then sun_path_size else length p) p @
     replicate (sun_path_size - (if sun_path_size < length p then sun_path_size else length p)) NUL =
   take 108 (p @ replicate 108 NUL)"
  by (simp add: sun_path_size_def)

lemma sockaddr_from_lua_run:
  assumes fl: "float_text E" and i: "0 < i" "at i (stk s) = Some (LTab a)"
    and wf: "wf_table (tabs s a)"
  shows "sockaddr_from_lua E H i s = ofsum (sockaddr_of E H i (tabs s a)) s"
proof -
  note run = field_of [OF i(2)] names_of [OF fl _ i wf] saf_names
  note defs = bnd_def thn_def ret_def sbind_def ofsum_def
  show ?thesis
  proof (cases "of_int E i ''family'' (tabs s a)")
    case (Inl e)
    then show ?thesis unfolding sockaddr_from_lua_def sockaddr_of_def luaL_checktype_table [OF i(2)]
      by (simp add: run defs)
  next
    case (Inr family)
    consider "family = AF_INET H" | "family \<noteq> AF_INET H" "family = AF_INET6 H"
      | "family \<noteq> AF_INET H" "family \<noteq> AF_INET6 H" "family = AF_UNIX H"
      | "family \<noteq> AF_INET H" "family \<noteq> AF_INET6 H" "family \<noteq> AF_UNIX H"
        "(LINUX_NETLINK_H H \<and> family = AF_NETLINK H) = True"
      | "family \<noteq> AF_INET H" "family \<noteq> AF_INET6 H" "family \<noteq> AF_UNIX H"
        "(LINUX_NETLINK_H H \<and> family = AF_NETLINK H) = False"
        "(LINUX_IF_PACKET_H H \<and> family = AF_PACKET H) = True"
      | "family \<noteq> AF_INET H" "family \<noteq> AF_INET6 H" "family \<noteq> AF_UNIX H"
        "(LINUX_NETLINK_H H \<and> family = AF_NETLINK H) = False"
        "(LINUX_IF_PACKET_H H \<and> family = AF_PACKET H) = False" by blast
    then show ?thesis
    proof cases
      case 1
      with Inr show ?thesis unfolding sockaddr_from_lua_def sockaddr_of_def luaL_checktype_table [OF i(2)]
        by (simp add: run defs sizeof_defs split: sum.splits option.splits)
    next
      case 2
      with Inr show ?thesis unfolding sockaddr_from_lua_def sockaddr_of_def luaL_checktype_table [OF i(2)]
        by (simp add: run defs sizeof_defs split: sum.splits option.splits)
    next
      case 3
      with Inr show ?thesis unfolding sockaddr_from_lua_def sockaddr_of_def luaL_checktype_table [OF i(2)]
        by (simp add: run defs sizeof_defs sun_path_size_def min_def split: sum.splits)
    next
      case 4
      show ?thesis unfolding sockaddr_from_lua_def sockaddr_of_def luaL_checktype_table [OF i(2)]
        by (simp only: bnd_def field_of(2) [OF i(2)] Inr ofsum_simps out.case sbind_simps 4
            if_True if_False)
          (simp add: run defs sizeof_defs run_simps split: sum.splits)
    next
      case 5
      show ?thesis unfolding sockaddr_from_lua_def sockaddr_of_def luaL_checktype_table [OF i(2)]
        by (simp only: bnd_def field_of(2) [OF i(2)] Inr ofsum_simps out.case sbind_simps 5
            if_True if_False)
          (simp add: run defs sizeof_defs run_simps split: sum.splits)
    next
      case 6
      show ?thesis unfolding sockaddr_from_lua_def sockaddr_of_def luaL_checktype_table [OF i(2)]
        by (simp only: bnd_def field_of(2) [OF i(2)] Inr ofsum_simps out.case sbind_simps 6
            if_True if_False)
          (simp add: run defs sizeof_defs run_simps split: sum.splits)
    qed
  qed
qed

subsection \<open>The table of an address\<close>

fun addr_members :: "net \<Rightarrow> sockaddr \<Rightarrow> rfield list" where
  "addr_members H (SaIn port a) =
     [IntF ''family'' (of_cint (AF_INET H)), IntF ''port'' (of_ushort (ntohs port)),
      StrF ''addr'' (Some (inet_ntop4 H a))]"
| "addr_members H (SaIn6 port a flow scope) =
     [IntF ''family'' (of_cint (AF_INET6 H)), IntF ''port'' (of_ushort (ntohs port)),
      StrF ''addr'' (Some (inet_ntop6 H a)), IntF ''flowinfo'' (of_cuint (ntohl flow)),
      IntF ''scope_id'' (of_cuint scope)]"
| "addr_members H (SaUn p) =
     [IntF ''family'' (of_cint (AF_UNIX H)), LStrF ''path'' p (length (cstr p))]"
| "addr_members H (SaNl pid groups) =
     [IntF ''family'' (of_cint (AF_NETLINK H)), IntF ''pid'' (of_cuint pid),
      IntF ''groups'' (of_cuint groups)]"
| "addr_members H (SaLl ifindex) =
     [IntF ''family'' (of_cint (AF_PACKET H)), IntF ''ifindex'' (of_cint ifindex)]"
| "addr_members H (SaOther f) = [IntF ''family'' (of_cint (ucast f))]"

text \<open>The labels of the \<open>switch\<close> are distinct; what of the structure is read has been written.\<close>

definition families :: "net \<Rightarrow> bool" where
  "families H \<longleftrightarrow> distinct [AF_INET H, AF_INET6 H, AF_UNIX H, AF_NETLINK H, AF_PACKET H]"

lemma families_neq:
  assumes "families H"
  shows "AF_INET6 H \<noteq> AF_INET H" "AF_UNIX H \<noteq> AF_INET H" "AF_NETLINK H \<noteq> AF_INET H"
    "AF_PACKET H \<noteq> AF_INET H" "AF_UNIX H \<noteq> AF_INET6 H" "AF_NETLINK H \<noteq> AF_INET6 H"
    "AF_PACKET H \<noteq> AF_INET6 H" "AF_NETLINK H \<noteq> AF_UNIX H" "AF_PACKET H \<noteq> AF_UNIX H"
    "AF_PACKET H \<noteq> AF_NETLINK H"
  using assms by (auto simp: families_def)

fun readable :: "net \<Rightarrow> sockaddr \<Rightarrow> bool" where
  "readable H (SaIn _ _) = True"
| "readable H (SaIn6 _ _ _ _) = True"
| "readable H (SaUn p) = (NUL \<in> set p \<or> length p = sun_path_size)"
| "readable H (SaNl _ _) = LINUX_NETLINK_H H"
| "readable H (SaLl _) = LINUX_IF_PACKET_H H"
| "readable H (SaOther f) =
     (ucast f \<notin> {AF_INET H, AF_INET6 H, AF_UNIX H, AF_NETLINK H, AF_PACKET H})"

lemma thn_assoc: "thn (thn m m') m'' = thn m (thn m' m'')"
  by (simp add: fun_eq_iff run_simps split: out.splits)

lemma thn_ret: "thn (ret x) m = m"
  by (simp add: fun_eq_iff run_simps)

lemma pushsockaddrinfo_made:
  "families H \<Longrightarrow> readable H sa \<Longrightarrow>
   pushsockaddrinfo H (sa_family H sa) sa = make_record ''PosixAddrInfo'' (addr_members H sa)"
  by (cases sa)
    (auto simp: families_def pushsockaddrinfo_def make_record_def thn_assoc thn_ret)

lemma addr_members_distinct: "distinct (map rfield_name (addr_members H sa))"
  by (cases sa) simp_all

lemma pushsockaddrinfo_run:
  "families H \<Longrightarrow> readable H sa \<Longrightarrow>
   pushsockaddrinfo H (sa_family H sa) sa s =
     Ok 1 (with_record ''PosixAddrInfo'' (rfields (addr_members H sa)) s)"
  by (simp add: pushsockaddrinfo_made make_record_run addr_members_distinct)

lemma settled_pushsockaddrinfo: "settled (pushsockaddrinfo H family sa)"
  unfolding pushsockaddrinfo_def stray_def
  by (cases sa) (simp_all only: sockaddr.case, (rule settled_rules)+)

lemma quiet_pushsockaddrinfo: "quiet (pushsockaddrinfo H family sa)"
  unfolding pushsockaddrinfo_def stray_def
  by (cases sa) (simp_all only: sockaddr.case, (rule quiet_rules)+)

lemma quiet_sockaddr_from_lua: "quiet (sockaddr_from_lua E H i)"
  unfolding sockaddr_from_lua_def by (rule quiet_rules)+

section \<open>An address comes back\<close>

text \<open>
  What a table can hold: a binary address whose text \<open>inet_pton\<close> takes back, a path that is not
  empty.  A path is read back with the rest of \<open>sun_path\<close> cleared, and with its length as the
  length of the address.
\<close>

fun addr_ok :: "net \<Rightarrow> sockaddr \<Rightarrow> bool" where
  "addr_ok H (SaIn _ a) = (inet_pton4 H (cstr (inet_ntop4 H a)) = Some a)"
| "addr_ok H (SaIn6 _ a _ _) = (inet_pton6 H (cstr (inet_ntop6 H a)) = Some a)"
| "addr_ok H (SaUn p) = ((NUL \<in> set p \<or> length p = sun_path_size) \<and> length p \<le> sun_path_size \<and> cstr p \<noteq> [])"
| "addr_ok H (SaNl _ _) = LINUX_NETLINK_H H"
| "addr_ok H (SaLl _) = LINUX_IF_PACKET_H H"
| "addr_ok H (SaOther f) = False"

fun canonical :: "sockaddr \<Rightarrow> sockaddr \<times> nat" where
  "canonical (SaIn p a) = (SaIn p a, sizeof_in)"
| "canonical (SaIn6 p a f sc) = (SaIn6 p a f sc, sizeof_in6)"
| "canonical (SaUn p) =
     (SaUn (cstr p @ replicate (sun_path_size - length (cstr p)) NUL), 2 + length (cstr p))"
| "canonical (SaNl p g) = (SaNl p g, sizeof_nl)"
| "canonical (SaLl i) = (SaLl i, sizeof_ll)"
| "canonical (SaOther f) = (SaOther f, 0)"

lemma addr_ok_readable: "addr_ok H sa \<Longrightarrow> readable H sa"
  by (cases sa) auto

lemma take_cstr: "take (length (cstr p)) p = cstr p"
  by (simp add: cstr_def takeWhile_eq_take [symmetric])

text \<open>
  The tables of \<open>getaddrinfo\<close> have three fields more (\<open>extra\<close>), which \<open>sockaddr_from_lua\<close> admits for
  the internet families.
\<close>

definition extra_ok :: "sockaddr \<Rightarrow> (string \<times> lvalue) list \<Rightarrow> bool" where
  "extra_ok sa extra \<longleftrightarrow> extra = [] \<or>
     (\<exists>x y z. (sa = SaIn x y \<or> (\<exists>w. sa = SaIn6 x y w z))) \<and>
     fst ` set extra \<subseteq> {''socktype'', ''canonname'', ''protocol''} \<and>
     distinct (map fst extra) \<and> LNil \<notin> snd ` set extra"

lemma of_names_named:
  "\<forall>k \<in> fst ` set kvs. cstr k \<in> set S \<Longrightarrow> of_names E i S (named kvs) = Inr ()"
proof -
  assume "\<forall>k \<in> fst ` set kvs. cstr k \<in> set S"
  then have "first_complaint E S (named kvs) = None"
    unfolding first_complaint_None by (auto simp: named_def key_complaint_def)
  then show ?thesis by (simp add: of_names_def)
qed

lemma of_named:
  "map_of kvs k = Some (LInt n) \<Longrightarrow> of_int E i k (named kvs) = Inr (to_cint n)"
  "map_of kvs k = Some (LInt n) \<Longrightarrow> of_optinteger E i k d (named kvs) = Inr n"
  "map_of kvs k = Some (LStr x) \<Longrightarrow> of_str i k (named kvs) = Inr (cstr x)"
  "map_of kvs k = Some (LStr x) \<Longrightarrow> of_lstr i k (named kvs) = Inr x"
  by (simp_all add: of_defs tbl_get_named int_field_def)

text \<open>Names within the names of the structure and the three of \<open>getaddrinfo\<close>.\<close>

lemma extra_names:
  "extra_ok sa extra \<Longrightarrow> (k, v) \<in> set extra \<Longrightarrow>
   cstr k \<in> set Safinet4_fields \<and> cstr k \<in> set Safinet6_fields"
  by (fastforce simp: extra_ok_def Safinet4_fields_def Safinet6_fields_def Safinet_fields_def cstr_def
      NUL_def)

lemma addr_names:
  "k \<in> fst ` set (rfields (addr_members H sa)) \<Longrightarrow> cstr k \<in> set (case sa of
     SaIn _ _ \<Rightarrow> Safinet4_fields | SaIn6 _ _ _ _ \<Rightarrow> Safinet6_fields | SaUn _ \<Rightarrow> Safunix_fields
   | SaNl _ _ \<Rightarrow> Safnetlink_fields | SaLl _ \<Rightarrow> Safpacket_fields | SaOther _ \<Rightarrow> [''family''])"
  by (cases sa)
    (auto simp: Safinet4_fields_def Safinet6_fields_def Safinet_fields_def Safunix_fields_def
      Safnetlink_fields_def Safpacket_fields_def cstr_def NUL_def split: if_splits)

lemma addr_table_wf:
  "extra_ok sa extra \<Longrightarrow> wf_table (named (rfields (addr_members H sa) @ extra))"
proof -
  let ?kvs = "rfields (addr_members H sa)"
  assume ex: "extra_ok sa extra"
  have "fst ` set ?kvs \<inter> {''socktype'', ''canonname'', ''protocol''} = {}"
    by (cases sa) (auto split: if_splits)
  then have "distinct (map fst (?kvs @ extra))"
    using ex rfields_distinct [OF addr_members_distinct, of H sa] by (auto simp: extra_ok_def)
  moreover have "LNil \<notin> snd ` set (?kvs @ extra)"
    using ex rfields_present [of "addr_members H sa"] by (auto simp: extra_ok_def)
  ultimately show ?thesis
    by (auto simp: wf_table_def distinct_named named_values simp del: named_simps image_iff)
      (auto simp: named_def)
qed

lemma sockaddr_of_table:
  assumes H: "families H" and ok: "addr_ok H sa" and ex: "extra_ok sa extra"
  shows "sockaddr_of E H i (named (rfields (addr_members H sa) @ extra)) = Inr (Some (canonical sa))"
proof -
  have names: "cstr k \<in> set (case sa of
       SaIn _ _ \<Rightarrow> Safinet4_fields | SaIn6 _ _ _ _ \<Rightarrow> Safinet6_fields | SaUn _ \<Rightarrow> Safunix_fields
     | SaNl _ _ \<Rightarrow> Safnetlink_fields | SaLl _ \<Rightarrow> Safpacket_fields | SaOther _ \<Rightarrow> [''family''])"
    if "k \<in> fst ` set (rfields (addr_members H sa) @ extra)" for k
    using that addr_names [of k H sa] ex extra_names [OF ex, of k]
    by (cases sa) (fastforce simp: extra_ok_def)+
  have get: "map_of (rfields (addr_members H sa) @ extra) k = map_of (rfields (addr_members H sa)) k"
    if "k \<notin> {''socktype'', ''canonname'', ''protocol''}" for k
  proof -
    have "map_of extra k = None" using that ex by (auto simp: extra_ok_def map_of_eq_None_iff)
    then show ?thesis by (simp add: map_add_def split: option.splits)
  qed
  note run = of_named get families_neq [OF H]
  show ?thesis
  proof (cases sa)
    case (SaIn p a)
    with ok H show ?thesis using of_names_named [of "rfields (addr_members H sa) @ extra" Safinet4_fields] names
      by (simp add: sockaddr_of_def run sizeof_defs htons_swap del: named_simps)
  next
    case (SaIn6 p a f sc)
    with ok H show ?thesis using of_names_named [of "rfields (addr_members H sa) @ extra" Safinet6_fields] names
      by (simp add: sockaddr_of_def run sizeof_defs htons_swap htonl_swap del: named_simps)
  next
    case (SaUn p)
    have len: "length (cstr p) \<le> length p" "length (cstr p) \<le> 108" "min 108 (length (cstr p)) = length (cstr p)"
      "min (length p) (length (cstr p)) = length (cstr p)"
      using SaUn ok length_cstr [of p] by (simp_all add: sun_path_size_def)
    from SaUn ok H show ?thesis using of_names_named [of "rfields (addr_members H sa) @ extra" Safunix_fields] names
      by (simp add: sockaddr_of_def run sizeof_defs take_cstr len sun_path_size_def del: named_simps)
  next
    case (SaNl p g)
    with ok H show ?thesis using of_names_named [of "rfields (addr_members H sa) @ extra" Safnetlink_fields] names
      by (simp add: sockaddr_of_def run sizeof_defs del: named_simps)
  next
    case (SaLl n)
    with ok H show ?thesis using of_names_named [of "rfields (addr_members H sa) @ extra" Safpacket_fields] names
      by (simp add: sockaddr_of_def run sizeof_defs del: named_simps)
  qed (use ok in simp)
qed

lemma sockaddr_reads:
  assumes "families H" "addr_ok H sa" "extra_ok sa extra" "float_text E"
    and "0 < i" "at i (stk s) = Some (LTab a)"
    and t: "tabs s a = named (rfields (addr_members H sa) @ extra)"
  shows "sockaddr_from_lua E H i s = Ok (Some (canonical sa)) s"
  using assms addr_table_wf [OF assms(3), of H]
  by (simp add: sockaddr_from_lua_run sockaddr_of_table del: named_simps)

text \<open>A structure whose path was cleared behind its end is read back exactly.\<close>

lemma canonical_same:
  "length p = sun_path_size \<Longrightarrow> p = cstr p @ replicate n NUL \<Longrightarrow> fst (canonical (SaUn p)) = SaUn p"
proof -
  assume l: "length p = sun_path_size" and p: "p = cstr p @ replicate n NUL"
  from arg_cong [OF p, of length] l have "n = sun_path_size - length (cstr p)" by simp
  with p show ?thesis by simp
qed

lemma canonical_other: "\<forall>p. sa \<noteq> SaUn p \<Longrightarrow> fst (canonical sa) = sa"
  by (cases sa) simp_all

text \<open>The record interface: \<open>make_record\<close> over \<open>addr_members\<close> is what \<open>pushsockaddrinfo\<close> runs.\<close>

interpretation sockaddr_record: record_push
    "\<lambda>sa. make_record ''PosixAddrInfo'' (addr_members H sa)" "''PosixAddrInfo''" "addr_members H" for H
  by unfold_locales (simp_all add: addr_members_distinct)

end
