(* ===== verification/SysSocket.thy ===== *)
theory SysSocket
  imports SocketAddr Arrays SysTime
begin

text \<open>
  \<^verbatim>\<open>ext/posix/sys/socket.c\<close>, second part: the bindings.  An address that the kernel fills in is an
  \<open>option\<close>: \<open>None\<close> when the call succeeds without writing one (\<open>recvfrom\<close> on a connected stream
  socket), and the structure then is indeterminate.
\<close>

section \<open>Descriptors\<close>

definition Psocket :: "env \<Rightarrow> (cint \<Rightarrow> cint \<Rightarrow> cint \<Rightarrow> ('w, cint) sys) \<Rightarrow> ('w, nat) lm" where
  "Psocket E c_socket =
     bnd (checkint E 1) (\<lambda>domain.
     bnd (checkint E 2) (\<lambda>type.
     bnd (checkint E 3) (\<lambda>options.
     thn (checknargs 3)
    (bnd (sys (c_socket domain type options)) (\<lambda>r. pushresult E r None)))))"

definition Psocketpair ::
  "env \<Rightarrow> (cint \<Rightarrow> cint \<Rightarrow> cint \<Rightarrow> ('w, cint \<times> cint \<times> cint) sys) \<Rightarrow> ('w, nat) lm" where
  "Psocketpair E c_socketpair =
     bnd (checkint E 1) (\<lambda>domain.
     bnd (checkint E 2) (\<lambda>socktype.
     bnd (checkint E 3) (\<lambda>options.
     thn (checknargs 3)
    (bnd (sys (c_socketpair domain socktype options)) (\<lambda>(rc, fd0, fd1).
     if rc <s 0 then pusherror E (Some ''socketpair'')
     else seqn [lua_pushinteger (of_cint fd0), lua_pushinteger (of_cint fd1)] 2)))))"

definition Plisten :: "env \<Rightarrow> (cint \<Rightarrow> cint \<Rightarrow> ('w, cint) sys) \<Rightarrow> ('w, nat) lm" where
  "Plisten E c_listen =
     bnd (checkint E 1) (\<lambda>fd.
     bnd (checkint E 2) (\<lambda>backlog.
     thn (checknargs 2)
    (bnd (sys (c_listen fd backlog)) (\<lambda>r. pushresult E r (Some ''listen'')))))"

definition Pshutdown :: "env \<Rightarrow> (cint \<Rightarrow> cint \<Rightarrow> ('w, cint) sys) \<Rightarrow> ('w, nat) lm" where
  "Pshutdown E c_shutdown =
     bnd (checkint E 1) (\<lambda>fd.
     bnd (checkint E 2) (\<lambda>how.
     thn (checknargs 2)
    (bnd (sys (c_shutdown fd how)) (\<lambda>r. pushresult E r (Some ''shutdown'')))))"

text \<open>\<open>if_nametoindex\<close> reports an unknown name as 0.\<close>

definition Pif_nametoindex :: "env \<Rightarrow> (string \<Rightarrow> ('w, cint) sys) \<Rightarrow> ('w, nat) lm" where
  "Pif_nametoindex E c_if_nametoindex =
     bnd (luaL_checkstring E 1) (\<lambda>ifname.
     thn (checknargs 1)
    (bnd (sys (c_if_nametoindex ifname)) (\<lambda>ifindex.
     if ifindex = 0 then pusherror E (Some ''if_nametoindex'')
     else thn (lua_pushinteger (of_cint ifindex)) (ret 1))))"

section \<open>Addresses of both ends\<close>

definition push_written :: "net \<Rightarrow> sockaddr option \<Rightarrow> ('w, nat) lm" where
  "push_written H sa = (case sa of
      None \<Rightarrow> stray
    | Some a \<Rightarrow> pushsockaddrinfo H (sa_family H a) a)"

definition Pconnect ::
  "env \<Rightarrow> net \<Rightarrow> (cint \<Rightarrow> sockaddr \<Rightarrow> nat \<Rightarrow> ('w, cint) sys) \<Rightarrow> ('w, nat) lm" where
  "Pconnect E H c_connect =
     bnd (checkint E 1) (\<lambda>fd.
     thn (checknargs 2)
    (bnd (sockaddr_from_lua E H 2) (\<lambda>r. case r of
       None \<Rightarrow> pusherror E (Some ''not a valid IPv4 or IPv6 address argument'')
     | Some (sa, salen) \<Rightarrow>
         bnd (sys (c_connect fd sa salen)) (\<lambda>r. pushresult E r (Some ''connect'')))))"

definition Pbind ::
  "env \<Rightarrow> net \<Rightarrow> (cint \<Rightarrow> sockaddr \<Rightarrow> nat \<Rightarrow> ('w, cint) sys) \<Rightarrow> ('w, nat) lm" where
  "Pbind E H c_bind =
     thn (checknargs 2)
    (bnd (checkint E 1) (\<lambda>fd.
     bnd (sockaddr_from_lua E H 2) (\<lambda>r. case r of
       None \<Rightarrow> pusherror E (Some ''not a valid IPv4 or IPv6 argument'')
     | Some (sa, salen) \<Rightarrow>
         bnd (sys (c_bind fd sa salen)) (\<lambda>r. pushresult E r (Some ''bind'')))))"

definition Paccept ::
  "env \<Rightarrow> net \<Rightarrow> (cint \<Rightarrow> ('w, cint \<times> sockaddr option) sys) \<Rightarrow> ('w, nat) lm" where
  "Paccept E H c_accept =
     bnd (checkint E 1) (\<lambda>fd.
     thn (checknargs 1)
    (bnd (sys (c_accept fd)) (\<lambda>(fd_client, sa).
     if fd_client = -1 then pusherror E (Some ''accept'')
     else thn (lua_pushinteger (of_cint fd_client))
         (bnd (push_written H sa) (\<lambda>n. ret (1 + n))))))"

definition Pgetsockname ::
  "env \<Rightarrow> net \<Rightarrow> (cint \<Rightarrow> ('w, cint \<times> sockaddr option) sys) \<Rightarrow> ('w, nat) lm" where
  "Pgetsockname E H c_getsockname =
     bnd (checkint E 1) (\<lambda>fd.
     thn (checknargs 1)
    (bnd (sys (c_getsockname fd)) (\<lambda>(r, sa).
     if r \<noteq> 0 then pusherror E (Some ''getsockname'') else push_written H sa)))"

definition Pgetpeername ::
  "env \<Rightarrow> net \<Rightarrow> (cint \<Rightarrow> ('w, cint \<times> sockaddr option) sys) \<Rightarrow> ('w, nat) lm" where
  "Pgetpeername E H c_getpeername =
     bnd (checkint E 1) (\<lambda>fd.
     thn (checknargs 1)
    (bnd (sys (c_getpeername fd)) (\<lambda>(r, sa).
     if r \<noteq> 0 then pusherror E (Some ''getpeername'') else push_written H sa)))"

section \<open>Messages\<close>

definition Psend :: "env \<Rightarrow> (cint \<Rightarrow> string \<Rightarrow> ('w, lint) sys) \<Rightarrow> ('w, nat) lm" where
  "Psend E c_send =
     bnd (checkint E 1) (\<lambda>fd.
     bnd (luaL_checklstring E 2) (\<lambda>buf.
     thn (checknargs 2)
    (bnd (sys (c_send fd buf)) (\<lambda>r. pushresult E (to_cint r) (Some ''send'')))))"

definition Psendto ::
  "env \<Rightarrow> net \<Rightarrow> (cint \<Rightarrow> string \<Rightarrow> sockaddr \<Rightarrow> nat \<Rightarrow> ('w, lint) sys) \<Rightarrow> ('w, nat) lm" where
  "Psendto E H c_sendto =
     bnd (checkint E 1) (\<lambda>fd.
     bnd (luaL_checklstring E 2) (\<lambda>buf.
     thn (checknargs 3)
    (bnd (sockaddr_from_lua E H 3) (\<lambda>r. case r of
       None \<Rightarrow> pusherror E (Some ''not a valid IPv4 or IPv6 argument'')
     | Some (sa, salen) \<Rightarrow>
         bnd (sys (c_sendto fd buf sa salen)) (\<lambda>r. pushresult E (to_cint r) (Some ''sendto''))))))"

text \<open>\<open>recv\<close> fills at most \<open>count\<close> bytes of the block; the first \<open>ret\<close> of them become the string.\<close>

definition push_received :: "lint \<Rightarrow> string \<Rightarrow> ('w, unit) lm" where
  "push_received n data = (if sint n < 0 then ret () else lua_pushlstring (take (unat n) data))"

definition Precv :: "env \<Rightarrow> (cint \<Rightarrow> lint \<Rightarrow> ('w, lint \<times> string) sys) \<Rightarrow> ('w, nat) lm" where
  "Precv E c_recv =
     bnd (checkint E 1) (\<lambda>fd.
     bnd (checkinteger E 2) (\<lambda>count.
     thn (checknargs 2)
    (thn (set_errno 0)
    (bnd (lua_alloc E count) (\<lambda>buf.
     if buf = None \<and> count \<noteq> 0 then pusherror E (Some ''lalloc'')
     else bnd (bnd (sys (c_recv fd count)) (\<lambda>(r, data).
            thn (push_received r data) (ret r))) (\<lambda>r.
          thn (lua_free buf count)
         (if sint r < 0 then pusherror E None else ret 1)))))))"

definition Precvfrom ::
  "env \<Rightarrow> net \<Rightarrow> (cint \<Rightarrow> lint \<Rightarrow> ('w, lint \<times> string \<times> sockaddr option) sys) \<Rightarrow> ('w, nat) lm" where
  "Precvfrom E H c_recvfrom =
     bnd (checkint E 1) (\<lambda>fd.
     bnd (checkinteger E 2) (\<lambda>count.
     thn (checknargs 2)
    (thn (set_errno 0)
    (bnd (lua_alloc E count) (\<lambda>buf.
     if buf = None \<and> count \<noteq> 0 then pusherror E (Some ''lalloc'')
     else bnd (bnd (sys (c_recvfrom fd count)) (\<lambda>(r, data, sa).
            thn (push_received r data) (ret (r, sa)))) (\<lambda>(r, sa).
          thn (lua_free buf count)
         (if sint r < 0 then pusherror E None
          else bnd (push_written H sa) (\<lambda>n. ret (1 + n)))))))))"

section \<open>Name resolution\<close>

record addrinfo =
  ai_family :: cint
  ai_socktype :: cint
  ai_protocol :: cint
  ai_addr :: sockaddr
  ai_canonname :: "string option"

record hints =
  hint_family :: cint
  hint_socktype :: cint
  hint_protocol :: cint
  hint_flags :: cint

definition Sai_fields :: "string list" where
  "Sai_fields = [''family'', ''socktype'', ''protocol'', ''flags'']"

text \<open>The two \<open>switch\<close> statements of \<open>Pgetaddrinfo\<close>.\<close>

definition service_arg :: "env \<Rightarrow> string option \<Rightarrow> ('w, string option) lm" where
  "service_arg E host =
     bnd (lua_type 2) (\<lambda>t.
     if t = TNONE \<or> t = TNIL then
       (if host = None then argtypeerror 2 ''integer or string'' else ret None)
     else if t = TNUMBER \<or> t = TSTRING then
       bnd (lua_tolstring E 2) (\<lambda>x. ret (map_option cstr x))
     else argtypeerror 2 ''integer, nil or string'')"

definition hints_arg :: "env \<Rightarrow> cint \<Rightarrow> ('w, hints) lm" where
  "hints_arg E PF_UNSPEC =
     bnd (lua_type 3) (\<lambda>t.
     if t = TNONE \<or> t = TNIL then
       ret \<lparr>hint_family = PF_UNSPEC, hint_socktype = 0, hint_protocol = 0, hint_flags = 0\<rparr>
     else if t = TTABLE then
       thn (checkfieldnames E 3 Sai_fields)
      (bnd (optintfield E 3 ''family'' PF_UNSPEC) (\<lambda>family.
       bnd (optintfield E 3 ''socktype'' 0) (\<lambda>socktype.
       bnd (optintfield E 3 ''protocol'' 0) (\<lambda>protocol.
       bnd (optintfield E 3 ''flags'' 0) (\<lambda>flags.
       ret \<lparr>hint_family = family, hint_socktype = socktype, hint_protocol = protocol,
            hint_flags = flags\<rparr>)))))
     else argtypeerror 3 ''nil or table'')"

text \<open>The fields that are added to the table of an address, and the loop over the results.\<close>

definition info_members :: "addrinfo \<Rightarrow> rfield list" where
  "info_members p = [
     IntF ''socktype'' (of_cint (ai_socktype p)),
     StrF ''canonname'' (ai_canonname p),
     IntF ''protocol'' (of_cint (ai_protocol p))]"

fun push_addrinfos :: "net \<Rightarrow> cint \<Rightarrow> addrinfo list \<Rightarrow> ('w, unit) lm" where
  "push_addrinfos H n [] = ret ()"
| "push_addrinfos H n (p # ps) =
     thn (lua_pushinteger (of_cint n))
    (bnd (next_index Signed n) (\<lambda>n'.
     thn (pushsockaddrinfo H (ai_family p) (ai_addr p))
    (thn (for_each (info_members p) put_rfield)
    (thn (lua_settable (-3))
         (push_addrinfos H n' ps)))))"

record 'w resolver =
  c_getaddrinfo :: "string option \<Rightarrow> string option \<Rightarrow> hints \<Rightarrow> ('w, cint \<times> addrinfo list) sys"
  c_freeaddrinfo :: "addrinfo list \<Rightarrow> ('w, unit) sys"
  gai_strerror :: "cint \<Rightarrow> string"

definition Pgetaddrinfo :: "env \<Rightarrow> net \<Rightarrow> cint \<Rightarrow> 'w resolver \<Rightarrow> ('w, nat) lm" where
  "Pgetaddrinfo E H PF_UNSPEC R =
     bnd (optstring E 1 None) (\<lambda>host.
     thn (checknargs 3)
    (bnd (service_arg E host) (\<lambda>service.
     bnd (hints_arg E PF_UNSPEC) (\<lambda>hints.
     bnd (sys (c_getaddrinfo R host service hints)) (\<lambda>(r, res).
     if r \<noteq> 0 then
       seqn [lua_pushnil, lua_pushstring (gai_strerror R r), lua_pushinteger (of_cint r)] 3
     else seqn [lua_newtable, push_addrinfos H 1 res, sys (c_freeaddrinfo R res)] 1)))))"

section \<open>Options\<close>

text \<open>
  The value an option carries: \<open>struct linger\<close>, \<open>struct timeval\<close>, an interface name, a multicast
  group, or an \<open>int\<close>.  Options the host does not define are \<open>None\<close>.
\<close>

datatype optval =
    OptLinger cint cint \<comment> \<open>\<open>l_onoff\<close>, \<open>l_linger\<close>\<close>
  | OptTimeval timeval
  | OptDevice string
  | OptGroup string
  | OptInt cint

fun optlen :: "optval \<Rightarrow> nat" where
  "optlen (OptLinger _ _) = 8"
| "optlen (OptTimeval _) = 16"
| "optlen (OptDevice x) = length x"
| "optlen (OptGroup _) = 20"
| "optlen (OptInt _) = 4"

record sockopts =
  SOL_SOCKET :: cint
  SO_LINGER :: cint
  SO_RCVTIMEO :: cint
  SO_SNDTIMEO :: cint
  SO_BINDTODEVICE :: "cint option"
  IPPROTO_IPV6 :: cint
  IPPROTO_TCP :: cint
  IPV6_GROUP_OPTS :: "(cint \<times> cint) option" \<comment> \<open>\<open>IPV6_JOIN_GROUP\<close>, \<open>IPV6_LEAVE_GROUP\<close>\<close>

definition IFNAMSIZ :: nat where
  "IFNAMSIZ = 16"

text \<open>
  The \<open>switch\<close> of \<open>Psetsockopt\<close>: \<open>None\<close> leaves \<open>val\<close> null.  A group address that \<open>inet_pton\<close> rejects
  leaves the cleared address.
\<close>

definition setsockopt_value :: "env \<Rightarrow> net \<Rightarrow> sockopts \<Rightarrow> cint \<Rightarrow> cint \<Rightarrow> ('w, optval option) lm" where
  "setsockopt_value E H K level optname =
     (if level = SOL_SOCKET K then
        (if optname = SO_LINGER K then
           thn (checknargs 5)
          (bnd (checkinteger E 4) (\<lambda>onoff.
           bnd (checkinteger E 5) (\<lambda>linger.
           ret (Some (OptLinger (to_cint onoff) (to_cint linger))))))
         else if optname = SO_RCVTIMEO K \<or> optname = SO_SNDTIMEO K then
           thn (checknargs 5)
          (bnd (checkinteger E 4) (\<lambda>sec.
           bnd (checkinteger E 5) (\<lambda>usec.
           ret (Some (OptTimeval \<lparr>tv_sec = sec, tv_usec = usec\<rparr>)))))
         else if SO_BINDTODEVICE K = Some optname then
           thn (checknargs 4)
          (bnd (luaL_checkstring E 4) (\<lambda>name.
           ret (Some (OptDevice (take (IFNAMSIZ - 1) name)))))
         else thn (checknargs 4) (ret None))
      else if level = IPPROTO_IPV6 K \<and> IPV6_GROUP_OPTS K \<noteq> None then
        (if optname \<in> {fst (the (IPV6_GROUP_OPTS K)), snd (the (IPV6_GROUP_OPTS K))} then
           thn (checknargs 4)
          (bnd (luaL_checkstring E 4) (\<lambda>group.
           ret (Some (OptGroup (case inet_pton6 H group of
             None \<Rightarrow> replicate 16 NUL | Some a \<Rightarrow> a)))))
         else thn (checknargs 4) (ret None))
      else if level = IPPROTO_TCP K then thn (checknargs 4) (ret None)
      else ret None)"

definition Psetsockopt ::
  "env \<Rightarrow> net \<Rightarrow> sockopts \<Rightarrow> (cint \<Rightarrow> cint \<Rightarrow> cint \<Rightarrow> optval \<Rightarrow> nat \<Rightarrow> ('w, cint) sys) \<Rightarrow> ('w, nat) lm" where
  "Psetsockopt E H K c_setsockopt =
     bnd (checkint E 1) (\<lambda>fd.
     bnd (checkint E 2) (\<lambda>level.
     bnd (checkint E 3) (\<lambda>optname.
     bnd (setsockopt_value E H K level optname) (\<lambda>val.
     bnd (case val of
            Some v \<Rightarrow> ret v
          | None \<Rightarrow> bnd (checkinteger E 4) (\<lambda>vint. ret (OptInt (to_cint vint)))) (\<lambda>v.
     bnd (sys (c_setsockopt fd level optname v (optlen v))) (\<lambda>r.
     pushresult E r (Some ''setsockopt'')))))))"

record 'w getopts =
  get_linger :: "cint \<Rightarrow> cint \<Rightarrow> cint \<Rightarrow> ('w, cint \<times> cint \<times> cint) sys" \<comment> \<open>status, \<open>l_onoff\<close>, \<open>l_linger\<close>\<close>
  get_timeval :: "cint \<Rightarrow> cint \<Rightarrow> cint \<Rightarrow> ('w, cint \<times> timeval) sys"
  get_device :: "cint \<Rightarrow> cint \<Rightarrow> cint \<Rightarrow> ('w, cint \<times> string) sys"
  get_int :: "cint \<Rightarrow> cint \<Rightarrow> cint \<Rightarrow> ('w, cint \<times> cint) sys"

definition linger_members :: "cint \<times> cint \<Rightarrow> rfield list" where
  "linger_members l = [IntF ''l_linger'' (of_cint (snd l)), IntF ''l_onoff'' (of_cint (fst l))]"

definition timeval_members :: "timeval \<Rightarrow> rfield list" where
  "timeval_members t = [IntF ''tv_sec'' (tv_sec t), IntF ''tv_usec'' (tv_usec t)]"

text \<open>The part of \<open>Pgetsockopt\<close> after its arguments are taken.\<close>

definition getsockopt_result :: "env \<Rightarrow> sockopts \<Rightarrow> 'w getopts \<Rightarrow> cint \<Rightarrow> cint \<Rightarrow> cint \<Rightarrow> ('w, nat) lm" where
  "getsockopt_result E K G fd level optname =
    (if level = SOL_SOCKET K \<and> optname = SO_LINGER K then
       bnd (sys (get_linger G fd level optname)) (\<lambda>(err, l).
       if err = -1 then pusherror E (Some ''getsockopt'')
       else make_record ''PosixLinger'' (linger_members l))
     else if level = SOL_SOCKET K \<and> (optname = SO_RCVTIMEO K \<or> optname = SO_SNDTIMEO K) then
       bnd (sys (get_timeval G fd level optname)) (\<lambda>(err, tv).
       if err = -1 then pusherror E (Some ''getsockopt'')
       else make_record ''PosixTimeval'' (timeval_members tv))
     else if level = SOL_SOCKET K \<and> SO_BINDTODEVICE K = Some optname then
       bnd (sys (get_device G fd level optname)) (\<lambda>(err, ifname).
       if err = -1 then pusherror E (Some ''getsockopt'')
       else thn (lua_pushlstring ifname) (ret 1))
     else
       bnd (sys (get_int G fd level optname)) (\<lambda>(err, vint).
       if err = -1 then pusherror E (Some ''getsockopt'')
       else thn (lua_pushinteger (of_cint vint)) (ret 1)))"

definition Pgetsockopt :: "env \<Rightarrow> sockopts \<Rightarrow> 'w getopts \<Rightarrow> ('w, nat) lm" where
  "Pgetsockopt E K G =
     bnd (checkint E 1) (\<lambda>fd.
     bnd (checkint E 2) (\<lambda>level.
     bnd (checkint E 3) (\<lambda>optname.
     thn (checknargs 3)
         (getsockopt_result E K G fd level optname))))"

section \<open>Contracts\<close>

text \<open>The argument lists of the bindings that make one call.\<close>

definition args_send :: "env \<Rightarrow> 'w lst \<Rightarrow> lvalue list \<Rightarrow> err + (cint \<times> string)" where
  "args_send E s args =
     sbind (arg_int E 1 args) (\<lambda>fd. sbind (arg_lstr E s 2 args) (\<lambda>buf.
     sbind (at_most 2 args) (\<lambda>_. Inr (fd, buf))))"

definition to_cint_sys :: "('w, lint) sys \<Rightarrow> ('w, cint) sys" where
  "to_cint_sys g e w = (case g e w of (r, e', w') \<Rightarrow> (to_cint r, e', w'))"

definition plain_int :: "env \<Rightarrow> lvalue list \<Rightarrow> err + optval" where
  "plain_int E args = sbind (arg_int E 4 args) (\<lambda>n. Inr (OptInt n))"

definition optval_of ::
  "env \<Rightarrow> 'w lst \<Rightarrow> net \<Rightarrow> sockopts \<Rightarrow> cint \<Rightarrow> cint \<Rightarrow> lvalue list \<Rightarrow> err + optval" where
  "optval_of E s H K level optname args =
     (if level = SOL_SOCKET K \<and> optname = SO_LINGER K then
        sbind (at_most 5 args) (\<lambda>_. sbind (arg_int E 4 args) (\<lambda>on. sbind (arg_int E 5 args) (\<lambda>l.
        Inr (OptLinger on l))))
      else if level = SOL_SOCKET K \<and> optname \<in> {SO_RCVTIMEO K, SO_SNDTIMEO K} then
        sbind (at_most 5 args) (\<lambda>_. sbind (arg_integer E 4 args) (\<lambda>a. sbind (arg_integer E 5 args) (\<lambda>b.
        Inr (OptTimeval \<lparr>tv_sec = a, tv_usec = b\<rparr>))))
      else if level = SOL_SOCKET K \<and> SO_BINDTODEVICE K = Some optname then
        sbind (at_most 4 args) (\<lambda>_. sbind (arg_str E s 4 args) (\<lambda>x. Inr (OptDevice (take 15 x))))
      else if level = SOL_SOCKET K then sbind (at_most 4 args) (\<lambda>_. plain_int E args)
      else if level = IPPROTO_IPV6 K \<and> (\<exists>j l. IPV6_GROUP_OPTS K = Some (j, l) \<and> optname \<in> {j, l}) then
        sbind (at_most 4 args) (\<lambda>_. sbind (arg_str E s 4 args) (\<lambda>x.
        Inr (OptGroup (case inet_pton6 H x of None \<Rightarrow> replicate 16 NUL | Some a \<Rightarrow> a))))
      else if level = IPPROTO_TCP K \<or> level = IPPROTO_IPV6 K \<and> IPV6_GROUP_OPTS K \<noteq> None then
        sbind (at_most 4 args) (\<lambda>_. plain_int E args)
      else plain_int E args)"

definition args_setsockopt ::
  "env \<Rightarrow> net \<Rightarrow> sockopts \<Rightarrow> 'w lst \<Rightarrow> lvalue list \<Rightarrow> err + (cint \<times> cint \<times> cint \<times> optval)" where
  "args_setsockopt E H K s args =
     sbind (arg_int E 1 args) (\<lambda>fd. sbind (arg_int E 2 args) (\<lambda>level. sbind (arg_int E 3 args) (\<lambda>name.
     sbind (optval_of E s H K level name args) (\<lambda>v. Inr (fd, level, name, v)))))"

interpretation socket: sys_wrapper "Psocket E c" "args_fd3 E" "\<lambda>(d, t, p). c d t p" E "\<lambda>_. None" for E c
  by unfold_locales
    (simp add: Psocket_def wrapper_simps split: option.splits prod.splits)

interpretation listen: sys_wrapper "Plisten E c" "args_fd2 E" "\<lambda>(fd, n). c fd n" E "\<lambda>_. Some ''listen''" for E c
  by unfold_locales
    (simp add: Plisten_def wrapper_simps split: option.splits prod.splits)

interpretation shutdown: sys_wrapper "Pshutdown E c" "args_fd2 E" "\<lambda>(fd, n). c fd n" E
    "\<lambda>_. Some ''shutdown''" for E c
  by unfold_locales
    (simp add: Pshutdown_def wrapper_simps split: option.splits prod.splits)

interpretation send: sys_wrapper "Psend E c" "args_send E" "\<lambda>(fd, b). to_cint_sys (c fd b)" E
    "\<lambda>_. Some ''send''" for E c
  by unfold_locales
    (simp add: Psend_def args_send_def wrapper_simps to_cint_sys_def split: option.splits prod.splits)

lemma to_cint_sys_run: "to_cint_sys g e w = (case g e w of (r, e', w') \<Rightarrow> (to_cint r, e', w'))"
  by (simp add: to_cint_sys_def)

lemma setsockopt_value_run:
  "bnd (setsockopt_value E H K level optname) (\<lambda>val.
     bnd (case val of Some v \<Rightarrow> ret v
       | None \<Rightarrow> bnd (checkinteger E 4) (\<lambda>vint. ret (OptInt (to_cint vint)))) f) (s\<lparr>stk := args\<rparr>) =
   (case optval_of E s H K level optname args of
      Inl e \<Rightarrow> Err e (s\<lparr>stk := []\<rparr>)
    | Inr v \<Rightarrow> f v (s\<lparr>stk := (case v of OptDevice _ \<Rightarrow> put_at 4 (LStr (the (val_str E (at 4 args)))) args
        | OptGroup _ \<Rightarrow> put_at 4 (LStr (the (val_str E (at 4 args)))) args | _ \<Rightarrow> args)\<rparr>))"
proof -
  consider "level = SOL_SOCKET K" | "level \<noteq> SOL_SOCKET K" "level = IPPROTO_IPV6 K" "IPV6_GROUP_OPTS K \<noteq> None"
    | "level \<noteq> SOL_SOCKET K" "\<not> (level = IPPROTO_IPV6 K \<and> IPV6_GROUP_OPTS K \<noteq> None)"
    by blast
  then show ?thesis
  proof cases
    case 1
    then show ?thesis
      by (simp add: setsockopt_value_def optval_of_def plain_int_def arg_defs run_simps IFNAMSIZ_def
          split: option.splits)
  next
    case 2
    then obtain j l where "IPV6_GROUP_OPTS K = Some (j, l)" by auto
    with 2 show ?thesis
      by (simp add: setsockopt_value_def optval_of_def plain_int_def arg_defs run_simps
          split: option.splits)
  next
    case 3
    then show ?thesis
      by (auto simp: setsockopt_value_def optval_of_def plain_int_def arg_defs run_simps
          split: option.splits)
  qed
qed

interpretation setsockopt: sys_wrapper "Psetsockopt E H K c" "args_setsockopt E H K"
    "\<lambda>(fd, level, name, v). c fd level name v (optlen v)" E "\<lambda>_. Some ''setsockopt''" for E H K c
proof unfold_locales
  fix args and s :: "'a lst"
  have run: "Psetsockopt E H K c (s\<lparr>stk := args\<rparr>) =
    (case args_setsockopt E H K s args of Inl e \<Rightarrow> Err e (s\<lparr>stk := []\<rparr>)
     | Inr (fd, level, name, v) \<Rightarrow> bnd (sys (c fd level name v (optlen v))) (\<lambda>r. pushresult E r (Some ''setsockopt''))
        (s\<lparr>stk := (case v of OptDevice _ \<Rightarrow> put_at 4 (LStr (the (val_str E (at 4 args)))) args
        | OptGroup _ \<Rightarrow> put_at 4 (LStr (the (val_str E (at 4 args)))) args | _ \<Rightarrow> args)\<rparr>))"
    unfolding Psetsockopt_def args_setsockopt_def bnd_def [of "checkint _ _"]
    by (simp add: checkint_run arg_int_def arg_integer_def setsockopt_value_run split: option.splits sum.splits)
  show "call_c (Psetsockopt E H K c) args s = (case args_setsockopt E H K s args of
      Inl e \<Rightarrow> Err e s
    | Inr a \<Rightarrow> (case (case a of (fd, level, name, v) \<Rightarrow> c fd level name v (optlen v)) (errno s) (world s) of
          (r, e, w) \<Rightarrow> Ok (result_values E (Some ''setsockopt'') r e) (s\<lparr>errno := e, world := w\<rparr>)))"
    unfolding call_c_def run
    by (simp add: bnd_def sys_def pushresult_run split: sum.splits prod.splits)
qed

lemma quiet_argument_switches: "quiet (service_arg E h)" "quiet (hints_arg E u)"
    "quiet (setsockopt_value E H K l n)"
  unfolding service_arg_def hints_arg_def setsockopt_value_def by (rule quiet_rules)+

lemma settled_push_addrinfos: "settled (push_addrinfos H n ps)"
  by (induction H n ps rule: push_addrinfos.induct)
    (auto intro!: settled_base settled_next_index settled_pushsockaddrinfo settled_put_rfield)

lemma settled_push_written: "settled (push_written H sa)"
  unfolding push_written_def stray_def by (rule settled_rules settled_pushsockaddrinfo)+

lemma settled_push_received: "settled (push_received n x)"
  unfolding push_received_def by (rule settled_rules)+

lemmas socket_rules = clean_rules quiet_argument_switches quiet_sockaddr_from_lua
  settled_push_addrinfos settled_push_written settled_push_received settled_make_record

lemma clean_socket:
  "clean (Psocketpair E c1)" "clean (Pif_nametoindex E c2)" "clean (Pconnect E H c3)" "clean (Pbind E H c4)"
  "clean (Paccept E H c5)" "clean (Pgetsockname E H c6)" "clean (Pgetpeername E H c7)"
  "clean (Psendto E H c8)" "clean (Precv E c9)" "clean (Precvfrom E H c10)"
  "clean (Pgetaddrinfo E H u R)" "clean (Pgetsockopt E K G)"
  unfolding Psocketpair_def Pif_nametoindex_def Pconnect_def Pbind_def Paccept_def Pgetsockname_def
    Pgetpeername_def Psendto_def Precv_def Precvfrom_def Pgetaddrinfo_def Pgetsockopt_def getsockopt_result_def
  by (rule socket_rules | simp only: split_def)+

lemma quiet_push_written: "quiet (push_written H sa)"
  unfolding push_written_def stray_def by (rule quiet_rules quiet_pushsockaddrinfo)+

lemma quiet_push_received: "quiet (push_received n x)"
  unfolding push_received_def by (rule quiet_rules)+

lemmas receive_rules = balanced_quiet [OF quiet_push_written] balanced_quiet [OF quiet_push_received]
  balanced_quiet [OF quiet_args(5)] balanced_quiet [OF quiet_args(4)]
  balanced_quiet [OF quiet_args(13)] balanced_quiet [OF quiet_results(1)]
  balanced_quiet [OF quiet_prims(1)]

lemma balanced_receive: "balanced (Precv E c)" "balanced (Precvfrom E H d)"
  unfolding Precv_def Precvfrom_def split_def
  by (rule balanced_block_any balanced_bnd balanced_thn balanced_if balanced_sys receive_rules)+

section \<open>Addresses go round\<close>

text \<open>A table that stands for \<open>sa\<close>, as the bindings that take an address use it.\<close>

definition stands_for :: "net \<Rightarrow> 'w lst \<Rightarrow> nat \<Rightarrow> sockaddr \<Rightarrow> bool" where
  "stands_for H s a sa \<longleftrightarrow>
     (\<exists>extra. extra_ok sa extra \<and> tabs s a = named (rfields (addr_members H sa) @ extra))"

lemma stands_for_reads:
  assumes "families H" "addr_ok H sa" "float_text E" "stands_for H s a sa"
    and "0 < i" "at i xs = Some (LTab a)"
  shows "sockaddr_from_lua E H i (s\<lparr>stk := xs\<rparr>) = Ok (Some (canonical sa)) (s\<lparr>stk := xs\<rparr>)"
proof -
  obtain extra where ex: "extra_ok sa extra" "tabs s a = named (rfields (addr_members H sa) @ extra)"
    using assms(4) by (auto simp: stands_for_def)
  show ?thesis
    by (rule sockaddr_reads [OF assms(1,2) ex(1) assms(3,5), where a = a]) (use assms ex(2) in simp_all)
qed

lemma address_taken:
  assumes "families H" "addr_ok H sa" "float_text E" "stands_for H s a sa"
  shows "call_c (Pconnect E H c) [LInt fd, LTab a] s =
      (case c (to_cint fd) (fst (canonical sa)) (snd (canonical sa)) (errno s) (world s) of (r, e, w) \<Rightarrow>
         Ok (result_values E (Some ''connect'') r e) (s\<lparr>errno := e, world := w\<rparr>))"
    and "call_c (Pbind E H c) [LInt fd, LTab a] s =
      (case c (to_cint fd) (fst (canonical sa)) (snd (canonical sa)) (errno s) (world s) of (r, e, w) \<Rightarrow>
         Ok (result_values E (Some ''bind'') r e) (s\<lparr>errno := e, world := w\<rparr>))"
    and "call_c (Psendto E H d) [LInt fd, LStr b, LTab a] s =
      (case d (to_cint fd) b (fst (canonical sa)) (snd (canonical sa)) (errno s) (world s) of (r, e, w) \<Rightarrow>
         Ok (result_values E (Some ''sendto'') (to_cint r) e) (s\<lparr>errno := e, world := w\<rparr>))"
proof -
  note reads = stands_for_reads [OF assms]
  show "call_c (Pconnect E H c) [LInt fd, LTab a] s =
      (case c (to_cint fd) (fst (canonical sa)) (snd (canonical sa)) (errno s) (world s) of (r, e, w) \<Rightarrow>
         Ok (result_values E (Some ''connect'') r e) (s\<lparr>errno := e, world := w\<rparr>))"
    by (cases "canonical sa")
      (simp add: Pconnect_def call_c_def run_simps at_one at_numeral reads sys_def split: prod.splits)
  show "call_c (Pbind E H c) [LInt fd, LTab a] s =
      (case c (to_cint fd) (fst (canonical sa)) (snd (canonical sa)) (errno s) (world s) of (r, e, w) \<Rightarrow>
         Ok (result_values E (Some ''bind'') r e) (s\<lparr>errno := e, world := w\<rparr>))"
    by (cases "canonical sa")
      (simp add: Pbind_def call_c_def run_simps at_one at_numeral reads sys_def split: prod.splits)
  show "call_c (Psendto E H d) [LInt fd, LStr b, LTab a] s =
      (case d (to_cint fd) b (fst (canonical sa)) (snd (canonical sa)) (errno s) (world s) of (r, e, w) \<Rightarrow>
         Ok (result_values E (Some ''sendto'') (to_cint r) e) (s\<lparr>errno := e, world := w\<rparr>))"
    by (cases "canonical sa")
      (simp add: Psendto_def call_c_def run_simps at_one at_numeral reads sys_def put_at_def slot_def
        split: prod.splits)
qed

lemma push_written_run:
  assumes "families H" "readable H sa"
  shows "push_written H (Some sa) s =
    Ok 1 (with_record ''PosixAddrInfo'' (rfields (addr_members H sa)) s)"
  using assms by (simp add: push_written_def pushsockaddrinfo_run)

lemma stands_for_fresh:
  "stands_for H (add_record t (rfields (addr_members H sa)) s) (ntab s) sa"
  by (auto simp: stands_for_def extra_ok_def intro!: exI [of _ "[]"])

lemma Pgetsockname_run:
  assumes "families H" "readable H sa" "c (to_cint fd) (errno s) (world s) = ((0, Some sa), e, w)"
  shows "call_c (Pgetsockname E H c) [LInt fd] s =
    Ok [LTab (ntab s)] (add_record ''PosixAddrInfo'' (rfields (addr_members H sa))
      (s\<lparr>errno := e, world := w\<rparr>))"
  using assms
  by (simp add: Pgetsockname_def call_c_def run_simps at_one sys_def push_written_run stk_self)

lemma Paccept_run:
  assumes "families H" "readable H sa" "c (to_cint fd) (errno s) (world s) = ((r, Some sa), e, w)" "r \<noteq> -1"
  shows "call_c (Paccept E H c) [LInt fd] s =
    Ok [LInt (of_cint r), LTab (ntab s)] (add_record ''PosixAddrInfo'' (rfields (addr_members H sa))
      (s\<lparr>errno := e, world := w\<rparr>))"
  using assms
  by (simp add: Paccept_def call_c_def run_simps at_one sys_def push_written_run stk_self)

definition sample_net :: net where
  "sample_net = \<lparr>AF_INET = 2, AF_INET6 = 10, AF_UNIX = 1, AF_NETLINK = 16, AF_PACKET = 17,
     LINUX_NETLINK_H = True, LINUX_IF_PACKET_H = True,
     inet_pton4 = (\<lambda>x. if x = ''127.0.0.1'' then Some [CHR 0x7F, NUL, NUL, CHR 0x01] else None),
     inet_pton6 = (\<lambda>x. None), inet_ntop4 = (\<lambda>_. ''127.0.0.1''), inet_ntop6 = (\<lambda>_. ''::1'')\<rparr>"

lemma sample_net_simps [simp]:
  "AF_INET sample_net = 2" "AF_INET6 sample_net = 10" "AF_UNIX sample_net = 1"
  "AF_NETLINK sample_net = 16" "AF_PACKET sample_net = 17" "LINUX_NETLINK_H sample_net"
  "LINUX_IF_PACKET_H sample_net" "inet_ntop4 sample_net a = ''127.0.0.1''"
  "inet_pton4 sample_net x = (if x = ''127.0.0.1'' then Some [CHR 0x7F, NUL, NUL, CHR 0x01] else None)"
  "families sample_net"
  by (simp_all add: sample_net_def families_def)

text \<open>
  Property C12: the address \<open>getsockname\<close> returns can be handed to \<open>connect\<close>, \<open>bind\<close> and \<open>sendto\<close>: the
  kernel gets the address it had reported, port, flow label and all, with the length of its
  family; a path comes with the bytes behind it cleared.
\<close>

theorem address_roundtrip:
  assumes H: "families H" "addr_ok H sa" "float_text E"
    and name: "c_name (to_cint fd) (errno s) (world s) = ((0, Some sa), e, w)"
  shows "\<exists>a s'. call_c (Pgetsockname E H c_name) [LInt fd] s = Ok [LTab a] s' \<and>
    world s' = w \<and> errno s' = e \<and>
    call_c (Pconnect E H c) [LInt fd', LTab a] s' =
      (case c (to_cint fd') (fst (canonical sa)) (snd (canonical sa)) e w of (r, e', w') \<Rightarrow>
         Ok (result_values E (Some ''connect'') r e') (s'\<lparr>errno := e', world := w'\<rparr>)) \<and>
    call_c (Pbind E H c) [LInt fd', LTab a] s' =
      (case c (to_cint fd') (fst (canonical sa)) (snd (canonical sa)) e w of (r, e', w') \<Rightarrow>
         Ok (result_values E (Some ''bind'') r e') (s'\<lparr>errno := e', world := w'\<rparr>)) \<and>
    call_c (Psendto E H d) [LInt fd', LStr b, LTab a] s' =
      (case d (to_cint fd') b (fst (canonical sa)) (snd (canonical sa)) e w of (r, e', w') \<Rightarrow>
         Ok (result_values E (Some ''sendto'') (to_cint r) e') (s'\<lparr>errno := e', world := w'\<rparr>))"
proof -
  let ?s = "add_record ''PosixAddrInfo'' (rfields (addr_members H sa)) (s\<lparr>errno := e, world := w\<rparr>)"
  have st: "stands_for H ?s (ntab s) sa"
    using stands_for_fresh [where s = "s\<lparr>errno := e, world := w\<rparr>"] by simp
  note taken = address_taken [OF H st]
  show ?thesis
    by (rule exI [of _ "ntab s"], rule exI [of _ ?s])
      (simp add: Pgetsockname_run [where c = c_name, OF H(1) addr_ok_readable [OF H(2)] name] taken
        del: add_record_simps(9-11))
qed

theorem address_roundtrip_witness:
  "\<exists>a s'. call_c (Pgetsockname sample_env sample_net
        (\<lambda>fd e w. ((0, Some (SaIn 0x5000 [CHR 0x7F, NUL, NUL, CHR 0x01])), e, w)))
      [LInt 3] (sample_state []) = Ok [LTab a] s' \<and>
    call_c (Pconnect sample_env sample_net (\<lambda>fd sa l e w. (0, e, w @ [(sa, l)]))) [LInt 4, LTab a] s' =
      Ok [LInt 0] (s'\<lparr>errno := 0, world := [(SaIn 0x5000 [CHR 0x7F, NUL, NUL, CHR 0x01], 16)]\<rparr>)"
  using address_roundtrip [of sample_net "SaIn 0x5000 [CHR 0x7F, NUL, NUL, CHR 0x01]" sample_env
      "\<lambda>fd e w. ((0, Some (SaIn 0x5000 [CHR 0x7F, NUL, NUL, CHR 0x01])), e, w)" 3 "sample_state []" 0 "[]"
      "\<lambda>fd sa l e w. (0, e, w @ [(sa, l)])" 4 "\<lambda>fd b sa l e w. (0, e, w)" "''''"]
  by (force simp: sample_float_text result_values_def sizeof_in_def cstr_def NUL_def)

text \<open>
  When the kernel reports a local socket without a name, \<open>accept\<close> and \<open>getpeername\<close> read
  the path of a structure that has not been written (a path shorter than its buffer and without a
  terminating NUL, in particular the empty one).
\<close>

lemma unnamed_peer_undefined:
  assumes "families H" "NUL \<notin> set p" "length p < 108"
    and "c (to_cint fd) (errno s) (world s) = ((r, Some (SaUn p)), e, w)" "r \<noteq> -1"
    and "c' (to_cint fd) (errno s) (world s) = ((0, Some (SaUn p)), e, w)"
  shows "(\<exists>s'. call_c (Paccept E H c) [LInt fd] s = Err (Undefined ''read of an unwritten member'') s') \<and>
    (\<exists>s'. call_c (Pgetpeername E H c') [LInt fd] s = Err (Undefined ''read of an unwritten member'') s')"
  using assms families_neq [OF assms(1)]
  by (simp add: Paccept_def Pgetpeername_def call_c_def run_simps at_one sys_def push_written_def
      pushsockaddrinfo_def stray_def sun_path_size_def pushintegerfield_run [where xs = "[LInt fd, LInt (of_cint r)]"]
      pushintegerfield_run [where xs = "[LInt fd]"])

text \<open>
  A textual address that \<open>inet_pton\<close> rejects reaches no system call: \<open>connect\<close> and
  \<open>bind\<close> return nil, their own message with the text of whatever \<open>errno\<close> happened to be, and that
  number.  A family the host does not know is an argument error.
\<close>

lemma bad_address_reported:
  assumes "float_text E" "wf_table (tabs s a)"
  shows "(sockaddr_of E H 2 (tabs s a) = Inr None \<longrightarrow>
      call_c (Pconnect E H c) [LInt fd, LTab a] s =
        Ok (error_values E (Some ''not a valid IPv4 or IPv6 address argument'') (errno s)) s \<and>
      call_c (Pbind E H c) [LInt fd, LTab a] s =
        Ok (error_values E (Some ''not a valid IPv4 or IPv6 argument'') (errno s)) s) \<and>
    (\<forall>x. sockaddr_of E H 2 (tabs s a) = Inl x \<longrightarrow>
      call_c (Pconnect E H c) [LInt fd, LTab a] s = Err x s \<and>
      call_c (Pbind E H c) [LInt fd, LTab a] s = Err x s)"
proof -
  let ?s = "s\<lparr>stk := [LInt fd, LTab a]\<rparr>"
  have "sockaddr_from_lua E H 2 ?s = ofsum (sockaddr_of E H 2 (tabs ?s a)) ?s"
    by (rule sockaddr_from_lua_run) (use assms in \<open>simp_all add: at_numeral\<close>)
  then show ?thesis
    by (simp add: Pconnect_def Pbind_def call_c_def run_simps at_one at_numeral stk_self error_values_def)
qed

section \<open>Options\<close>

interpretation linger: record_push "\<lambda>l. make_record ''PosixLinger'' (linger_members l)" "''PosixLinger''"
    linger_members
  by unfold_locales (simp_all add: linger_members_def)

interpretation opt_timeval: record_push "\<lambda>t. make_record ''PosixTimeval'' (timeval_members t)"
    "''PosixTimeval''" timeval_members
  by unfold_locales (simp_all add: timeval_members_def)

text \<open>What \<open>getsockopt\<close> returns for an option value.\<close>

definition opt_fields :: "optval \<Rightarrow> (string \<times> lvalue) list" where
  "opt_fields v = (case v of
      OptLinger onoff l \<Rightarrow> [(''l_linger'', LInt (of_cint l)), (''l_onoff'', LInt (of_cint onoff))]
    | OptTimeval t \<Rightarrow> [(''tv_sec'', LInt (tv_sec t)), (''tv_usec'', LInt (tv_usec t))]
    | _ \<Rightarrow> [])"

lemma Pgetsockopt_start:
  "Pgetsockopt E K G (s\<lparr>stk := [LInt f, LInt l, LInt n]\<rparr>) =
   getsockopt_result E K G (to_cint f) (to_cint l) (to_cint n) (s\<lparr>stk := [LInt f, LInt l, LInt n]\<rparr>)"
  by (simp add: Pgetsockopt_def run_simps at_one at_numeral)

lemmas getsockopt_push = call_c_def Pgetsockopt_start getsockopt_result_def bnd_def thn_def ret_def
  sys_def make_record_run linger_members_def timeval_members_def opt_fields_def pusherror_run
  lua_push_run error_values_def stk_self

lemma getsockopt_timeout:
  assumes "to_cint l = SOL_SOCKET K" "to_cint n \<in> {SO_RCVTIMEO K, SO_SNDTIMEO K}" "to_cint n \<noteq> SO_LINGER K"
    and "get_timeval G (to_cint f) (to_cint l) (to_cint n) (errno s) (world s) = ((r, t), e, w)"
  shows "call_c (Pgetsockopt E K G) [LInt f, LInt l, LInt n] s =
    Ok (if r = -1 then error_values E (Some ''getsockopt'') e else [LTab (ntab s)])
      (if r = -1 then s\<lparr>errno := e, world := w\<rparr>
       else add_record ''PosixTimeval'' (opt_fields (OptTimeval t)) (s\<lparr>errno := e, world := w\<rparr>))"
  using assms by (auto simp: getsockopt_push)

lemma getsockopt_linger:
  assumes "to_cint l = SOL_SOCKET K" "to_cint n = SO_LINGER K"
    and "get_linger G (to_cint f) (to_cint l) (to_cint n) (errno s) (world s) = ((r, on, lg), e, w)"
  shows "call_c (Pgetsockopt E K G) [LInt f, LInt l, LInt n] s =
    Ok (if r = -1 then error_values E (Some ''getsockopt'') e else [LTab (ntab s)])
      (if r = -1 then s\<lparr>errno := e, world := w\<rparr>
       else add_record ''PosixLinger'' (opt_fields (OptLinger on lg)) (s\<lparr>errno := e, world := w\<rparr>))"
  using assms by (auto simp: getsockopt_push)

lemma getsockopt_int:
  assumes "to_cint l \<noteq> SOL_SOCKET K \<or> to_cint n \<notin> {SO_LINGER K, SO_RCVTIMEO K, SO_SNDTIMEO K} \<and>
      SO_BINDTODEVICE K \<noteq> Some (to_cint n)"
    and "get_int G (to_cint f) (to_cint l) (to_cint n) (errno s) (world s) = ((r, v), e, w)"
  shows "call_c (Pgetsockopt E K G) [LInt f, LInt l, LInt n] s =
    Ok (if r = -1 then error_values E (Some ''getsockopt'') e else [LInt (of_cint v)])
      (s\<lparr>errno := e, world := w\<rparr>)"
  using assms by (auto simp: getsockopt_push)

lemma setsockopt_pair:
  assumes "to_cint l = SOL_SOCKET K"
    and "to_cint n = SO_LINGER K \<and> v = OptLinger (to_cint a) (to_cint b) \<or>
      to_cint n \<noteq> SO_LINGER K \<and> to_cint n \<in> {SO_RCVTIMEO K, SO_SNDTIMEO K} \<and>
      v = OptTimeval \<lparr>tv_sec = a, tv_usec = b\<rparr>"
    and "c (to_cint f) (to_cint l) (to_cint n) v (optlen v) (errno s) (world s) = (r, e, w)"
  shows "call_c (Psetsockopt E H K c) [LInt f, LInt l, LInt n, LInt a, LInt b] s =
    Ok (result_values E (Some ''setsockopt'') r e) (s\<lparr>errno := e, world := w\<rparr>)"
  using assms
  by (subst setsockopt.runs)
    (auto simp: args_setsockopt_def optval_of_def arg_defs at_one at_numeral)

text \<open>
  A timeout set with \<open>setsockopt\<close> and reported by a kernel that keeps what it is given
  comes back from \<open>getsockopt\<close> as a \<open>PosixTimeval\<close> table with the seconds and microseconds that were
  set, all 64 bits of each.
\<close>

lemma timeout_roundtrip:
  assumes "to_cint l = SOL_SOCKET K" "to_cint n \<in> {SO_RCVTIMEO K, SO_SNDTIMEO K}" "to_cint n \<noteq> SO_LINGER K"
    and "c (to_cint f) (to_cint l) (to_cint n) (OptTimeval \<lparr>tv_sec = a, tv_usec = b\<rparr>) 16 (errno s) (world s) =
      (0, e, w)"
    and "get_timeval G (to_cint f) (to_cint l) (to_cint n) e w = ((0, \<lparr>tv_sec = a, tv_usec = b\<rparr>), e', w')"
  shows "\<exists>s' t s''. call_c (Psetsockopt E H K c) [LInt f, LInt l, LInt n, LInt a, LInt b] s = Ok [LInt 0] s' \<and>
    call_c (Pgetsockopt E K G) [LInt f, LInt l, LInt n] s' = Ok [LTab t] s'' \<and>
    tabs s'' t = named [(''tv_sec'', LInt a), (''tv_usec'', LInt b)] \<and> metas s'' t = Some ''PosixTimeval''"
  using setsockopt_pair [where c = c and s = s and v = "OptTimeval \<lparr>tv_sec = a, tv_usec = b\<rparr>" and E = E and H = H, of l K n]
    getsockopt_timeout [OF assms(1-3), of G f "s\<lparr>errno := e, world := w\<rparr>" 0 "\<lparr>tv_sec = a, tv_usec = b\<rparr>" e' w' E]
    assms
  by (intro exI [of _ "s\<lparr>errno := e, world := w\<rparr>"]) (simp add: opt_fields_def result_values_def)

section \<open>Name resolution\<close>

definition info_fields :: "net \<Rightarrow> addrinfo \<Rightarrow> (string \<times> lvalue) list" where
  "info_fields H p = rfields (addr_members H (ai_addr p)) @ rfields (info_members p)"

text \<open>What \<open>getaddrinfo\<close> promises: internet addresses that agree with their \<open>ai_family\<close>.\<close>

fun internet :: "sockaddr \<Rightarrow> bool" where
  "internet (SaIn _ _) = True"
| "internet (SaIn6 _ _ _ _) = True"
| "internet _ = False"

definition resolved :: "net \<Rightarrow> addrinfo \<Rightarrow> bool" where
  "resolved H p \<longleftrightarrow> internet (ai_addr p) \<and> ai_family p = sa_family H (ai_addr p)"

lemma info_extra_ok: "resolved H p \<Longrightarrow> extra_ok (ai_addr p) (rfields (info_members p))"
  by (cases "ai_addr p")
    (auto simp: resolved_def extra_ok_def info_members_def str_field_def split: option.splits)

lemma internet_readable: "internet sa \<Longrightarrow> readable H sa"
  by (cases sa) simp_all

lemma info_table:
  assumes "resolved H p"
  shows "tbl.put_all (named (rfields (addr_members H (ai_addr p)))) (named (rfields (info_members p))) =
    named (info_fields H p)"
proof -
  have wf: "wf_table (named (rfields (addr_members H (ai_addr p)) @ rfields (info_members p)))"
    by (rule addr_table_wf [OF info_extra_ok [OF assms]])
  then have "distinct (map fst (named (rfields (addr_members H (ai_addr p))) @ named (rfields (info_members p))))"
    by (simp add: wf_table_def)
  then show ?thesis using wf
    by (subst tbl_put_all_fresh) (auto simp: wf_table_def info_fields_def)
qed

lemma push_addrinfo_run:
  assumes H: "families H" and p: "resolved H p" and t: "stk s = xs @ [LTab t]" "t < ntab s"
    and n: "n < 2 ^ 31 - 1"
  shows "\<exists>s1. push_addrinfos H (of_nat n) (p # ps) s = push_addrinfos H (of_nat (Suc n)) ps s1 \<and>
    stk s1 = stk s \<and> ntab s1 = Suc (ntab s) \<and> world s1 = world s \<and> errno s1 = errno s \<and> live s1 = live s \<and>
    tabs s1 = (tabs s)(ntab s := named (info_fields H p),
      t := tbl_set (tabs s t) (LInt (of_nat n)) (LTab (ntab s)))"
proof -
  let ?k = "s\<lparr>stk := stk s @ [LInt (of_nat n)]\<rparr>"
  let ?r = "with_record ''PosixAddrInfo'' (rfields (addr_members H (ai_addr p))) ?k"
  let ?i = "set_tab (ntab s) (named (info_fields H p)) ?r"
  let ?u = "tab_update t (LInt (of_nat n)) (LTab (ntab s)) (?i\<lparr>stk := stk s\<rparr>)"
  have idx: "of_cint (of_nat n) = of_nat n" "next_index Signed (of_nat n) ?k = Ok (of_nat (Suc n)) ?k"
    using n by (simp_all only: next_index_run idx_limit.simps of_cint_of_nat)
  have push: "pushsockaddrinfo H (ai_family p) (ai_addr p) ?k = Ok 1 ?r"
    using p pushsockaddrinfo_run [OF H internet_readable, of "ai_addr p" ?k]
    by (simp add: resolved_def)
  have fields: "for_each (info_members p) put_rfield ?r = Ok () ?i"
    using writes_run [OF writes_rfields, of ?r "stk s @ [LInt (of_nat n)]" "ntab s" "info_members p"]
    by (simp add: info_table [OF p])
  have set: "lua_settable (-3) ?i = Ok () ?u"
    using lua_settable_run [of ?i "stk s" "LInt (of_nat n)" "LTab (ntab s)" "-3" t] t(1)
    by (simp add: at_def slot_def nth_append)
  have "push_addrinfos H (of_nat n) (p # ps) s = push_addrinfos H (of_nat (Suc n)) ps ?u"
    by (simp add: run_simps idx push fields set del: of_nat_Suc for_each.simps)
  then show ?thesis using t(2)
    by (intro exI [of _ ?u]) (simp add: fun_eq_iff)
qed

lemma push_addrinfos_run:
  assumes H: "families H" and ps: "\<forall>p \<in> set ps. resolved H p"
    and s: "stk s = xs @ [LTab t]" "t < ntab s" and n: "n + length ps < 2 ^ 31"
  shows "\<exists>s'. push_addrinfos H (of_nat n) ps s = Ok () s' \<and>
    stk s' = stk s \<and> ntab s' = ntab s + length ps \<and> world s' = world s \<and> errno s' = errno s \<and> live s' = live s \<and>
    tabs s' t = tbl.put_all (tabs s t) (array_from n (map LTab [ntab s ..< ntab s + length ps])) \<and>
    (\<forall>j < length ps. tabs s' (ntab s + j) = named (info_fields H (ps ! j))) \<and>
    (\<forall>a < ntab s. a \<noteq> t \<longrightarrow> tabs s' a = tabs s a)"
  using ps s n
proof (induction ps arbitrary: n s)
  case Nil
  then show ?case by (simp add: run_simps)
next
  case (Cons p ps)
  obtain s1 where s1: "push_addrinfos H (of_nat n) (p # ps) s = push_addrinfos H (of_nat (Suc n)) ps s1"
    "stk s1 = stk s" "ntab s1 = Suc (ntab s)" "world s1 = world s" "errno s1 = errno s" "live s1 = live s"
    "tabs s1 = (tabs s)(ntab s := named (info_fields H p),
      t := tbl_set (tabs s t) (LInt (of_nat n)) (LTab (ntab s)))"
    using push_addrinfo_run [OF H, of p s xs t n ps] Cons.prems by auto
  obtain s' where s': "push_addrinfos H (of_nat (Suc n)) ps s1 = Ok () s'" "stk s' = stk s1"
    "ntab s' = ntab s1 + length ps" "world s' = world s1" "errno s' = errno s1" "live s' = live s1"
    "tabs s' t = tbl.put_all (tabs s1 t) (array_from (Suc n) (map LTab [ntab s1 ..< ntab s1 + length ps]))"
    "\<forall>j < length ps. tabs s' (ntab s1 + j) = named (info_fields H (ps ! j))"
    "\<forall>a < ntab s1. a \<noteq> t \<longrightarrow> tabs s' a = tabs s1 a"
    using Cons.IH [of s1 "Suc n"] Cons.prems s1(2,3) by auto
  have tab: "tabs s' t = tbl.put_all (tabs s t) (array_from n (map LTab [ntab s ..< ntab s + length (p # ps)]))"
  proof -
    have "[ntab s ..< ntab s + length (p # ps)] = ntab s # [ntab s1 ..< ntab s1 + length ps]"
      by (simp add: upt_conv_Cons s1(3) del: upt_Suc)
    then show ?thesis using Cons.prems(3) s'(7) s1(7) by (simp del: upt_Suc)
  qed
  have "tabs s' (ntab s + j) = named (info_fields H ((p # ps) ! j))" if "j < length (p # ps)" for j
  proof (cases j)
    case 0
    then show ?thesis using s'(9) s1(3,7) Cons.prems(3) by simp
  next
    case (Suc i)
    then show ?thesis using s'(8) s1(3) that by simp
  qed
  with s1 s' tab Cons.prems(3) show ?case by (intro exI [of _ s']) auto
qed

lemma info_stands_for:
  "resolved H p \<Longrightarrow> tabs s a = named (info_fields H p) \<Longrightarrow> stands_for H s a (ai_addr p)"
  using info_extra_ok [of H p] by (auto simp: stands_for_def info_fields_def)

text \<open>
  Property C11: \<open>getaddrinfo\<close> of a host and a service lists the addresses the resolver found, in its
  order, and gives the resolver's list back; each entry can be handed to \<open>connect\<close> as it is, and the
  kernel is then asked for exactly that address.  A resolver error comes back as nil, its text and
  its code.
\<close>

theorem getaddrinfo_connects:
  assumes H: "families H" "float_text E"
    and res: "\<forall>p \<in> set res. resolved H p \<and> addr_ok H (ai_addr p)" "length res < 2 ^ 31 - 1"
    and call: "c_getaddrinfo R (Some (cstr host)) (Some (cstr service))
        \<lparr>hint_family = u, hint_socktype = 0, hint_protocol = 0, hint_flags = 0\<rparr> (errno s) (world s) =
      ((r, res), e, w)"
    and free: "c_freeaddrinfo R res e w = ((), e', w')"
  shows "if r = 0 then \<exists>t s'. call_c (Pgetaddrinfo E H u R) [LStr host, LStr service] s = Ok [LTab t] s' \<and>
      world s' = w' \<and> live s' = live s \<and>
      (\<forall>j < length res. \<exists>a. tbl_get (tabs s' t) (LInt (of_nat (Suc j))) = LTab a \<and>
        (let (sa, len) = canonical (ai_addr (res ! j)) in
         call_c (Pconnect E H c) [LInt fd, LTab a] s' =
           (case c (to_cint fd) sa len (errno s') w' of (q, e'', w'') \<Rightarrow>
              Ok (result_values E (Some ''connect'') q e'') (s'\<lparr>errno := e'', world := w''\<rparr>))))
    else call_c (Pgetaddrinfo E H u R) [LStr host, LStr service] s =
      Ok [LNil, LStr (cstr (gai_strerror R r)), LInt (of_cint r)] (s\<lparr>errno := e, world := w\<rparr>)"
proof (cases "r = 0")
  case False
  then show ?thesis using call
    by (simp add: Pgetaddrinfo_def service_arg_def hints_arg_def call_c_def run_simps at_one at_numeral
        sys_def type_of_def type_le_nil put_at_def slot_def)
next
  case True
  let ?t = "ntab s" and ?s = "new_table (s\<lparr>stk := [LStr host, LStr service], errno := e, world := w\<rparr>)"
  obtain s1 where s1: "push_addrinfos H 1 res ?s = Ok () s1" "stk s1 = stk ?s" "world s1 = w" "errno s1 = e"
    "live s1 = live s" "tabs s1 ?t = tbl.put_all [] (sequence (map LTab [Suc ?t ..< Suc ?t + length res]))"
    "\<forall>j < length res. tabs s1 (Suc ?t + j) = named (info_fields H (res ! j))"
    using push_addrinfos_run [OF H(1), of res ?s "[LStr host, LStr service]" ?t 1] res
    by (auto simp del: upt_Suc)
  let ?vs = "map LTab [Suc ?t ..< Suc ?t + length res]" and ?s' = "s1\<lparr>stk := stk s, errno := e', world := w'\<rparr>"
  have run: "call_c (Pgetaddrinfo E H u R) [LStr host, LStr service] s = Ok [LTab ?t] ?s'"
    using True call s1(1-4) free
    by (simp add: Pgetaddrinfo_def service_arg_def hints_arg_def call_c_def run_simps at_one at_numeral
        sys_def type_of_def type_le_nil put_at_def slot_def)
  have seq: "tabs s1 ?t = sequence ?vs"
    using s1(6) put_all_array [of 1 ?vs] res(2) by (auto simp del: upt_Suc)
  have entry: "tbl_get (tabs ?s' ?t) (LInt (of_nat (Suc j))) = LTab (Suc ?t + j)" if "j < length res" for j
    using sequence_get [of ?vs j] seq that res(2) by (simp del: upt_Suc of_nat_Suc)
  have "stands_for H ?s' (Suc ?t + j) (ai_addr (res ! j))" if "j < length res" for j
    using that s1(7) res(1) by (intro info_stands_for) auto
  then have taken: "call_c (Pconnect E H c) [LInt fd, LTab (Suc ?t + j)] ?s' =
      (case c (to_cint fd) (fst (canonical (ai_addr (res ! j)))) (snd (canonical (ai_addr (res ! j))))
          (errno ?s') (world ?s') of (q, e'', w'') \<Rightarrow>
         Ok (result_values E (Some ''connect'') q e'') (?s'\<lparr>errno := e'', world := w''\<rparr>))"
    if "j < length res" for j
    using that res(1) by (intro address_taken(1) H) auto
  have each: "\<exists>a. tbl_get (tabs ?s' ?t) (LInt (of_nat (Suc j))) = LTab a \<and>
      (let (sa, len) = canonical (ai_addr (res ! j)) in
       call_c (Pconnect E H c) [LInt fd, LTab a] ?s' =
         (case c (to_cint fd) sa len (errno ?s') w' of (q, e'', w'') \<Rightarrow>
            Ok (result_values E (Some ''connect'') q e'') (?s'\<lparr>errno := e'', world := w''\<rparr>)))"
    if "j < length res" for j
    using entry [OF that] taken [OF that]
    by (intro exI [of _ "Suc ?t + j"]) (simp add: split_def Let_def del: of_nat_Suc)
  show ?thesis
    unfolding if_P [OF True]
    by (rule exI [of _ ?t], rule exI [of _ ?s'], intro conjI allI impI)
      (simp_all only: run each, simp_all add: s1(5))
qed

theorem getaddrinfo_connects_witness:
  "\<exists>t s'. call_c (Pgetaddrinfo sample_env sample_net 0
        \<lparr>c_getaddrinfo = (\<lambda>h sv hi e w. ((0, [\<lparr>ai_family = 2, ai_socktype = 1, ai_protocol = 6,
           ai_addr = SaIn 0x5000 [CHR 0x7F, NUL, NUL, CHR 0x01], ai_canonname = None\<rparr>]), e, Suc w)),
         c_freeaddrinfo = (\<lambda>l e w. ((), e, w - 1)), gai_strerror = (\<lambda>_. ''unknown'')\<rparr>)
      [LStr ''localhost'', LStr ''http''] (sample_state 0) = Ok [LTab t] s' \<and> world s' = 0 \<and>
    (\<exists>a. tbl_get (tabs s' t) (LInt 1) = LTab a \<and>
      call_c (Pconnect sample_env sample_net (\<lambda>fd sa l e w. (if l = 16 then 0 else -1, e, w)))
        [LInt 4, LTab a] s' = Ok [LInt 0] (s'\<lparr>errno := errno s', world := 0\<rparr>))"
  using getaddrinfo_connects [of sample_net sample_env "[\<lparr>ai_family = 2, ai_socktype = 1, ai_protocol = 6,
      ai_addr = SaIn 0x5000 [CHR 0x7F, NUL, NUL, CHR 0x01], ai_canonname = None\<rparr>]"
      "\<lparr>c_getaddrinfo = (\<lambda>h sv hi e w. ((0, [\<lparr>ai_family = 2, ai_socktype = 1, ai_protocol = 6,
         ai_addr = SaIn 0x5000 [CHR 0x7F, NUL, NUL, CHR 0x01], ai_canonname = None\<rparr>]), e, Suc w)),
       c_freeaddrinfo = (\<lambda>l e w. ((), e, w - 1)), gai_strerror = (\<lambda>_. ''unknown'')\<rparr>"
      "''localhost''" "''http''" 0 "sample_state 0" 0 0 "Suc 0" 0 0
      "\<lambda>fd sa l e w. (if l = 16 then 0 else -1, e, w)" 4]
  by (simp add: sample_float_text resolved_def sizeof_in_def result_values_def cstr_def NUL_def) blast

section \<open>Receiving\<close>

definition args_recv :: "env \<Rightarrow> lvalue list \<Rightarrow> err + (cint \<times> lint)" where
  "args_recv E args =
     sbind (arg_int E 1 args) (\<lambda>fd. sbind (arg_integer E 2 args) (\<lambda>n.
     sbind (at_most 2 args) (\<lambda>_. Inr (fd, n))))"

lemma Precvfrom_run:
  assumes H: "families H" and acc: "args_recv E args = Inr (fd, count)"
    and ok: "count \<noteq> 0" "alloc_ok E (nptr s) count"
    and call: "c fd count 0 (world s) = ((n, data, sa), e, w)"
    and sa: "\<And>a. sa = Some a \<Longrightarrow> readable H a"
  shows "call_c (Precvfrom E H c) args s =
    (let s1 = s\<lparr>nptr := Suc (nptr s), errno := e, world := w\<rparr> in
     if sint n < 0 then Ok (error_values E None e) s1
     else case sa of
       None \<Rightarrow> Err (Undefined ''read of an unwritten member'') s1
     | Some a \<Rightarrow> Ok [LStr (take (unat n) data), LTab (ntab s)]
         (add_record ''PosixAddrInfo'' (rfields (addr_members H a)) s1))"
proof -
  obtain d where d: "val_int E (at 1 args) = Some d" "fd = to_cint d"
    and k: "val_int E (at 2 args) = Some count" and l: "length args \<le> 2"
    using acc by (auto simp: args_recv_def accepted)
  note defs = Precvfrom_def call_c_def run_simps sys_def lua_alloc_def lua_free_def push_received_def Let_def
  show ?thesis
  proof (cases sa)
    case None
    then show ?thesis using d k l ok call
      by (auto simp: defs error_values_def push_written_def stray_def stk_self)
  next
    case (Some a)
    then show ?thesis using d k l ok call
      by (auto simp: defs error_values_def push_written_run [OF H sa] stk_self)
  qed
qed

text \<open>
  Property C20: \<open>recvfrom\<close> returns the bytes that arrived (a string, not their number), at most as many as the kernel counted, and the
  sender's address, gives its block back, and reports a failure as an error triple; when the kernel
  leaves the address unwritten (a connected stream socket) it reads an indeterminate family.
\<close>

theorem recvfrom_datagram:
  assumes "families H" "args_recv E args = Inr (fd, count)" "count \<noteq> 0" "alloc_ok E (nptr s) count"
    and "c fd count 0 (world s) = ((n, data, sa), e, w)"
    and "\<And>a. sa = Some a \<Longrightarrow> readable H a"
  shows "if sint n < 0 then \<exists>s'. call_c (Precvfrom E H c) args s = Ok (error_values E None e) s' \<and>
      live s' = live s \<and> world s' = w
    else case sa of
      None \<Rightarrow> \<exists>s'. call_c (Precvfrom E H c) args s = Err (Undefined ''read of an unwritten member'') s'
    | Some a \<Rightarrow> \<exists>t s'. call_c (Precvfrom E H c) args s = Ok [LStr (take (unat n) data), LTab t] s' \<and>
        tabs s' t = named (rfields (addr_members H a)) \<and> live s' = live s \<and> world s' = w"
  using assms by (simp add: Precvfrom_run Let_def split: option.splits)

theorem recvfrom_datagram_witness:
  "\<exists>t s'. call_c (Precvfrom sample_env sample_net
      (\<lambda>fd k e w. ((2, ''hi!!'', Some (SaIn 0x5000 [CHR 0x7F, NUL, NUL, CHR 0x01])), e, w))) [LInt 3, LInt 4]
      (sample_state ()) = Ok [LStr ''hi'', LTab t] s' \<and>
    tabs s' t = named [(''family'', LInt 2), (''port'', LInt 80), (''addr'', LStr ''127.0.0.1'')] \<and>
    live s' = []"
  using recvfrom_datagram [of sample_net sample_env "[LInt 3, LInt 4]" 3 4 "sample_state ()"
      "\<lambda>fd k e w. ((2, ''hi!!'', Some (SaIn 0x5000 [CHR 0x7F, NUL, NUL, CHR 0x01])), e, w)" 2 "''hi!!''"
      "Some (SaIn 0x5000 [CHR 0x7F, NUL, NUL, CHR 0x01])" 0 "()"]
  by (simp add: args_recv_def accepted arg_defs at_one at_numeral to_cint_def of_ushort_def htons_def
      of_cint_def cstr_def NUL_def)

section \<open>Opening the module\<close>

definition posix_sys_socket_fns :: "entry list" where
  "posix_sys_socket_fns = [
    Only ''LPOSIX_2001_COMPLIANT'' (Item ''Psocket''),
    Only ''LPOSIX_2001_COMPLIANT'' (Item ''Psocketpair''),
    Only ''LPOSIX_2001_COMPLIANT'' (Item ''Pgetaddrinfo''),
    Only ''LPOSIX_2001_COMPLIANT'' (Item ''Pconnect''),
    Only ''LPOSIX_2001_COMPLIANT'' (Item ''Pbind''),
    Only ''LPOSIX_2001_COMPLIANT'' (Item ''Plisten''),
    Only ''LPOSIX_2001_COMPLIANT'' (Item ''Paccept''),
    Only ''LPOSIX_2001_COMPLIANT'' (Item ''Precv''),
    Only ''LPOSIX_2001_COMPLIANT'' (Item ''Precvfrom''),
    Only ''LPOSIX_2001_COMPLIANT'' (Item ''Psend''),
    Only ''LPOSIX_2001_COMPLIANT'' (Item ''Psendto''),
    Only ''LPOSIX_2001_COMPLIANT'' (Item ''Pshutdown''),
    Only ''LPOSIX_2001_COMPLIANT'' (Item ''Psetsockopt''),
    Only ''LPOSIX_2001_COMPLIANT'' (Item ''Pgetsockopt''),
    Only ''LPOSIX_2001_COMPLIANT'' (Item ''Pgetsockname''),
    Only ''LPOSIX_2001_COMPLIANT'' (Item ''Pgetpeername''),
    Only ''LPOSIX_2001_COMPLIANT'' (Item ''Pif_nametoindex'')]"

definition posix_sys_socket_consts :: "entry list" where
  "posix_sys_socket_consts = [
    Only ''LPOSIX_2001_COMPLIANT'' (Item ''SOMAXCONN''),
    Only ''LPOSIX_2001_COMPLIANT'' (Item ''AF_UNSPEC''),
    Only ''LPOSIX_2001_COMPLIANT'' (Item ''AF_INET''),
    Only ''LPOSIX_2001_COMPLIANT'' (Item ''AF_INET6''),
    Only ''LPOSIX_2001_COMPLIANT'' (Item ''AF_UNIX''),
    Only ''LPOSIX_2001_COMPLIANT'' (Only ''HAVE_LINUX_NETLINK_H'' (Item ''AF_NETLINK'')),
    Only ''LPOSIX_2001_COMPLIANT'' (Only ''HAVE_LINUX_IF_PACKET_H'' (Item ''AF_PACKET'')),
    Only ''LPOSIX_2001_COMPLIANT'' (Item ''SOL_SOCKET''),
    Only ''LPOSIX_2001_COMPLIANT'' (Item ''IPPROTO_TCP''),
    Only ''LPOSIX_2001_COMPLIANT'' (Item ''IPPROTO_UDP''),
    Only ''LPOSIX_2001_COMPLIANT'' (Item ''IPPROTO_IP''),
    Only ''LPOSIX_2001_COMPLIANT'' (Item ''IPPROTO_IPV6''),
    Only ''LPOSIX_2001_COMPLIANT'' (Only ''IPPROTO_ICMP'' (Item ''IPPROTO_ICMP'')),
    Only ''LPOSIX_2001_COMPLIANT'' (Item ''SOCK_STREAM''),
    Only ''LPOSIX_2001_COMPLIANT'' (Item ''SOCK_DGRAM''),
    Only ''LPOSIX_2001_COMPLIANT'' (Only ''SOCK_RAW'' (Item ''SOCK_RAW'')),
    Only ''LPOSIX_2001_COMPLIANT'' (Item ''SHUT_RD''),
    Only ''LPOSIX_2001_COMPLIANT'' (Item ''SHUT_WR''),
    Only ''LPOSIX_2001_COMPLIANT'' (Item ''SHUT_RDWR''),
    Only ''LPOSIX_2001_COMPLIANT'' (Item ''SO_ACCEPTCONN''),
    Only ''LPOSIX_2001_COMPLIANT'' (Item ''SO_BROADCAST''),
    Only ''LPOSIX_2001_COMPLIANT'' (Item ''SO_LINGER''),
    Only ''LPOSIX_2001_COMPLIANT'' (Item ''SO_RCVTIMEO''),
    Only ''LPOSIX_2001_COMPLIANT'' (Item ''SO_SNDTIMEO''),
    Only ''LPOSIX_2001_COMPLIANT'' (Only ''SO_BINDTODEVICE'' (Item ''SO_BINDTODEVICE'')),
    Only ''LPOSIX_2001_COMPLIANT'' (Item ''SO_DEBUG''),
    Only ''LPOSIX_2001_COMPLIANT'' (Item ''SO_DONTROUTE''),
    Only ''LPOSIX_2001_COMPLIANT'' (Item ''SO_ERROR''),
    Only ''LPOSIX_2001_COMPLIANT'' (Item ''SO_KEEPALIVE''),
    Only ''LPOSIX_2001_COMPLIANT'' (Item ''SO_OOBINLINE''),
    Only ''LPOSIX_2001_COMPLIANT'' (Item ''SO_RCVBUF''),
    Only ''LPOSIX_2001_COMPLIANT'' (Item ''SO_RCVLOWAT''),
    Only ''LPOSIX_2001_COMPLIANT'' (Item ''SO_REUSEADDR''),
    Only ''LPOSIX_2001_COMPLIANT'' (Item ''SO_SNDBUF''),
    Only ''LPOSIX_2001_COMPLIANT'' (Item ''SO_SNDLOWAT''),
    Only ''LPOSIX_2001_COMPLIANT'' (Item ''SO_TYPE''),
    Only ''LPOSIX_2001_COMPLIANT'' (Item ''TCP_NODELAY''),
    Only ''LPOSIX_2001_COMPLIANT'' (Only ''AI_ADDRCONFIG'' (Item ''AI_ADDRCONFIG'')),
    Only ''LPOSIX_2001_COMPLIANT'' (Only ''AI_ALL'' (Item ''AI_ALL'')),
    Only ''LPOSIX_2001_COMPLIANT'' (Item ''AI_CANONNAME''),
    Only ''LPOSIX_2001_COMPLIANT'' (Item ''AI_NUMERICHOST''),
    Only ''LPOSIX_2001_COMPLIANT'' (Item ''AI_NUMERICSERV''),
    Only ''LPOSIX_2001_COMPLIANT'' (Item ''AI_PASSIVE''),
    Only ''LPOSIX_2001_COMPLIANT'' (Only ''AI_V4MAPPED'' (Item ''AI_V4MAPPED'')),
    Only ''LPOSIX_2001_COMPLIANT'' (Only ''IPV6_JOIN_GROUP'' (Item ''IPV6_JOIN_GROUP'')),
    Only ''LPOSIX_2001_COMPLIANT'' (Only ''IPV6_LEAVE_GROUP'' (Item ''IPV6_LEAVE_GROUP'')),
    Only ''LPOSIX_2001_COMPLIANT'' (Only ''IPV6_MULTICAST_HOPS'' (Item ''IPV6_MULTICAST_HOPS'')),
    Only ''LPOSIX_2001_COMPLIANT'' (Only ''IPV6_MULTICAST_IF'' (Item ''IPV6_MULTICAST_IF'')),
    Only ''LPOSIX_2001_COMPLIANT'' (Only ''IPV6_MULTICAST_LOOP'' (Item ''IPV6_MULTICAST_LOOP'')),
    Only ''LPOSIX_2001_COMPLIANT'' (Only ''IPV6_UNICAST_HOPS'' (Item ''IPV6_UNICAST_HOPS'')),
    Only ''LPOSIX_2001_COMPLIANT'' (Only ''IPV6_V6ONLY'' (Item ''IPV6_V6ONLY'')),
    Only ''LPOSIX_2001_COMPLIANT'' (Only ''HAVE_LINUX_NETLINK_H'' (Item ''NETLINK_ROUTE'')),
    Only ''LPOSIX_2001_COMPLIANT'' (Only ''HAVE_LINUX_NETLINK_H'' (Item ''NETLINK_UNUSED'')),
    Only ''LPOSIX_2001_COMPLIANT'' (Only ''HAVE_LINUX_NETLINK_H'' (Item ''NETLINK_USERSOCK'')),
    Only ''LPOSIX_2001_COMPLIANT'' (Only ''HAVE_LINUX_NETLINK_H'' (Item ''NETLINK_FIREWALL'')),
    Only ''LPOSIX_2001_COMPLIANT'' (Only ''HAVE_LINUX_NETLINK_H'' (Item ''NETLINK_NFLOG'')),
    Only ''LPOSIX_2001_COMPLIANT'' (Only ''HAVE_LINUX_NETLINK_H'' (Item ''NETLINK_XFRM'')),
    Only ''LPOSIX_2001_COMPLIANT'' (Only ''HAVE_LINUX_NETLINK_H'' (Item ''NETLINK_SELINUX'')),
    Only ''LPOSIX_2001_COMPLIANT'' (Only ''HAVE_LINUX_NETLINK_H'' (Item ''NETLINK_ISCSI'')),
    Only ''LPOSIX_2001_COMPLIANT'' (Only ''HAVE_LINUX_NETLINK_H'' (Item ''NETLINK_AUDIT'')),
    Only ''LPOSIX_2001_COMPLIANT'' (Only ''HAVE_LINUX_NETLINK_H'' (Item ''NETLINK_FIB_LOOKUP'')),
    Only ''LPOSIX_2001_COMPLIANT'' (Only ''HAVE_LINUX_NETLINK_H'' (Item ''NETLINK_CONNECTOR'')),
    Only ''LPOSIX_2001_COMPLIANT'' (Only ''HAVE_LINUX_NETLINK_H'' (Item ''NETLINK_NETFILTER'')),
    Only ''LPOSIX_2001_COMPLIANT'' (Only ''HAVE_LINUX_NETLINK_H'' (Item ''NETLINK_IP6_FW'')),
    Only ''LPOSIX_2001_COMPLIANT'' (Only ''HAVE_LINUX_NETLINK_H'' (Item ''NETLINK_DNRTMSG'')),
    Only ''LPOSIX_2001_COMPLIANT'' (Only ''HAVE_LINUX_NETLINK_H'' (Item ''NETLINK_KOBJECT_UEVENT'')),
    Only ''LPOSIX_2001_COMPLIANT'' (Only ''HAVE_LINUX_NETLINK_H'' (Item ''NETLINK_GENERIC'')),
    Only ''LPOSIX_2001_COMPLIANT'' (Only ''HAVE_LINUX_NETLINK_H'' (Item ''NETLINK_SCSITRANSPORT'')),
    Only ''LPOSIX_2001_COMPLIANT'' (Only ''HAVE_LINUX_NETLINK_H'' (Item ''NETLINK_ECRYPTFS''))]"

definition luaopen_posix_sys_socket :: "host \<Rightarrow> ('w, nat) lm" where
  "luaopen_posix_sys_socket H = open_module H ''sys.socket'' posix_sys_socket_fns posix_sys_socket_consts"

lemma sys_socket_names: "names_ok posix_sys_socket_fns posix_sys_socket_consts"
  by code_simp

end
