(* ===== verification/UnistdProc.thy ===== *)
theory UnistdProc
  imports Arrays Modules
begin

text \<open>
  \<^verbatim>\<open>ext/posix/unistd.c\<close>, third part: \<open>exec\<close>, \<open>getgroups\<close> and \<open>getopt\<close>, which build C arrays
  from Lua tables and back.
\<close>

section \<open>exec\<close>

text \<open>
  The entries \<open>argv[i], ..., argv[n]\<close>: every value is left on the stack, which keeps the
  string alive; an entry that is neither a string nor a number becomes \<open>NULL\<close>.
\<close>

fun exec_args :: "env \<Rightarrow> nat \<Rightarrow> nat \<Rightarrow> string option list \<Rightarrow> ('w, string option list) lm" where
  "exec_args E 0 i argv = ret argv"
| "exec_args E (Suc k) i argv =
     thn (lua_pushinteger (of_nat i))
    (thn (lua_gettable E 2)
    (bnd (lua_tolstring E (-1)) (\<lambda>r.
     exec_args E k (Suc i) (argv @ [map_option cstr r]))))"

text \<open>\<open>argv[0]\<close>: the string at index 0 of the table, which then stays on the stack, or the path.\<close>

definition exec_argv0 :: "env \<Rightarrow> string \<Rightarrow> ('w, string option) lm" where
  "exec_argv0 E path =
     bnd (lua_type (-1)) (\<lambda>t0.
     if t0 = TSTRING then bnd (lua_tolstring E (-1)) (\<lambda>r. ret (map_option cstr r))
     else thn (lua_pop 1) (ret (Some path)))"

text \<open>\<open>c_exec\<close> returns whether it replaced the program.\<close>

definition runexec ::
  "env \<Rightarrow> (string \<Rightarrow> string option list \<Rightarrow> ('w, bool) sys) \<Rightarrow> ('w, nat) lm" where
  "runexec E c_exec =
     bnd (luaL_checkstring E 1) (\<lambda>path.
     thn (checknargs 2)
    (bnd (lua_type 2) (\<lambda>t.
     thn (when_do (t \<noteq> TTABLE) (argtypeerror 2 ''table''))
    (bnd (lua_objlen E 2) (\<lambda>len.
     let n = nat (sint (to_cint len)) in
     bnd (lua_newuserdata URaw) (\<lambda>_.
     thn (lua_pushinteger 0)
    (thn (lua_gettable E 2)
    (bnd (exec_argv0 E path) (\<lambda>argv0.
     bnd (exec_args E n 1 [argv0]) (\<lambda>argv.
     bnd (sys (c_exec path (argv @ [None]))) (\<lambda>replaced.
     if replaced then raise Replaced else pusherror E (Some path))))))))))))"

definition Pexec ::
  "env \<Rightarrow> (string \<Rightarrow> string option list \<Rightarrow> ('w, bool) sys) \<Rightarrow> ('w, nat) lm" where
  "Pexec E c_execv = runexec E c_execv"

definition Pexecp ::
  "env \<Rightarrow> (string \<Rightarrow> string option list \<Rightarrow> ('w, bool) sys) \<Rightarrow> ('w, nat) lm" where
  "Pexecp E c_execvp = runexec E c_execvp"

text \<open>The vector a table denotes.\<close>

definition cstr_value :: "env \<Rightarrow> lvalue \<Rightarrow> string option" where
  "cstr_value E v = map_option cstr (val_str E (Some v))"

definition argv0_of :: "string \<Rightarrow> ltable \<Rightarrow> string option" where
  "argv0_of path t = (case tbl_get t (LInt 0) of LStr x \<Rightarrow> Some (cstr x) | _ \<Rightarrow> Some path)"

definition argv_of :: "env \<Rightarrow> string \<Rightarrow> ltable \<Rightarrow> nat \<Rightarrow> string option list" where
  "argv_of E path t n =
     argv0_of path t # map (\<lambda>i. cstr_value E (tbl_get t (LInt (of_nat i)))) [1..<Suc n] @ [None]"

lemma exec_args_run:
  assumes "at 2 (stk s) = Some (LTab a)"
  shows "\<exists>ys. exec_args E k i argv s =
    Ok (argv @ map (\<lambda>j. cstr_value E (tbl_get (tabs s a) (LInt (of_nat j)))) [i..<i + k])
       (s\<lparr>stk := stk s @ ys\<rparr>)"
  using assms
proof (induction k arbitrary: i argv s)
  case 0
  then show ?case by (intro exI [of _ "[]"]) (simp add: run_simps)
next
  case (Suc k)
  let ?v = "tbl_get (tabs s a) (LInt (of_nat i))"
  let ?u = "case val_str E (Some ?v) of None \<Rightarrow> ?v | Some x \<Rightarrow> LStr x"
  let ?s = "s\<lparr>stk := stk s @ [?u]\<rparr>"
  have get: "lua_gettable E 2 (s\<lparr>stk := stk s @ [LInt (of_nat i)]\<rparr>) = Ok () (s\<lparr>stk := stk s @ [?v]\<rparr>)"
    using lua_gettable_run [of 2 "stk s" "LInt (of_nat i)" a "s\<lparr>stk := stk s @ [LInt (of_nat i)]\<rparr>" E]
      Suc.prems by (simp add: at_append_pos)
  have str: "lua_tolstring E (-1) (s\<lparr>stk := stk s @ [?v]\<rparr>) = Ok (val_str E (Some ?v)) ?s"
    by (simp add: lua_tolstring_def put_at_def slot_def nth_append list_update_append
        split: option.splits)
  from Suc.IH [of ?s "Suc i" "argv @ [cstr_value E ?v]"] Suc.prems obtain ys where
    rest: "exec_args E k (Suc i) (argv @ [cstr_value E ?v]) ?s =
      Ok (argv @ [cstr_value E ?v] @
          map (\<lambda>j. cstr_value E (tbl_get (tabs s a) (LInt (of_nat j)))) [Suc i..<Suc i + k])
         (?s\<lparr>stk := stk s @ [?u] @ ys\<rparr>)"
    by (auto simp: at_append_pos)
  have "[i..<i + Suc k] = i # [Suc i..<Suc i + k]" by (simp add: upt_conv_Cons)
  with get str rest show ?case
    by (intro exI [of _ "[?u] @ ys"])
      (simp add: thn_def bnd_def lua_push_run cstr_value_def del: upt_Suc)
qed

lemma exec_argv0_run:
  assumes "stk s = xs @ [tbl_get t (LInt 0)]"
  shows "\<exists>zs. exec_argv0 E path s = Ok (argv0_of path t) (s\<lparr>stk := xs @ zs\<rparr>)"
proof (cases "tbl_get t (LInt 0)")
  case (LStr x)
  with assms show ?thesis
    by (intro exI [of _ "[LStr x]"])
      (simp add: exec_argv0_def run_simps type_of_def argv0_of_def put_at_def slot_def)
qed (use assms in \<open>auto intro!: exI [of _ "[]"] simp: exec_argv0_def run_simps type_of_def argv0_of_def\<close>)

definition args_exec :: "env \<Rightarrow> 'w lst \<Rightarrow> lvalue list \<Rightarrow> err + (string \<times> nat)" where
  "args_exec E s args =
     sbind (arg_str E s 1 args) (\<lambda>p. sbind (at_most 2 args) (\<lambda>_.
     sbind (arg_table 2 (\<lambda>v. ArgError 2 (got_msg ''table'' v)) args) (\<lambda>a. Inr (p, a))))"

lemma exec_argv_run:
  assumes acc: "args_exec E s args = Inr (path, a)"
    and len: "tlen E (tabs s a) < 2 ^ 31"
    and call: "c_exec path (argv_of E path (tabs s a) (tlen E (tabs s a))) (errno s) (world s) = (r, e, w)"
  shows "\<exists>s'. call_c (runexec E c_exec) args s =
    (if r then Err Replaced s' else Ok (error_values E (Some path) e) s') \<and>
    world s' = w \<and> errno s' = e \<and> tabs s' = tabs s \<and> live s' = live s"
proof -
  let ?t = "tabs s a" and ?n = "tlen E (tabs s a)"
  obtain y where y: "val_str E (at 1 args) = Some y" "path = cstr y" and l: "length args \<le> 2"
    and tab: "at 2 args = Some (LTab a)"
    using acc by (auto simp: args_exec_def accepted)
  let ?ys = "put_at 1 (LStr y) args"
  let ?s1 = "s\<lparr>stk := ?ys @ [LUdata (nud s)], nud := Suc (nud s), udat := (udat s)(nud s := URaw),
      umeta := (umeta s)(nud s := None)\<rparr>"
  have at2: "at 2 ?ys = Some (LTab a)" using tab by simp
  have n: "nat (sint (to_cint (of_nat ?n))) = ?n"
    using len by (simp add: to_cint_of_nat sint_of_nat_cint)
  let ?v0 = "tbl_get ?t (LInt 0)"
  have get0: "lua_gettable E 2 (?s1\<lparr>stk := ?ys @ [LUdata (nud s)] @ [LInt 0]\<rparr>) =
      Ok () (?s1\<lparr>stk := ?ys @ [LUdata (nud s)] @ [?v0]\<rparr>)"
    using lua_gettable_run [of 2 "?ys @ [LUdata (nud s)]" "LInt 0" a
        "?s1\<lparr>stk := ?ys @ [LUdata (nud s)] @ [LInt 0]\<rparr>" E] at2
    by (simp add: at_append_pos)
  obtain zs where first: "exec_argv0 E path (?s1\<lparr>stk := (?ys @ [LUdata (nud s)]) @ [?v0]\<rparr>) =
      Ok (argv0_of path ?t) (?s1\<lparr>stk := ?ys @ zs\<rparr>)"
    using exec_argv0_run [of "?s1\<lparr>stk := (?ys @ [LUdata (nud s)]) @ [?v0]\<rparr>" "?ys @ [LUdata (nud s)]" ?t E path]
    by auto
  let ?s2 = "?s1\<lparr>stk := ?ys @ zs\<rparr>"
  obtain us where loop: "exec_args E ?n 1 [argv0_of path ?t] ?s2 =
      Ok (argv0_of path ?t # map (\<lambda>i. cstr_value E (tbl_get ?t (LInt (of_nat i)))) [1..<Suc ?n])
         (?s2\<lparr>stk := ?ys @ zs @ us\<rparr>)"
    using exec_args_run [of ?s2 a E ?n 1 "[argv0_of path ?t]"] at2
    by (auto simp: at_append_pos simp del: upt_Suc)
  have "runexec E c_exec (s\<lparr>stk := args\<rparr>) =
      (if r then raise Replaced else pusherror E (Some path))
        (?s2\<lparr>stk := ?ys @ zs @ us, errno := e, world := w\<rparr>)"
    using y l at2 n get0 first loop call
    by (simp add: runexec_def bnd_def thn_def luaL_checkstring_run checknargs_run put_at_same_type
        lua_type_def asks_run type_of_def when_do_run lua_objlen_def Let_def lua_newuserdata_def
        lua_push_run sys_def argv_of_def del: upt_Suc)
  then show ?thesis
    by (auto simp: call_c_def raise_run pusherror_run)
qed

text \<open>
  Property C6: \<open>exec\<close> and \<open>execp\<close> build the argument vector from the table: entry 0 when it is a
  string, else the path; then entries 1 to the border of the table in order; then the null
  pointer.  When the system call returns, the error triple is the result, and when it does
  not, nothing else happens; no table and no block of the allocator is changed.
\<close>

theorem exec_argv:
  assumes acc: "args_exec E s args = Inr (path, a)"
    and len: "tlen E (tabs s a) < 2 ^ 31"
    and call: "c_exec path (argv_of E path (tabs s a) (tlen E (tabs s a))) (errno s) (world s) = (r, e, w)"
  shows "\<exists>s'. call_c (runexec E c_exec) args s =
    (if r then Err Replaced s' else Ok (error_values E (Some path) e) s') \<and>
    world s' = w \<and> errno s' = e \<and> tabs s' = tabs s \<and> live s' = live s"
  using assms by (rule exec_argv_run)

definition exec_sample :: "string list lst" where
  "exec_sample = (sample_state [])\<lparr>tabs := (\<lambda>_. [(LInt 1, LStr ''-l''), (LInt 2, LInt 7)]), ntab := 1\<rparr>"

definition refuse_exec :: "string \<Rightarrow> string option list \<Rightarrow> (string list, bool) sys" where
  "refuse_exec p argv e w = (False, 2, map the (butlast argv))"

theorem exec_argv_witness:
  "\<exists>s'. call_c (runexec sample_env refuse_exec) [LStr ''ls'', LTab 0]
     exec_sample = Ok (error_values sample_env (Some ''ls'') 2) s' \<and>
   world s' = [''ls'', ''-l'', ''7'']"
proof -
  have acc: "args_exec sample_env exec_sample [LStr ''ls'', LTab 0] = Inr (''ls'', 0)"
    by (simp add: args_exec_def arg_defs arg_table_def at_simps cstr_def NUL_def)
  have dec: "int_str 7 = ''7''"
    by (simp add: int_str_def int_dec_def nat_dec.simps)
  have argv: "argv_of sample_env ''ls'' (tabs exec_sample 0) (tlen sample_env (tabs exec_sample 0)) =
      [Some ''ls'', Some ''-l'', Some ''7'', None]"
    by (simp add: argv_of_def exec_sample_def argv0_of_def cstr_value_def dec cstr_def NUL_def)
  have len: "tlen sample_env (tabs exec_sample 0) < 2 ^ 31"
    by (simp add: exec_sample_def)
  have call: "refuse_exec ''ls''
      (argv_of sample_env ''ls'' (tabs exec_sample 0) (tlen sample_env (tabs exec_sample 0)))
      (errno exec_sample) (world exec_sample) = (False, 2, [''ls'', ''-l'', ''7''])"
    by (simp only: argv refuse_exec_def) simp
  from exec_argv [where c_exec = refuse_exec, OF acc len call] show ?thesis by auto
qed

section \<open>getgroups\<close>

text \<open>
  \<open>c_getgroups n\<close> is the count and the buffer of \<open>n\<close> ids it filled; the first call, for the
  number of slots, comes before the check of the arguments.
\<close>

definition group_values :: "cint \<Rightarrow> cint list \<Rightarrow> ('w, lvalue list) lm" where
  "group_values n gs =
     (if nat (sint n) \<le> length gs then ret (map (\<lambda>g. LInt (of_cuint g)) (take (nat (sint n)) gs))
      else raise (Undefined ''read past the end of group''))"

definition Pgetgroups :: "env \<Rightarrow> (cint \<Rightarrow> ('w, cint \<times> cint list) sys) \<Rightarrow> ('w, nat) lm" where
  "Pgetgroups E c_getgroups =
     bnd (sys (c_getgroups 0)) (\<lambda>r0.
     let n_group_slots = fst r0 in
     thn (checknargs 0)
    (if n_group_slots <s 0 then pusherror E None
     else if n_group_slots = 0 then thn lua_newtable (ret 1)
     else bnd (lua_newuserdata URaw) (\<lambda>_.
       bnd (sys (c_getgroups n_group_slots)) (\<lambda>r.
       let n_groups = fst r in
       if n_groups <s 0 then pusherror E None
       else bnd (group_values n_groups (snd r)) (\<lambda>vs.
         thn (push_array Signed vs) (ret 1))))))"

lemma Pgetgroups_run:
  assumes slots: "c_getgroups 0 (errno s) (world s) = ((n0, junk), e0, w0)" "0 <s n0"
    and groups: "c_getgroups n0 e0 w0 = ((n, gs), e, w)" "0 \<le> sint n" "sint n < 2 ^ 31 - 1"
      "nat (sint n) \<le> length gs"
  shows "\<exists>s'. call_c (Pgetgroups E c_getgroups) [] s = Ok [LTab (ntab s)] s' \<and>
    tabs s' (ntab s) = sequence (map (\<lambda>g. LInt (of_cuint g)) (take (nat (sint n)) gs)) \<and>
    world s' = w \<and> errno s' = e"
proof -
  let ?vs = "map (\<lambda>g. LInt (of_cuint g)) (take (nat (sint n)) gs)"
  have "length ?vs < idx_limit Signed" using groups(2,3,4) by simp
  then have "push_array Signed ?vs t = Ok () (with_sequence ?vs t)" for t :: "'a lst"
    by (rule push_array_run) auto
  moreover have "n0 \<noteq> 0" using slots(2) by auto
  ultimately show ?thesis using assms
    by (simp add: Pgetgroups_def call_c_def run_simps sys_def group_values_def Let_def
        word_sless_alt add_sequence_def)
qed

section \<open>getopt\<close>

text \<open>
  \<open>c_getopt argc argv optstring\<close> returns the option character, \<open>optarg\<close>, \<open>optind\<close> and the
  vector as it rearranged it.  The iterator keeps \<open>argc\<close>, the option string, the vector and
  the argument strings as upvalues; a C closure has at most 255.
\<close>

record 'w getoptapi =
  c_getopt :: "cint \<Rightarrow> string option list \<Rightarrow> string \<Rightarrow>
    ('w, cint \<times> string option \<times> cint \<times> string option list) sys"
  c_set_opterr :: "cint \<Rightarrow> ('w, unit) sys"
  c_set_optind :: "cint \<Rightarrow> ('w, unit) sys"

definition char_of_int :: "cint \<Rightarrow> char" where
  "char_of_int r = char_of (unat (ucast r :: 8 word))"

definition upvalue_argv :: "lvalue \<Rightarrow> ('w, string option list) lm" where
  "upvalue_argv v s = (case v of
      LUdata u \<Rightarrow> (case udat s u of UArgv a \<Rightarrow> Ok a s | _ \<Rightarrow> raise (Undefined ''not an argv block'') s)
    | _ \<Rightarrow> raise (Undefined ''not a userdata'') s)"

definition set_argv :: "lvalue \<Rightarrow> string option list \<Rightarrow> ('w, unit) lm" where
  "set_argv v a s = (case v of
      LUdata u \<Rightarrow> Ok () (s\<lparr>udat := (udat s)(u := UArgv a)\<rparr>)
    | _ \<Rightarrow> raise (Undefined ''not a userdata'') s)"

definition iter_getopt :: "env \<Rightarrow> 'w getoptapi \<Rightarrow> lvalue list \<Rightarrow> ('w, nat) lm" where
  "iter_getopt E A upvalues =
     (let argc = (case val_int E (Some (upvalues ! 0)) of None \<Rightarrow> 0 | Some n \<Rightarrow> to_cint n);
          opts = (case val_str E (Some (upvalues ! 1)) of None \<Rightarrow> [] | Some x \<Rightarrow> cstr x) in
      bnd (upvalue_argv (upvalues ! 2)) (\<lambda>argv.
      bnd (sys (c_getopt A argc argv opts)) (\<lambda>(r, optarg, optind, argv').
      thn (set_argv (upvalues ! 2) argv')
     (if r = -1 then ret 0
      else seqn [lua_pushlstring [char_of_int r], lua_pushcharp optarg,
                 lua_pushinteger (of_cint optind)] 3))))"

fun getopt_args :: "env \<Rightarrow> nat \<Rightarrow> nat \<Rightarrow> string option list \<Rightarrow> ('w, string option list) lm" where
  "getopt_args E 0 i argv = ret argv"
| "getopt_args E (Suc k) i argv =
     thn (lua_pushinteger (of_nat i))
    (thn (lua_gettable E 1)
    (bnd (luaL_checkstring E (-1)) (\<lambda>x.
     getopt_args E k (Suc i) (argv @ [Some x]))))"

definition Pgetopt :: "env \<Rightarrow> 'w getoptapi \<Rightarrow> ('w, nat) lm" where
  "Pgetopt E A =
     thn (checknargs 4)
    (thn (checktype 1 TTABLE ''list'')
    (bnd (luaL_checkstring E 2) (\<lambda>opts.
     bnd (optinteger E 3 0) (\<lambda>opterr.
     thn (sys (c_set_opterr A (to_cint opterr)))
    (bnd (optinteger E 4 1) (\<lambda>optind.
     thn (sys (c_set_optind A (to_cint optind)))
    (bnd (lua_objlen E 1) (\<lambda>len.
     let argc = to_cint len + 1; n = nat (sint argc) in
     thn (lua_pushinteger (of_cint argc))
    (thn (lua_pushstring opts)
    (bnd (lua_newuserdata (UArgv [])) (\<lambda>u.
     bnd (getopt_args E n 0 []) (\<lambda>argv.
     thn (set_argv (LUdata u) (argv @ [None]))
    (thn (lua_pushcclosure ''iter_getopt'' (3 + n))
     (ret 1))))))))))))))"

text \<open>One step of the iterator: nothing at the end, else the option, its argument and \<open>optind\<close>.\<close>

lemma iter_getopt_run:
  assumes "upvalues = LInt argc # LStr opts # LUdata u # rest" "udat s u = UArgv argv"
    and "c_getopt A (to_cint argc) argv (cstr opts) (errno s) (world s) =
      ((r, optarg, optind, argv'), e, w)"
  shows "call_c (iter_getopt E A upvalues) args s =
    Ok (if r = -1 then []
        else [LStr [char_of_int r],
              case optarg of None \<Rightarrow> LNil | Some x \<Rightarrow> LStr (cstr x), LInt (of_cint optind)])
       (s\<lparr>udat := (udat s)(u := UArgv argv'), errno := e, world := w\<rparr>)"
  using assms
  by (auto simp: iter_getopt_def call_c_def run_simps sys_def upvalue_argv_def set_argv_def Let_def)

text \<open>The strings of the table, which must be strings or numbers.\<close>

definition string_entries :: "env \<Rightarrow> ltable \<Rightarrow> nat \<Rightarrow> bool" where
  "string_entries E t n \<longleftrightarrow> (\<forall>i < n. val_str E (Some (tbl_get t (LInt (of_nat i)))) \<noteq> None)"

definition entry_string :: "env \<Rightarrow> ltable \<Rightarrow> nat \<Rightarrow> string" where
  "entry_string E t i = the (val_str E (Some (tbl_get t (LInt (of_nat i)))))"

lemma getopt_args_run:
  assumes "at 1 (stk s) = Some (LTab a)" "\<forall>j. i \<le> j \<and> j < i + k \<longrightarrow>
    val_str E (Some (tbl_get (tabs s a) (LInt (of_nat j)))) \<noteq> None"
  shows "getopt_args E k i argv s =
    Ok (argv @ map (\<lambda>j. Some (cstr (entry_string E (tabs s a) j))) [i..<i + k])
       (s\<lparr>stk := stk s @ map (\<lambda>j. LStr (entry_string E (tabs s a) j)) [i..<i + k]\<rparr>)"
  using assms
proof (induction k arbitrary: i argv s)
  case 0
  then show ?case by (simp add: run_simps)
next
  case (Suc k)
  let ?v = "tbl_get (tabs s a) (LInt (of_nat i))" and ?x = "entry_string E (tabs s a) i"
  let ?s = "s\<lparr>stk := stk s @ [LStr ?x]\<rparr>"
  have get: "lua_gettable E 1 (s\<lparr>stk := stk s @ [LInt (of_nat i)]\<rparr>) = Ok () (s\<lparr>stk := stk s @ [?v]\<rparr>)"
    using lua_gettable_run [of 1 "stk s" "LInt (of_nat i)" a "s\<lparr>stk := stk s @ [LInt (of_nat i)]\<rparr>" E]
      Suc.prems by (simp add: at_append_pos)
  have "val_str E (Some ?v) = Some ?x"
    using Suc.prems(2) by (auto simp: entry_string_def)
  then have str: "luaL_checkstring E (-1) (s\<lparr>stk := stk s @ [?v]\<rparr>) = Ok (cstr ?x) ?s"
    by (simp add: luaL_checkstring_run put_at_def slot_def list_update_append)
  have rest: "getopt_args E k (Suc i) (argv @ [Some (cstr ?x)]) ?s =
      Ok ((argv @ [Some (cstr ?x)]) @ map (\<lambda>j. Some (cstr (entry_string E (tabs ?s a) j))) [Suc i..<Suc i + k])
         (?s\<lparr>stk := stk ?s @ map (\<lambda>j. LStr (entry_string E (tabs ?s a) j)) [Suc i..<Suc i + k]\<rparr>)"
    by (rule Suc.IH) (use Suc.prems in \<open>auto simp: at_append_pos\<close>)
  have "[i..<i + Suc k] = i # [Suc i..<Suc i + k]" by (simp add: upt_conv_Cons)
  with get str rest show ?case
    by (simp add: thn_def bnd_def lua_push_run del: upt_Suc)
qed

definition args_getopt :: "env \<Rightarrow> 'w lst \<Rightarrow> lvalue list \<Rightarrow> err + (nat \<times> string \<times> cint \<times> cint)" where
  "args_getopt E s args =
     sbind (at_most 4 args) (\<lambda>_. sbind (arg_table 1 (\<lambda>v. ArgError 1 (got_msg ''list'' v)) args) (\<lambda>a.
     sbind (arg_str E s 2 args) (\<lambda>opts. sbind (arg_optinteger E 3 0 args) (\<lambda>err.
     sbind (arg_optinteger E 4 1 args) (\<lambda>ind. Inr (a, opts, to_cint err, to_cint ind))))))"

lemma optinteger_ok: "arg_optinteger E n d (stk s) = Inr k \<Longrightarrow> optinteger E n d s = Ok k s"
  by (auto simp: arg_opt_Inr optinteger_run split: if_splits)

lemma Pgetopt_run:
  assumes acc: "args_getopt E s args = Inr (a, opts, err, ind)"
    and len: "tlen E (tabs s a) < 252"
    and strs: "string_entries E (tabs s a) (Suc (tlen E (tabs s a)))"
    and err: "c_set_opterr A err (errno s) (world s) = (u1, e1, w1)"
    and ind: "c_set_optind A ind e1 w1 = (u2, e2, w2)"
  shows "\<exists>t. call_c (Pgetopt E A) args s = Ok [LCFun ''iter_getopt''
       ([LInt (of_nat (Suc (tlen E (tabs s a)))), LStr opts, LUdata (nud s)] @
        map (\<lambda>j. LStr (entry_string E (tabs s a) j)) [0..<Suc (tlen E (tabs s a))])] t \<and>
    udat t (nud s) = UArgv (map (\<lambda>j. Some (cstr (entry_string E (tabs s a) j)))
      [0..<Suc (tlen E (tabs s a))] @ [None]) \<and>
    errno t = e2 \<and> world t = w2 \<and> tabs t = tabs s"
proof -
  let ?t = "tabs s a" and ?n = "tlen E (tabs s a)"
  obtain y where y: "val_str E (at 2 args) = Some y" "opts = cstr y" and l: "length args \<le> 4"
    and tab: "at 1 args = Some (LTab a)"
    using acc by (auto simp: args_getopt_def accepted)
  let ?ys = "put_at 2 (LStr y) args"
  have tab': "at 1 ?ys = Some (LTab a)" using tab by simp
  obtain d3 d4 where opt: "arg_optinteger E 3 0 args = Inr d3" "arg_optinteger E 4 1 args = Inr d4"
    and d: "err = to_cint d3" "ind = to_cint d4"
    using acc by (auto simp: args_getopt_def sbind_Inr)
  have o3: "optinteger E 3 0 (s\<lparr>stk := ?ys\<rparr>) = Ok d3 (s\<lparr>stk := ?ys\<rparr>)"
    by (rule optinteger_ok) (use opt in \<open>simp add: arg_opt_Inr\<close>)
  let ?s1 = "s\<lparr>stk := ?ys, errno := e1, world := w1\<rparr>"
  have o4: "optinteger E 4 1 ?s1 = Ok d4 ?s1"
    by (rule optinteger_ok) (use opt in \<open>simp add: arg_opt_Inr\<close>)
  let ?c = "of_nat (Suc ?n) :: cint"
  have sint: "sint ?c = int (Suc ?n)" using len by (simp add: sint_of_nat_cint del: of_nat_Suc)
  then have argc: "to_cint (of_nat ?n) + 1 = ?c" "nat (sint ?c) = Suc ?n" "of_cint ?c = of_nat (Suc ?n)"
    using len by (simp_all add: to_cint_of_nat of_cint_def scast_eq add.commute del: of_nat_Suc)
      (simp_all add: of_nat_Suc add.commute)
  let ?u = "nud s"
  let ?s2 = "?s1\<lparr>stk := ?ys @ [LInt (of_nat (Suc ?n)), LStr opts, LUdata ?u], errno := e2, world := w2,
      nud := Suc ?u, udat := (udat s)(?u := UArgv []), umeta := (umeta s)(?u := None)\<rparr>"
  let ?vs = "map (\<lambda>j. LStr (entry_string E ?t j)) [0..<Suc ?n]"
  let ?argv = "map (\<lambda>j. Some (cstr (entry_string E ?t j))) [0..<Suc ?n]"
  have loop: "getopt_args E (Suc ?n) 0 [] ?s2 = Ok ?argv (?s2\<lparr>stk := stk ?s2 @ ?vs\<rparr>)"
    using getopt_args_run [of ?s2 a 0 "Suc ?n" E "[]"] tab' strs
    by (simp add: at_append_pos string_entries_def del: upt_Suc)
  have "type_of (at 1 ?ys) = TTABLE" using tab' by (simp add: type_of_def)
  then have "Pgetopt E A (s\<lparr>stk := args\<rparr>) =
      bnd (getopt_args E (Suc ?n) 0 []) (\<lambda>argv.
        thn (set_argv (LUdata ?u) (argv @ [None]))
       (thn (lua_pushcclosure ''iter_getopt'' (3 + Suc ?n)) (ret 1))) ?s2"
    using y l tab tab' o3 o4 d err ind argc
    by (simp add: Pgetopt_def run_simps put_at_same_type sys_def Let_def type_of_def del: of_nat_Suc upt_Suc)
  also have "\<dots> = Ok 1 (?s2\<lparr>stk := ?ys @ [LCFun ''iter_getopt''
        ([LInt (of_nat (Suc ?n)), LStr opts, LUdata ?u] @ ?vs)],
      udat := (udat s)(?u := UArgv (?argv @ [None]))\<rparr>)"
    using loop len
    by (simp add: bnd_def thn_def set_argv_def lua_pushcclosure_def ret_def Let_def del: of_nat_Suc upt_Suc)
  finally show ?thesis by (simp add: call_c_def del: of_nat_Suc upt_Suc)
qed

text \<open>
  \<open>options A argc opts argv rs e w e' w'\<close>: from the vector \<open>argv\<close> and the state \<open>(e, w)\<close> the C function
  yields the options \<open>rs\<close>, each with its argument and \<open>optind\<close>, and then its end, in the state
  \<open>(e', w')\<close>.
\<close>

fun options :: "'w getoptapi \<Rightarrow> cint \<Rightarrow> string \<Rightarrow> string option list \<Rightarrow>
    (cint \<times> string option \<times> cint) list \<Rightarrow> cint \<Rightarrow> 'w \<Rightarrow> cint \<Rightarrow> 'w \<Rightarrow> bool" where
  "options A argc opts argv [] e w e' w' \<longleftrightarrow>
     (case c_getopt A argc argv opts e w of ((r, _), e1, w1) \<Rightarrow> r = -1 \<and> e1 = e' \<and> w1 = w')"
| "options A argc opts argv (x # xs) e w e' w' \<longleftrightarrow>
     (case c_getopt A argc argv opts e w of ((r, optarg, optind, argv1), e1, w1) \<Rightarrow>
        r \<noteq> -1 \<and> x = (r, optarg, optind) \<and> options A argc opts argv1 xs e1 w1 e' w')"

definition option_values :: "cint \<times> string option \<times> cint \<Rightarrow> lvalue list" where
  "option_values x = (case x of (r, optarg, optind) \<Rightarrow>
     [LStr [char_of_int r], case optarg of None \<Rightarrow> LNil | Some y \<Rightarrow> LStr (cstr y), LInt (of_cint optind)])"

lemma for_in_getopt:
  assumes ups: "ups = LInt argc # LStr opts # LUdata u # rest"
    and "options A (to_cint argc) (cstr opts) argv rs (errno s) (world s) e' w'"
    and "udat s u = UArgv argv" "length rs < k"
  shows "\<exists>t. for_in k (iter_getopt E A ups) acc s = Some (acc @ map option_values rs, t) \<and>
    errno t = e' \<and> world t = w' \<and> tabs t = tabs s"
  using assms(2-)
proof (induction rs arbitrary: argv s k acc)
  case Nil
  then obtain m where k: "k = Suc m" by (cases k) auto
  obtain r oa oi argv1 e1 w1 where c: "c_getopt A (to_cint argc) argv (cstr opts) (errno s) (world s) =
      ((r, oa, oi, argv1), e1, w1)" by (metis surj_pair)
  with Nil.prems(1) k show ?case by (simp add: iter_getopt_run [OF ups Nil.prems(2) c])
next
  case (Cons x rs)
  then obtain m where k: "k = Suc m" by (cases k) auto
  obtain r oa oi argv1 e1 w1 where c: "c_getopt A (to_cint argc) argv (cstr opts) (errno s) (world s) =
      ((r, oa, oi, argv1), e1, w1)" by (metis surj_pair)
  let ?s = "s\<lparr>udat := (udat s)(u := UArgv argv1), errno := e1, world := w1\<rparr>"
  have x: "r \<noteq> -1" "x = (r, oa, oi)" using Cons.prems(1) c by auto
  have "\<exists>t. for_in m (iter_getopt E A ups) (acc @ [option_values x]) ?s =
      Some ((acc @ [option_values x]) @ map option_values rs, t) \<and>
      errno t = e' \<and> world t = w' \<and> tabs t = tabs ?s"
    by (rule Cons.IH [of argv1]) (use Cons.prems c k in auto)
  with k x show ?case by (simp add: iter_getopt_run [OF ups Cons.prems(2) c]
        option_values_def [of "(r, oa, oi)"])
qed

text \<open>
  Property C7: a \<open>for\<close> loop over \<open>getopt\<close> ends and visits exactly the options that the C function
  finds, with their arguments and \<open>optind\<close>, in its order: \<open>opterr\<close> and \<open>optind\<close> are set first, then each
  call gets the number of arguments, the option string and the vector as the call before left it;
  the first vector holds the strings of the table from entry 0 to its border and then the null
  pointer.
\<close>

theorem getopt_visits_options:
  assumes "args_getopt E s args = Inr (a, opts, err, ind)" "tlen E (tabs s a) = n" "n < 252"
    and "string_entries E (tabs s a) (Suc n)"
    and "c_set_opterr A err (errno s) (world s) = (u1, e1, w1)" "c_set_optind A ind e1 w1 = (u2, e2, w2)"
    and "options A (of_nat (Suc n)) opts
      (map (\<lambda>j. Some (cstr (entry_string E (tabs s a) j))) [0..<Suc n] @ [None]) rs e2 w2 e3 w3"
  shows "\<exists>ups t t'. call_c (Pgetopt E A) args s = Ok [LCFun ''iter_getopt'' ups] t \<and>
    for_in (Suc (length rs)) (iter_getopt E A ups) [] t = Some (map option_values rs, t') \<and>
    errno t' = e3 \<and> world t' = w3 \<and> tabs t' = tabs s"
proof -
  let ?argv = "map (\<lambda>j. Some (cstr (entry_string E (tabs s a) j))) [0..<Suc n] @ [None]"
  let ?ups = "[LInt (of_nat (Suc n)), LStr opts, LUdata (nud s)] @
    map (\<lambda>j. LStr (entry_string E (tabs s a) j)) [0..<Suc n]"
  obtain t where t: "call_c (Pgetopt E A) args s = Ok [LCFun ''iter_getopt'' ?ups] t"
    "udat t (nud s) = UArgv ?argv" "errno t = e2" "world t = w2" "tabs t = tabs s"
    using Pgetopt_run [OF assms(1) _ _ assms(5,6)] assms(2-4) by auto
  have "cstr opts = opts" using assms(1) by (auto simp: args_getopt_def accepted)
  then have "options A (to_cint (of_nat (Suc n))) (cstr opts) ?argv rs (errno t) (world t) e3 w3"
    using assms(7) t(3,4) by (simp only: to_cint_of_nat)
  from for_in_getopt [OF _ this t(2), of ?ups _ "Suc (length rs)" E "[]"] t(1,5)
  show ?thesis by (auto simp del: for_in.simps of_nat_Suc upt_Suc)
qed

text \<open>A C function that yields the vector's strings in turn, under their first letters.\<close>

definition getopt_sample :: "nat getoptapi" where
  "getopt_sample = \<lparr>
     c_getopt = (\<lambda>n argv opts e w.
       if w < unat n then ((word_of_int (of_char (hd (the (argv ! w)))), argv ! w, of_nat (Suc w), argv), e, Suc w)
       else ((-1, None, n, argv), e, w)),
     c_set_opterr = (\<lambda>i e w. ((), e, w)), c_set_optind = (\<lambda>i e w. ((), e, 0))\<rparr>"

theorem getopt_visits_options_witness:
  "\<exists>ups t t'. call_c (Pgetopt (sample_env\<lparr>tlen := (\<lambda>_. 1)\<rparr>) getopt_sample) [LTab 0, LStr ''ab'']
      ((sample_state 7)\<lparr>tabs := (\<lambda>_. [(LInt 0, LStr ''prog''), (LInt 1, LStr ''-a'')])\<rparr>) =
      Ok [LCFun ''iter_getopt'' ups] t \<and>
    for_in 3 (iter_getopt (sample_env\<lparr>tlen := (\<lambda>_. 1)\<rparr>) getopt_sample ups) [] t =
      Some (map option_values [(112, Some ''prog'', 1), (45, Some ''-a'', 2)], t') \<and> world t' = 2"
proof -
  let ?t = "[(LInt 0, LStr ''prog''), (LInt 1, LStr ''-a'')]"
  let ?s = "(sample_state (7 :: nat))\<lparr>tabs := (\<lambda>_. ?t)\<rparr>"
  have acc: "args_getopt (sample_env\<lparr>tlen := (\<lambda>_. 1)\<rparr>) ?s [LTab 0, LStr ''ab''] = Inr (0, ''ab'', 0, 1)"
    by (simp add: args_getopt_def arg_defs arg_table_def at_simps cstr_def NUL_def type_of_def type_le_nil)
  have len: "tlen (sample_env\<lparr>tlen := (\<lambda>_. 1)\<rparr>) (tabs ?s 0) = 1" by simp
  have entries: "string_entries (sample_env\<lparr>tlen := (\<lambda>_. 1)\<rparr>) (tabs ?s 0) (Suc 1)"
    by (auto simp: string_entries_def less_Suc_eq)
  have argv: "map (\<lambda>j. Some (cstr (entry_string (sample_env\<lparr>tlen := (\<lambda>_. 1)\<rparr>) (tabs ?s 0) j))) [0..<Suc 1] @ [None] =
      [Some ''prog'', Some ''-a'', None]"
    by (simp add: entry_string_def cstr_def NUL_def)
  have found: "options getopt_sample (of_nat (Suc 1)) ''ab''
      (map (\<lambda>j. Some (cstr (entry_string (sample_env\<lparr>tlen := (\<lambda>_. 1)\<rparr>) (tabs ?s 0) j))) [0..<Suc 1] @ [None])
      [(112, Some ''prog'', 1), (45, Some ''-a'', 2)] 0 0 0 2"
    unfolding argv by (simp add: getopt_sample_def)
  show ?thesis
    using getopt_visits_options [OF acc len _ entries _ _ found, of "()" 0 7 "()"]
    by (simp add: getopt_sample_def numeral_3_eq_3 del: for_in.simps) blast
qed

end
