(* ===== verification/Stdio.thy ===== *)
theory Stdio
  imports Compat52Values Modules
begin

text \<open>
  \<^verbatim>\<open>ext/posix/stdio.c\<close>: \<open>pushfile\<close> is for Lua 5.2 and later, \<open>pushfile51\<close> for Lua 5.1.  A file
  object is a userdata of type \<open>FILE*\<close> that holds a stream; the null stream marks it as closed.
  Closing it, from \<open>io.close\<close> or from the collector, calls \<open>stdio_fclose\<close>.
\<close>

section \<open>File objects\<close>

definition LUA_FILEHANDLE :: string where
  "LUA_FILEHANDLE = ''FILE*''"

definition luaL_checkudata :: "int \<Rightarrow> string \<Rightarrow> ('w, nat) lm" where
  "luaL_checkudata i tname s = (case at i (stk s) of
      Some (LUdata u) \<Rightarrow>
        if umeta s u = Some tname then Ok u s
        else luaL_argerror i (tname @ '' expected, got '' @ typearg s (at i (stk s))) s
    | v \<Rightarrow> luaL_argerror i (tname @ '' expected, got '' @ typearg s v) s)"

definition stream_f :: "nat \<Rightarrow> ('w, nat option) lm" where
  "stream_f u s = (case udat s u of
      UStream f \<Rightarrow> Ok f s
    | _ \<Rightarrow> raise (Undefined ''not a stream'') s)"

definition set_stream_f :: "nat \<Rightarrow> nat option \<Rightarrow> ('w, unit) lm" where
  "set_stream_f u f s = Ok () (s\<lparr>udat := (udat s)(u := UStream f)\<rparr>)"

section \<open>The functions\<close>

definition Pctermid :: "('w, string option) sys \<Rightarrow> ('w, nat) lm" where
  "Pctermid c_ctermid = thn (checknargs 0) (bnd (sys c_ctermid) pushstringresult)"

text \<open>\<open>fileno\<close> of a null stream is undefined.\<close>

definition Pfileno :: "env \<Rightarrow> (nat \<Rightarrow> ('w, cint) sys) \<Rightarrow> ('w, nat) lm" where
  "Pfileno E c_fileno =
     bnd (luaL_checkudata 1 LUA_FILEHANDLE) (\<lambda>u.
     bnd (stream_f u) (\<lambda>f.
     thn (checknargs 1)
    (case f of
       None \<Rightarrow> raise (Undefined ''fileno of a null stream'')
     | Some h \<Rightarrow> bnd (sys (c_fileno h)) (\<lambda>r. pushresult E r None))))"

definition stdio_fclose :: "env \<Rightarrow> (nat \<Rightarrow> ('w, cint) sys) \<Rightarrow> ('w, nat) lm" where
  "stdio_fclose E c_fclose =
     bnd (luaL_checkudata 1 LUA_FILEHANDLE) (\<lambda>p.
     bnd (stream_f p) (\<lambda>f. case f of
       None \<Rightarrow> ret 0
     | Some h \<Rightarrow>
         bnd (sys (c_fclose h)) (\<lambda>res.
         thn (set_stream_f p None)
             (luaL_fileresult E (res = 0) None))))"

definition pushfile :: "(cint \<Rightarrow> string \<Rightarrow> ('w, nat option) sys) \<Rightarrow> cint \<Rightarrow> string \<Rightarrow> ('w, bool) lm" where
  "pushfile c_fdopen fd mode =
     bnd (lua_newuserdata (UStream None)) (\<lambda>p.
     thn (lua_setmetatable LUA_FILEHANDLE)
    (bnd (sys (c_fdopen fd mode)) (\<lambda>f.
     thn (set_stream_f p f)
         (ret (f \<noteq> None)))))"

definition Pfdopen :: "env \<Rightarrow> (cint \<Rightarrow> string \<Rightarrow> ('w, nat option) sys) \<Rightarrow> ('w, nat) lm" where
  "Pfdopen E c_fdopen =
     bnd (checkint E 1) (\<lambda>fd.
     bnd (luaL_checkstring E 2) (\<lambda>mode.
     thn (checknargs 2)
    (bnd (pushfile c_fdopen fd mode) (\<lambda>ok.
     if \<not> ok then pusherror E (Some ''fdopen'') else ret 1))))"

definition Prename :: "env \<Rightarrow> (string \<Rightarrow> string \<Rightarrow> ('w, cint) sys) \<Rightarrow> ('w, nat) lm" where
  "Prename E c_rename =
     bnd (luaL_checkstring E 1) (\<lambda>oldpath.
     bnd (luaL_checkstring E 2) (\<lambda>newpath.
     thn (checknargs 2)
    (bnd (sys (c_rename oldpath newpath)) (\<lambda>r. pushresult E r None))))"

section \<open>Wrappers and rejected calls\<close>

definition args_rename :: "env \<Rightarrow> 'w lst \<Rightarrow> lvalue list \<Rightarrow> err + (string \<times> string)" where
  "args_rename E s args =
     sbind (arg_str E s 1 args) (\<lambda>p. sbind (arg_str E s 2 args) (\<lambda>q.
     sbind (at_most 2 args) (\<lambda>_. Inr (p, q))))"

interpretation rename: sys_wrapper "Prename E c" "args_rename E" "\<lambda>(p, q). c p q" E "\<lambda>_. None" for E c
  by unfold_locales
    (simp add: Prename_def args_rename_def wrapper_simps split: option.splits prod.splits)

lemma quiet_stream:
  "quiet (luaL_checkudata i t)" "quiet (stream_f u)"
  by (auto simp: quiet_def same_os_def luaL_checkudata_def stream_f_def run_simps
      split: option.splits lvalue.splits ucell.splits if_splits)

lemma settled_stream: "settled (set_stream_f u f)" "settled (luaL_fileresult E ok q)"
  by (auto simp: settled_def set_stream_f_def luaL_fileresult_run pushboolresult_def run_simps)

lemma settled_pushfile: "settled (pushfile c fd m)"
  unfolding pushfile_def by (rule settled_rules settled_stream)+

lemma clean_pushfile: "clean (bnd (pushfile c fd m) (\<lambda>ok. if \<not> ok then pusherror E q else ret 1))"
  by (rule clean_settled) (rule settled_rules settled_pushfile)+

lemma clean_stdio:
  "clean (Pctermid c1)" "clean (Pfileno E c2)" "clean (stdio_fclose E c2)" "clean (Pfdopen E c3)"
  "clean (Prename E c4)"
  unfolding Pctermid_def Pfileno_def stdio_fclose_def Pfdopen_def Prename_def
  by (rule clean_pushfile clean_rules quiet_stream settled_stream)+

section \<open>A stream is closed once\<close>

lemma Pfdopen_run:
  assumes "arg_int E 1 args = Inr fd" "arg_str E s 2 args = Inr mode" "length args = 2"
    and "c fd mode (errno s) (world s) = (f, e, w)"
  shows "\<exists>s'. call_c (Pfdopen E c) args s =
      Ok (if f = None then error_values E (Some ''fdopen'') e else [LUdata (nud s)]) s' \<and>
    udat s' (nud s) = UStream f \<and> umeta s' (nud s) = Some LUA_FILEHANDLE \<and> world s' = w \<and> errno s' = e"
proof -
  obtain n y where n: "val_int E (at 1 args) = Some n" "fd = to_cint n"
    and y: "val_str E (at 2 args) = Some y" "mode = cstr y"
    using assms(1,2) by (auto simp: accepted)
  show ?thesis using n y assms(3,4)
    by (simp add: Pfdopen_def call_c_def run_simps sys_def pushfile_def put_at_same_type
        lua_setmetatable_def set_stream_f_def)
qed

lemma stdio_fclose_run:
  assumes "umeta s u = Some LUA_FILEHANDLE" "udat s u = UStream (Some h)"
    and "c h (errno s) (world s) = (r, e, w)"
  shows "call_c (stdio_fclose E c) [LUdata u] s =
    Ok (if r = 0 then [LBool True] else error_values E None e)
       (s\<lparr>errno := e, world := w, udat := (udat s)(u := UStream None)\<rparr>)"
  using assms
  by (simp add: stdio_fclose_def call_c_def luaL_checkudata_def stream_f_def set_stream_f_def run_simps
      sys_def luaL_fileresult_run pushboolresult_def at_one)

lemma stdio_fclose_closed:
  assumes "umeta s u = Some LUA_FILEHANDLE" "udat s u = UStream None"
  shows "call_c (stdio_fclose E c) [LUdata u] s = Ok [] s"
  using assms
  by (simp add: stdio_fclose_def call_c_def luaL_checkudata_def stream_f_def run_simps at_one stk_self)

text \<open>Closing a file object any number of times.\<close>

fun close_times :: "nat \<Rightarrow> env \<Rightarrow> (nat \<Rightarrow> ('w, cint) sys) \<Rightarrow> nat \<Rightarrow> 'w lst \<Rightarrow> ('w, lvalue list list) out" where
  "close_times 0 E c u s = Ok [] s"
| "close_times (Suc n) E c u s = (case call_c (stdio_fclose E c) [LUdata u] s of
      Err e s' \<Rightarrow> Err e s'
    | Ok vs s' \<Rightarrow> (case close_times n E c u s' of Err e s'' \<Rightarrow> Err e s'' | Ok vss s'' \<Rightarrow> Ok (vs # vss) s''))"

lemma close_times_closed:
  "umeta s u = Some LUA_FILEHANDLE \<Longrightarrow> udat s u = UStream None \<Longrightarrow>
   close_times n E c u s = Ok (replicate n []) s"
  by (induction n) (simp_all add: stdio_fclose_closed)

text \<open>
  Property C22: a file object made by \<open>fdopen\<close> calls \<open>fclose\<close> exactly once, the first time it is
  closed, and reports the result of that call; closing it again does nothing.  An \<open>fdopen\<close> that
  fails leaves a file object that never calls \<open>fclose\<close>.
\<close>

theorem fdopen_closed_once:
  assumes "arg_int E 1 args = Inr fd" "arg_str E s 2 args = Inr mode" "length args = 2"
    and "c_fdopen fd mode (errno s) (world s) = (f, e, w)"
    and "\<And>h. f = Some h \<Longrightarrow> c_fclose h e w = (r, e1, w1)"
  shows "\<exists>vs s1 s2. call_c (Pfdopen E c_fdopen) args s = Ok vs s1 \<and>
    (case f of
       None \<Rightarrow> vs = error_values E (Some ''fdopen'') e \<and>
         close_times n E c_fclose (nud s) s1 = Ok (replicate n []) s1
     | Some h \<Rightarrow> vs = [LUdata (nud s)] \<and>
         close_times (Suc n) E c_fclose (nud s) s1 =
           Ok ((if r = 0 then [LBool True] else error_values E None e1) # replicate n []) s2 \<and>
         world s2 = w1)"
proof -
  obtain s1 where s1: "call_c (Pfdopen E c_fdopen) args s =
      Ok (if f = None then error_values E (Some ''fdopen'') e else [LUdata (nud s)]) s1"
    "udat s1 (nud s) = UStream f" "umeta s1 (nud s) = Some LUA_FILEHANDLE" "world s1 = w" "errno s1 = e"
    using Pfdopen_run [where c = c_fdopen, OF assms(1-4)] by blast
  show ?thesis
  proof (cases f)
    case None
    with s1 show ?thesis by (auto simp: close_times_closed)
  next
    case (Some h)
    let ?s2 = "s1\<lparr>errno := e1, world := w1, udat := (udat s1)(nud s := UStream None)\<rparr>"
    have "call_c (stdio_fclose E c_fclose) [LUdata (nud s)] s1 =
        Ok (if r = 0 then [LBool True] else error_values E None e1) ?s2"
      by (rule stdio_fclose_run) (use s1 Some assms(5) in auto)
    then have "close_times (Suc n) E c_fclose (nud s) s1 =
        Ok ((if r = 0 then [LBool True] else error_values E None e1) # replicate n []) ?s2"
      using close_times_closed [of ?s2 "nud s" n E c_fclose] s1(3) by simp
    with s1 Some show ?thesis by (intro exI [of _ "[LUdata (nud s)]"] exI [of _ s1] exI [of _ ?s2]) simp
  qed
qed

theorem fdopen_closed_once_witness:
  "\<exists>vs s1 s2. call_c (Pfdopen sample_env (\<lambda>fd m e w. (Some 4, e, w))) [LInt 1, LStr ''w''] (sample_state []) =
      Ok vs s1 \<and> vs = [LUdata 0] \<and>
    close_times 3 sample_env (\<lambda>h e w. (0, e, w @ [h])) 0 s1 = Ok [[LBool True], [], []] s2 \<and> world s2 = [4]"
proof -
  have acc: "arg_int sample_env 1 [LInt 1, LStr ''w''] = Inr 1"
      "arg_str sample_env (sample_state []) 2 [LInt 1, LStr ''w''] = Inr ''w''"
    by (simp_all add: arg_defs at_simps cstr_def NUL_def to_cint_def)
  show ?thesis
    using fdopen_closed_once [OF acc, of "\<lambda>fd m e w. (Some 4, e, w)" "Some 4" 0 "[]"
        "\<lambda>h e w. (0, e, w @ [h])" 0 0 "[4]" 2]
    by (simp add: numeral_3_eq_3 numeral_2_eq_2 sample_state_def)
qed

subsection \<open>File objects of Lua 5.1\<close>

text \<open>
  In Lua 5.1 \<open>io.close\<close> finds the function that closes a file object under \<open>__close\<close> in the
  environment of its userdata, which \<open>pushfile\<close> sets up there.
\<close>

definition pushfile51 ::
  "env51 \<Rightarrow> (cint \<Rightarrow> string \<Rightarrow> ('w, nat option) sys) \<Rightarrow> cint \<Rightarrow> string \<Rightarrow> ('w, env51 \<times> bool) lm" where
  "pushfile51 X c_fdopen fd mode =
     bnd (lua_newuserdata (UStream None)) (\<lambda>p.
     thn (lua_setmetatable LUA_FILEHANDLE)
    (thn lua_newtable
    (thn (lua_push (LCFun ''stdio_fclose'' []))
    (thn (lua_setfield (-2) ''__close'')
    (bnd (lua_setfenv X (-2)) (\<lambda>X'.
     bnd (sys (c_fdopen fd mode)) (\<lambda>f.
     thn (set_stream_f p f)
         (ret (X', f \<noteq> None)))))))))"

text \<open>The same file object as \<open>pushfile\<close> makes, with an environment of its own that closes it.\<close>

lemma pushfile51_run:
  assumes "c_fdopen fd mode (errno s) (world s) = (f, e, w)"
  shows "\<exists>t t'. pushfile51 X c_fdopen fd mode s =
      Ok (X\<lparr>fenv := (fenv X)(nud s := ntab s)\<rparr>, f \<noteq> None) t \<and>
    tbl_get (tabs t (ntab s)) (LStr ''__close'') = LCFun ''stdio_fclose'' [] \<and>
    pushfile c_fdopen fd mode s = Ok (f \<noteq> None) t' \<and>
    stk t = stk t' \<and> udat t = udat t' \<and> umeta t = umeta t' \<and> errno t = errno t' \<and> world t = world t' \<and>
    (\<forall>a. a \<noteq> ntab s \<longrightarrow> tabs t a = tabs t' a)"
  using assms
  by (simp add: pushfile51_def pushfile_def run_simps lua_setmetatable_def lua_setfield_def lua_setfenv_def
      set_stream_f_def sys_def at_def slot_def nth_append type_of_def tab_update_def set_tab_def
      butlast_append new_table_def)

text \<open>\<open>fileno\<close> does not look whether the file object has been closed.\<close>

lemma fileno_after_close:
  assumes "umeta s u = Some LUA_FILEHANDLE" "udat s u = UStream (Some h)" "c_fclose h (errno s) (world s) = (r, e, w)"
  shows "\<exists>vs t. call_c (stdio_fclose E c_fclose) [LUdata u] s = Ok vs t \<and>
    call_c (Pfileno E c_fileno) [LUdata u] t = Err (Undefined ''fileno of a null stream'') t"
proof -
  let ?t = "s\<lparr>errno := e, world := w, udat := (udat s)(u := UStream None)\<rparr>"
  have "call_c (stdio_fclose E c_fclose) [LUdata u] s = Ok (if r = 0 then [LBool True] else error_values E None e) ?t"
    by (rule stdio_fclose_run) (use assms in auto)
  moreover have "call_c (Pfileno E c_fileno) [LUdata u] ?t = Err (Undefined ''fileno of a null stream'') ?t"
    using assms(1) by (simp add: call_c_def Pfileno_def run_simps luaL_checkudata_def stream_f_def at_one)
  ultimately show ?thesis by blast
qed

section \<open>Opening the module\<close>

definition posix_stdio_fns :: "entry list" where
  "posix_stdio_fns = [
    Item ''Pctermid'', Item ''Pfileno'', Item ''Pfdopen'', Item ''Prename'']"

definition posix_stdio_consts :: "entry list" where
  "posix_stdio_consts = [
    Item ''_IOFBF'', Item ''_IOLBF'', Item ''_IONBF'', Item ''BUFSIZ'', Item ''EOF'',
    Item ''FOPEN_MAX'', Item ''FILENAME_MAX'']"

definition luaopen_posix_stdio :: "host \<Rightarrow> ('w, nat) lm" where
  "luaopen_posix_stdio H = open_module H ''stdio'' posix_stdio_fns posix_stdio_consts"

lemma stdio_names: "names_ok posix_stdio_fns posix_stdio_consts"
  by code_simp

end
