(* ===== verification/Pwd.thy ===== *)
theory Pwd
  imports Records Modules
begin

text \<open>
  \<^verbatim>\<open>ext/posix/pwd.c\<close>: the password database.  The lookups clear \<open>errno\<close> first, so that a null
  result with \<open>errno\<close> 0 is "no such user" (one \<open>nil\<close>) and any other \<open>errno\<close> an error triple.
\<close>

record passwd =
  pw_uid :: cint
  pw_gid :: cint
  pw_name :: "string option"
  pw_dir :: "string option"
  pw_shell :: "string option"
  pw_passwd :: "string option"

definition passwd_members :: "passwd \<Rightarrow> rfield list" where
  "passwd_members p = [
     IntF ''pw_uid'' (of_cuint (pw_uid p)), IntF ''pw_gid'' (of_cuint (pw_gid p)),
     StrF ''pw_name'' (pw_name p), StrF ''pw_dir'' (pw_dir p), StrF ''pw_shell'' (pw_shell p),
     StrF ''pw_passwd'' (pw_passwd p)]"

definition pushpasswd :: "passwd option \<Rightarrow> ('w, nat) lm" where
  "pushpasswd p = (case p of
      None \<Rightarrow> thn lua_pushnil (ret 1)
    | Some q \<Rightarrow> make_record ''PosixPasswd'' (passwd_members q))"

definition Pendpwent :: "('w, unit) sys \<Rightarrow> ('w, nat) lm" where
  "Pendpwent c_endpwent = thn (checknargs 0) (thn (sys c_endpwent) (ret 0))"

definition Pgetpwent :: "('w, passwd option) sys \<Rightarrow> ('w, unit) sys \<Rightarrow> ('w, nat) lm" where
  "Pgetpwent c_getpwent c_endpwent =
     thn (checknargs 0)
    (bnd (sys c_getpwent) (\<lambda>p.
     bnd (asks errno) (\<lambda>e.
     thn (when_do (p = None \<and> e = 0) (sys c_endpwent))
         (pushpasswd p))))"

definition Pgetpwnam :: "env \<Rightarrow> (string \<Rightarrow> ('w, passwd option) sys) \<Rightarrow> ('w, nat) lm" where
  "Pgetpwnam E c_getpwnam =
     bnd (luaL_checkstring E 1) (\<lambda>name.
     thn (checknargs 1)
    (thn (set_errno 0)
    (bnd (sys (c_getpwnam name)) (\<lambda>p.
     bnd (asks errno) (\<lambda>e.
     if p = None \<and> e \<noteq> 0 then pusherror E (Some ''getpwnam'') else pushpasswd p)))))"

definition Pgetpwuid :: "env \<Rightarrow> (cint \<Rightarrow> ('w, passwd option) sys) \<Rightarrow> ('w, nat) lm" where
  "Pgetpwuid E c_getpwuid =
     bnd (checkinteger E 1) (\<lambda>uid.
     thn (checknargs 1)
    (thn (set_errno 0)
    (bnd (sys (c_getpwuid (to_cint uid))) (\<lambda>p.
     bnd (asks errno) (\<lambda>e.
     if p = None \<and> e \<noteq> 0 then pusherror E (Some ''getpwuid'') else pushpasswd p)))))"

definition Psetpwent :: "('w, unit) sys \<Rightarrow> ('w, nat) lm" where
  "Psetpwent c_setpwent = thn (checknargs 0) (thn (sys c_setpwent) (ret 0))"

section \<open>Behaviour\<close>

interpretation passwd: record_push "\<lambda>p. pushpasswd (Some p)" "''PosixPasswd''" passwd_members
  by unfold_locales (simp_all add: pushpasswd_def passwd_members_def)

lemma settled_pushpasswd: "settled (pushpasswd p)"
  by (cases p) (simp_all add: pushpasswd_def settled_thn settled_prims settled_make_record)

lemma clean_pwd:
  "clean (Pendpwent c0)" "clean (Pgetpwent c1 c0)" "clean (Pgetpwnam E c2)" "clean (Pgetpwuid E c3)"
  "clean (Psetpwent c0)"
  unfolding Pendpwent_def Pgetpwent_def Pgetpwnam_def Pgetpwuid_def Psetpwent_def
  by (rule clean_rules settled_pushpasswd)+

text \<open>What a lookup reports, from the entry found and the final \<open>errno\<close>.\<close>

definition lookup_result ::
  "env \<Rightarrow> string \<Rightarrow> passwd option \<Rightarrow> 'w lst \<Rightarrow> ('w, lvalue list) out" where
  "lookup_result E info p s = (case p of
      Some q \<Rightarrow> Ok [LTab (ntab s)] (add_record ''PosixPasswd'' (passwd.flds q) s)
    | None \<Rightarrow> Ok (if errno s = 0 then [LNil] else error_values E (Some info) (errno s)) s)"

lemma Pgetpwnam_run:
  "args_path E s args = Inr name \<Longrightarrow> c name 0 (world s) = (p, e, w) \<Longrightarrow>
   call_c (Pgetpwnam E c) args s =
     lookup_result E ''getpwnam'' p (s\<lparr>errno := e, world := w\<rparr>)"
  by (auto simp: Pgetpwnam_def args_path_def accepted call_c_def run_simps sys_def lookup_result_def
      passwd.push_run put_at_same_type error_values_def pushpasswd_def [of None] split: option.splits)

lemma Pgetpwuid_run:
  "arg_integer E 1 args = Inr uid \<Longrightarrow> length args = 1 \<Longrightarrow>
   c (to_cint uid) 0 (world s) = (p, e, w) \<Longrightarrow>
   call_c (Pgetpwuid E c) args s =
     lookup_result E ''getpwuid'' p (s\<lparr>errno := e, world := w\<rparr>)"
  by (auto simp: Pgetpwuid_def accepted call_c_def run_simps sys_def lookup_result_def
      passwd.push_run error_values_def pushpasswd_def [of None] split: option.splits)

section \<open>Opening the module\<close>

definition posix_pwd_fns :: "entry list" where
  "posix_pwd_fns = [
    Item ''Pendpwent'', Item ''Pgetpwent'', Item ''Pgetpwnam'', Item ''Pgetpwuid'',
    Item ''Psetpwent'']"

definition luaopen_posix_pwd :: "host \<Rightarrow> ('w, nat) lm" where
  "luaopen_posix_pwd H = open_module H ''pwd'' posix_pwd_fns []"

lemma pwd_names: "names_ok posix_pwd_fns []"
  by code_simp

end
