(* ===== verification/LuaDeprecated.thy ===== *)
theory LuaDeprecated
  imports LuaInit LuaTimers Time Syslog SysResource SysStatvfs SysTimes SysUtsname SysTime SysSocket UnistdProc Stdio Grp Pwd Ctype Fnmatch
begin

text \<open>
  \<^verbatim>\<open>lib/posix/deprecated.lua\<close>: the interfaces of old releases over the bindings of this one.  Times
  have fields of other names and origins, structures may be asked for single fields, options are
  strings.  The package \<open>std._debug\<close> is not installed, so the variants that check arguments are not
  defined.
\<close>

section \<open>Tables\<close>

text \<open>A constructor with named fields, and \<open>{...}\<close>; an entry that is nil is not there.\<close>

definition fields_table :: "(string \<times> lvalue) list \<Rightarrow> ltable" where
  "fields_table kvs = named (filter (\<lambda>(k, v). v \<noteq> LNil) kvs)"

definition packed :: "lvalue list \<Rightarrow> ltable" where
  "packed vs = filter (\<lambda>(k, v). v \<noteq> LNil) (sequence vs)"

definition unpack :: "env \<Rightarrow> ltable \<Rightarrow> lvalue list" where
  "unpack E t = map (\<lambda>i. tbl_get t (LInt (of_nat i))) [1..<Suc (tlen E t)]"

definition get_index :: "lua_texts \<Rightarrow> lvalue \<Rightarrow> lvalue \<Rightarrow> ('w, lvalue) lm" where
  "get_index T v k = (case v of
      LTab a \<Rightarrow> asks (\<lambda>s. tbl_get (tabs s a) k)
    | _ \<Rightarrow> lua_error T (bad_operand T ''index'' v) 1)"

definition tab_of :: "'w lst \<Rightarrow> lvalue \<Rightarrow> ltable" where
  "tab_of s v = (case v of LTab a \<Rightarrow> tabs s a | _ \<Rightarrow> [])"

text \<open>The values of several fields, in order.\<close>

fun get_fields :: "lua_texts \<Rightarrow> lvalue \<Rightarrow> string list \<Rightarrow> ('w, lvalue list) lm" where
  "get_fields T v [] = ret []"
| "get_fields T v (k # ks) = bnd (get_field T v k) (\<lambda>x. bnd (get_fields T v ks) (\<lambda>xs. ret (x # xs)))"

section \<open>Errors\<close>

definition argtypeerror_lua ::
  "lua_texts \<Rightarrow> string \<Rightarrow> int \<Rightarrow> string \<Rightarrow> lvalue \<Rightarrow> int \<Rightarrow> ('w, 'a) lm" where
  "argtypeerror_lua T name i expect actual level =
     argerror T name i (Some (expect @ '' expected, got '' @
       (if actual = LNil then ''no value'' else lua_typename (type_of (Some actual))))) (level + 1)"

definition badoption_lua :: "lua_texts \<Rightarrow> string \<Rightarrow> int \<Rightarrow> string \<Rightarrow> string \<Rightarrow> int \<Rightarrow> ('w, 'a) lm" where
  "badoption_lua T name i sort_of option level =
     argerror T name i (Some (''invalid '' @ sort_of @ '' option '' @ [CHR 0x27] @ option @ [CHR 0x27])) (level + 1)"

definition optstring ::
  "lua_texts \<Rightarrow> string \<Rightarrow> int \<Rightarrow> lvalue \<Rightarrow> string \<Rightarrow> int \<Rightarrow> ('w, string) lm" where
  "optstring T name i actual dflt level = (case actual of
      LStr x \<Rightarrow> ret x
    | LNil \<Rightarrow> ret dflt
    | _ \<Rightarrow> argtypeerror_lua T name i ''nil or string'' actual (level + 1))"

section \<open>Broken-down times\<close>

text \<open>\<open>v + n\<close>\<close>

definition plus_number :: "env \<Rightarrow> lua_texts \<Rightarrow> lvalue \<Rightarrow> lint \<Rightarrow> ('w, lvalue) lm" where
  "plus_number E T v n = bnd (minus_operand E T v) (\<lambda>m. ret (LInt (m + n)))"

definition PosixTm :: "env \<Rightarrow> lua_texts \<Rightarrow> lvalue \<Rightarrow> ('w, lvalue) lm" where
  "PosixTm E T legacytm =
     bnd (get_field T legacytm ''sec'') (\<lambda>sec.
     bnd (get_field T legacytm ''min'') (\<lambda>min.
     bnd (get_field T legacytm ''hour'') (\<lambda>hour.
     bnd (get_field T legacytm ''monthday'') (\<lambda>monthday.
     bnd (get_field T legacytm ''day'') (\<lambda>day.
     bnd (get_field T legacytm ''month'') (\<lambda>month.
     bnd (plus_number E T month (-1)) (\<lambda>mon.
     bnd (get_field T legacytm ''year'') (\<lambda>year.
     bnd (plus_number E T year (-1900)) (\<lambda>year.
     bnd (get_field T legacytm ''weekday'') (\<lambda>wday.
     bnd (get_field T legacytm ''yearday'') (\<lambda>yday.
     bnd (get_field T legacytm ''is_dst'') (\<lambda>is_dst.
     bnd (get_field T legacytm ''gmtoff'') (\<lambda>gmtoff.
     bnd (get_field T legacytm ''zone'') (\<lambda>zone.
     make_table (fields_table [
       (''tm_sec'', sec), (''tm_min'', min), (''tm_hour'', hour),
       (''tm_mday'', either monthday day), (''tm_mon'', mon), (''tm_year'', year),
       (''tm_wday'', wday), (''tm_yday'', yday),
       (''tm_isdst'', LInt (if truthy is_dst then 1 else if is_dst \<noteq> LNil then 0 else -1)),
       (''tm_gmtoff'', gmtoff), (''tm_zone'', zone)])))))))))))))))"

definition LegacyTm :: "env \<Rightarrow> lua_texts \<Rightarrow> lvalue \<Rightarrow> ('w, lvalue) lm" where
  "LegacyTm E T posixtm =
     bnd (get_field T posixtm ''tm_sec'') (\<lambda>sec.
     bnd (get_field T posixtm ''tm_min'') (\<lambda>min.
     bnd (get_field T posixtm ''tm_hour'') (\<lambda>hour.
     bnd (get_field T posixtm ''tm_mday'') (\<lambda>mday.
     bnd (get_field T posixtm ''tm_mon'') (\<lambda>mon.
     bnd (plus_number E T mon 1) (\<lambda>month.
     bnd (get_field T posixtm ''tm_year'') (\<lambda>year.
     bnd (plus_number E T year 1900) (\<lambda>year.
     bnd (get_field T posixtm ''tm_wday'') (\<lambda>wday.
     bnd (get_field T posixtm ''tm_yday'') (\<lambda>yday.
     bnd (get_field T posixtm ''tm_isdst'') (\<lambda>isdst.
     bnd (minus_operand E T isdst) (\<lambda>isdst.
     bnd (get_field T posixtm ''tm_gmtoff'') (\<lambda>gmtoff.
     bnd (get_field T posixtm ''tm_zone'') (\<lambda>zone.
     make_table (fields_table [
       (''sec'', sec), (''min'', min), (''hour'', hour), (''monthday'', mday), (''day'', mday),
       (''month'', month), (''year'', year), (''weekday'', wday), (''yearday'', yday),
       (''is_dst'', if 0 <s isdst then LBool True else if isdst <s 0 then LNil else LBool False),
       (''gmtoff'', gmtoff), (''zone'', zone)])))))))))))))))"

record 'w timeapi =
  os_time :: "('w, lint) sys"
  os_localtime :: "lint \<Rightarrow> ('w, tm option) sys"
  os_gmtime :: "lint \<Rightarrow> ('w, tm option) sys"

text \<open>\<open>epoch or time ()\<close>: one value; \<open>localtime (time ())\<close>: all that \<open>time\<close> returns.\<close>

definition epoch_or_now :: "env \<Rightarrow> 'w timeapi \<Rightarrow> lvalue \<Rightarrow> ('w, lvalue) lm" where
  "epoch_or_now E P epoch =
     (if truthy epoch then ret epoch
      else bnd (call_c (Ptime E (os_time P)) []) (\<lambda>r. ret (argn 1 r)))"

definition old_gmtime :: "env \<Rightarrow> lua_texts \<Rightarrow> bool \<Rightarrow> bool \<Rightarrow> 'w timeapi \<Rightarrow> 'w luafn" where
  "old_gmtime E T G Z P args =
     bnd (epoch_or_now E P (argn 1 args)) (\<lambda>epoch.
     bnd (call_c (Pgmtime E G Z (os_gmtime P)) [epoch]) (\<lambda>r.
     bnd (LegacyTm E T (argn 1 r)) (\<lambda>t. ret [t])))"

definition old_localtime :: "env \<Rightarrow> lua_texts \<Rightarrow> bool \<Rightarrow> bool \<Rightarrow> 'w timeapi \<Rightarrow> 'w luafn" where
  "old_localtime E T G Z P args =
     bnd (epoch_or_now E P (argn 1 args)) (\<lambda>epoch.
     bnd (call_c (Plocaltime E G Z (os_localtime P)) [epoch]) (\<lambda>r.
     bnd (LegacyTm E T (argn 1 r)) (\<lambda>t. ret [t])))"

text \<open>\<open>legacytm and PosixTm (legacytm) or localtime (time ())\<close>, as an argument or a local\<close>

definition posixtm_or_now ::
  "env \<Rightarrow> lua_texts \<Rightarrow> bool \<Rightarrow> bool \<Rightarrow> 'w timeapi \<Rightarrow> lvalue \<Rightarrow> ('w, lvalue) lm" where
  "posixtm_or_now E T G Z P legacytm =
     (if truthy legacytm then PosixTm E T legacytm
      else
        bnd (call_c (Ptime E (os_time P)) []) (\<lambda>now.
        bnd (call_c (Plocaltime E G Z (os_localtime P)) now) (\<lambda>r. ret (argn 1 r))))"

definition old_mktime ::
  "env \<Rightarrow> lua_texts \<Rightarrow> bool \<Rightarrow> bool \<Rightarrow> 'w timeapi \<Rightarrow> (tm \<Rightarrow> ('w, lint) sys) \<Rightarrow> 'w luafn" where
  "old_mktime E T G Z P c_mktime args =
     bnd (posixtm_or_now E T G Z P (argn 1 args)) (\<lambda>posixtm.
     call_c (Pmktime E G Z c_mktime) [posixtm])"

definition old_strftime ::
  "env \<Rightarrow> lua_texts \<Rightarrow> bool \<Rightarrow> bool \<Rightarrow> 'w timeapi \<Rightarrow>
   (nat \<Rightarrow> string \<Rightarrow> tm \<Rightarrow> ('w, string option) sys) \<Rightarrow> 'w luafn" where
  "old_strftime E T G Z P c_strftime args =
     bnd (posixtm_or_now E T G Z P (argn 2 args)) (\<lambda>posixtm.
     call_c (Pstrftime E G Z c_strftime) [argn 1 args, posixtm])"

definition old_strptime ::
  "env \<Rightarrow> lua_texts \<Rightarrow> bool \<Rightarrow> bool \<Rightarrow>
   (string \<Rightarrow> string \<Rightarrow> tm \<Rightarrow> ('w, (nat \<times> tm) option) sys) \<Rightarrow> 'w luafn" where
  "old_strptime E T G Z c_strptime args =
     bnd (call_c (Pstrptime E G Z c_strptime) [argn 1 args, argn 2 args]) (\<lambda>r.
     bnd (LegacyTm E T (argn 1 r)) (\<lambda>t. ret [t, argn 2 r]))"

section \<open>Clocks and sleeping\<close>

text \<open>The clock a name stands for; every other value is the real-time clock.\<close>

record clock_ids =
  CLOCK_MONOTONIC :: lint
  CLOCK_PROCESS_CPUTIME_ID :: lint
  CLOCK_THREAD_CPUTIME_ID :: lint
  CLOCK_REALTIME :: lint

definition get_clk_id_const :: "clock_ids \<Rightarrow> lvalue \<Rightarrow> lint" where
  "get_clk_id_const K name =
     (if name = LStr ''monotonic'' then CLOCK_MONOTONIC K
      else if name = LStr ''process_cputime_id'' then CLOCK_PROCESS_CPUTIME_ID K
      else if name = LStr ''thread_cputime_id'' then CLOCK_THREAD_CPUTIME_ID K
      else CLOCK_REALTIME K)"

definition old_clock_getres ::
  "env \<Rightarrow> lua_texts \<Rightarrow> clock_ids \<Rightarrow> (cint \<Rightarrow> ('w, cint \<times> timespec) sys) \<Rightarrow> 'w luafn" where
  "old_clock_getres E T K c_clock_getres args =
     bnd (call_c (Pclock_getres E c_clock_getres) [LInt (get_clk_id_const K (argn 1 args))]) (\<lambda>r.
     get_fields T (argn 1 r) [''tv_sec'', ''tv_nsec''])"

definition old_clock_gettime ::
  "env \<Rightarrow> lua_texts \<Rightarrow> clock_ids \<Rightarrow> (cint \<Rightarrow> ('w, cint \<times> timespec) sys) \<Rightarrow> 'w luafn" where
  "old_clock_gettime E T K c_clock_gettime args =
     bnd (call_c (Pclock_gettime E c_clock_gettime) [LInt (get_clk_id_const K (argn 1 args))]) (\<lambda>r.
     get_fields T (argn 1 r) [''tv_sec'', ''tv_nsec''])"

definition old_gettimeofday ::
  "env \<Rightarrow> lua_texts \<Rightarrow> ('w, cint \<times> timeval) sys \<Rightarrow> 'w luafn" where
  "old_gettimeofday E T c_gettimeofday args =
     bnd (call_c (Pgettimeofday E c_gettimeofday) args) (\<lambda>r.
     bnd (get_field T (argn 1 r) ''tv_sec'') (\<lambda>sec.
     bnd (get_field T (argn 1 r) ''tv_usec'') (\<lambda>usec.
     bnd (make_table (fields_table [(''sec'', sec), (''usec'', usec)])) (\<lambda>t. ret [t]))))"

definition old_nanosleep ::
  "env \<Rightarrow> lua_texts \<Rightarrow> cint \<Rightarrow> (timespec \<Rightarrow> ('w, cint \<times> timespec) sys) \<Rightarrow> 'w luafn" where
  "old_nanosleep E T EINTR c_nanosleep args =
     bnd (make_table (fields_table [(''tv_sec'', argn 1 args), (''tv_nsec'', argn 2 args)])) (\<lambda>req.
     bnd (call_c (Pnanosleep E EINTR c_nanosleep) [req]) (\<lambda>r.
     if argn 1 r = LInt 0 then ret [LInt 0]
     else
       bnd (get_fields T (argn 4 r) [''tv_sec'', ''tv_nsec'']) (\<lambda>rest.
       ret ([argn 1 r, argn 2 r, argn 3 r] @ rest))))"

section \<open>Selections\<close>

text \<open>The values of the options \<open>opts[i]\<close>, \<open>opts[i + 1]\<close>, \dots, \<open>k\<close> of them.\<close>

fun select_from ::
  "env \<Rightarrow> lua_texts \<Rightarrow> string \<Rightarrow> nat \<Rightarrow> lvalue \<Rightarrow> lvalue \<Rightarrow> nat \<Rightarrow> nat \<Rightarrow> ('w, lvalue list) lm" where
  "select_from E T name argoffset opts m i 0 = ret []"
| "select_from E T name argoffset opts m i (Suc k) =
     bnd (get_index T opts (LInt (of_nat i))) (\<lambda>v.
     bnd (get_index T m v) (\<lambda>x.
     if truthy x then
       bnd (select_from E T name argoffset opts m (Suc i) k) (\<lambda>xs. ret (x # xs))
     else
       bnd (str_operand E T v) (\<lambda>t.
       argerror T name (int (i + argoffset))
         (Some (''invalid option '' @ [CHR 0x27] @ t @ [CHR 0x27])) 2)))"

text \<open>
  \<open>fields\<close> and \<open>m\<close> are tables.  A single table in the place of the options holds the options.
  \<open>next\<close> returns the first key, nil for the empty table.
\<close>

definition doselection ::
  "env \<Rightarrow> lua_texts \<Rightarrow> string \<Rightarrow> nat \<Rightarrow> lvalue list \<Rightarrow> (string \<times> lvalue) list \<Rightarrow> ('w, lvalue list) lm" where
  "doselection E T name argoffset args kvs =
     bnd (make_table (packed args)) (\<lambda>fields.
     bnd (make_table (fields_table kvs)) (\<lambda>m.
     bnd (asks (\<lambda>s. tlen E (tab_of s fields))) (\<lambda>n.
     bnd (get_index T fields (LInt 1)) (\<lambda>first.
     let fields = (if n = 1 \<and> type_of (Some first) = TTABLE then first else fields) in
     bnd (asks (\<lambda>s. tab_of s fields)) (\<lambda>t.
     if (case t of [] \<Rightarrow> False | (k, _) # _ \<Rightarrow> truthy k)
     then select_from E T name argoffset fields m 1 (tlen E t)
     else ret [m])))))"

record 'w pwapi =
  pw_geteuid :: "('w, cint) sys"
  pw_getpwuid :: "cint \<Rightarrow> ('w, passwd option) sys"
  pw_getpwnam :: "string \<Rightarrow> ('w, passwd option) sys"

definition old_getpasswd :: "env \<Rightarrow> lua_texts \<Rightarrow> 'w pwapi \<Rightarrow> 'w luafn" where
  "old_getpasswd E T P args =
     bnd (if truthy (argn 1 args) then ret (argn 1 args)
          else bnd (call_c (Pgeteuid (pw_geteuid P)) []) (\<lambda>r. ret (argn 1 r))) (\<lambda>user.
     bnd (if type_of (Some user) = TNUMBER then
            bnd (call_c (Pgetpwuid E (pw_getpwuid P)) [user]) (\<lambda>r. ret (argn 1 r))
          else if type_of (Some user) = TSTRING then
            bnd (call_c (Pgetpwnam E (pw_getpwnam P)) [user]) (\<lambda>r. ret (argn 1 r))
          else ret LNil) (\<lambda>p.
     if p \<noteq> LNil then
       bnd (get_fields T p [''pw_dir'', ''pw_gid'', ''pw_name'', ''pw_passwd'', ''pw_shell'', ''pw_uid''])
         (\<lambda>vs. doselection E T ''getpasswd'' 1 (drop 1 args)
           (zip [''dir'', ''gid'', ''name'', ''passwd'', ''shell'', ''uid''] vs))
     else ret []))"

record 'w grapi =
  gr_getegid :: "('w, cint) sys"
  gr_getgrgid :: "cint \<Rightarrow> ('w, grp option) sys"
  gr_getgrnam :: "string \<Rightarrow> ('w, grp option) sys"

definition old_getgroup :: "env \<Rightarrow> lua_texts \<Rightarrow> 'w grapi \<Rightarrow> 'w luafn" where
  "old_getgroup E T P args =
     bnd (if truthy (argn 1 args) then ret (argn 1 args)
          else bnd (call_c (Pgetegid (gr_getegid P)) []) (\<lambda>r. ret (argn 1 r))) (\<lambda>grp.
     bnd (if type_of (Some grp) = TNUMBER then
            bnd (call_c (Pgetgrgid E (gr_getgrgid P)) [grp]) (\<lambda>r. ret (argn 1 r))
          else if type_of (Some grp) = TSTRING then
            bnd (call_c (Pgetgrnam E (gr_getgrnam P)) [grp]) (\<lambda>r. ret (argn 1 r))
          else ret LNil) (\<lambda>g.
     if g \<noteq> LNil then
       bnd (get_fields T g [''gr_name'', ''gr_gid'', ''gr_mem'']) (\<lambda>vs.
       bnd (make_table (fields_table (zip [''name'', ''gid'', ''mem''] vs))) (\<lambda>t. ret [t]))
     else ret []))"

record 'w pidapi =
  pid_getegid :: "('w, cint) sys"
  pid_geteuid :: "('w, cint) sys"
  pid_getgid :: "('w, cint) sys"
  pid_getuid :: "('w, cint) sys"
  pid_getpgrp :: "('w, cint) sys"
  pid_getpid :: "('w, cint) sys"
  pid_getppid :: "('w, cint) sys"

definition old_getpid :: "env \<Rightarrow> lua_texts \<Rightarrow> 'w pidapi \<Rightarrow> 'w luafn" where
  "old_getpid E T P args =
     bnd (call_c (Pgetegid (pid_getegid P)) []) (\<lambda>egid.
     bnd (call_c (Pgeteuid (pid_geteuid P)) []) (\<lambda>euid.
     bnd (call_c (Pgetgid (pid_getgid P)) []) (\<lambda>gid.
     bnd (call_c (Pgetuid (pid_getuid P)) []) (\<lambda>uid.
     bnd (call_c (Pgetpgrp (pid_getpgrp P)) []) (\<lambda>pgrp.
     bnd (call_c (Pgetpid (pid_getpid P)) []) (\<lambda>pid.
     bnd (call_c (Pgetppid (pid_getppid P)) []) (\<lambda>ppid.
     doselection E T ''getpid'' 0 args [
       (''egid'', argn 1 egid), (''euid'', argn 1 euid), (''gid'', argn 1 gid), (''uid'', argn 1 uid),
       (''pgrp'', argn 1 pgrp), (''pid'', argn 1 pid), (''ppid'', argn 1 ppid)])))))))"

text \<open>
  The keys of \<open>pathconf\<close> and \<open>sysconf\<close> with the constants of \<^verbatim>\<open>unistd.c\<close>, whose values \<open>K\<close> gives.  The
  order in which \<open>next\<close> visits \<open>Spathconf\<close> is that of the constructor.
\<close>

definition pathconf_names :: "string list" where
  "pathconf_names = [''CHOWN_RESTRICTED'', ''LINK_MAX'', ''MAX_CANON'', ''MAX_INPUT'', ''NAME_MAX'',
     ''NO_TRUNC'', ''PATH_MAX'', ''PIPE_BUF'', ''VDISABLE'']"

definition Spathconf :: "(string \<Rightarrow> lint) \<Rightarrow> (string \<times> lint) list" where
  "Spathconf K = map (\<lambda>k. (k, K (''_PC_'' @ k))) pathconf_names"

definition sysconf_names :: "string list" where
  "sysconf_names = [''ARG_MAX'', ''CHILD_MAX'', ''CLK_TCK'', ''JOB_CONTROL'', ''NGROUPS_MAX'', ''OPEN_MAX'',
     ''PAGESIZE'', ''SAVED_IDS'', ''STREAM_MAX'', ''TZNAME_MAX'', ''VERSION'']"

fun get_all :: "(lint \<Rightarrow> ('w, lvalue list) lm) \<Rightarrow> (string \<times> lint) list \<Rightarrow> ('w, (string \<times> lvalue) list) lm" where
  "get_all f [] = ret []"
| "get_all f ((k, v) # kvs) =
     bnd (f v) (\<lambda>r. bnd (get_all f kvs) (\<lambda>xs. ret ((k, argn 1 r) # xs)))"

text \<open>
  When the first argument is a key, \<open>argt\<close> is made to hold it, but the selection is from the
  arguments behind it.
\<close>

definition old_pathconf ::
  "env \<Rightarrow> lua_texts \<Rightarrow> (string \<Rightarrow> lint) \<Rightarrow> (string \<Rightarrow> cint \<Rightarrow> ('w, lint) sys) \<Rightarrow> 'w luafn" where
  "old_pathconf E T K c_pathconf args =
     (let path = (case argn 1 args of
             LStr p \<Rightarrow> if p \<in> set pathconf_names then LStr ''.'' else LStr p
           | v \<Rightarrow> v);
          path = (if truthy path then path else LStr ''.'')
      in bnd (get_all (\<lambda>v. call_c (Ppathconf E c_pathconf) [path, LInt v]) (Spathconf K))
           (doselection E T ''pathconf'' 1 (drop 1 args)))"

definition old_sysconf ::
  "env \<Rightarrow> lua_texts \<Rightarrow> (string \<Rightarrow> lint) \<Rightarrow> (cint \<Rightarrow> ('w, lint) sys) \<Rightarrow> 'w luafn" where
  "old_sysconf E T K c_sysconf args =
     bnd (get_all (\<lambda>v. call_c (Psysconf E c_sysconf) [LInt v])
            (map (\<lambda>k. (k, K (''_SC_'' @ k))) sysconf_names))
       (doselection E T ''sysconf'' 0 args)"

record type_tests =
  is_reg :: "cint \<Rightarrow> cint"
  is_lnk :: "cint \<Rightarrow> cint"
  is_dir :: "cint \<Rightarrow> cint"
  is_chr :: "cint \<Rightarrow> cint"
  is_blk :: "cint \<Rightarrow> cint"
  is_fifo :: "cint \<Rightarrow> cint"
  is_sock :: "cint \<Rightarrow> cint"

text \<open>The name that goes with the first test that does not return 0.\<close>

fun first_type :: "(('w, nat) lm \<times> string) list \<Rightarrow> lvalue \<Rightarrow> ('w, string) lm" where
  "first_type [] mode = ret ''?''"
| "first_type ((test, name) # ts) mode =
     bnd (call_c test [mode]) (\<lambda>r. if argn 1 r \<noteq> LInt 0 then ret name else first_type ts mode)"

definition filetype :: "env \<Rightarrow> type_tests \<Rightarrow> lvalue \<Rightarrow> ('w, string) lm" where
  "filetype E Y = first_type [
     (PS_ISREG E (is_reg Y), ''regular''), (PS_ISLNK E (is_lnk Y), ''link''),
     (PS_ISDIR E (is_dir Y), ''directory''), (PS_ISCHR E (is_chr Y), ''character device''),
     (PS_ISBLK E (is_blk Y), ''block device''), (PS_ISFIFO E (is_fifo Y), ''fifo''),
     (PS_ISSOCK E (is_sock Y), ''socket'')]"

definition old_stat ::
  "env \<Rightarrow> lua_texts \<Rightarrow> mode_bits \<Rightarrow> type_tests \<Rightarrow> (string \<Rightarrow> ('w, cint \<times> stat_buf) sys) \<Rightarrow> 'w luafn" where
  "old_stat E T B Y c_lstat args =
     bnd (call_c (Plstat E c_lstat) [argn 1 args]) (\<lambda>r.
     let info = argn 1 r in
     if info \<noteq> LNil then
       bnd (get_field T info ''st_mode'') (\<lambda>st_mode.
       bnd (int_operand E T st_mode) (\<lambda>bits.
       bnd (get_fields T info [''st_dev'', ''st_ino'']) (\<lambda>front.
       bnd (get_fields T info [''st_nlink'', ''st_uid'', ''st_gid'', ''st_size'', ''st_atime'', ''st_mtime'',
              ''st_ctime'']) (\<lambda>back.
       bnd (filetype E Y st_mode) (\<lambda>ty.
       doselection E T ''stat'' 1 (drop 1 args)
         (zip [''dev'', ''ino'', ''mode'', ''nlink'', ''uid'', ''gid'', ''size'', ''atime'', ''mtime'', ''ctime'', ''type'']
              (front @ LStr (pushmode B bits) # back @ [LStr ty])))))))
     else ret [])"

definition old_statvfs ::
  "env \<Rightarrow> lua_texts \<Rightarrow> (string \<Rightarrow> ('w, cint \<times> statvfs) sys) \<Rightarrow> 'w luafn" where
  "old_statvfs E T c_statvfs args =
     bnd (call_c (Pstatvfs E c_statvfs) [argn 1 args]) (\<lambda>r.
     let info = argn 1 r; names = [''bsize'', ''frsize'', ''blocks'', ''bfree'', ''bavail'', ''files'', ''ffree'',
       ''favail'', ''fsid'', ''flag'', ''namemax''] in
     if info \<noteq> LNil then
       bnd (get_fields T info (map (\<lambda>k. ''f_'' @ k) names)) (\<lambda>vs.
       doselection E T ''statvfs'' 1 (drop 1 args) (zip names vs))
     else ret [])"

definition old_times ::
  "env \<Rightarrow> lua_texts \<Rightarrow> ('w, lint \<times> tms) sys \<Rightarrow> ('w, lint) sys \<Rightarrow> 'w luafn" where
  "old_times E T c_times c_sysconf_clk_tck args =
     bnd (call_c (Ptimes E c_times c_sysconf_clk_tck) []) (\<lambda>r.
     bnd (get_fields T (argn 1 r) [''tms_utime'', ''tms_stime'', ''tms_cutime'', ''tms_cstime'', ''elapsed'']) (\<lambda>vs.
     doselection E T ''times'' 0 args (zip [''utime'', ''stime'', ''cutime'', ''cstime'', ''elapsed''] vs)))"

section \<open>Programs and files\<close>

text \<open>The argument behind the path is a table, or it is the first of the arguments.\<close>

definition list_argument :: "lvalue list \<Rightarrow> ('w, lvalue) lm" where
  "list_argument args =
     (if type_of (Some (argn 1 args)) = TTABLE then ret (argn 1 args) else make_table (packed args))"

definition old_exec ::
  "env \<Rightarrow> (string \<Rightarrow> string option list \<Rightarrow> ('w, bool) sys) \<Rightarrow> 'w luafn" where
  "old_exec E c_execv args =
     bnd (list_argument (drop 1 args)) (\<lambda>argt. call_c (Pexec E c_execv) [argn 1 args, argt])"

definition old_execp ::
  "env \<Rightarrow> (string \<Rightarrow> string option list \<Rightarrow> ('w, bool) sys) \<Rightarrow> 'w luafn" where
  "old_execp E c_execvp args =
     bnd (list_argument (drop 1 args)) (\<lambda>argt. call_c (Pexecp E c_execvp) [argn 1 args, argt])"

definition old_fadvise ::
  "env \<Rightarrow> (nat \<Rightarrow> ('w, cint) sys) \<Rightarrow> (cint \<Rightarrow> lint \<Rightarrow> lint \<Rightarrow> cint \<Rightarrow> ('w, cint) sys) \<Rightarrow> 'w luafn" where
  "old_fadvise E c_fileno c_posix_fadvise args =
     bnd (call_c (Pfileno E c_fileno) [argn 1 args]) (\<lambda>r.
     call_c (Pposix_fadvise E c_posix_fadvise) (argn 1 r # drop 1 args))"

definition old_isgraph :: "env \<Rightarrow> (cint \<Rightarrow> cint) \<Rightarrow> 'w luafn" where
  "old_isgraph E c_isgraph args =
     bnd (call_c (Pisgraph E c_isgraph) args) (\<lambda>r. ret [LBool (argn 1 r \<noteq> LInt 0)])"

definition old_isprint :: "env \<Rightarrow> (cint \<Rightarrow> cint) \<Rightarrow> 'w luafn" where
  "old_isprint E c_isprint args =
     bnd (call_c (Pisprint E c_isprint) args) (\<lambda>r. ret [LBool (argn 1 r \<noteq> LInt 0)])"

definition old_fnmatch ::
  "env \<Rightarrow> lua_texts \<Rightarrow> lint \<Rightarrow> (string \<Rightarrow> string \<Rightarrow> cint \<Rightarrow> ('w, cint) sys) \<Rightarrow> 'w luafn" where
  "old_fnmatch E T FNM_NOMATCH c_fnmatch args =
     bnd (call_c (Pfnmatch E c_fnmatch) args) (\<lambda>r.
     if argn 1 r = LInt 0 then ret [LBool True]
     else if argn 1 r = LInt FNM_NOMATCH then ret [LBool False]
     else lua_error T ''fnmatch failed'' 1)"

text \<open>\<open>rt = {...}\<close>; then true for the result 0 and \<open>unpack (rt)\<close> for any other.\<close>

definition true_for_0 :: "env \<Rightarrow> lvalue list \<Rightarrow> ('w, lvalue list) lm" where
  "true_for_0 E r =
     bnd (make_table (packed r)) (\<lambda>rt.
     ret (if argn 1 r = LInt 0 then [LBool True] else unpack E (packed r)))"

definition old_bind ::
  "env \<Rightarrow> net \<Rightarrow> (cint \<Rightarrow> sockaddr \<Rightarrow> nat \<Rightarrow> ('w, cint) sys) \<Rightarrow> 'w luafn" where
  "old_bind E H c_bind args = bnd (call_c (Pbind E H c_bind) args) (true_for_0 E)"

definition old_connect ::
  "env \<Rightarrow> net \<Rightarrow> (cint \<Rightarrow> sockaddr \<Rightarrow> nat \<Rightarrow> ('w, cint) sys) \<Rightarrow> 'w luafn" where
  "old_connect E H c_connect args = bnd (call_c (Pconnect E H c_connect) args) (true_for_0 E)"

section \<open>Limits, the log, the system\<close>

record rlimit_ids =
  RLIMIT_CORE :: lint
  RLIMIT_CPU :: lint
  RLIMIT_DATA :: lint
  RLIMIT_FSIZE :: lint
  RLIMIT_NOFILE :: lint
  RLIMIT_STACK :: lint
  RLIMIT_AS :: lint

definition RLIMIT_MAP :: "rlimit_ids \<Rightarrow> (string \<times> lint) list" where
  "RLIMIT_MAP K = [(''core'', RLIMIT_CORE K), (''cpu'', RLIMIT_CPU K), (''data'', RLIMIT_DATA K),
     (''fsize'', RLIMIT_FSIZE K), (''nofile'', RLIMIT_NOFILE K), (''stack'', RLIMIT_STACK K), (''as'', RLIMIT_AS K)]"

text \<open>\<open>string.lower\<close> in the \<open>C\<close> locale\<close>

definition lower :: "string \<Rightarrow> string" where
  "lower x = map (\<lambda>c. let n = (of_char c :: nat) in if 65 \<le> n \<and> n \<le> 90 then char_of (n + 32) else c) x"

definition limit_id :: "env \<Rightarrow> lua_texts \<Rightarrow> rlimit_ids \<Rightarrow> string \<Rightarrow> lvalue \<Rightarrow> ('w, lint) lm" where
  "limit_id E T K name rcstr =
     bnd (str_operand E T rcstr) (\<lambda>x.
     case map_of (RLIMIT_MAP K) (lower x) of
       Some rc \<Rightarrow> ret rc
     | None \<Rightarrow> argerror T name 1 (Some (''invalid option '' @ [CHR 0x27] @ x @ [CHR 0x27])) 1)"

definition old_getrlimit ::
  "env \<Rightarrow> lua_texts \<Rightarrow> rlimit_ids \<Rightarrow> (cint \<Rightarrow> ('w, cint \<times> rlimit) sys) \<Rightarrow> 'w luafn" where
  "old_getrlimit E T K c_getrlimit args =
     bnd (limit_id E T K ''getrlimit'' (argn 1 args)) (\<lambda>rc.
     bnd (call_c (Pgetrlimit E c_getrlimit) [LInt rc]) (\<lambda>r.
     get_fields T (argn 1 r) [''rlim_cur'', ''rlim_max'']))"

definition old_setrlimit ::
  "env \<Rightarrow> lua_texts \<Rightarrow> rlimit_ids \<Rightarrow> (cint \<Rightarrow> ('w, cint \<times> rlimit) sys) \<Rightarrow>
   (cint \<Rightarrow> rlimit \<Rightarrow> ('w, cint) sys) \<Rightarrow> 'w luafn" where
  "old_setrlimit E T K c_getrlimit c_setrlimit args =
     (let cur = argn 2 args; max = argn 3 args in
     bnd (limit_id E T K ''setrlimit'' (argn 1 args)) (\<lambda>rc.
     bnd (if cur = LNil \<or> max = LNil then
            bnd (call_c (Pgetrlimit E c_getrlimit) [LInt rc]) (\<lambda>r. ret (argn 1 r))
          else ret LNil) (\<lambda>lim.
     bnd (if truthy cur then ret cur else get_field T lim ''rlim_cur'') (\<lambda>rlim_cur.
     bnd (if truthy max then ret max else get_field T lim ''rlim_max'') (\<lambda>rlim_max.
     bnd (make_table (fields_table [(''rlim_cur'', rlim_cur), (''rlim_max'', rlim_max)])) (\<lambda>t.
     call_c (Psetrlimit E c_setrlimit) [LInt rc, t]))))))"

record log_options =
  LOG_CONS :: lint
  LOG_NDELAY :: lint
  LOG_PID :: lint

definition OPENLOG_MAP :: "log_options \<Rightarrow> (char \<times> lint) list" where
  "OPENLOG_MAP K = [(CHR '' '', 0), (CHR ''c'', LOG_CONS K), (CHR ''n'', LOG_NDELAY K), (CHR ''p'', LOG_PID K)]"

fun log_flags :: "lua_texts \<Rightarrow> log_options \<Rightarrow> string \<Rightarrow> lint \<Rightarrow> ('w, lint) lm" where
  "log_flags T K [] option = ret option"
| "log_flags T K (c # cs) option = (case map_of (OPENLOG_MAP K) c of
      None \<Rightarrow> badoption_lua T ''openlog'' 2 ''openlog'' [c] 1
    | Some b \<Rightarrow> log_flags T K cs (bor option [b]))"

definition old_openlog ::
  "env \<Rightarrow> lua_texts \<Rightarrow> log_options \<Rightarrow> cint \<Rightarrow> (string \<Rightarrow> cint \<Rightarrow> cint \<Rightarrow> ('w, unit) sys) \<Rightarrow> 'w luafn" where
  "old_openlog E T K LOG_USER c_openlog args =
     bnd (if truthy (argn 2 args) then
            (case argn 2 args of
               LStr x \<Rightarrow> log_flags T K x 0
             | v \<Rightarrow> lua_error T (bad_operand T ''get length of'' v) 1)
          else ret 0) (\<lambda>option.
     call_c (Popenlog E LOG_USER c_openlog) [argn 1 args, LInt option, argn 3 args])"

text \<open>
  \<open>gsub (format, '%%(.)', f)\<close>: a per cent sign and the character behind it are replaced by what \<open>f\<close>
  returns.  \<open>gsub\<close> also returns the number of matches.
\<close>

fun percent_gsub :: "(char \<Rightarrow> ('w, string) lm) \<Rightarrow> string \<Rightarrow> ('w, string \<times> nat) lm" where
  "percent_gsub f [] = ret ([], 0)"
| "percent_gsub f [x] = ret ([x], 0)"
| "percent_gsub f (x # y # zs) =
     (if x = CHR ''%'' then
        bnd (f y) (\<lambda>r. bnd (percent_gsub f zs) (\<lambda>(rs, n). ret (r @ rs, Suc n)))
      else bnd (percent_gsub f (y # zs)) (\<lambda>(rs, n). ret (x # rs, n)))"

definition uname_part :: "env \<Rightarrow> lua_texts \<Rightarrow> lvalue \<Rightarrow> char \<Rightarrow> ('w, string) lm" where
  "uname_part E T u c =
     (if c = CHR ''%'' then ret ''%''
      else if c = CHR ''m'' then bnd (get_field T u ''machine'') (str_operand E T)
      else if c = CHR ''n'' then bnd (get_field T u ''nodename'') (str_operand E T)
      else if c = CHR ''r'' then bnd (get_field T u ''release'') (str_operand E T)
      else if c = CHR ''s'' then bnd (get_field T u ''sysname'') (str_operand E T)
      else if c = CHR ''v'' then bnd (get_field T u ''version'') (str_operand E T)
      else badoption_lua T ''uname'' 1 ''format'' [c] 1)"

definition old_uname :: "env \<Rightarrow> lua_texts \<Rightarrow> ('w, cint \<times> utsname) sys \<Rightarrow> 'w luafn" where
  "old_uname E T c_uname args =
     bnd (call_c (Puname E c_uname) []) (\<lambda>r.
     bnd (optstring T ''uname'' 1 (argn 1 args) ''%s %n %r %v %m'' 1) (\<lambda>spec.
     bnd (percent_gsub (uname_part E T (argn 1 r)) spec) (\<lambda>(x, n).
     ret [LStr x, LInt (of_nat n)])))"

section \<open>Broken-down times, there and back\<close>

definition with_table :: "ltable \<Rightarrow> 'w lst \<Rightarrow> 'w lst" where
  "with_table t s =
     s\<lparr>ntab := Suc (ntab s), tabs := (tabs s)(ntab s := t), metas := (metas s)(ntab s := None)\<rparr>"

lemma make_table_with: "make_table t s = Ok (LTab (ntab s)) (with_table t s)"
  by (simp add: make_table_def with_table_def)

lemma with_table_simps [simp]:
  "tabs (with_table t s) = (tabs s)(ntab s := t)" "ntab (with_table t s) = Suc (ntab s)"
  "stk (with_table t s) = stk s" "errno (with_table t s) = errno s" "world (with_table t s) = world s"
  by (simp_all add: with_table_def)

lemma minus_operand_LInt [run_simps]: "minus_operand E T (LInt n) s = Ok n s"
  by (simp add: minus_operand_def run_simps)

definition dst_sign :: "tm \<Rightarrow> cint" where
  "dst_sign t = (if 0 <s tm_isdst t then 1 else if tm_isdst t <s 0 then -1 else 0)"

definition legacy_entries :: "bool \<Rightarrow> bool \<Rightarrow> tm \<Rightarrow> (string \<times> lvalue) list" where
  "legacy_entries G Z t = [
     (''sec'', LInt (of_cint (tm_sec t))), (''min'', LInt (of_cint (tm_min t))),
     (''hour'', LInt (of_cint (tm_hour t))), (''monthday'', LInt (of_cint (tm_mday t))),
     (''day'', LInt (of_cint (tm_mday t))), (''month'', LInt (of_cint (tm_mon t) + 1)),
     (''year'', LInt (of_cint (tm_year t) + 1900)), (''weekday'', LInt (of_cint (tm_wday t))),
     (''yearday'', LInt (of_cint (tm_yday t)))] @
     (if tm_isdst t <s 0 then [] else [(''is_dst'', LBool (0 <s tm_isdst t))]) @
     (if G then [(''gmtoff'', LInt (tm_gmtoff t))] else []) @
     (if Z then str_field ''zone'' (tm_zone t) else [])"

lemma cint_sign: "0 <s of_cint n \<longleftrightarrow> 0 <s n" "of_cint n <s 0 \<longleftrightarrow> n <s 0"
  by (simp_all add: word_sless_alt sint_of_cint)

lemma LegacyTm_run:
  assumes "tabs s a = named (rfields (tm_members G Z t))"
  shows "LegacyTm E T (LTab a) s =
    Ok (LTab (ntab s)) (with_table (named (legacy_entries G Z t)) s)"
proof -
  have get: "tbl_get (tabs s a) (LStr k) = (case map_of (rfields (tm_members G Z t)) k of None \<Rightarrow> LNil | Some v \<Rightarrow> v)"
    for k using assms by (simp add: tbl_get_named)
  show ?thesis
    by (cases G; cases Z; cases "tm_zone t")
      (simp_all add: LegacyTm_def run_simps get tm_members_def plus_number_def make_table_with
        fields_table_def legacy_entries_def cint_sign)
qed

lemma PosixTm_run:
  assumes "tabs s a = named (legacy_entries G Z t)"
  shows "PosixTm E T (LTab a) s =
    Ok (LTab (ntab s)) (with_table (named (rfields (tm_members G Z (t\<lparr>tm_isdst := dst_sign t\<rparr>)))) s)"
proof -
  have get: "tbl_get (tabs s a) (LStr k) = (case map_of (legacy_entries G Z t) k of None \<Rightarrow> LNil | Some v \<Rightarrow> v)"
    for k using assms by (simp add: tbl_get_named)
  have no: "tm_isdst t <s 0 \<Longrightarrow> \<not> 0 <s tm_isdst t" by (simp add: word_sless_alt)
  note evs = PosixTm_def run_simps get legacy_entries_def plus_number_def make_table_with
        fields_table_def tm_members_def dst_sign_def either_def no
  show ?thesis
    by (cases G; cases Z; cases "tm_zone t"; cases "tm_isdst t <s 0"; cases "0 <s tm_isdst t")
      (simp_all add: evs)
qed

text \<open>
  Property C39: a broken-down time of the old interface, given back to the old \<open>mktime\<close>, reaches the C
  library as \<open>localtime\<close> of the C library had filled it in, month and year at their C origins, but
  for \<open>tm_isdst\<close>, of which the sign is kept; the result is that of the C library.
\<close>

theorem legacy_tm_roundtrip:
  assumes "tm_ok G Z t" "os_localtime P epoch (errno s) (world s) = (Some t, e, w)"
    and "old_localtime E T G Z P [LInt epoch] s = Ok vs s'"
  shows "\<exists>v. vs = [v] \<and> old_mktime E T G Z Q c_mktime [v] s' =
      (let u = t\<lparr>tm_isdst := dst_sign t\<rparr> in case c_mktime u e w of (n, e', w') \<Rightarrow>
         Ok (if n <s 0 then [] else [LInt n])
            ((with_table (named (rfields (tm_members G Z u))) s')\<lparr>errno := e', world := w'\<rparr>))"
proof -
  let ?t = "t\<lparr>tm_isdst := dst_sign t\<rparr>"
  let ?s1 = "add_record ''PosixTm'' (tm_copy.flds G Z t) (s\<lparr>errno := e, world := w\<rparr>)"
  let ?s2 = "with_table (named (legacy_entries G Z t)) ?s1"
  let ?s3 = "with_table (named (rfields (tm_members G Z ?t))) ?s2"
  have "LegacyTm E T (LTab (ntab s)) ?s1 = Ok (LTab (ntab ?s1)) ?s2"
    by (rule LegacyTm_run) (simp add: tm_copy.flds_def)
  then have s': "vs = [LTab (ntab ?s1)]" "s' = ?s2"
    using assms(2,3)
    by (simp_all add: old_localtime_def epoch_or_now_def Plocaltime_def call_c_def run_simps at_one sys_def
        tm_copy.push_run)
  have posix: "PosixTm E T (LTab (ntab ?s1)) ?s2 = Ok (LTab (ntab ?s2)) ?s3"
    by (rule PosixTm_run) simp
  have ok: "tm_ok G Z ?t" using assms(1) by (simp add: tm_ok_def)
  have read: "totm E G Z 1 (?s3\<lparr>stk := [LTab (ntab ?s2)]\<rparr>) = Ok ?t (?s3\<lparr>stk := [LTab (ntab ?s2)]\<rparr>)"
    by (rule tm_copy.reads [OF ok, where a = "ntab ?s2"]) (simp_all add: at_one)
  have "call_c (Pmktime E G Z c_mktime) [LTab (ntab ?s2)] ?s3 =
      (case c_mktime ?t e w of (n, e', w') \<Rightarrow>
         Ok (if n <s 0 then [] else [LInt n]) (?s3\<lparr>errno := e', world := w'\<rparr>))"
    using read by (cases "c_mktime ?t e w") (simp add: Pmktime_def call_c_def run_simps sys_def stk_self)
  then show ?thesis
    using posix unfolding s' old_mktime_def posixtm_or_now_def by (simp add: run_simps Let_def)
qed

theorem legacy_tm_roundtrip_witness:
  "let t = nulltm\<lparr>tm_year := 124, tm_mday := 1, tm_mon := 6, tm_isdst := 7, tm_zone := Some ''CET''\<rparr>;
       P = \<lparr>os_time = (\<lambda>e w. (0, e, w)), os_localtime = (\<lambda>_ e w. (Some t, e, w)), os_gmtime = (\<lambda>_ e w. (None, e, w))\<rparr>
   in \<exists>v s' s''. old_localtime sample_env sample_texts True True P [LInt 0] (sample_state []) = Ok [v] s' \<and>
        old_mktime sample_env sample_texts True True P (\<lambda>u e w. (5, e, u # w)) [v] s' = Ok [LInt 5] s'' \<and>
        world s'' = [t\<lparr>tm_isdst := 1\<rparr>]"
proof -
  let ?t = "nulltm\<lparr>tm_year := 124, tm_mday := 1, tm_mon := 6, tm_isdst := 7, tm_zone := Some ''CET''\<rparr>"
  let ?P = "\<lparr>os_time = (\<lambda>e w. (0, e, w)), os_localtime = (\<lambda>_ e w. (Some ?t, e, w)),
    os_gmtime = (\<lambda>_ e w. (None, e, w))\<rparr> :: tm list timeapi"
  let ?s = "sample_state [] :: tm list lst"
  have ok: "tm_ok True True ?t"
    by (simp add: tm_ok_def cstr_def NUL_def to_cint_def of_cint_def nulltm_def)
  have dst: "dst_sign ?t = 1" by (simp add: dst_sign_def word_sless_alt)
  let ?s1 = "add_record ''PosixTm'' (tm_copy.flds True True ?t) ?s"
  have legacy: "LegacyTm sample_env sample_texts (LTab 0) ?s1 =
      Ok (LTab (ntab ?s1)) (with_table (named (legacy_entries True True ?t)) ?s1)"
    by (rule LegacyTm_run) (simp add: tm_copy.flds_def sample_state_def)
  have "\<exists>v s'. old_localtime sample_env sample_texts True True ?P [LInt 0] ?s = Ok [v] s'"
    using legacy
    by (simp add: old_localtime_def epoch_or_now_def Plocaltime_def call_c_def run_simps at_one sys_def
        tm_copy.push_run sample_state_def)
  then obtain v s' where run: "old_localtime sample_env sample_texts True True ?P [LInt 0] ?s = Ok [v] s'" by blast
  have "\<not> (5 :: lint) <s 0" by (simp add: word_sless_alt)
  then show ?thesis
    using legacy_tm_roundtrip [OF ok _ run, where c_mktime = "\<lambda>u e w. (5, e, u # w)" and Q = ?P] run dst
    by (simp add: Let_def sample_state_def)
qed

section \<open>What a selection returns\<close>

lemma get_index_LTab [run_simps]: "get_index T (LTab a) k s = Ok (tbl_get (tabs s a) k) s"
  by (simp add: get_index_def run_simps)

lemma packed_strings: "packed (map LStr names) = sequence (map LStr names)"
proof -
  have "filter (\<lambda>(k, v). v \<noteq> LNil) (array_from n (map LStr names)) = array_from n (map LStr names)" for n
    by (induction names arbitrary: n) simp_all
  then show ?thesis by (simp add: packed_def)
qed

text \<open>The error for an option that is not a key, and what a list of options selects.\<close>

definition invalid_option :: "lua_texts \<Rightarrow> string \<Rightarrow> nat \<Rightarrow> string \<Rightarrow> err" where
  "invalid_option T name i option = LuaError (LStr (where_at T 3 @ ''bad argument #'' @ int_str (of_nat i) @
     '' to '' @ [CHR 0x27] @ name @ [CHR 0x27] @ '' ('' @ ''invalid option '' @ [CHR 0x27] @ option @ [CHR 0x27] @ '')''))"

fun selected :: "lua_texts \<Rightarrow> string \<Rightarrow> nat \<Rightarrow> ltable \<Rightarrow> string list \<Rightarrow> err + lvalue list" where
  "selected T name i t [] = Inr []"
| "selected T name i t (x # xs) =
     (if truthy (tbl_get t (LStr x)) then sbind (selected T name (Suc i) t xs) (\<lambda>vs. Inr (tbl_get t (LStr x) # vs))
      else Inl (invalid_option T name i x))"

lemma select_from_run:
  assumes "tabs s f = sequence (map LStr (pre @ xs))" "length (pre @ xs) < 2 ^ 62"
  shows "select_from E T name off (LTab f) (LTab m) (Suc (length pre)) (length xs) s =
    (case selected T name (Suc (length pre) + off) (tabs s m) xs of Inl e \<Rightarrow> Err e s | Inr vs \<Rightarrow> Ok vs s)"
  using assms
proof (induction xs arbitrary: pre)
  case Nil
  then show ?case by (simp add: run_simps)
next
  case (Cons x xs)
  have get: "tbl_get (tabs s f) (LInt (of_nat (Suc (length pre)))) = LStr x"
    using Cons.prems sequence_get [of "map LStr (pre @ x # xs)" "length pre"] by (simp add: nth_append)
  have IH: "select_from E T name off (LTab f) (LTab m) (Suc (Suc (length pre))) (length xs) s =
    (case selected T name (Suc (Suc (length pre)) + off) (tabs s m) xs of Inl e \<Rightarrow> Err e s | Inr vs \<Rightarrow> Ok vs s)"
    using Cons.IH [of "pre @ [x]"] Cons.prems by simp
  show ?case
    by (simp add: run_simps get IH str_operand_def argerror_def invalid_option_def del: of_nat_Suc
        split: sum.splits)
qed

text \<open>A sequence has one border only, its length.\<close>

definition border :: "env \<Rightarrow> bool" where
  "border E \<longleftrightarrow> (\<forall>vs. LNil \<notin> set vs \<longrightarrow> tlen E (sequence vs) = length vs)"

text \<open>Options are given as arguments or as the sequence in a single argument.\<close>

definition options_given :: "'w lst \<Rightarrow> string list \<Rightarrow> lvalue list \<Rightarrow> bool" where
  "options_given s names args \<longleftrightarrow> args = map LStr names \<or>
     (\<exists>b<ntab s. args = [LTab b] \<and> tabs s b = sequence (map LStr names))"

definition selection_state :: "lvalue list \<Rightarrow> (string \<times> lvalue) list \<Rightarrow> 'w lst \<Rightarrow> 'w lst" where
  "selection_state args kvs s = with_table (fields_table kvs) (with_table (packed args) s)"

lemma selection_state_simps [simp]:
  "tabs (selection_state args kvs s) = (tabs s)(ntab s := packed args, Suc (ntab s) := fields_table kvs)"
  "world (selection_state args kvs s) = world s" "errno (selection_state args kvs s) = errno s"
  by (simp_all add: selection_state_def)

lemma borderD: "border E \<Longrightarrow> LNil \<notin> set vs \<Longrightarrow> tlen E (sequence vs) = length vs"
  by (simp add: border_def)

lemma sequence_head: "sequence (x # xs) = (LInt 1, x) # array_from 2 xs"
  by (simp add: numeral_2_eq_2)

lemma sequence_first: "tbl_get (sequence (x # xs)) (LInt 1) = x"
  by (simp add: sequence_head tbl_get_def)

lemma type_of_simps [simp]:
  "type_of (Some LNil) \<noteq> TTABLE" "type_of (Some (LStr x)) \<noteq> TTABLE" "type_of (Some (LTab b)) = TTABLE"
  by (simp_all add: type_of_def)

lemma doselection_start:
  "doselection E T name off args kvs s =
    (let s' = selection_state args kvs s; t = packed args; first = tbl_get t (LInt 1);
         opts = (if tlen E t = 1 \<and> type_of (Some first) = TTABLE then first else LTab (ntab s));
         t = tab_of s' opts
     in if (case t of [] \<Rightarrow> False | (k, _) # _ \<Rightarrow> truthy k)
        then select_from E T name off opts (LTab (Suc (ntab s))) 1 (tlen E t) s'
        else Ok [LTab (Suc (ntab s))] s')"
  by (simp add: doselection_def run_simps make_table_with selection_state_def tab_of_def Let_def)

lemma doselection_run:
  assumes "border E" "length names < 2 ^ 62" "options_given s names args"
  shows "doselection E T name off args kvs s =
    (if names = [] then Ok [LTab (Suc (ntab s))] (selection_state args kvs s)
     else case selected T name (Suc off) (fields_table kvs) names of
         Inl e \<Rightarrow> Err e (selection_state args kvs s)
       | Inr vs \<Rightarrow> Ok vs (selection_state args kvs s))"
proof -
  let ?s = "selection_state args kvs s" and ?t = "sequence (map LStr names)"
  have len: "tlen E ?t = length names"
    using borderD [OF assms(1), of "map LStr names"] by auto
  have ex: "\<exists>f. (let t = packed args; first = tbl_get t (LInt 1)
      in if tlen E t = 1 \<and> type_of (Some first) = TTABLE then first else LTab (ntab s)) = LTab f \<and> tabs ?s f = ?t"
    using assms(3) unfolding options_given_def
  proof (elim disjE exE conjE)
    assume args: "args = map LStr names"
    have "type_of (Some (tbl_get ?t (LInt 1))) \<noteq> TTABLE"
      by (cases names) (simp_all add: sequence_first [unfolded One_nat_def] del: array_from_simps(2))
    with args show ?thesis by (simp add: packed_strings)
  next
    fix b assume b: "b < ntab s" "args = [LTab b]" "tabs s b = ?t"
    have "packed args = sequence [LTab b]" by (simp add: packed_def b)
    moreover have "tlen E (sequence [LTab b]) = 1" using borderD [OF assms(1), of "[LTab b]"] by simp
    ultimately show ?thesis using b by (simp add: sequence_first [unfolded One_nat_def] del: array_from_simps)
  qed
  then obtain f where f: "(let t = packed args; first = tbl_get t (LInt 1)
      in if tlen E t = 1 \<and> type_of (Some first) = TTABLE then first else LTab (ntab s)) = LTab f" "tabs ?s f = ?t"
    by blast
  have start: "doselection E T name off args kvs s =
    (if names = [] then Ok [LTab (Suc (ntab s))] ?s
     else select_from E T name off (LTab f) (LTab (Suc (ntab s))) 1 (length names) ?s)"
    using f len by (cases names) (simp_all add: doselection_start Let_def tab_of_def)
  have "select_from E T name off (LTab f) (LTab (Suc (ntab s))) (Suc (length ([] :: string list))) (length names) ?s =
    (case selected T name (Suc (length ([] :: string list)) + off) (tabs ?s (Suc (ntab s))) names of
       Inl e \<Rightarrow> Err e ?s | Inr vs \<Rightarrow> Ok vs ?s)"
    using assms(2) f(2) by (intro select_from_run) simp_all
  then show ?thesis using start by simp
qed

lemma selected_eq:
  "selected T name i t names =
    (let ok = (\<lambda>x. truthy (tbl_get t (LStr x))); j = length (takeWhile ok names)
     in if j = length names then Inr (map (\<lambda>x. tbl_get t (LStr x)) names)
        else Inl (invalid_option T name (i + j) (names ! j)))"
  by (induction names arbitrary: i) (simp_all add: Let_def)

text \<open>Calls that return the ids \<open>v\<close> and change nothing.\<close>

definition id_names :: "string list" where
  "id_names = [''egid'', ''euid'', ''gid'', ''uid'', ''pgrp'', ''pid'', ''ppid'']"

definition answers :: "'w pidapi \<Rightarrow> (string \<Rightarrow> cint) \<Rightarrow> bool" where
  "answers P v \<longleftrightarrow>
     pid_getegid P = (\<lambda>e w. (v ''egid'', e, w)) \<and> pid_geteuid P = (\<lambda>e w. (v ''euid'', e, w)) \<and>
     pid_getgid P = (\<lambda>e w. (v ''gid'', e, w)) \<and> pid_getuid P = (\<lambda>e w. (v ''uid'', e, w)) \<and>
     pid_getpgrp P = (\<lambda>e w. (v ''pgrp'', e, w)) \<and> pid_getpid P = (\<lambda>e w. (v ''pid'', e, w)) \<and>
     pid_getppid P = (\<lambda>e w. (v ''ppid'', e, w))"

definition id_value :: "(string \<Rightarrow> cint) \<Rightarrow> string \<Rightarrow> lvalue" where
  "id_value v k = LInt (if k \<in> {''pgrp'', ''pid'', ''ppid''} then of_cint (v k) else of_cuint (v k))"

lemma pid_runs:
  assumes "answers P v"
  shows "call_c (Pgetegid (pid_getegid P)) [] s = Ok [id_value v ''egid''] s"
    "call_c (Pgeteuid (pid_geteuid P)) [] s = Ok [id_value v ''euid''] s"
    "call_c (Pgetgid (pid_getgid P)) [] s = Ok [id_value v ''gid''] s"
    "call_c (Pgetuid (pid_getuid P)) [] s = Ok [id_value v ''uid''] s"
    "call_c (Pgetpgrp (pid_getpgrp P)) [] s = Ok [id_value v ''pgrp''] s"
    "call_c (Pgetpid (pid_getpid P)) [] s = Ok [id_value v ''pid''] s"
    "call_c (Pgetppid (pid_getppid P)) [] s = Ok [id_value v ''ppid''] s"
  using assms
  by (simp_all add: answers_def id_value_def Pgetegid_def Pgeteuid_def Pgetgid_def Pgetuid_def Pgetpgrp_def
      Pgetpid_def Pgetppid_def call_c_def run_simps sys_def checknargs_run pushintegerresult_run)

lemma id_fields: "fields_table (map (\<lambda>k. (k, id_value v k)) id_names) = named (map (\<lambda>k. (k, id_value v k)) id_names)"
  by (simp add: fields_table_def id_names_def id_value_def)

lemma id_lookup: "tbl_get (named (map (\<lambda>k. (k, id_value v k)) id_names)) (LStr k) =
    (if k \<in> set id_names then id_value v k else LNil)"
  by (simp add: tbl_get_named id_names_def)

text \<open>
  Property C40: \<open>getpid\<close> with any list of option names, given as arguments or in one table, returns exactly the ids
  they name, in their order; the first name that is none of the seven raises an error with its
  position; without a name the result is a table of all seven.
\<close>

theorem getpid_selects:
  assumes "answers P v" "border E" "length names < 2 ^ 62" "options_given s names args"
  shows "\<exists>s'. tabs s' (Suc (ntab s)) = named (map (\<lambda>k. (k, id_value v k)) id_names) \<and> world s' = world s \<and>
    old_getpid E T P args s =
      (if names = [] then Ok [LTab (Suc (ntab s))] s'
       else if set names \<subseteq> set id_names then Ok (map (id_value v) names) s'
       else let j = length (takeWhile (\<lambda>k. k \<in> set id_names) names)
            in Err (invalid_option T ''getpid'' (Suc j) (names ! j)) s')"
proof -
  let ?kvs = "map (\<lambda>k. (k, id_value v k)) id_names"
  have ok: "truthy (tbl_get (named ?kvs) (LStr k)) \<longleftrightarrow> k \<in> set id_names" for k
    unfolding id_lookup by (simp add: id_value_def)
  have all: "length (takeWhile (\<lambda>k. k \<in> set id_names) names) = length names \<longleftrightarrow> set names \<subseteq> set id_names"
    by (metis (mono_tags, lifting) subset_code(1) takeWhile_eq_all_conv takeWhile_eq_take take_all_iff le_refl)
  have map: "set names \<subseteq> set id_names \<Longrightarrow>
      map (\<lambda>x. tbl_get (named ?kvs) (LStr x)) names = map (id_value v) names"
    by (simp add: id_lookup subset_iff)
  have run: "old_getpid E T P args s = doselection E T ''getpid'' 0 args ?kvs s"
    by (simp add: old_getpid_def run_simps pid_runs [OF assms(1)] id_names_def)
  show ?thesis
    by (rule exI [of _ "selection_state args ?kvs s"])
      (simp add: run doselection_run [OF assms(2-4)] selected_eq ok all map id_fields Let_def)
qed

lemma sample_border: "border sample_env"
  by (simp add: border_def array_from_def)

definition sample_pids :: "unit pidapi" where
  "sample_pids = \<lparr>pid_getegid = (\<lambda>e w. (0, e, w)), pid_geteuid = (\<lambda>e w. (0, e, w)),
     pid_getgid = (\<lambda>e w. (0, e, w)), pid_getuid = (\<lambda>e w. (1000, e, w)),
     pid_getpgrp = (\<lambda>e w. (0, e, w)), pid_getpid = (\<lambda>e w. (4711, e, w)), pid_getppid = (\<lambda>e w. (0, e, w))\<rparr>"

theorem getpid_selects_witness:
  "(\<exists>s'. old_getpid sample_env sample_texts sample_pids [LStr ''pid'', LStr ''uid''] (sample_state ()) =
      Ok [LInt (of_cint 4711), LInt (of_cuint 1000)] s') \<and>
   (\<exists>s'. old_getpid sample_env sample_texts sample_pids [LStr ''pid'', LStr ''tid''] (sample_state ()) =
      Err (invalid_option sample_texts ''getpid'' (Suc 1) ''tid'') s')"
proof -
  let ?v = "(\<lambda>_. 0)(''uid'' := 1000, ''pid'' := 4711) :: string \<Rightarrow> cint"
  have P: "answers sample_pids ?v" by (simp add: answers_def sample_pids_def)
  have given: "options_given (sample_state ()) names (map LStr names)" for names
    by (simp add: options_given_def)
  have len: "length [a, b] < 2 ^ 62" for a b :: string by simp
  show ?thesis
    using getpid_selects [OF P sample_border len given, of sample_texts "''pid''" "''uid''"]
      getpid_selects [OF P sample_border len given, of sample_texts "''pid''" "''tid''"]
    by (auto simp: id_names_def id_value_def)
qed

section \<open>What the adapters lose\<close>

text \<open>\<open>nanosleep\<close> looks for the time left even when the call failed for another reason than a signal.\<close>

lemma old_nanosleep_raises:
  assumes "float_text E" "c \<lparr>timespec.tv_sec = a, tv_nsec = b\<rparr> (errno s) (world s) = ((-1, rest), e, w)" "e \<noteq> EINTR"
  shows "\<exists>s'. old_nanosleep E T EINTR c [LInt a, LInt b] s =
    Err (LuaError (LStr (where_at T 1 @ bad_operand T ''index'' LNil))) s'"
proof -
  let ?t = "named [(''tv_sec'', LInt a), (''tv_nsec'', LInt b)]"
  let ?s = "with_table ?t s"
  have wf: "wf_table ?t" by (simp add: wf_table_def)
  have req: "timespec_of E 1 ?t = Inr \<lparr>timespec.tv_sec = a, tv_nsec = b\<rparr>"
  proof -
    let ?u = "?s\<lparr>stk := [LTab (ntab s)]\<rparr>" and ?r = "\<lparr>timespec.tv_sec = a, tv_nsec = b\<rparr>"
    have tab: "tabs ?u (ntab s) = named (rfields (timespec_members ?r))" by (simp add: timespec_members_def)
    have "totimespec E 1 ?u = Ok ?r ?u"
      by (rule timespec_copy.reads [OF TrueI _ _ tab]) (simp_all add: at_one)
    moreover have "totimespec E 1 ?u = ofsum (timespec_of E 1 ?t) ?u"
      using totimespec_run [OF assms(1), of 1 ?u "ntab s"] wf by (simp add: at_one)
    ultimately show ?thesis by (simp add: ofsum_def split: sum.splits)
  qed
  have "call_c (Pnanosleep E EINTR c) [LTab (ntab s)] ?s =
      Ok (error_values E (Some ''nanosleep'') e) (?s\<lparr>errno := e, world := w\<rparr>)"
    using nanosleep_reports_rest [where s = ?s and a = "ntab s" and c = c and EINTR = EINTR, OF assms(1)] wf req assms(2,3)
    by (simp add: Let_def)
  then show ?thesis
    by (simp add: old_nanosleep_def run_simps fields_table_def make_table_with error_values_def get_field_def argn_def)
qed

text \<open>\<open>pathconf\<close> with a key in the place of the path: the key is forgotten and all values are returned.\<close>

lemma old_pathconf_forgets_key:
  assumes "border E" "key \<in> set pathconf_names"
  shows "old_pathconf E T K c [LStr key] = old_pathconf E T K c [LStr ''.'']"
  using assms by (auto simp: old_pathconf_def pathconf_names_def)

text \<open>A date that \<open>strptime\<close> refuses raises an error where nil is documented.\<close>

lemma old_strptime_raises:
  assumes "c (cstr x) (cstr fmt) nulltm (errno s) (world s) = (None, e, w)"
  shows "\<exists>s'. old_strptime E T G Z c [LStr x, LStr fmt] s =
    Err (LuaError (LStr (where_at T 1 @ bad_operand T ''index'' LNil))) s'"
proof -
  have "call_c (Pstrptime E G Z c) [LStr x, LStr fmt] s = Ok [] (s\<lparr>errno := e, world := w\<rparr>)"
    using assms by (simp add: Pstrptime_def call_c_def run_simps sys_def at_simps put_at_def slot_def)
  then show ?thesis
    by (simp add: old_strptime_def run_simps LegacyTm_def get_field_def)
qed

end
