(* ===== verification/SysWait.thy ===== *)
theory SysWait
  imports Records Modules
begin

text \<open>
  \<^verbatim>\<open>ext/posix/sys/wait.c\<close>: waiting for a child and classifying its status.  The status macros
  of \<^verbatim>\<open>sys/wait.h\<close> are the fields of \<open>wait_macros\<close>.
\<close>

record wait_macros =
  WIFEXITED :: "cint \<Rightarrow> bool"
  WEXITSTATUS :: "cint \<Rightarrow> cint"
  WIFSIGNALED :: "cint \<Rightarrow> bool"
  WTERMSIG :: "cint \<Rightarrow> cint"
  WIFSTOPPED :: "cint \<Rightarrow> bool"
  WSTOPSIG :: "cint \<Rightarrow> cint"

definition Pwait ::
  "env \<Rightarrow> wait_macros \<Rightarrow> (cint \<Rightarrow> cint \<Rightarrow> ('w, cint \<times> cint) sys) \<Rightarrow> ('w, nat) lm" where
  "Pwait E M c_waitpid =
     bnd (optinteger E 1 (-1)) (\<lambda>p.
     bnd (optint E 2 0) (\<lambda>options.
     thn (checknargs 2)
    (bnd (sys (c_waitpid (to_cint p) options)) (\<lambda>r.
     let pid = fst r; status = snd r in
     if pid = -1 then pusherror E None
     else thn (lua_pushinteger (of_cint pid))
      (if pid = 0 then thn (lua_pushstring ''running'') (ret 2)
       else if WIFEXITED M status then
         seqn [lua_pushstring ''exited'', lua_pushinteger (of_cint (WEXITSTATUS M status))] 3
       else if WIFSIGNALED M status then
         seqn [lua_pushstring ''killed'', lua_pushinteger (of_cint (WTERMSIG M status))] 3
       else if WIFSTOPPED M status then
         seqn [lua_pushstring ''stopped'', lua_pushinteger (of_cint (WSTOPSIG M status))] 3
       else ret 1)))))"

section \<open>Behaviour\<close>

text \<open>What became of a child, and how Lua is told.\<close>

datatype fate = Running | Exited cint | Killed cint | Stopped cint | Unknown

definition fate_of :: "wait_macros \<Rightarrow> cint \<Rightarrow> cint \<Rightarrow> fate" where
  "fate_of M pid status =
     (if pid = 0 then Running
      else if WIFEXITED M status then Exited (WEXITSTATUS M status)
      else if WIFSIGNALED M status then Killed (WTERMSIG M status)
      else if WIFSTOPPED M status then Stopped (WSTOPSIG M status)
      else Unknown)"

fun fate_values :: "fate \<Rightarrow> lvalue list" where
  "fate_values Running = [LStr ''running'']"
| "fate_values (Exited c) = [LStr ''exited'', LInt (of_cint c)]"
| "fate_values (Killed c) = [LStr ''killed'', LInt (of_cint c)]"
| "fate_values (Stopped c) = [LStr ''stopped'', LInt (of_cint c)]"
| "fate_values Unknown = []"

definition args_wait :: "env \<Rightarrow> lvalue list \<Rightarrow> err + (cint \<times> cint)" where
  "args_wait E args =
     sbind (arg_optinteger E 1 (-1) args) (\<lambda>p. sbind (arg_optint E 2 0 args) (\<lambda>n.
     sbind (at_most 2 args) (\<lambda>_. Inr (to_cint p, n))))"

lemma wait_words: "cstr ''running'' = ''running''" "cstr ''exited'' = ''exited''"
  "cstr ''killed'' = ''killed''" "cstr ''stopped'' = ''stopped''"
  by (simp_all add: cstr_def NUL_def)

lemma Pwait_accepted:
  assumes "args_wait E args = Inr (pid, options)"
    and "c_waitpid pid options (errno s) (world s) = ((r, status), e, w)"
  shows "call_c (Pwait E M c_waitpid) args s =
    Ok (if r = -1 then error_values E None e else LInt (of_cint r) # fate_values (fate_of M r status))
       (s\<lparr>errno := e, world := w\<rparr>)"
  using assms
  by (auto simp: Pwait_def args_wait_def accepted call_c_def run_simps sys_def Let_def fate_of_def
      wait_words error_values_def)

lemma clean_Pwait: "clean (Pwait E M c_waitpid)"
  unfolding Pwait_def by (rule clean_rules)+

section \<open>Opening the module\<close>

definition posix_sys_wait_fns :: "entry list" where
  "posix_sys_wait_fns = [
    Item ''Pwait'']"

definition posix_sys_wait_consts :: "entry list" where
  "posix_sys_wait_consts = [
    Item ''WNOHANG'', Item ''WUNTRACED'']"

definition luaopen_posix_sys_wait :: "host \<Rightarrow> ('w, nat) lm" where
  "luaopen_posix_sys_wait H = open_module H ''sys.wait'' posix_sys_wait_fns posix_sys_wait_consts"

lemma sys_wait_names: "names_ok posix_sys_wait_fns posix_sys_wait_consts"
  by code_simp

end
