(* ===== verification/LuaProcess.thy ===== *)
theory LuaProcess
  imports LuaBase Arrays Errno SysWait UnistdBasic UnistdProc
begin

text \<open>
  The processes of \<^verbatim>\<open>lib/posix/init.lua\<close>: \<open>execx\<close>, \<open>spawn\<close>, \<open>popen\<close>, \<open>popen_pipeline\<close> and \<open>pclose\<close>, over
  the bindings of \<^verbatim>\<open>unistd.c\<close>, \<^verbatim>\<open>errno.c\<close> and \<^verbatim>\<open>sys/wait.c\<close>.  After \<open>fork\<close> the same computation goes
  on in two processes; a run of the model is one of them, the one whose value \<open>fork\<close> returns.
\<close>

section \<open>The system below\<close>

record 'w procapi =
  os_pipe :: "('w, cint \<times> cint \<times> cint) sys"
  os_fork :: "('w, cint) sys"
  os_dup2 :: "cint \<Rightarrow> cint \<Rightarrow> ('w, cint) sys"
  os_close :: "cint \<Rightarrow> ('w, cint) sys"
  os_execvp :: "string \<Rightarrow> string option list \<Rightarrow> ('w, bool) sys"
  os_waitpid :: "cint \<Rightarrow> cint \<Rightarrow> ('w, cint \<times> cint) sys"

text \<open>The constants of \<^verbatim>\<open>unistd.c\<close>; POSIX fixes their values.\<close>

definition STDIN_FILENO :: lint where
  "STDIN_FILENO = 0"

definition STDOUT_FILENO :: lint where
  "STDOUT_FILENO = 1"

section \<open>Tasks\<close>

text \<open>
  A task is a table of arguments or a function; anything else raises an error when it is called.
\<close>

datatype 'w task = Argv nat | Fn "'w luafn" | Uncallable

text \<open>
  \<open>table.remove (t, 1)\<close>: entry 1 is the result, the entries up to the border move down by one.
\<close>

fun shift_down :: "ltable \<Rightarrow> nat \<Rightarrow> nat \<Rightarrow> ltable" where
  "shift_down t pos 0 = tbl_set t (LInt (of_nat pos)) LNil"
| "shift_down t pos (Suc k) =
     shift_down (tbl_set t (LInt (of_nat pos)) (tbl_get t (LInt (of_nat (Suc pos))))) (Suc pos) k"

definition remove_first :: "env \<Rightarrow> nat \<Rightarrow> ('w, lvalue) lm" where
  "remove_first E a s =
     (let t = tabs s a
      in Ok (tbl_get t (LInt 1)) (s\<lparr>tabs := (tabs s)(a := shift_down t 1 (tlen E t - 1))\<rparr>))"

text \<open>\<open>os.exit\<close>: true and false are success and failure, anything else is an integer.\<close>

definition os_exit :: "env \<Rightarrow> lua_texts \<Rightarrow> lvalue \<Rightarrow> ('w, 'a) lm" where
  "os_exit E T v = (case v of
      LBool b \<Rightarrow> throw (Exits (if b then 0 else 1))
    | _ \<Rightarrow> (case val_int E (Some v) of
        Some n \<Rightarrow> throw (Exits (to_cint n))
      | None \<Rightarrow> throw (ArgError 1 (bad_operand T ''exit with'' v))))"

definition Pexecx :: "env \<Rightarrow> lua_texts \<Rightarrow> 'w procapi \<Rightarrow> 'w task \<Rightarrow> 'w luafn" where
  "Pexecx E T P task args = (case task of
      Argv a \<Rightarrow>
        bnd (remove_first E a) (\<lambda>path.
        thn (call_c (Pexecp E (os_execvp P)) [path, LTab a])
       (bnd (call_c (Perrno E) []) (\<lambda>r.
        call_c (P_exit E) [argn 2 r])))
    | Fn f \<Rightarrow> bnd (f args) (\<lambda>r. os_exit E T (if truthy (argn 1 r) then argn 1 r else LInt 0))
    | Uncallable \<Rightarrow> lua_error T (bad_operand T ''call'' LNil) 1)"

definition move_fd :: "env \<Rightarrow> lua_texts \<Rightarrow> 'w procapi \<Rightarrow> lvalue \<Rightarrow> lvalue \<Rightarrow> ('w, unit) lm" where
  "move_fd E T P from_fd to_fd =
     (if from_fd \<noteq> to_fd then
        bnd (call_c (Pdup2 E (os_dup2 P)) [from_fd, to_fd]) (\<lambda>r.
        if \<not> truthy (argn 1 r) then lua_error T ''error dup2-ing'' 1
        else thn (call_c (Pclose E (os_close P)) [from_fd]) (ret ()))
      else ret ())"

section \<open>Pipelines\<close>

record pipeline =
  pids :: "lvalue list"
  fd :: lvalue

definition Ppopen ::
  "env \<Rightarrow> lua_texts \<Rightarrow> 'w procapi \<Rightarrow> 'w task \<Rightarrow> string \<Rightarrow> 'w luafn option \<Rightarrow> ('w, pipeline) lm" where
  "Ppopen E T P task mode pipe_fn =
     bnd (case pipe_fn of Some f \<Rightarrow> f [] | None \<Rightarrow> call_c (Ppipe E (os_pipe P)) []) (\<lambda>r.
     let read_fd = argn 1 r; write_fd = argn 2 r in
     if \<not> truthy read_fd then lua_error T ''error opening pipe'' 1
     else
       bnd (if mode = ''r'' then ret (read_fd, write_fd, LInt STDIN_FILENO, LInt STDOUT_FILENO)
            else if mode = ''w'' then ret (write_fd, read_fd, LInt STDOUT_FILENO, LInt STDIN_FILENO)
            else lua_error T ''invalid mode'' 1)
      (\<lambda>(parent_fd, child_fd, in_fd, out_fd).
       bnd (call_c (Pfork E (os_fork P)) []) (\<lambda>p.
       let pid = argn 1 p in
       if pid = LNil then lua_error T ''error forking'' 1
       else
         thn (if pid = LInt 0 then
                thn (move_fd E T P child_fd out_fd)
               (thn (call_c (Pclose E (os_close P)) [parent_fd])
               (thn (Pexecx E T P task [child_fd, in_fd, out_fd]) (ret ())))
              else ret ())
        (thn (call_c (Pclose E (os_close P)) [child_fd])
         (ret \<lparr>pids = [pid], fd = parent_fd\<rparr>)))))"

text \<open>A stage: a function that reads from the stage before.\<close>

definition stage :: "env \<Rightarrow> lua_texts \<Rightarrow> 'w procapi \<Rightarrow> pipeline \<Rightarrow> 'w task \<Rightarrow> 'w task" where
  "stage E T P pfd task =
     Fn (\<lambda>args. thn (move_fd E T P (fd pfd) (argn 2 args)) (Pexecx E T P task []))"

fun pipeline_loop ::
  "env \<Rightarrow> lua_texts \<Rightarrow> 'w procapi \<Rightarrow> string \<Rightarrow> 'w luafn option \<Rightarrow> 'w task list \<Rightarrow> pipeline \<Rightarrow>
   ('w, pipeline) lm" where
  "pipeline_loop E T P mode pipe_fn [] pfd = ret pfd"
| "pipeline_loop E T P mode pipe_fn (task # tasks) pfd =
     bnd (Ppopen E T P (stage E T P pfd task) mode pipe_fn) (\<lambda>pfd_next.
     thn (call_c (Pclose E (os_close P)) [fd pfd])
    (pipeline_loop E T P mode pipe_fn tasks
       \<lparr>pids = pids pfd @ [argn 1 (pids pfd_next)], fd = fd pfd_next\<rparr>))"

text \<open>In mode \<open>w\<close> the loop runs backwards.  Without tasks there is nothing to call.\<close>

definition Ppopen_pipeline ::
  "env \<Rightarrow> lua_texts \<Rightarrow> 'w procapi \<Rightarrow> 'w task list \<Rightarrow> string \<Rightarrow> 'w luafn option \<Rightarrow> ('w, pipeline) lm" where
  "Ppopen_pipeline E T P tasks mode pipe_fn =
     (let order = (if mode = ''w'' then rev tasks else tasks) in
     bnd (Ppopen E T P (case order of [] \<Rightarrow> Uncallable | task # _ \<Rightarrow> task) mode pipe_fn) (\<lambda>pfd.
     pipeline_loop E T P mode pipe_fn (tl order) pfd))"

text \<open>The waiting of \<open>pclose\<close>: all but the last are waited for and forgotten.\<close>

definition Ppclose :: "env \<Rightarrow> wait_macros \<Rightarrow> 'w procapi \<Rightarrow> pipeline \<Rightarrow> ('w, lvalue list) lm" where
  "Ppclose E M P pfd =
     thn (call_c (Pclose E (os_close P)) [fd pfd])
    (thn (for_each (take (length (pids pfd) - 1) (pids pfd))
           (\<lambda>pid. thn (call_c (Pwait E M (os_waitpid P)) [pid]) (ret ())))
    (bnd (call_c (Pwait E M (os_waitpid P)) [argn (length (pids pfd)) (pids pfd)]) (\<lambda>r.
     ret [argn 2 r, argn 3 r])))"

definition Pspawn ::
  "env \<Rightarrow> lua_texts \<Rightarrow> wait_macros \<Rightarrow> 'w procapi \<Rightarrow> 'w task \<Rightarrow> 'w luafn" where
  "Pspawn E T M P task args =
     bnd (call_c (Pfork E (os_fork P)) []) (\<lambda>p.
     let pid = argn 1 p in
     if pid = LNil then ret [argn 3 p, argn 2 p]
     else
       thn (if pid = LInt 0 then thn (Pexecx E T P task args) (ret ()) else ret ())
      (bnd (call_c (Pwait E M (os_waitpid P)) [pid]) (\<lambda>r.
       ret [argn 3 r, argn 2 r])))"

end
