(* ===== verification/LuaPipelines.thy ===== *)
theory LuaPipelines
  imports LuaProcess
begin

text \<open>
  What the process functions of \<^verbatim>\<open>lib/posix/init.lua\<close> promise, on a kernel with descriptors, pipes and
  processes: who holds which end of which pipe in every process that \<open>popen\<close> and \<open>popen_pipeline\<close> start,
  with which arguments the programs run, and what \<open>pclose\<close> and \<open>spawn\<close> report.
\<close>

section \<open>Argument tables\<close>

lemma update_append: "k \<notin> fst ` set P \<Longrightarrow> AList.update k v (P @ (k, u) # R) = P @ (k, v) # R"
  by (induction P) auto

lemma filter_key_absent: "k \<notin> fst ` set P \<Longrightarrow> filter (\<lambda>p. fst p \<noteq> k) P = P"
  by (induction P) auto

lemma tbl_get_append:
  "k \<notin> fst ` set P \<Longrightarrow> tbl_get (P @ (k, u) # R) k = u"
  by (induction P) (auto simp: tbl_get_def)

lemma key_fresh:
  assumes "fst ` set P \<subseteq> (\<lambda>j. LInt (of_nat j)) ` {..<n}" "n \<le> m" "m < 2 ^ 62"
  shows "LInt (of_nat m) \<notin> fst ` set P"
proof
  assume "LInt (of_nat m) \<in> fst ` set P"
  then obtain j where "j < n" "(of_nat m :: lint) = of_nat j" using assms(1) by blast
  then show False using of_nat_lint_inj [of m j] assms(2,3) by simp
qed

lemma shift_down_sequence:
  assumes "fst ` set P \<subseteq> (\<lambda>j. LInt (of_nat j)) ` {..<n}" "n + length ys < 2 ^ 62" "LNil \<notin> set ys"
  shows "shift_down (P @ array_from n (y # ys)) n (length ys) = P @ array_from n ys"
  using assms
proof (induction ys arbitrary: P n y)
  case Nil
  have "LInt (of_nat n) \<notin> fst ` set P"
    using Nil.prems by (intro key_fresh) auto
  then show ?case by (simp add: tbl_set_def filter_key_absent)
next
  case (Cons z zs)
  let ?k = "\<lambda>j. LInt (of_nat j)"
  have n: "?k n \<notin> fst ` set P"
    using Cons.prems by (intro key_fresh) auto
  have "fst ` set (P @ [(?k n, y)]) \<subseteq> ?k ` {..<Suc n}"
    using Cons.prems(1) by (auto simp: lessThan_Suc)
  then have n': "?k (Suc n) \<notin> fst ` set (P @ [(?k n, y)])"
    using Cons.prems(2) by (intro key_fresh) auto
  have get: "tbl_get (P @ array_from n (y # z # zs)) (?k (Suc n)) = z"
    using tbl_get_append [OF n', of z "array_from (Suc (Suc n)) zs"] by (simp del: of_nat_Suc)
  have "z \<noteq> LNil" using Cons.prems by auto
  then have "shift_down (P @ array_from n (y # z # zs)) n (length (z # zs)) =
      shift_down ((P @ [(?k n, z)]) @ array_from (Suc n) (z # zs)) (Suc n) (length zs)"
    using n by (simp only: shift_down.simps length_Cons get) (simp add: tbl_set_def update_append)
  also have "\<dots> = (P @ [(?k n, z)]) @ array_from (Suc n) zs"
    using Cons.prems by (intro Cons.IH) (auto simp: lessThan_Suc)
  finally show ?case by simp
qed

lemma remove_first_run:
  assumes "tabs s a = sequence (x # xs)" "tlen E (sequence (x # xs)) = Suc (length xs)"
    "length xs < 2 ^ 31" "LNil \<notin> set xs"
  shows "remove_first E a s = Ok x (s\<lparr>tabs := (tabs s)(a := sequence xs)\<rparr>)"
proof -
  have "shift_down ([] @ array_from 1 (x # xs)) 1 (length xs) = [] @ sequence xs"
    using assms by (intro shift_down_sequence) auto
  then show ?thesis
    using assms by (simp add: remove_first_def tbl_get_def)
qed

text \<open>A table of strings whose border is its length, before and after its first entry is taken.\<close>

definition command :: "env \<Rightarrow> ltable \<Rightarrow> string list \<Rightarrow> bool" where
  "command E t ws \<longleftrightarrow> t = sequence (map LStr ws) \<and> ws \<noteq> [] \<and> length ws < 2 ^ 31 \<and>
     tlen E t = length ws \<and> tlen E (sequence (map LStr (tl ws))) = length ws - 1"

definition argv_strings :: "string list \<Rightarrow> string option list" where
  "argv_strings ws = map (\<lambda>x. Some (cstr x)) ws @ [None]"

lemma argv_of_sequence:
  assumes "length ws < 2 ^ 31"
  shows "argv_of E p (sequence (map LStr ws)) (length ws) = Some p # map (\<lambda>x. Some (cstr x)) ws @ [None]"
proof -
  have get: "tbl_get (sequence (map LStr ws)) (LInt (of_nat (Suc i))) = LStr (ws ! i)" if "i < length ws" for i
    using sequence_get [of "map LStr ws" i] that assms by (simp del: of_nat_Suc)
  have "map (\<lambda>i. cstr_value E (tbl_get (sequence (map LStr ws)) (LInt (of_nat i)))) [1..<Suc (length ws)] =
      map (\<lambda>x. Some (cstr x)) ws"
    using assms
    by (intro nth_equalityI)
      (auto simp: cstr_value_def get [unfolded One_nat_def] simp del: of_nat_Suc upt_Suc)
  moreover have "tbl_get (sequence (map LStr ws)) (LInt 0) = LNil"
  proof -
    have "LInt 0 \<notin> fst ` set (sequence (map LStr ws))"
      unfolding array_keys using of_nat_lint_inj [of 0] assms by force
    then show ?thesis by (simp add: tbl_get_def map_of_eq_None_iff [THEN iffD2])
  qed
  ultimately show ?thesis by (simp add: argv_of_def argv0_of_def del: upt_Suc)
qed

lemma errno_run: "call_c (Perrno E) [] s = Ok [LStr (cstr (strerror E (errno s))), LInt (of_cint (errno s))] s"
  by (simp add: call_c_def Perrno_def run_simps optint_run at_simps type_of_def less_eq_ltype_def
      checknargs_run lua_pushstring_run)

lemma exit_run: "call_c (P_exit E) [LInt n] s = Err (Exits (to_cint n)) s"
  by (simp add: call_c_def P_exit_def run_simps checkinteger_run at_simps checknargs_run)


section \<open>A kernel with descriptors\<close>

text \<open>
  What a descriptor refers to: a file that was open before, or an end of a pipe.  The kernel state of a
  process: its descriptors, the number of pipes made so far, and what the next calls of \<open>fork\<close> will
  return in the process that the run follows.
\<close>

datatype fobj = File nat | ReadEnd nat | WriteEnd nat

record kern =
  fds :: "cint \<Rightarrow> fobj option"
  npipes :: nat
  outcomes :: "cint list"
  execs :: "(string \<times> string option list) list"

definition k_pipe :: "((cint \<Rightarrow> fobj option) \<Rightarrow> (cint \<times> cint) option) \<Rightarrow> (kern, cint \<times> cint \<times> cint) sys" where
  "k_pipe pick e w = (case pick (fds w) of
      None \<Rightarrow> ((-1, 0, 0), 24, w)
    | Some (a, b) \<Rightarrow> ((0, a, b), e,
        w\<lparr>fds := (fds w)(a \<mapsto> ReadEnd (npipes w), b \<mapsto> WriteEnd (npipes w)), npipes := Suc (npipes w)\<rparr>))"

definition k_fork :: "(kern, cint) sys" where
  "k_fork e w = (case outcomes w of
      [] \<Rightarrow> (-1, 11, w)
    | p # ps \<Rightarrow> (p, e, w\<lparr>outcomes := ps\<rparr>))"

definition k_dup2 :: "cint \<Rightarrow> cint \<Rightarrow> (kern, cint) sys" where
  "k_dup2 a b e w = (if fds w a = None then (-1, 9, w) else (b, e, w\<lparr>fds := (fds w)(b := fds w a)\<rparr>))"

definition k_close :: "cint \<Rightarrow> (kern, cint) sys" where
  "k_close a e w = (if fds w a = None then (-1, 9, w) else (0, e, w\<lparr>fds := (fds w)(a := None)\<rparr>))"

definition k_execvp :: "(string \<Rightarrow> bool) \<Rightarrow> string \<Rightarrow> string option list \<Rightarrow> (kern, bool) sys" where
  "k_execvp found p argv e w = (found p, if found p then e else 2, w\<lparr>execs := execs w @ [(p, argv)]\<rparr>)"

definition kernel :: "((cint \<Rightarrow> fobj option) \<Rightarrow> (cint \<times> cint) option) \<Rightarrow> (string \<Rightarrow> bool) \<Rightarrow>
    (cint \<Rightarrow> cint \<Rightarrow> (kern, cint \<times> cint) sys) \<Rightarrow> kern procapi" where
  "kernel pick found wt = \<lparr>os_pipe = k_pipe pick, os_fork = k_fork, os_dup2 = k_dup2, os_close = k_close,
     os_execvp = k_execvp found, os_waitpid = wt\<rparr>"

text \<open>New descriptors are free and different.\<close>

definition good_pick :: "((cint \<Rightarrow> fobj option) \<Rightarrow> (cint \<times> cint) option) \<Rightarrow> bool" where
  "good_pick pick \<longleftrightarrow> (\<forall>f a b. pick f = Some (a, b) \<longrightarrow> f a = None \<and> f b = None \<and> a \<noteq> b)"

lemma kernel_simps [simp]:
  "os_pipe (kernel pick found wt) = k_pipe pick" "os_fork (kernel pick found wt) = k_fork"
  "os_dup2 (kernel pick found wt) = k_dup2" "os_close (kernel pick found wt) = k_close"
  "os_execvp (kernel pick found wt) = k_execvp found" "os_waitpid (kernel pick found wt) = wt"
  by (simp_all add: kernel_def)

text \<open>The calls of the bindings on this kernel; a descriptor is passed on as an integer.\<close>

abbreviation lfd :: "cint \<Rightarrow> lvalue" where
  "lfd a \<equiv> LInt (of_cint a)"

lemma pipe_run:
  assumes "pick (fds (world s)) = Some (a, b)"
  shows "call_c (Ppipe E (k_pipe pick)) [] s = Ok [lfd a, lfd b]
    (s\<lparr>world := (world s)\<lparr>fds := (fds (world s))(a \<mapsto> ReadEnd (npipes (world s)),
       b \<mapsto> WriteEnd (npipes (world s))), npipes := Suc (npipes (world s))\<rparr>\<rparr>)"
  using assms by (simp add: Ppipe_def call_c_def run_simps sys_def k_pipe_def)

lemma fork_run:
  assumes "outcomes (world s) = p # ps" "p \<noteq> -1"
  shows "call_c (Pfork E k_fork) [] s = Ok [lfd p] (s\<lparr>world := (world s)\<lparr>outcomes := ps\<rparr>\<rparr>)"
  using assms by (simp add: fork_call.runs args_none_def arg_defs k_fork_def result_values_def)

lemma close_run:
  assumes "fds (world s) a = Some x"
  shows "call_c (Pclose E k_close) [lfd a] s =
    Ok [LInt 0] (s\<lparr>world := (world s)\<lparr>fds := (fds (world s))(a := None)\<rparr>\<rparr>)"
  using assms
  by (simp add: close_call.runs args_fd_def arg_defs at_simps k_close_def result_values_def)

lemma dup2_run:
  assumes "fds (world s) a = Some x" "b \<noteq> -1"
  shows "call_c (Pdup2 E k_dup2) [lfd a, lfd b] s =
    Ok [lfd b] (s\<lparr>world := (world s)\<lparr>fds := (fds (world s))(b \<mapsto> x)\<rparr>\<rparr>)"
  using assms
  by (simp add: dup2_call.runs args_fd2_def arg_defs at_simps k_dup2_def result_values_def)

lemma move_fd_run:
  assumes "fds (world s) a = Some x" "b \<noteq> -1" "a \<noteq> b"
  shows "move_fd E T (kernel pick found wt) (lfd a) (lfd b) s =
    Ok () (s\<lparr>world := (world s)\<lparr>fds := (fds (world s))(b \<mapsto> x, a := None)\<rparr>\<rparr>)"
  using assms by (simp add: move_fd_def run_simps dup2_run close_run [where x = x] of_cint_inj)

lemmas move_fd_std = move_fd_run [where b = 0, simplified] move_fd_run [where b = 1, simplified]

lemma std_fds: "LInt STDIN_FILENO = lfd 0" "LInt STDOUT_FILENO = lfd 1"
  by (simp_all add: STDIN_FILENO_def STDOUT_FILENO_def)

lemma lfd_0: "of_cint p = 0 \<longleftrightarrow> p = 0"
  using of_cint_inj [of p 0] by simp

section \<open>popen\<close>

text \<open>The ends of pipe \<open>n\<close> that the parent keeps and the child gets, and the child's descriptors.\<close>

definition parent_end :: "string \<Rightarrow> nat \<Rightarrow> fobj" where
  "parent_end mode n = (if mode = ''r'' then ReadEnd n else WriteEnd n)"

definition child_end :: "string \<Rightarrow> nat \<Rightarrow> fobj" where
  "child_end mode n = (if mode = ''r'' then WriteEnd n else ReadEnd n)"

definition out_fd :: "string \<Rightarrow> cint" where
  "out_fd mode = (if mode = ''r'' then 1 else 0)"

definition in_fd :: "string \<Rightarrow> cint" where
  "in_fd mode = (if mode = ''r'' then 0 else 1)"

lemma popen_parent:
  assumes "good_pick pick" "mode = ''r'' \<or> mode = ''w''" "pick (fds (world s)) = Some (a, b)"
    and "outcomes (world s) = p # ps" "p \<noteq> 0" "p \<noteq> -1"
  defines "c \<equiv> if mode = ''r'' then a else b"
  shows "Ppopen E T (kernel pick found wt) task mode None s =
    Ok \<lparr>pids = [lfd p], fd = lfd c\<rparr>
       (s\<lparr>world := (world s)\<lparr>fds := (fds (world s))(c \<mapsto> parent_end mode (npipes (world s))),
          npipes := Suc (npipes (world s)), outcomes := ps\<rparr>\<rparr>)"
proof -
  have free: "fds (world s) a = None" "fds (world s) b = None" "a \<noteq> b"
    using assms(1,3) by (auto simp: good_pick_def)
  let ?n = "npipes (world s)"
  have upd: "(fds (world s))(a \<mapsto> ReadEnd ?n, b := None) = (fds (world s))(a \<mapsto> ReadEnd ?n)"
    "(fds (world s))(a := None, b \<mapsto> WriteEnd ?n) = (fds (world s))(b \<mapsto> WriteEnd ?n)"
    using free by (auto simp: fun_eq_iff)
  from assms(2) show ?thesis
  proof
    assume r: "mode = ''r''"
    show ?thesis
      using assms free
      by (simp add: r Ppopen_def run_simps pipe_run fork_run lfd_0 close_run [where x = "WriteEnd ?n"]
          parent_end_def upd)
  next
    assume w: "mode = ''w''"
    show ?thesis
      using assms free
      by (simp add: w Ppopen_def run_simps pipe_run fork_run lfd_0 close_run [where x = "ReadEnd ?n"]
          parent_end_def upd fun_upd_twist)
  qed
qed


lemma execx_never_returns: "\<exists>e s'. Pexecx E T P task args s = Err e s'"
proof (cases task)
  case (Argv a)
  have exit: "\<exists>e s'. call_c (P_exit E) vs s = Err e s'" for vs and s :: "'a lst"
    by (auto simp: call_c_def P_exit_def run_simps split: out.splits)
  then show ?thesis
    unfolding Argv Pexecx_def by (auto simp: run_simps split: out.splits)
next
  case (Fn f)
  have "\<exists>e s'. os_exit E T v s = Err e s'" for v and s :: "'a lst"
    by (cases v) (auto simp: os_exit_def run_simps split: option.splits)
  then show ?thesis
    unfolding Fn Pexecx_def by (auto simp: run_simps split: out.splits)
qed (simp add: Pexecx_def run_simps)

text \<open>The state in which a child runs its task.\<close>

definition child_state :: "string \<Rightarrow> cint list \<Rightarrow> kern lst \<Rightarrow> kern lst" where
  "child_state mode ps s = s\<lparr>world := (world s)\<lparr>
     npipes := Suc (npipes (world s)), outcomes := ps,
     fds := (fds (world s))(out_fd mode \<mapsto> child_end mode (npipes (world s)))\<rparr>\<rparr>"

lemma popen_child:
  assumes "good_pick pick" "mode = ''r'' \<or> mode = ''w''" "pick (fds (world s)) = Some (a, b)"
    and "outcomes (world s) = 0 # ps" "fds (world s) (out_fd mode) \<noteq> None"
  shows "\<exists>e s'. Pexecx E T (kernel pick found wt) task
      [lfd (if mode = ''r'' then b else a), lfd (in_fd mode), lfd (out_fd mode)] (child_state mode ps s) =
        Err e s' \<and>
    Ppopen E T (kernel pick found wt) task mode None s = Err e s'"
proof -
  have free: "fds (world s) a = None" "fds (world s) b = None" "a \<noteq> b"
    using assms(1,3) by (auto simp: good_pick_def)
  have out: "a \<noteq> out_fd mode" "b \<noteq> out_fd mode" using free assms(5) by metis+
  have std: "LInt STDIN_FILENO = lfd 0" "LInt STDOUT_FILENO = lfd 1" by (rule std_fds)+
  let ?n = "npipes (world s)"
  have upd1: "(fds (world s))(1 \<mapsto> y, b := None, a := None) = (fds (world s))(1 \<mapsto> y)"
    if "a \<noteq> 1" "b \<noteq> 1" for x y
    using free that by (auto simp: fun_eq_iff)
  have upd0: "(fds (world s))(0 \<mapsto> x, a := None, b := None) = (fds (world s))(0 \<mapsto> x)"
    if "a \<noteq> 0" "b \<noteq> 0" for x y
    using free that by (auto simp: fun_eq_iff)
  let ?x = "Pexecx E T (kernel pick found wt) task
    [lfd (if mode = ''r'' then b else a), lfd (in_fd mode), lfd (out_fd mode)] (child_state mode ps s)"
  obtain e s' where x: "?x = Err e s'" using execx_never_returns by blast
  from assms(2) show ?thesis
  proof
    assume r: "mode = ''r''"
    have "fds (world s) 1 \<noteq> None" "a \<noteq> 1" "b \<noteq> 1" using assms(5) out by (simp_all add: r out_fd_def)
    then show ?thesis
      using assms free x
      by (simp add: r Ppopen_def run_simps pipe_run fork_run lfd_0 Let_def std move_fd_std [where x = "WriteEnd ?n"]
          close_run [where x = "ReadEnd ?n"] child_state_def child_end_def in_fd_def out_fd_def upd1)
  next
    assume w: "mode = ''w''"
    show ?thesis
      using assms free out x
      by (simp add: w Ppopen_def run_simps pipe_run fork_run lfd_0 Let_def std move_fd_std [where x = "ReadEnd ?n"]
          close_run [where x = "WriteEnd ?n"] child_state_def child_end_def in_fd_def out_fd_def upd0)
  qed
qed

text \<open>
  A command ends in the program it names, with its words as the arguments, or, when there is no such
  program, in the end of the process with the error number.
\<close>

lemma execx_command:
  assumes "command E (tabs s a) ws"
  shows "\<exists>s'. Pexecx E T (kernel pick found wt) (Argv a) args s =
      Err (if found (cstr (hd ws)) then Replaced else Exits 2) s' \<and>
    world s' = (world s)\<lparr>execs := execs (world s) @ [(cstr (hd ws), argv_strings ws)]\<rparr>"
proof -
  obtain p xs where ws: "ws = p # xs" using assms by (cases ws) (auto simp: command_def)
  let ?s = "s\<lparr>tabs := (tabs s)(a := sequence (map LStr xs))\<rparr>"
  have len: "length xs < 2 ^ 31" "tlen E (sequence (map LStr xs)) = length xs"
    and tab: "tabs s a = sequence (map LStr ws)" "tlen E (tabs s a) = Suc (length xs)"
    using assms ws by (auto simp: command_def)
  have "remove_first E a s = Ok (LStr p) ?s"
    using remove_first_run [of s a "LStr p" "map LStr xs" E] tab len(1) ws by auto
  moreover obtain s' where s': "call_c (Pexecp E (k_execvp found)) [LStr p, LTab a] ?s =
      (if found (cstr p) then Err Replaced s' else Ok (error_values E (Some (cstr p)) (errno s')) s')"
    "world s' = (world s)\<lparr>execs := execs (world s) @ [(cstr p, argv_strings ws)]\<rparr>"
    "errno s' = (if found (cstr p) then errno s else 2)"
  proof -
    have acc: "args_exec E ?s [LStr p, LTab a] = Inr (cstr p, a)"
      by (simp add: args_exec_def accepted at_simps)
    have tl: "tlen E (tabs ?s a) < 2 ^ 31" using len by simp
    have argv: "argv_of E (cstr p) (tabs ?s a) (tlen E (tabs ?s a)) = argv_strings ws"
      using argv_of_sequence [OF len(1), of E "cstr p"] len(2) by (simp add: argv_strings_def ws)
    have call: "k_execvp found (cstr p) (argv_of E (cstr p) (tabs ?s a) (tlen E (tabs ?s a)))
        (errno ?s) (world ?s) = (found (cstr p), if found (cstr p) then errno s else 2,
        (world s)\<lparr>execs := execs (world s) @ [(cstr p, argv_strings ws)]\<rparr>)"
      unfolding argv by (simp add: k_execvp_def)
    obtain s' where "call_c (runexec E (k_execvp found)) [LStr p, LTab a] ?s =
        (if found (cstr p) then Err Replaced s'
         else Ok (error_values E (Some (cstr p)) (if found (cstr p) then errno s else 2)) s')"
      "world s' = (world s)\<lparr>execs := execs (world s) @ [(cstr p, argv_strings ws)]\<rparr>"
      "errno s' = (if found (cstr p) then errno s else 2)"
      using exec_argv_run [where c_exec = "k_execvp found", OF acc tl call] by blast
    then show ?thesis by (intro that [of s']) (simp_all add: Pexecp_def)
  qed
  ultimately show ?thesis
    using ws by (auto simp: Pexecx_def run_simps errno_run exit_run)
qed

text \<open>
  Property C31: \<open>popen\<close> of a command wires the two processes.  The parent gets its end of a new pipe and
  the child's number, and has no other descriptor more than before.  In the child the program of the
  command runs with the other end as its output (input, in mode \<open>w\<close>), the words of the command as its
  arguments and every other descriptor as it was; when there is no such program the child ends with the
  error number.
\<close>

theorem popen_wires:
  assumes "good_pick pick" "mode = ''r'' \<or> mode = ''w''" "pick (fds (world s)) = Some (a, b)"
    and "outcomes (world s) = p # ps" "p \<noteq> -1"
    and "fds (world s) (out_fd mode) \<noteq> None" "command E (tabs s n) ws"
  shows "if p \<noteq> 0 then \<exists>s'. Ppopen E T (kernel pick found wt) (Argv n) mode None s =
        Ok \<lparr>pids = [lfd p], fd = lfd (if mode = ''r'' then a else b)\<rparr> s' \<and>
      fds (world s') = (fds (world s))
        ((if mode = ''r'' then a else b) \<mapsto> parent_end mode (npipes (world s)))
    else \<exists>s'. Ppopen E T (kernel pick found wt) (Argv n) mode None s =
        Err (if found (cstr (hd ws)) then Replaced else Exits 2) s' \<and>
      execs (world s') = execs (world s) @ [(cstr (hd ws), argv_strings ws)] \<and>
      fds (world s') = (fds (world s))(out_fd mode \<mapsto> child_end mode (npipes (world s)))"
proof (cases "p = 0")
  case True
  let ?K = "kernel pick found wt" and ?s = "child_state mode ps s"
  let ?args = "[lfd (if mode = ''r'' then b else a), lfd (in_fd mode), lfd (out_fd mode)]"
  have "command E (tabs ?s n) ws"
    using assms(7) by (simp add: child_state_def)
  then obtain s' where x: "Pexecx E T ?K (Argv n) ?args ?s =
      Err (if found (cstr (hd ws)) then Replaced else Exits 2) s'"
    "world s' = (world ?s)\<lparr>execs := execs (world ?s) @ [(cstr (hd ws), argv_strings ws)]\<rparr>"
    using execx_command by blast
  have o: "outcomes (world s) = 0 # ps" using assms(4) True by simp
  have "Ppopen E T ?K (Argv n) mode None s = Err (if found (cstr (hd ws)) then Replaced else Exits 2) s'"
    using popen_child [OF assms(1-3) o assms(6), of E T found wt "Argv n"] unfolding x(1) by simp
  then show ?thesis using True x(2) by (auto simp: child_state_def)
next
  case False
  then show ?thesis using popen_parent [OF assms(1-4) False assms(5)] by simp
qed

text \<open>
  An invalid mode is noticed after the pipe was made, and nothing closes the pipe when the mode is invalid
  or no process can be made.
\<close>

lemma popen_leaks:
  assumes "pick (fds (world s)) = Some (a, b)" "mode \<noteq> ''r'' \<and> mode \<noteq> ''w'' \<or> outcomes (world s) = []"
  shows "\<exists>msg s'. Ppopen E T (kernel pick found wt) task mode None s = Err (LuaError (LStr msg)) s' \<and>
    fds (world s') = (fds (world s))(a \<mapsto> ReadEnd (npipes (world s)), b \<mapsto> WriteEnd (npipes (world s)))"
  using assms
  by (auto simp: Ppopen_def Let_def run_simps pipe_run fork_call.runs args_none_def arg_defs k_fork_def result_values_def
      error_values_def)

section \<open>popen_pipeline\<close>

text \<open>
  A descriptor table that differs from \<open>F\<close> by the end of a pipe that the stage before left open; \<open>room\<close>
  says that there are two free descriptors whenever at most one more than in \<open>F\<close> is in use.
\<close>

definition room :: "((cint \<Rightarrow> fobj option) \<Rightarrow> (cint \<times> cint) option) \<Rightarrow> (cint \<Rightarrow> fobj option) \<Rightarrow> bool" where
  "room pick F \<longleftrightarrow> (\<forall>c x. pick F \<noteq> None \<and> (F c = None \<longrightarrow> pick (F(c \<mapsto> x)) \<noteq> None))"

lemma pick_end:
  "good_pick pick \<Longrightarrow> pick f = Some (a, b) \<Longrightarrow> f (if mode = ''r'' then a else b) = None"
  by (simp add: good_pick_def)

lemma loop_parent:
  assumes "good_pick pick" "mode = ''r'' \<or> mode = ''w''" "room pick F"
    and "fds (world s) = F(c \<mapsto> parent_end mode m)" "F c = None"
    and "outcomes (world s) = ps @ rest" "length ps = length tasks" "list_all (\<lambda>p. p \<noteq> 0 \<and> p \<noteq> -1) ps"
    and "npipes (world s) = Suc m"
  shows "\<exists>d s'. pipeline_loop E T (kernel pick found wt) mode None tasks \<lparr>pids = vs, fd = lfd c\<rparr> s =
      Ok \<lparr>pids = vs @ map lfd ps, fd = lfd d\<rparr> s' \<and>
    fds (world s') = F(d \<mapsto> parent_end mode (m + length tasks)) \<and> F d = None \<and>
    outcomes (world s') = rest \<and> npipes (world s') = Suc (m + length tasks) \<and>
    tabs s' = tabs s \<and> execs (world s') = execs (world s)"
  using assms
proof (induction tasks arbitrary: s c m ps vs)
  case Nil
  then show ?case by (auto simp: run_simps)
next
  case (Cons t ts)
  let ?K = "kernel pick found wt"
  obtain p qs where ps: "ps = p # qs" "p \<noteq> 0" "p \<noteq> -1" "list_all (\<lambda>p. p \<noteq> 0 \<and> p \<noteq> -1) qs"
    using Cons.prems(7,8) by (cases ps) auto
  obtain a b where ab: "pick (fds (world s)) = Some (a, b)"
    using Cons.prems(3-5) unfolding room_def by (metis not_None_eq surj_pair)
  define d where "d = (if mode = ''r'' then a else b)"
  have free: "d \<noteq> c" "F d = None"
    using pick_end [OF Cons.prems(1) ab, of mode, folded d_def] Cons.prems(4) by (simp_all split: if_splits)
  have o: "outcomes (world s) = p # (qs @ rest)" using Cons.prems(6) ps by simp
  define s1 where "s1 = s\<lparr>world := (world s)\<lparr>fds := (fds (world s))(d \<mapsto> parent_end mode (npipes (world s))),
      npipes := Suc (npipes (world s)), outcomes := qs @ rest\<rparr>\<rparr>"
  have popen: "Ppopen E T ?K (stage E T ?K \<lparr>pids = vs, fd = lfd c\<rparr> t) mode None s =
      Ok \<lparr>pids = [lfd p], fd = lfd d\<rparr> s1"
    unfolding s1_def d_def by (rule popen_parent [OF Cons.prems(1,2) ab o ps(2,3)])
  define s2 where "s2 = s1\<lparr>world := (world s1)\<lparr>fds := (fds (world s1))(c := None)\<rparr>\<rparr>"
  have close: "call_c (Pclose E k_close) [lfd c] s1 = Ok [LInt 0] s2"
    unfolding s2_def using Cons.prems(4) free by (intro close_run [where x = "parent_end mode m"]) (simp add: s1_def)
  have "fds (world s2) = F(d \<mapsto> parent_end mode (Suc m))"
    using Cons.prems(4,5,9) free by (auto simp: s1_def s2_def fun_eq_iff)
  moreover have "outcomes (world s2) = qs @ rest" "npipes (world s2) = Suc (Suc m)"
    using Cons.prems(9) by (simp_all add: s1_def s2_def)
  moreover have tabs: "tabs s2 = tabs s" "execs (world s2) = execs (world s)"
    by (simp_all add: s1_def s2_def)
  moreover have "length qs = length ts" using Cons.prems(7) ps(1) by simp
  ultimately obtain e s' where "pipeline_loop E T ?K mode None ts \<lparr>pids = vs @ [lfd p], fd = lfd d\<rparr> s2 =
      Ok \<lparr>pids = (vs @ [lfd p]) @ map lfd qs, fd = lfd e\<rparr> s' \<and>
    fds (world s') = F(e \<mapsto> parent_end mode (Suc m + length ts)) \<and> F e = None \<and>
    outcomes (world s') = rest \<and> npipes (world s') = Suc (Suc m + length ts) \<and>
    tabs s' = tabs s2 \<and> execs (world s') = execs (world s2)"
    using Cons.IH [of s2 d "Suc m" qs "vs @ [lfd p]"] Cons.prems(1-3) free(2) ps(4) by blast
  then show ?case
    by (intro exI [of _ e] exI [of _ s']) (simp add: run_simps popen close ps(1) tabs)
qed


text \<open>The child that a round of the loop starts: its task runs between two pipes.\<close>

lemma stage_child:
  assumes "good_pick pick" "mode = ''r'' \<or> mode = ''w''" "pick (fds (world s)) \<noteq> None"
    and "fds (world s) = F(c \<mapsto> x)" "F c = None" "F (out_fd mode) \<noteq> None" "F (in_fd mode) \<noteq> None"
    and "outcomes (world s) = 0 # ps"
  shows "\<exists>e s1 s'. Ppopen E T (kernel pick found wt) (stage E T (kernel pick found wt) \<lparr>pids = vs, fd = lfd c\<rparr> t)
        mode None s = Err e s' \<and>
      Pexecx E T (kernel pick found wt) t [] s1 = Err e s' \<and> tabs s1 = tabs s \<and>
      execs (world s1) = execs (world s) \<and>
      fds (world s1) = F(out_fd mode \<mapsto> child_end mode (npipes (world s)), in_fd mode \<mapsto> x)"
proof -
  let ?K = "kernel pick found wt"
  obtain a b where ab: "pick (fds (world s)) = Some (a, b)" using assms(3) by auto
  have ne: "c \<noteq> out_fd mode" "c \<noteq> in_fd mode" "in_fd mode \<noteq> -1" "in_fd mode \<noteq> out_fd mode"
    using assms(5,6,7) by (auto simp: in_fd_def out_fd_def)
  have "fds (world s) (out_fd mode) \<noteq> None"
    using assms(4,6) ne by simp
  from popen_child [OF assms(1,2) ab assms(8) this, where task = "stage E T ?K \<lparr>pids = vs, fd = lfd c\<rparr> t"]
  obtain e s' where
    x: "Pexecx E T ?K (stage E T ?K \<lparr>pids = vs, fd = lfd c\<rparr> t)
      [lfd (if mode = ''r'' then b else a), lfd (in_fd mode), lfd (out_fd mode)] (child_state mode ps s) = Err e s'"
    and p: "Ppopen E T ?K (stage E T ?K \<lparr>pids = vs, fd = lfd c\<rparr> t) mode None s = Err e s'" by blast
  define s1 where "s1 = (child_state mode ps s)\<lparr>world := (world (child_state mode ps s))
      \<lparr>fds := (fds (world (child_state mode ps s)))(in_fd mode \<mapsto> x, c := None)\<rparr>\<rparr>"
  have m: "move_fd E T ?K (lfd c) (lfd (in_fd mode)) (child_state mode ps s) = Ok () s1"
    unfolding s1_def using ne assms(4) by (intro move_fd_run) (simp_all add: child_state_def)
  obtain e1 s2 where y: "Pexecx E T ?K t [] s1 = Err e1 s2" using execx_never_returns by blast
  have "Err e s' = Err e1 s2"
    using x unfolding stage_def Pexecx_def [of _ _ _ "Fn _"] by (simp add: run_simps m y)
  moreover have "fds (world s1) = F(out_fd mode \<mapsto> child_end mode (npipes (world s)), in_fd mode \<mapsto> x)"
    using assms(4,5) ne by (auto simp: s1_def child_state_def fun_eq_iff)
  moreover have "tabs s1 = tabs s" "execs (world s1) = execs (world s)"
    by (simp_all add: s1_def child_state_def)
  ultimately show ?thesis using p y by auto
qed


text \<open>
  The descriptors of stage \<open>k\<close> of a pipeline whose first pipe has the number \<open>m\<close>: its output is its own
  pipe, its input the pipe of the stage before; the first stage keeps its input.
\<close>

definition stage_fds :: "string \<Rightarrow> nat \<Rightarrow> nat \<Rightarrow> (cint \<Rightarrow> fobj option) \<Rightarrow> cint \<Rightarrow> fobj option" where
  "stage_fds mode m k F =
     (if k = 0 then F(out_fd mode \<mapsto> child_end mode m)
      else F(out_fd mode \<mapsto> child_end mode (m + k), in_fd mode \<mapsto> parent_end mode (m + k - 1)))"

text \<open>The rounds before the child's are those of the parent.\<close>

lemma pipeline_loop_append:
  "pipeline_loop E T P mode f (ts @ us) pfd =
     bnd (pipeline_loop E T P mode f ts pfd) (pipeline_loop E T P mode f us)"
proof (induction ts arbitrary: pfd)
  case Nil
  show ?case by (simp add: bnd_ret_left)
next
  case (Cons t ts)
  then show ?case by (simp add: fun_eq_iff run_simps split: out.splits)
qed

lemma parent_then_child:
  assumes "good_pick pick" "mode = ''r'' \<or> mode = ''w''" "room pick F"
    and "fds (world s) = F(c \<mapsto> parent_end mode m)" "F c = None"
    and "F (out_fd mode) \<noteq> None" "F (in_fd mode) \<noteq> None"
    and "outcomes (world s) = ps @ 0 # rest" "length ps < length tasks" "list_all (\<lambda>p. p \<noteq> 0 \<and> p \<noteq> -1) ps"
    and "npipes (world s) = Suc m"
  shows "\<exists>e s1 s'. pipeline_loop E T (kernel pick found wt) mode None tasks \<lparr>pids = vs, fd = lfd c\<rparr> s = Err e s' \<and>
      Pexecx E T (kernel pick found wt) (tasks ! length ps) [] s1 = Err e s' \<and>
      fds (world s1) = stage_fds mode m (Suc (length ps)) F \<and> tabs s1 = tabs s \<and>
      execs (world s1) = execs (world s)"
proof -
  let ?K = "kernel pick found wt" and ?k = "length ps"
  have split: "tasks = take ?k tasks @ tasks ! ?k # drop (Suc ?k) tasks"
    using assms(9) by (simp add: id_take_nth_drop)
  obtain d s2 where loop: "pipeline_loop E T ?K mode None (take ?k tasks) \<lparr>pids = vs, fd = lfd c\<rparr> s =
      Ok \<lparr>pids = vs @ map lfd ps, fd = lfd d\<rparr> s2"
    and s2: "fds (world s2) = F(d \<mapsto> parent_end mode (m + ?k))" "F d = None"
      "outcomes (world s2) = 0 # rest" "npipes (world s2) = Suc (m + ?k)"
      "tabs s2 = tabs s" "execs (world s2) = execs (world s)"
    using loop_parent [OF assms(1-5,8) _ assms(10,11), of "take ?k tasks" E T found wt vs] assms(9) by auto
  have "pick (fds (world s2)) \<noteq> None"
    using assms(3) s2(1,2) by (simp add: room_def)
  then obtain e s1 s' where
    "Ppopen E T ?K (stage E T ?K \<lparr>pids = vs @ map lfd ps, fd = lfd d\<rparr> (tasks ! ?k)) mode None s2 = Err e s'"
    "Pexecx E T ?K (tasks ! ?k) [] s1 = Err e s'"
    "fds (world s1) = F(out_fd mode \<mapsto> child_end mode (npipes (world s2)), in_fd mode \<mapsto> parent_end mode (m + ?k))"
    "tabs s1 = tabs s2" "execs (world s1) = execs (world s2)"
    using stage_child [OF assms(1,2) _ s2(1,2) assms(6,7) s2(3)] by blast
  then show ?thesis
    by (subst split, intro exI [of _ e] exI [of _ s1] exI [of _ s'])
      (simp add: pipeline_loop_append run_simps loop stage_fds_def s2(4-6))
qed


text \<open>
  Property C30: the parent of \<open>popen_pipeline\<close> ends with one descriptor more than it had, the free end of
  the last pipe made, and with the numbers of the processes in the order in which they were started;
  the ends that connect the stages are all closed in it.
\<close>

theorem pipeline_parent:
  assumes "good_pick pick" "mode = ''r'' \<or> mode = ''w''" "room pick (fds (world s))"
    and "outcomes (world s) = ps @ rest" "length ps = length tasks" "tasks \<noteq> []"
    and "list_all (\<lambda>p. p \<noteq> 0 \<and> p \<noteq> -1) ps"
  shows "\<exists>d s'. Ppopen_pipeline E T (kernel pick found wt) tasks mode None s =
      Ok \<lparr>pids = map lfd ps, fd = lfd d\<rparr> s' \<and>
    fds (world s') = (fds (world s))(d \<mapsto> parent_end mode (npipes (world s) + length tasks - 1)) \<and>
    fds (world s) d = None"
proof -
  let ?K = "kernel pick found wt" and ?F = "fds (world s)" and ?m = "npipes (world s)"
  define order where "order = (if mode = ''w'' then rev tasks else tasks)"
  have "order \<noteq> []" "length order = length tasks" using assms(6) by (auto simp: order_def)
  then obtain t ts where order: "order = t # ts" "length tasks = Suc (length ts)"
    by (cases order) auto
  obtain p qs where ps: "ps = p # qs" "p \<noteq> 0" "p \<noteq> -1" "length qs = length ts"
      "list_all (\<lambda>p. p \<noteq> 0 \<and> p \<noteq> -1) qs"
    using assms(5,7) order(2) by (cases ps) auto
  obtain a b where ab: "pick ?F = Some (a, b)"
    using assms(3) unfolding room_def by (metis not_None_eq surj_pair)
  define c where "c = (if mode = ''r'' then a else b)"
  have free: "?F c = None" using pick_end [OF assms(1) ab] by (simp only: c_def)
  have o: "outcomes (world s) = p # (qs @ rest)" using assms(4) ps(1) by simp
  define s1 where "s1 = s\<lparr>world := (world s)\<lparr>fds := ?F(c \<mapsto> parent_end mode ?m), npipes := Suc ?m,
      outcomes := qs @ rest\<rparr>\<rparr>"
  have first: "Ppopen E T ?K t mode None s = Ok \<lparr>pids = [lfd p], fd = lfd c\<rparr> s1"
    unfolding s1_def c_def by (rule popen_parent [OF assms(1,2) ab o ps(2,3)])
  have s1: "fds (world s1) = ?F(c \<mapsto> parent_end mode ?m)" "outcomes (world s1) = qs @ rest"
      "npipes (world s1) = Suc ?m"
    by (simp_all add: s1_def)
  obtain d s' where "pipeline_loop E T ?K mode None ts \<lparr>pids = [lfd p], fd = lfd c\<rparr> s1 =
      Ok \<lparr>pids = [lfd p] @ map lfd qs, fd = lfd d\<rparr> s'"
    "fds (world s') = ?F(d \<mapsto> parent_end mode (?m + length ts))" "?F d = None"
    using loop_parent [OF assms(1-3) s1(1) free s1(2) ps(4,5) s1(3), of E T found wt "[lfd p]"] by blast
  then show ?thesis
    using first order(2)
    by (intro exI [of _ d] exI [of _ s'])
      (simp add: Ppopen_pipeline_def order_def [symmetric] order(1) run_simps ps(1))
qed

lemma pipeline_order:
  fixes P :: "'w procapi"
  assumes "(if mode = ''w'' then rev ns else ns) = t # ts"
  shows "Ppopen_pipeline E T P (map Argv ns) mode None s =
    bnd (Ppopen E T P (Argv t) mode None) (pipeline_loop E T P mode None (map Argv ts)) s"
proof -
  have "(if mode = ''w'' then rev (map Argv ns) else map Argv ns) = (Argv t # map Argv ts :: 'w task list)"
    using assms by (simp add: rev_map split: if_splits)
  then show ?thesis by (simp only: Ppopen_pipeline_def Let_def list.case list.sel)
qed

text \<open>The stage that is the first child, and one that is a child after its parent went through the loop.\<close>

lemma first_stage:
  assumes "good_pick pick" "mode = ''r'' \<or> mode = ''w''" "pick (fds (world s)) = Some (a, b)"
    and "outcomes (world s) = 0 # rest" "fds (world s) (out_fd mode) \<noteq> None" "command E (tabs s t) ws"
  shows "\<exists>s'. bnd (Ppopen E T (kernel pick found wt) (Argv t) mode None) f s =
      Err (if found (cstr (hd ws)) then Replaced else Exits 2) s' \<and>
    execs (world s') = execs (world s) @ [(cstr (hd ws), argv_strings ws)] \<and>
    fds (world s') = stage_fds mode (npipes (world s)) 0 (fds (world s))"
proof -
  let ?K = "kernel pick found wt" and ?s = "child_state mode rest s"
  let ?args = "[lfd (if mode = ''r'' then b else a), lfd (in_fd mode), lfd (out_fd mode)]"
  obtain e s' where "Pexecx E T ?K (Argv t) ?args ?s = Err e s'" "Ppopen E T ?K (Argv t) mode None s = Err e s'"
    using popen_child [OF assms(1-5), of E T found wt "Argv t"] by blast
  moreover have "command E (tabs ?s t) ws"
    using assms(6) by (simp add: child_state_def)
  ultimately show ?thesis
    using execx_command [of E ?s t ws T pick found wt ?args]
    by (auto simp: run_simps child_state_def stage_fds_def)
qed

lemma later_stage:
  assumes "good_pick pick" "mode = ''r'' \<or> mode = ''w''" "room pick (fds (world s))" "pick (fds (world s)) = Some (a, b)"
    and "outcomes (world s) = p # (qs @ 0 # rest)" "fds (world s) (out_fd mode) \<noteq> None" "fds (world s) (in_fd mode) \<noteq> None"
    and "list_all (\<lambda>p. p \<noteq> 0 \<and> p \<noteq> -1) (p # qs)" "length qs < length ts" "command E (tabs s (ts ! length qs)) ws"
  shows "\<exists>s'. bnd (Ppopen E T (kernel pick found wt) (Argv t) mode None)
        (pipeline_loop E T (kernel pick found wt) mode None (map Argv ts)) s =
      Err (if found (cstr (hd ws)) then Replaced else Exits 2) s' \<and>
    execs (world s') = execs (world s) @ [(cstr (hd ws), argv_strings ws)] \<and>
    fds (world s') = stage_fds mode (npipes (world s)) (Suc (length qs)) (fds (world s))"
proof -
  let ?K = "kernel pick found wt" and ?F = "fds (world s)" and ?m = "npipes (world s)"
  have p: "p \<noteq> 0" "p \<noteq> -1" and qs: "list_all (\<lambda>p. p \<noteq> 0 \<and> p \<noteq> -1) qs"
    using assms(8) by simp_all
  define c where "c = (if mode = ''r'' then a else b)"
  have free: "?F c = None" using pick_end [OF assms(1,4)] by (simp only: c_def)
  define s1 where "s1 = s\<lparr>world := (world s)\<lparr>fds := ?F(c \<mapsto> parent_end mode ?m), npipes := Suc ?m,
      outcomes := qs @ 0 # rest\<rparr>\<rparr>"
  have first: "Ppopen E T ?K (Argv t) mode None s = Ok \<lparr>pids = [lfd p], fd = lfd c\<rparr> s1"
    unfolding s1_def c_def by (rule popen_parent [OF assms(1,2,4,5) p])
  have s1: "fds (world s1) = ?F(c \<mapsto> parent_end mode ?m)" "outcomes (world s1) = qs @ 0 # rest"
      "npipes (world s1) = Suc ?m" "tabs s1 = tabs s" "execs (world s1) = execs (world s)"
    by (simp_all add: s1_def)
  have len: "length qs < length (map Argv ts)" using assms(9) by simp
  obtain e s2 s' where child: "pipeline_loop E T ?K mode None (map Argv ts) \<lparr>pids = [lfd p], fd = lfd c\<rparr> s1 = Err e s'"
    "Pexecx E T ?K (map Argv ts ! length qs) [] s2 = Err e s'"
    "fds (world s2) = stage_fds mode ?m (Suc (length qs)) ?F" "tabs s2 = tabs s1"
    "execs (world s2) = execs (world s1)"
    using parent_then_child [OF assms(1-3) s1(1) free assms(6,7) s1(2) len qs s1(3), of E T found wt "[lfd p]"]
    by blast
  have "command E (tabs s2 (ts ! length qs)) ws"
    using assms(10) by (simp add: child(4) s1(4))
  from execx_command [OF this, of T pick found wt "[]"] child s1(5) assms(9) show ?thesis
    by (auto simp: run_simps first)
qed

text \<open>
  Property C29: every stage of a pipeline of commands runs between its two neighbours.  In the process of
  stage \<open>k\<close> (counted in the order of starting, from the end in mode \<open>w\<close>) the program of its command
  runs with the words of the command, its output is the pipe it was started with, its input the pipe of
  the stage before (the first keeps the input it had), and no other descriptor differs from those of
  the caller before; the stages before it are already running.
\<close>

theorem pipeline_stage:
  assumes "good_pick pick" "mode = ''r'' \<or> mode = ''w''" "room pick (fds (world s))"
    and "fds (world s) (out_fd mode) \<noteq> None" "fds (world s) (in_fd mode) \<noteq> None"
    and "outcomes (world s) = ps @ 0 # rest" "list_all (\<lambda>p. p \<noteq> 0 \<and> p \<noteq> -1) ps" "length ps < length ns"
    and "command E (tabs s ((if mode = ''w'' then rev ns else ns) ! length ps)) ws"
  shows "\<exists>s'. Ppopen_pipeline E T (kernel pick found wt) (map Argv ns) mode None s =
      Err (if found (cstr (hd ws)) then Replaced else Exits 2) s' \<and>
    execs (world s') = execs (world s) @ [(cstr (hd ws), argv_strings ws)] \<and>
    fds (world s') = stage_fds mode (npipes (world s)) (length ps) (fds (world s))"
proof -
  obtain a b where ab: "pick (fds (world s)) = Some (a, b)"
    using assms(3) unfolding room_def by (metis not_None_eq surj_pair)
  have "length (if mode = ''w'' then rev ns else ns) = length ns" by simp
  then obtain t ts where ts: "(if mode = ''w'' then rev ns else ns) = t # ts" "length ps \<le> length ts"
    using assms(8) by (cases "if mode = ''w'' then rev ns else ns") auto
  note cmd = assms(9) [unfolded ts(1)]
  show ?thesis
  proof (cases ps)
    case Nil
    then have "outcomes (world s) = 0 # rest" "command E (tabs s t) ws" using assms(6) cmd by simp_all
    then show ?thesis
      unfolding pipeline_order [OF ts(1)] Nil list.size using first_stage [OF assms(1,2) ab _ assms(4)] by blast
  next
    case (Cons p qs)
    then have "outcomes (world s) = p # (qs @ 0 # rest)" "list_all (\<lambda>p. p \<noteq> 0 \<and> p \<noteq> -1) (p # qs)"
      "length qs < length ts" "command E (tabs s (ts ! length qs)) ws"
      using assms(6,7) ts(2) cmd by simp_all
    from later_stage [OF assms(1-3) ab this(1) assms(4,5) this(2-4)]
    show ?thesis unfolding pipeline_order [OF ts(1)] Cons by simp
  qed
qed


section \<open>pclose and spawn\<close>

text \<open>What \<open>wait\<close> for one child returns; a number that was not collected is an error triple.\<close>

definition wait_values :: "env \<Rightarrow> wait_macros \<Rightarrow> (cint \<times> cint) \<Rightarrow> cint \<Rightarrow> lvalue list" where
  "wait_values E M r e =
     (if fst r = -1 then error_values E None e
      else LInt (of_cint (fst r)) # fate_values (fate_of M (fst r) (snd r)))"

lemma wait_run:
  assumes "c p 0 (errno s) (world s) = (r, e, w)"
  shows "call_c (Pwait E M c) [lfd p] s = Ok (wait_values E M r e) (s\<lparr>errno := e, world := w\<rparr>)"
proof -
  have "args_wait E [lfd p] = Inr (p, 0)"
    by (simp add: args_wait_def accepted at_simps type_of_def less_eq_ltype_def)
  then show ?thesis
    using Pwait_accepted [of E "[lfd p]" p 0 c s "fst r" "snd r" e w M] assms by (simp add: wait_values_def)
qed

text \<open>The calls of \<open>pclose\<close>, as a run of the kernel: the results of \<open>waitpid\<close> for each child in order.\<close>

fun waits :: "(cint \<Rightarrow> cint \<Rightarrow> ('w, cint \<times> cint) sys) \<Rightarrow> cint list \<Rightarrow> cint \<Rightarrow> 'w \<Rightarrow> cint \<times> 'w" where
  "waits c [] e w = (e, w)"
| "waits c (p # ps) e w = (case c p 0 e w of (r, e', w') \<Rightarrow> waits c ps e' w')"

lemma wait_all:
  assumes "\<And>p s. f (lfd p) s = (case c p 0 (errno s) (world s) of (r, e, w) \<Rightarrow> Ok () (s\<lparr>errno := e, world := w\<rparr>))"
  shows "for_each (map lfd ps) f s =
    (case waits c ps (errno s) (world s) of (e, w) \<Rightarrow> Ok () (s\<lparr>errno := e, world := w\<rparr>))"
proof (induction ps arbitrary: s)
  case (Cons p ps)
  obtain r e w where "c p 0 (errno s) (world s) = (r, e, w)" by (metis surj_pair)
  then show ?case by (simp add: run_simps assms Cons)
qed (simp add: run_simps)

lemma wait_one:
  "thn (call_c (Pwait E M c) [lfd p]) (ret ()) s =
     (case c p 0 (errno s) (world s) of (r, e, w) \<Rightarrow> Ok () (s\<lparr>errno := e, world := w\<rparr>))"
proof -
  obtain r e w where "c p 0 (errno s) (world s) = (r, e, w)" by (metis surj_pair)
  then show ?thesis by (simp add: run_simps wait_run)
qed

text \<open>
  \<open>pclose\<close> closes the parent's end first, so that a reader sees the end of the file, then waits for all
  children in the order in which they were started and reports on the last one.
\<close>

lemma pclose_run:
  assumes "os_close P a (errno s) (world s) = (i, e0, w0)"
    and "waits (os_waitpid P) ps e0 w0 = (e1, w1)" "os_waitpid P p 0 e1 w1 = (r, e, w)"
  shows "Ppclose E M P \<lparr>pids = map lfd (ps @ [p]), fd = lfd a\<rparr> s =
    Ok [argn 2 (wait_values E M r e), argn 3 (wait_values E M r e)] (s\<lparr>errno := e, world := w\<rparr>)"
proof -
  have "call_c (Pclose E (os_close P)) [lfd a] s =
      Ok (result_values E None i e0) (s\<lparr>errno := e0, world := w0\<rparr>)"
    using assms(1) by (simp add: close_call.runs args_fd_def arg_defs at_simps)
  moreover have "argn (Suc (length ps)) (map lfd ps @ [lfd p]) = lfd p"
    by (simp add: argn_def nth_append)
  moreover note wait_all [where f = "\<lambda>pid. thn (call_c (Pwait E M (os_waitpid P)) [pid]) (ret ())" and
      c = "os_waitpid P" and ps = ps, OF wait_one]
  ultimately show ?thesis
    using assms(2,3) by (simp add: Ppclose_def bnd_def thn_def [of "call_c _ _"] thn_def [of "for_each _ _"]
        ret_def wait_run)
qed

lemma spawn_parent:
  assumes "os_fork P (errno s) (world s) = (p, e0, w0)" "p \<noteq> 0" "p \<noteq> -1"
    and "os_waitpid P p 0 e0 w0 = (r, e, w)"
  shows "Pspawn E T M P task args s =
    Ok [argn 3 (wait_values E M r e), argn 2 (wait_values E M r e)] (s\<lparr>errno := e, world := w\<rparr>)"
proof -
  have "call_c (Pfork E (os_fork P)) [] s = Ok [lfd p] (s\<lparr>errno := e0, world := w0\<rparr>)"
    using assms(1,3) by (simp add: fork_call.runs args_none_def arg_defs result_values_def)
  then show ?thesis
    using assms(2,4) by (simp add: Pspawn_def run_simps lfd_0 wait_run)
qed

lemma spawn_child:
  assumes "os_fork P (errno s) (world s) = (0, e, w)"
  shows "\<exists>x s'. Pexecx E T P task args (s\<lparr>errno := e, world := w\<rparr>) = Err x s' \<and>
    Pspawn E T M P task args s = Err x s'"
proof -
  have "call_c (Pfork E (os_fork P)) [] s = Ok [LInt 0] (s\<lparr>errno := e, world := w\<rparr>)"
    using assms by (simp add: fork_call.runs args_none_def arg_defs result_values_def)
  moreover obtain x s' where "Pexecx E T P task args (s\<lparr>errno := e, world := w\<rparr>) = Err x s'"
    using execx_never_returns by blast
  ultimately show ?thesis by (simp add: Pspawn_def run_simps Let_def)
qed

lemma spawn_fails:
  assumes "os_fork P (errno s) (world s) = (-1, e, w)"
  shows "Pspawn E T M P task args s =
    Ok [LInt (of_cint e), LStr (cstr (errmsg E None e))] (s\<lparr>errno := e, world := w\<rparr>)"
  using assms
  by (simp add: Pspawn_def run_simps fork_call.runs args_none_def arg_defs result_values_def error_values_def)

section \<open>A process with three open files\<close>

definition sample_pick :: "(cint \<Rightarrow> fobj option) \<Rightarrow> (cint \<times> cint) option" where
  "sample_pick f = (case filter (\<lambda>i. f i = None) [3, 4, 5, 6] of a # b # _ \<Rightarrow> Some (a, b) | _ \<Rightarrow> None)"

definition sample_files :: "cint \<Rightarrow> fobj option" where
  "sample_files = Map.empty(0 \<mapsto> File 0, 1 \<mapsto> File 1, 2 \<mapsto> File 2)"

definition sample_process :: "cint list \<Rightarrow> kern lst" where
  "sample_process ps = (sample_state \<lparr>fds = sample_files, npipes = 0, outcomes = ps, execs = []\<rparr>)
     \<lparr>tabs := (\<lambda>a. if a = 0 then sequence [LStr ''ls''] else sequence [LStr ''wc'', LStr ''-l'']), ntab := 2\<rparr>"

lemma sample_pick_good: "good_pick sample_pick"
  unfolding good_pick_def
proof (intro allI impI)
  fix f a b
  assume "sample_pick f = Some (a, b)"
  then obtain cs where cs: "filter (\<lambda>i. f i = None) [3, 4, 5, 6] = a # b # cs"
    unfolding sample_pick_def by (auto split: list.splits simp del: filter.simps)
  have "\<forall>x\<in>set (a # b # cs). f x = None" unfolding cs [symmetric] by simp
  moreover have "distinct (a # b # cs)" unfolding cs [symmetric] by (rule distinct_filter) simp
  ultimately show "f a = None \<and> f b = None \<and> a \<noteq> b" by simp
qed

lemma sample_pick_first: "sample_pick sample_files = Some (3, 4)"
  by (simp add: sample_pick_def sample_files_def)

lemma sample_room: "room sample_pick sample_files"
  unfolding room_def by (auto simp: sample_pick_def sample_files_def)

lemma sample_process_simps:
  "fds (world (sample_process ps)) = sample_files" "npipes (world (sample_process ps)) = 0"
  "outcomes (world (sample_process ps)) = ps" "execs (world (sample_process ps)) = []"
  "tabs (sample_process ps) 0 = sequence [LStr ''ls'']"
  "tabs (sample_process ps) 1 = sequence [LStr ''wc'', LStr ''-l'']"
  by (simp_all add: sample_process_def sample_state_def)

lemma sample_commands:
  "command sample_env (tabs (sample_process ps) 0) [''ls'']"
  "command sample_env (tabs (sample_process ps) 1) [''wc'', ''-l'']"
  by (simp_all add: command_def sample_process_def)

lemma sample_words: "cstr ''wc'' = ''wc''" "cstr ''-l'' = ''-l''" "cstr ''ls'' = ''ls''"
  by (simp_all add: cstr_def NUL_def)

lemma sample_std: "sample_files 0 = Some (File 0)" "sample_files 1 = Some (File 1)"
  by (simp_all add: sample_files_def)

definition no_children :: "cint \<Rightarrow> cint \<Rightarrow> (kern, cint \<times> cint) sys" where
  "no_children p n e w = ((-1, 0), 10, w)"

definition sample_kernel :: "kern procapi" where
  "sample_kernel = kernel sample_pick (\<lambda>p. True) no_children"

theorem popen_wires_witness:
  "\<exists>s'. Ppopen sample_env sample_texts sample_kernel (Argv 1) ''r'' None (sample_process [0]) =
      Err Replaced s' \<and>
    execs (world s') = [(''wc'', [Some ''wc'', Some ''-l'', None])] \<and>
    fds (world s') = sample_files(1 \<mapsto> WriteEnd 0)"
proof -
  have "outcomes (world (sample_process [0])) = 0 # []" "sample_pick (fds (world (sample_process [0]))) = Some (3, 4)"
    "fds (world (sample_process [0])) (out_fd ''r'') \<noteq> None"
    by (simp_all add: sample_process_simps sample_pick_first sample_std out_fd_def)
  from popen_wires [OF sample_pick_good _ this(2,1) _ this(3) sample_commands(2), of sample_texts "\<lambda>p. True" no_children, folded sample_kernel_def]
  show ?thesis
    by (simp add: sample_process_simps argv_strings_def sample_words out_fd_def child_end_def)
qed

theorem pipeline_parent_witness:
  "\<exists>d s'. Ppopen_pipeline sample_env sample_texts sample_kernel [Argv 0, Argv 1] ''r'' None
      (sample_process [7, 8]) = Ok \<lparr>pids = [LInt 7, LInt 8], fd = lfd d\<rparr> s' \<and>
    fds (world s') = sample_files(d \<mapsto> ReadEnd 1) \<and> sample_files d = None"
proof -
  have "outcomes (world (sample_process [7, 8])) = [7, 8] @ []"
    "room sample_pick (fds (world (sample_process [7, 8])))"
    by (simp_all add: sample_process_simps sample_room)
  from pipeline_parent [OF sample_pick_good _ this(2,1), of "''r''" "[Argv 0, Argv 1]" sample_env sample_texts "\<lambda>p. True" no_children,
      folded sample_kernel_def]
  show ?thesis
    by (simp add: sample_process_simps parent_end_def of_cint_def)
qed

theorem pipeline_stage_witness:
  "\<exists>s'. Ppopen_pipeline sample_env sample_texts sample_kernel [Argv 0, Argv 1] ''r'' None
      (sample_process [7, 0]) = Err Replaced s' \<and>
    execs (world s') = [(''wc'', [Some ''wc'', Some ''-l'', None])] \<and>
    fds (world s') = sample_files(1 \<mapsto> WriteEnd 1, 0 \<mapsto> ReadEnd 0)"
proof -
  let ?s = "sample_process [7, 0]"
  have o: "outcomes (world ?s) = [7] @ 0 # []" and r: "room sample_pick (fds (world ?s))"
    and std: "fds (world ?s) (out_fd ''r'') \<noteq> None" "fds (world ?s) (in_fd ''r'') \<noteq> None"
    and c: "command sample_env (tabs ?s ((if ''r'' = ''w'' then rev [0, 1] else [0, 1]) ! length [7])) [''wc'', ''-l'']"
    by (simp_all add: sample_process_simps sample_room sample_std out_fd_def in_fd_def sample_commands [simplified])
  from pipeline_stage [OF sample_pick_good _ r std o _ _ c, of sample_texts "\<lambda>p. True" no_children, folded sample_kernel_def] show ?thesis
    by (simp add: sample_process_simps argv_strings_def sample_words out_fd_def in_fd_def child_end_def
        parent_end_def stage_fds_def)
qed

end
