(* ===== verification/Poll.thy ===== *)
theory Poll
  imports Arrays Modules
begin

text \<open>
  \<^verbatim>\<open>ext/posix/poll.c\<close>: the table of file descriptors is checked, copied to an array of
  \<open>struct pollfd\<close>, and the returned events are copied back.  The array has 16 entries on the C
  stack or as many as the table; a write past it is undefined behaviour, which the theorems
  exclude.  The bits of \<^verbatim>\<open>poll.h\<close> are a parameter.
\<close>

record poll_bits =
  POLLIN :: cshort
  POLLPRI :: cshort
  POLLOUT :: cshort
  POLLERR :: cshort
  POLLHUP :: cshort
  POLLNVAL :: cshort

record pollfd =
  fd :: cint
  events :: cshort
  revents :: cshort

definition poll_event_map :: "poll_bits \<Rightarrow> (cshort \<times> string) list" where
  "poll_event_map B = [(POLLIN B, ''IN''), (POLLPRI B, ''PRI''), (POLLOUT B, ''OUT''),
     (POLLERR B, ''ERR''), (POLLHUP B, ''HUP''), (POLLNVAL B, ''NVAL'')]"

text \<open>\<open>if (table < 0) table = lua_gettop(L) + table + 1\<close>\<close>

definition absolute :: "int \<Rightarrow> nat \<Rightarrow> int" where
  "absolute table n = (if table < 0 then int n + table + 1 else table)"

definition poll_events_createtable :: "('w, unit) lm" where
  "poll_events_createtable = lua_createtable"

fun from_table_loop :: "env \<Rightarrow> int \<Rightarrow> (cshort \<times> string) list \<Rightarrow> cshort \<Rightarrow> ('w, cshort) lm" where
  "from_table_loop E table [] evs = ret evs"
| "from_table_loop E table ((ev, name) # m) evs =
     thn (lua_getfield E table name)
    (bnd (lua_toboolean (-1)) (\<lambda>b.
     thn (lua_pop 1)
         (from_table_loop E table m (if b then evs OR ev else evs))))"

definition poll_events_from_table :: "env \<Rightarrow> poll_bits \<Rightarrow> int \<Rightarrow> ('w, cshort) lm" where
  "poll_events_from_table E B table =
     bnd lua_gettop (\<lambda>n. from_table_loop E (absolute table n) (poll_event_map B) 0)"

definition poll_events_to_table :: "poll_bits \<Rightarrow> int \<Rightarrow> cshort \<Rightarrow> ('w, unit) lm" where
  "poll_events_to_table B table evs =
     bnd lua_gettop (\<lambda>n.
     for_each (poll_event_map B) (\<lambda>(ev, name).
       thn (lua_pushboolean (evs AND ev \<noteq> 0)) (lua_setfield (absolute table n) name)))"

text \<open>The checks on one entry, with the number of entries seen so far.\<close>

definition poll_fd_check_entry :: "env \<Rightarrow> int \<Rightarrow> lint \<Rightarrow> ('w, lint) lm" where
  "poll_fd_check_entry E table fd_num =
     bnd (lua_isinteger (-2)) (\<lambda>c.
     thn (luaL_argcheck c table ''contains non-integer key(s)'')
    (bnd (lua_istable (-1)) (\<lambda>c.
     thn (luaL_argcheck c table ''contains non-table value(s)'')
    (thn (lua_getfield E (-1) ''events'')
    (bnd (lua_istable (-1)) (\<lambda>c.
     thn (luaL_argcheck c table ''contains invalid value table(s)'')
    (thn (lua_pop 1)
    (thn (lua_getfield E (-1) ''revents'')
    (bnd (lua_isnil (-1)) (\<lambda>n.
     bnd (lua_istable (-1)) (\<lambda>c.
     thn (luaL_argcheck (n \<or> c) table ''contains invalid value table(s)'')
    (thn (lua_pop 1)
    (thn (lua_pop 1)
     (ret (fd_num + 1)))))))))))))))"

definition poll_fd_list_check_table :: "env \<Rightarrow> int \<Rightarrow> ('w, lint) lm" where
  "poll_fd_list_check_table E table =
     thn (luaL_checktype table TTABLE) (table_loop 1 (poll_fd_check_entry E table) 0)"

text \<open>
  \<open>cap\<close> is the number of entries of the array, \<open>garbage\<close> the indeterminate \<open>revents\<close> members.
\<close>

definition fd_item :: "env \<Rightarrow> poll_bits \<Rightarrow> (nat \<Rightarrow> cshort) \<Rightarrow> nat \<Rightarrow> pollfd list \<Rightarrow> ('w, pollfd list) lm" where
  "fd_item E B garbage cap fds =
     (if cap \<le> length fds then raise (Undefined ''write past fd_list'')
       else bnd (lua_tointeger E (-2)) (\<lambda>k.
        thn (lua_getfield E (-1) ''events'')
       (bnd (poll_events_from_table E B (-1)) (\<lambda>evs.
        thn (lua_pop 1)
       (thn (lua_pop 1)
        (ret (fds @ [\<lparr>fd = to_cint k, events = evs, revents = garbage (length fds)\<rparr>])))))))"

definition poll_fd_list_from_table ::
  "env \<Rightarrow> poll_bits \<Rightarrow> (nat \<Rightarrow> cshort) \<Rightarrow> nat \<Rightarrow> int \<Rightarrow> ('w, pollfd list) lm" where
  "poll_fd_list_from_table E B garbage cap table =
     bnd lua_gettop (\<lambda>n. table_loop (absolute table n) (fd_item E B garbage cap) [])"

definition revents_item :: "env \<Rightarrow> poll_bits \<Rightarrow> pollfd list \<Rightarrow> ('w, pollfd list) lm" where
  "revents_item E B rest = (case rest of
       [] \<Rightarrow> raise (Undefined ''read past fd_list'')
     | p # rest' \<Rightarrow>
        thn (lua_getfield E (-1) ''revents'')
       (bnd (lua_isnil (-1)) (\<lambda>n.
        thn (when_do n (seq [lua_pop 1, poll_events_createtable, lua_pushvalue (-1),
                             lua_setfield (-3) ''revents'']))
       (thn (poll_events_to_table B (-1) (revents p))
       (thn (lua_pop 1)
       (thn (lua_pop 1)
        (ret rest')))))))"

definition poll_fd_list_to_table :: "env \<Rightarrow> poll_bits \<Rightarrow> pollfd list \<Rightarrow> ('w, unit) lm" where
  "poll_fd_list_to_table E B fds = bnd (table_loop 1 (revents_item E B) fds) (\<lambda>_. ret ())"

text \<open>More than 16 descriptors are stored in a userdata, which stays on the stack.\<close>

definition Ppoll ::
  "env \<Rightarrow> poll_bits \<Rightarrow> (nat \<Rightarrow> cshort) \<Rightarrow>
   (pollfd list \<Rightarrow> lint \<Rightarrow> cint \<Rightarrow> ('w, cint \<times> pollfd list) sys) \<Rightarrow> ('w, nat) lm" where
  "Ppoll E B garbage c_poll =
     bnd (poll_fd_list_check_table E 1) (\<lambda>fd_num.
     bnd (optint E 2 (-1)) (\<lambda>timeout.
     thn (checknargs 2)
    (bnd (if fd_num \<le> 16 then ret 16
          else bnd (lua_newuserdata URaw) (\<lambda>_. ret (unat fd_num))) (\<lambda>cap.
     bnd (poll_fd_list_from_table E B garbage cap 1) (\<lambda>fds.
     bnd (sys (c_poll fds fd_num timeout)) (\<lambda>res.
     let r = fst res in
     thn (when_do (0 <s r) (poll_fd_list_to_table E B (snd res)))
         (pushresult E r None)))))))"

definition Prpoll ::
  "env \<Rightarrow> poll_bits \<Rightarrow> cshort \<Rightarrow> (pollfd list \<Rightarrow> lint \<Rightarrow> cint \<Rightarrow> ('w, cint \<times> pollfd list) sys) \<Rightarrow>
   ('w, nat) lm" where
  "Prpoll E B garbage c_poll =
     bnd (checkint E 1) (\<lambda>file.
     bnd (checkint E 2) (\<lambda>timeout.
     thn (checknargs 2)
    (bnd (sys (c_poll [\<lparr>fd = file, events = POLLIN B, revents = garbage\<rparr>] 1 timeout)) (\<lambda>r.
     pushresult E (fst r) None))))"

section \<open>Event sets\<close>

text \<open>The mask of a table of events, and the entries that describe a mask.\<close>

definition events_mask :: "poll_bits \<Rightarrow> ltable \<Rightarrow> cshort" where
  "events_mask B t =
     foldl (\<lambda>m (ev, name). if truthy (tbl_get t (LStr name)) then m OR ev else m) 0 (poll_event_map B)"

definition mask_entries :: "poll_bits \<Rightarrow> cshort \<Rightarrow> (string \<times> lvalue) list" where
  "mask_entries B m = map (\<lambda>(ev, name). (name, LBool (m AND ev \<noteq> 0))) (poll_event_map B)"

definition all_events :: "poll_bits \<Rightarrow> cshort" where
  "all_events B = foldl (\<lambda>m (ev, name). m OR ev) 0 (poll_event_map B)"

text \<open>Each event is one bit of its own.\<close>

definition single_bits :: "poll_bits \<Rightarrow> bool" where
  "single_bits B \<longleftrightarrow> (\<exists>f. map fst (poll_event_map B) = map (\<lambda>i. push_bit (f i) 1) [0::nat..<6] \<and>
     (\<forall>i<6. f i < 16) \<and> inj_on f {..<6})"

lemma event_names_distinct: "distinct (map snd (poll_event_map B))"
  by (simp add: poll_event_map_def)

lemma mask_entry:
  "(ev, name) \<in> set (poll_event_map B) \<Longrightarrow>
   tbl_get (tbl.put_all t (named (mask_entries B m))) (LStr name) = LBool (m AND ev \<noteq> 0)"
  by (rule tbl.get_put_all)
    (force simp: distinct_named mask_entries_def named_def poll_event_map_def)+

lemma single_bit_and: "(m :: cshort) AND push_bit n 1 \<noteq> 0 \<longleftrightarrow> bit m n"
  by (simp only: bit_iff_and_push_bit_not_eq_0)

lemma mask_or:
  assumes "n < 16"
  shows "(if bit m n then (x::cshort) OR push_bit n 1 else x) = x OR (m AND push_bit n 1)"
  using assms by (auto intro!: bit_eqI simp: bit_simps)

lemma from_table_loop_run:
  "at i (stk s) = Some (LTab a) \<Longrightarrow> 0 < i \<Longrightarrow>
   from_table_loop E i m x s =
     Ok (foldl (\<lambda>y (b, name). if truthy (tbl_get (tabs s a) (LStr name)) then y OR b else y) x m) s"
proof (induction m arbitrary: x)
  case (Cons e m)
  then show ?case by (cases e) (simp add: run_simps lua_getfield_run stk_self)
qed (simp add: run_simps)

lemma poll_events_from_table_run:
  assumes "stk s = xs @ [LTab a]"
  shows "poll_events_from_table E B (-1) s = Ok (events_mask B (tabs s a)) s"
proof -
  have "at (int (length (stk s)) + (-1) + 1) (stk s) = Some (LTab a)"
    using assms by simp
  then show ?thesis using assms
    by (simp add: poll_events_from_table_def run_simps absolute_def from_table_loop_run events_mask_def)
qed

lemma poll_events_to_table_run:
  assumes "stk s = xs @ [LTab a]"
  shows "poll_events_to_table B (-1) m s =
    Ok () (set_tab a (tbl.put_all (tabs s a) (named (mask_entries B m))) s)"
proof -
  let ?i = "int (length (stk s))"
  have at: "at ?i (stk s) = Some (LTab a)" "0 < ?i"
    using assms by simp_all
  have "poll_events_to_table B (-1) m s = set_fields_at ?i (mask_entries B m) s"
    using assms
    by (simp add: poll_events_to_table_def run_simps absolute_def set_fields_at_def mask_entries_def
        poll_event_map_def)
  with set_fields_at_run [OF at(2,1)] show ?thesis by simp
qed

section \<open>The table of descriptors\<close>

text \<open>What is wrong with an entry, and the first complaint about a table.\<close>

definition fd_complaint :: "(nat \<Rightarrow> ltable) \<Rightarrow> lvalue \<Rightarrow> lvalue \<Rightarrow> string option" where
  "fd_complaint T k v = (case k of
      LInt _ \<Rightarrow> (case v of
         LTab b \<Rightarrow>
           (let r = tbl_get (T b) (LStr ''revents'') in
            if vtype (tbl_get (T b) (LStr ''events'')) \<noteq> TTABLE \<or> (r \<noteq> LNil \<and> vtype r \<noteq> TTABLE)
            then Some ''contains invalid value table(s)'' else None)
       | _ \<Rightarrow> Some ''contains non-table value(s)'')
    | _ \<Rightarrow> Some ''contains non-integer key(s)'')"

fun list_complaint :: "(nat \<Rightarrow> ltable) \<Rightarrow> ltable \<Rightarrow> string option" where
  "list_complaint T [] = None"
| "list_complaint T ((k, v) # es) =
     (case fd_complaint T k v of Some c \<Rightarrow> Some c | None \<Rightarrow> list_complaint T es)"

lemma fd_complaint_None:
  "fd_complaint T k v = None \<longleftrightarrow> (\<exists>n b e. k = LInt n \<and> v = LTab b \<and>
     tbl_get (T b) (LStr ''events'') = LTab e \<and>
     (tbl_get (T b) (LStr ''revents'') = LNil \<or> (\<exists>r. tbl_get (T b) (LStr ''revents'') = LTab r)))"
  by (auto simp: fd_complaint_def Let_def vtype_table split: lvalue.splits if_splits)

lemma list_complaint_None:
  "list_complaint T t = None \<longleftrightarrow> (\<forall>(k, v) \<in> set t. fd_complaint T k v = None)"
  by (induction T t rule: list_complaint.induct) (auto split: option.splits)

lemma is_int_at [simp]: "(case Some k of Some (LInt x) \<Rightarrow> True | _ \<Rightarrow> False) = (\<exists>n. k = LInt n)"
  by (cases k) auto

lemma check_table_run:
  assumes "at 1 (stk s) = Some (LTab a)" "wf_table (tabs s a)"
  shows "poll_fd_list_check_table E 1 s = (case list_complaint (tabs s) (tabs s a) of
      None \<Rightarrow> Ok (of_nat (length (tabs s a))) s | Some c \<Rightarrow> arg_error 1 c s)"
proof -
  define T where "T = tabs s"
  define f :: "lint \<Rightarrow> lvalue \<Rightarrow> lvalue \<Rightarrow> ('a, lint) lm" where
    "f = (\<lambda>n k v s. case fd_complaint T k v of None \<Rightarrow> Ok (n + 1) s | Some c \<Rightarrow> arg_error 1 c s)"
  have fold: "fold_entries f t n s' = (case list_complaint T t of
      None \<Rightarrow> Ok (n + of_nat (length t)) s' | Some c \<Rightarrow> arg_error 1 c s')" for t n s'
  proof (induction t arbitrary: n)
    case (Cons e t)
    then show ?case by (cases e) (auto simp: f_def run_simps ac_simps split: option.splits)
  qed (simp add: run_simps)
  have "entry_body (poll_fd_check_entry E 1) f a (tabs s a) (stk s) (\<lambda>s'. tabs s' = T)"
    unfolding entry_body_def
  proof (intro allI impI)
    fix x k v and s' :: "'a lst"
    assume "(k, v) \<in> set (tabs s a) \<and> stk s' = stk s \<and> tabs s' a = tabs s a \<and> tabs s' = T"
    then show "case f x k v s' of
        Ok x' s'' \<Rightarrow> poll_fd_check_entry E 1 x (s'\<lparr>stk := stk s @ [k, v]\<rparr>) =
          Ok x' (s''\<lparr>stk := stk s @ [k]\<rparr>) \<and> stk s'' = stk s \<and> tabs s'' a = tabs s a \<and> tabs s'' = T
      | Err e s'' \<Rightarrow> poll_fd_check_entry E 1 x (s'\<lparr>stk := stk s @ [k, v]\<rparr>) = Err e s''"
      by (cases k; cases v)
        (auto simp: f_def fd_complaint_def poll_fd_check_entry_def run_simps type_of_def Let_def
          lua_getfield_run vtype_table vtype_nil split: if_splits option.splits)
  qed
  then have "table_loop 1 (poll_fd_check_entry E 1) 0 s = fold_entries f (tabs s a) 0 s"
    by (rule table_loop_run) (use assms T_def in auto)
  with assms(1) show ?thesis
    by (simp add: poll_fd_list_check_table_def run_simps type_of_def fold T_def split: option.splits)
qed

text \<open>The array: one \<open>struct pollfd\<close> per entry, in the order of the traversal.\<close>

definition events_table :: "(nat \<Rightarrow> ltable) \<Rightarrow> lvalue \<Rightarrow> ltable" where
  "events_table T v = (case v of
      LTab b \<Rightarrow> (case tbl_get (T b) (LStr ''events'') of LTab e \<Rightarrow> T e | _ \<Rightarrow> [])
    | _ \<Rightarrow> [])"

definition pollfd_of :: "poll_bits \<Rightarrow> (nat \<Rightarrow> cshort) \<Rightarrow> (nat \<Rightarrow> ltable) \<Rightarrow> nat \<Rightarrow> lvalue \<times> lvalue \<Rightarrow> pollfd" where
  "pollfd_of B garbage T n kv =
     \<lparr>fd = (case fst kv of LInt i \<Rightarrow> to_cint i | _ \<Rightarrow> 0),
      events = events_mask B (events_table T (snd kv)), revents = garbage n\<rparr>"

definition fds_of :: "poll_bits \<Rightarrow> (nat \<Rightarrow> cshort) \<Rightarrow> (nat \<Rightarrow> ltable) \<Rightarrow> ltable \<Rightarrow> pollfd list" where
  "fds_of B garbage T t = map (\<lambda>(n, kv). pollfd_of B garbage T n kv) (List.enumerate 0 t)"

lemma fd_item_run:
  assumes "stk s = xs @ [k, v]" "fd_complaint (tabs s) k v = None" "length fds < cap"
  shows "fd_item E B garbage cap fds s =
    Ok (fds @ [pollfd_of B garbage (tabs s) (length fds) (k, v)]) (s\<lparr>stk := xs @ [k]\<rparr>)"
proof -
  obtain n b e where kv: "k = LInt n" "v = LTab b" "tbl_get (tabs s b) (LStr ''events'') = LTab e"
    using assms(2) by (auto simp: fd_complaint_None)
  have ev: "poll_events_from_table E B (-1) (s\<lparr>stk := xs @ [k, v, LTab e]\<rparr>) =
      Ok (events_mask B (tabs s e)) (s\<lparr>stk := xs @ [k, v, LTab e]\<rparr>)"
    using poll_events_from_table_run [of "s\<lparr>stk := xs @ [k, v, LTab e]\<rparr>" "xs @ [k, v]" e E B] by simp
  show ?thesis
    using assms(1,3) kv ev
    by (simp add: fd_item_def run_simps lua_getfield_run [where a = b] pollfd_of_def events_table_def)
qed

lemma fd_item_full:
  "cap \<le> length fds \<Longrightarrow> fd_item E B garbage cap fds s = raise (Undefined ''write past fd_list'') s"
  by (simp add: fd_item_def)

lemma from_table_run:
  assumes tab: "at 1 (stk s) = Some (LTab a)" "wf_table (tabs s a)"
    and ok: "list_complaint (tabs s) (tabs s a) = None" and cap: "length (tabs s a) \<le> cap"
  shows "poll_fd_list_from_table E B garbage cap 1 s = Ok (fds_of B garbage (tabs s) (tabs s a)) s"
proof -
  define T where "T = tabs s"
  define f :: "pollfd list \<Rightarrow> lvalue \<Rightarrow> lvalue \<Rightarrow> ('a, pollfd list) lm" where
    "f = (\<lambda>fds k v s'. if cap \<le> length fds then raise (Undefined ''write past fd_list'') s'
            else Ok (fds @ [pollfd_of B garbage T (length fds) (k, v)]) s')"
  have fold: "fold_entries f t fds s' =
      Ok (fds @ map (\<lambda>(n, kv). pollfd_of B garbage T n kv) (List.enumerate (length fds) t)) s'"
    if "length fds + length t \<le> cap" for t fds s'
    using that
  proof (induction t arbitrary: fds)
    case (Cons e t)
    then show ?case by (cases e) (simp add: f_def run_simps)
  qed (simp add: run_simps)
  have fine: "fd_complaint T k v = None" if "(k, v) \<in> set (tabs s a)" for k v
    using ok that by (auto simp: list_complaint_None T_def)
  have "entry_body (fd_item E B garbage cap) f a (tabs s a) (stk s) (\<lambda>s'. tabs s' = T)"
    unfolding entry_body_def
    by (auto simp: f_def raise_run fd_item_full not_le fd_item_run fine split: if_splits)
  then have "table_loop 1 (fd_item E B garbage cap) [] s = fold_entries f (tabs s a) [] s"
    by (rule table_loop_run) (use tab T_def in auto)
  with cap show ?thesis
    by (simp add: poll_fd_list_from_table_def run_simps absolute_def fold fds_of_def T_def)
qed

lemma length_fds_of [simp]: "length (fds_of B garbage T t) = length t"
  by (simp add: fds_of_def)

section \<open>Storing the returned events\<close>

text \<open>The effect of one iteration on the value table \<open>b\<close> of its entry.\<close>

definition fresh_table :: "'w lst \<Rightarrow> 'w lst" where
  "fresh_table s = s\<lparr>ntab := Suc (ntab s), tabs := (tabs s)(ntab s := []),
     metas := (metas s)(ntab s := None)\<rparr>"

definition store_revents :: "poll_bits \<Rightarrow> cshort \<Rightarrow> nat \<Rightarrow> 'w lst \<Rightarrow> 'w lst" where
  "store_revents B m b s = (case tbl_get (tabs s b) (LStr ''revents'') of
      LTab c \<Rightarrow> set_tab c (tbl.put_all (tabs s c) (named (mask_entries B m))) s
    | _ \<Rightarrow> set_tab (ntab s) (tbl.put_all [] (named (mask_entries B m)))
           (tab_update b (LStr ''revents'') (LTab (ntab s)) (fresh_table s)))"

definition revents_shape :: "(nat \<Rightarrow> ltable) \<Rightarrow> nat \<Rightarrow> bool" where
  "revents_shape T b \<longleftrightarrow> tbl_get (T b) (LStr ''revents'') = LNil \<or>
     (\<exists>c. tbl_get (T b) (LStr ''revents'') = LTab c)"

lemma fresh_table_simps [simp]:
  "ntab (fresh_table s) = Suc (ntab s)" "tabs (fresh_table s) = (tabs s)(ntab s := [])"
  "stk (fresh_table s) = stk s" "errno (fresh_table s) = errno s" "world (fresh_table s) = world s"
  "live (fresh_table s) = live s"
  by (simp_all add: fresh_table_def)

lemma store_revents_frame [simp]:
  "stk (store_revents B m b s) = stk s" "world (store_revents B m b s) = world s"
  "errno (store_revents B m b s) = errno s" "live (store_revents B m b s) = live s"
  by (auto simp: store_revents_def split: lvalue.splits)

lemma revents_item_run:
  assumes stk: "stk s = xs @ [k, LTab b]" and b: "b < ntab s" and shape: "revents_shape (tabs s) b"
  shows "revents_item E B (p # rest) s = Ok rest (store_revents B (revents p) b (s\<lparr>stk := xs @ [k]\<rparr>))"
  using shape unfolding revents_shape_def
proof
  assume nil: "tbl_get (tabs s b) (LStr ''revents'') = LNil"
  let ?c = "ntab s"
  let ?s1 = "new_table (s\<lparr>stk := xs @ [k, LTab b]\<rparr>)"
  let ?s2 = "tab_update b (LStr ''revents'') (LTab ?c) (?s1\<lparr>stk := xs @ [k, LTab b, LTab ?c]\<rparr>)"
  have set: "lua_setfield (-3) ''revents'' (?s1\<lparr>stk := xs @ [k, LTab b, LTab ?c] @ [LTab ?c]\<rparr>) = Ok () ?s2"
    using lua_setfield_run [of "?s1\<lparr>stk := xs @ [k, LTab b, LTab ?c] @ [LTab ?c]\<rparr>"
        "xs @ [k, LTab b, LTab ?c]" "LTab ?c" "-3" b "''revents''"]
    by (simp add: at_def slot_def nth_append)
  have ev: "poll_events_to_table B (-1) (revents p) ?s2 =
      Ok () (set_tab ?c (tbl.put_all [] (named (mask_entries B (revents p)))) ?s2)"
    using poll_events_to_table_run [of ?s2 "xs @ [k, LTab b]" ?c B "revents p"] b by simp
  show ?thesis
    using stk nil set ev
    by (simp add: revents_item_def run_simps lua_getfield_run [where a = b] type_of_def
        poll_events_createtable_def stk_self store_revents_def tab_update_def)
      (simp add: fresh_table_def new_table_def set_tab_def)
next
  assume "\<exists>c. tbl_get (tabs s b) (LStr ''revents'') = LTab c"
  then obtain c where c: "tbl_get (tabs s b) (LStr ''revents'') = LTab c" ..
  let ?s1 = "s\<lparr>stk := xs @ [k, LTab b, LTab c]\<rparr>"
  have ev: "poll_events_to_table B (-1) (revents p) ?s1 =
      Ok () (set_tab c (tbl.put_all (tabs s c) (named (mask_entries B (revents p)))) ?s1)"
    using poll_events_to_table_run [of ?s1 "xs @ [k, LTab b]" c B "revents p"] by simp
  show ?thesis
    using stk c ev
    by (simp add: revents_item_def run_simps lua_getfield_run [where a = b] type_of_def store_revents_def)
qed

lemma mask_entries_other:
  "k \<notin> snd ` set (poll_event_map B) \<Longrightarrow>
   tbl_get (tbl.put_all t (named (mask_entries B m))) (LStr k) = tbl_get t (LStr k)"
  by (rule tbl.get_put_all_other) (force simp: named_def mask_entries_def)

lemma revents_no_event: "''revents'' \<notin> snd ` set (poll_event_map B)"
  by (simp add: poll_event_map_def)

lemma store_revents_shape:
  "revents_shape (tabs s) b' \<Longrightarrow> revents_shape (tabs (store_revents B m b s)) b'"
  by (auto simp: revents_shape_def store_revents_def mask_entries_other revents_no_event
      split: lvalue.splits)

lemma store_revents_ntab: "ntab s \<le> ntab (store_revents B m b s)"
  by (auto simp: store_revents_def split: lvalue.splits)

fun store_all :: "poll_bits \<Rightarrow> ltable \<Rightarrow> pollfd list \<Rightarrow> 'w lst \<Rightarrow> 'w lst" where
  "store_all B ((k, LTab b) # t) (p # ps) s = store_all B t ps (store_revents B (revents p) b s)"
| "store_all B _ _ s = s"

text \<open>
  \<open>values_ok a t s\<close>: the value tables of \<open>t\<close> are tables of \<open>s\<close> other than the list \<open>a\<close>
  itself, and so are the \<open>revents\<close> tables they have.
\<close>

definition value_ok :: "nat \<Rightarrow> nat \<Rightarrow> 'w lst \<Rightarrow> bool" where
  "value_ok a b s \<longleftrightarrow> b < ntab s \<and> b \<noteq> a \<and> a < ntab s \<and>
     (tbl_get (tabs s b) (LStr ''revents'') = LNil \<or>
      (\<exists>c. tbl_get (tabs s b) (LStr ''revents'') = LTab c \<and> c \<noteq> a \<and> c < ntab s))"

definition values_ok :: "nat \<Rightarrow> ltable \<Rightarrow> 'w lst \<Rightarrow> bool" where
  "values_ok a t s \<longleftrightarrow> (\<forall>(k, v) \<in> set t. \<exists>b. v = LTab b \<and> value_ok a b s)"

lemma value_ok_store:
  "value_ok a b s \<Longrightarrow> value_ok a b' s \<Longrightarrow> value_ok a b' (store_revents B m b s)"
  by (auto simp: value_ok_def store_revents_def mask_entries_other revents_no_event
      split: lvalue.splits)

lemma values_ok_store:
  "value_ok a b s \<Longrightarrow> values_ok a t s \<Longrightarrow> values_ok a t (store_revents B m b s)"
  unfolding values_ok_def by (blast intro: value_ok_store)

lemma store_keeps_list: "value_ok a b s \<Longrightarrow> tabs (store_revents B m b s) a = tabs s a"
  by (auto simp: value_ok_def store_revents_def split: lvalue.splits)

lemma value_ok_shape: "value_ok a b s \<Longrightarrow> b < ntab s \<and> revents_shape (tabs s) b"
  by (auto simp: value_ok_def revents_shape_def)

lemma value_ok_stk [simp]: "value_ok a b (s\<lparr>stk := xs\<rparr>) = value_ok a b s"
  by (simp add: value_ok_def)

lemma store_revents_stk [simp]:
  "store_revents B m b (s\<lparr>stk := xs\<rparr>) = (store_revents B m b s)\<lparr>stk := xs\<rparr>"
  by (auto simp: store_revents_def tab_update_def set_tab_def fresh_table_def split: lvalue.splits)

lemma to_table_run:
  assumes tab: "at 1 (stk s) = Some (LTab a)" "wf_table (tabs s a)"
    and ok: "values_ok a (tabs s a) s" and len: "length (tabs s a) \<le> length fds"
  shows "poll_fd_list_to_table E B fds s = Ok () (store_all B (tabs s a) fds s)"
proof -
  define f :: "pollfd list \<Rightarrow> lvalue \<Rightarrow> lvalue \<Rightarrow> ('a, pollfd list) lm" where
    "f = (\<lambda>ps k v s'. case ps of
        [] \<Rightarrow> raise (Undefined ''read past fd_list'') s'
      | p # ps' \<Rightarrow> (case v of LTab b \<Rightarrow> Ok ps' (store_revents B (revents p) b s') | _ \<Rightarrow> Ok ps s'))"
  have fold: "\<exists>ps'. fold_entries f t ps s' = Ok ps' (store_all B t ps s')"
    if "length t \<le> length ps" "\<forall>(k, v) \<in> set t. \<exists>b. v = LTab b" for t ps s'
    using that
  proof (induction t arbitrary: ps s')
    case (Cons e t)
    obtain k b where e: "e = (k, LTab b)" using Cons.prems(2) by (cases e) auto
    obtain p ps' where ps: "ps = p # ps'" using Cons.prems(1) by (cases ps) auto
    show ?case using Cons.IH [of ps' "store_revents B (revents p) b s'"] Cons.prems e ps
      by (simp add: f_def run_simps)
  qed (simp add: run_simps)
  have "entry_body (revents_item E B) f a (tabs s a) (stk s) (values_ok a (tabs s a))"
    unfolding entry_body_def
  proof (intro allI impI)
    fix x k v and s' :: "'a lst"
    assume asm: "(k, v) \<in> set (tabs s a) \<and> stk s' = stk s \<and> tabs s' a = tabs s a \<and>
      values_ok a (tabs s a) s'"
    then obtain b where v: "v = LTab b" "value_ok a b s'" by (auto simp: values_ok_def)
    show "case f x k v s' of
        Ok x' s'' \<Rightarrow> revents_item E B x (s'\<lparr>stk := stk s @ [k, v]\<rparr>) =
          Ok x' (s''\<lparr>stk := stk s @ [k]\<rparr>) \<and> stk s'' = stk s \<and> tabs s'' a = tabs s a \<and>
          values_ok a (tabs s a) s''
      | Err e s'' \<Rightarrow> revents_item E B x (s'\<lparr>stk := stk s @ [k, v]\<rparr>) = Err e s''"
    proof (cases x)
      case Nil
      then show ?thesis by (simp add: f_def revents_item_def raise_run)
    next
      case (Cons p ps)
      have "revents_item E B x (s'\<lparr>stk := stk s @ [k, v]\<rparr>) =
          Ok ps ((store_revents B (revents p) b s')\<lparr>stk := stk s @ [k]\<rparr>)"
        using revents_item_run [of "s'\<lparr>stk := stk s @ [k, v]\<rparr>" "stk s" k b E B p ps]
          value_ok_shape [OF v(2)] v(1) Cons by simp
      then show ?thesis using Cons v asm
        by (simp add: f_def store_keeps_list values_ok_store)
    qed
  qed
  then have "table_loop 1 (revents_item E B) fds s = fold_entries f (tabs s a) fds s"
    by (rule table_loop_run) (use tab ok in auto)
  moreover have "\<forall>(k, v) \<in> set (tabs s a). \<exists>b. v = LTab b"
    using ok by (auto simp: values_ok_def)
  ultimately show ?thesis
    using fold [OF len, of s] by (auto simp: poll_fd_list_to_table_def run_simps)
qed

section \<open>What \<open>poll\<close> leaves behind\<close>

text \<open>
  No two entries share a value table or a \<open>revents\<close> table, and no \<open>revents\<close> table is a value
  table.
\<close>

definition revents_of :: "'w lst \<Rightarrow> nat \<Rightarrow> nat option" where
  "revents_of s b = (case tbl_get (tabs s b) (LStr ''revents'') of LTab c \<Rightarrow> Some c | _ \<Rightarrow> None)"

definition value_tables :: "ltable \<Rightarrow> nat list" where
  "value_tables t = map (\<lambda>(k, v). case v of LTab b \<Rightarrow> b | _ \<Rightarrow> 0) t"

definition separate :: "nat list \<Rightarrow> 'w lst \<Rightarrow> bool" where
  "separate bs s \<longleftrightarrow> distinct bs \<and> (\<forall>b \<in> set bs. b < ntab s) \<and>
     (\<forall>b \<in> set bs. \<forall>c. revents_of s b = Some c \<longrightarrow> c < ntab s \<and> c \<notin> set bs) \<and>
     (\<forall>b \<in> set bs. \<forall>b' \<in> set bs. \<forall>c. revents_of s b = Some c \<longrightarrow> revents_of s b' = Some c \<longrightarrow> b = b')"

lemma separateD:
  "separate bs s \<Longrightarrow> distinct bs"
  "separate bs s \<Longrightarrow> x \<in> set bs \<Longrightarrow> x < ntab s"
  "separate bs s \<Longrightarrow> x \<in> set bs \<Longrightarrow> revents_of s x = Some c \<Longrightarrow> c < ntab s \<and> c \<notin> set bs"
  "separate bs s \<Longrightarrow> x \<in> set bs \<Longrightarrow> y \<in> set bs \<Longrightarrow> revents_of s x = Some c \<Longrightarrow>
   revents_of s y = Some c \<Longrightarrow> x = y"
  unfolding separate_def by blast+

text \<open>The \<open>revents\<close> table of \<open>b\<close> tells exactly the events of the mask \<open>m\<close>.\<close>

definition tells :: "poll_bits \<Rightarrow> cshort \<Rightarrow> nat \<Rightarrow> 'w lst \<Rightarrow> bool" where
  "tells B m b s \<longleftrightarrow> (\<exists>c. revents_of s b = Some c \<and>
     (\<forall>(ev, name) \<in> set (poll_event_map B). tbl_get (tabs s c) (LStr name) = LBool (m AND ev \<noteq> 0)))"

lemma store_tells:
  assumes "b < ntab s" "\<And>c. revents_of s b = Some c \<Longrightarrow> c \<noteq> b"
  shows "tells B m b (store_revents B m b s)"
  using assms
  by (auto simp: tells_def revents_of_def store_revents_def mask_entry split: lvalue.splits)

lemma store_frame_tab:
  assumes "x < ntab s" "x \<noteq> b" "revents_of s b \<noteq> Some x"
  shows "tabs (store_revents B m b s) x = tabs s x"
  using assms by (auto simp: store_revents_def revents_of_def split: lvalue.splits)

lemma separate_step:
  assumes "separate (b # bs) s"
  shows "separate bs (store_revents B m b s)"
    and "b' \<in> set bs \<Longrightarrow> revents_of (store_revents B m b s) b' = revents_of s b'"
proof -
  have same: "revents_of (store_revents B m b s) b' = revents_of s b'" if "b' \<in> set bs" for b'
  proof -
    have "tabs (store_revents B m b s) b' = tabs s b'"
      by (rule store_frame_tab) (use assms that in \<open>auto simp: separate_def\<close>)
    then show ?thesis by (simp add: revents_of_def)
  qed
  then show "b' \<in> set bs \<Longrightarrow> revents_of (store_revents B m b s) b' = revents_of s b'" .
  have "ntab s \<le> ntab (store_revents B m b s)" by (rule store_revents_ntab)
  then have grow: "x < ntab s \<Longrightarrow> x < ntab (store_revents B m b s)" for x by simp
  have d: "distinct bs" using separateD(1) [OF assms] by simp
  have lt: "x < ntab s" if "x \<in> set bs" for x using separateD(2) [OF assms, of x] that by simp
  have own: "c < ntab s \<and> c \<notin> set bs" if "x \<in> set bs" "revents_of s x = Some c" for x c
    using separateD(3) [OF assms, of x c] that by simp
  have inj: "x = y" if "x \<in> set bs" "y \<in> set bs" "revents_of s x = Some c" "revents_of s y = Some c"
    for x y c
    using separateD(4) [OF assms, of x y c] that by simp
  show "separate bs (store_revents B m b s)"
    unfolding separate_def
  proof (intro conjI ballI allI impI)
    fix x y c
    assume x: "x \<in> set bs" and y: "y \<in> set bs"
      and "revents_of (store_revents B m b s) x = Some c"
        "revents_of (store_revents B m b s) y = Some c"
    then have "revents_of s x = Some c" "revents_of s y = Some c" using same by simp_all
    with x y show "x = y" by (rule inj)
  qed (use d lt own grow in \<open>simp_all add: same\<close>)
qed

lemma store_all_frame:
  assumes "separate (value_tables t) s" "\<forall>(k, v) \<in> set t. \<exists>b. v = LTab b" "length t \<le> length ps"
    and "x < ntab s" "x \<notin> set (value_tables t)" "\<forall>b \<in> set (value_tables t). revents_of s b \<noteq> Some x"
  shows "tabs (store_all B t ps s) x = tabs s x"
  using assms
proof (induction t arbitrary: ps s)
  case (Cons e t)
  obtain k b where e: "e = (k, LTab b)" using Cons.prems(2) by (cases e) auto
  obtain p ps' where ps: "ps = p # ps'" using Cons.prems(3) by (cases ps) auto
  have vt: "value_tables (e # t) = b # value_tables t" by (simp add: value_tables_def e)
  let ?s = "store_revents B (revents p) b s"
  note step = separate_step [OF Cons.prems(1) [unfolded vt], where B = B and m = "revents p"]
  have "tabs (store_all B t ps' ?s) x = tabs ?s x"
    by (rule Cons.IH)
      (use Cons.prems ps step store_revents_ntab [of s B "revents p" b] in \<open>auto simp: vt\<close>)
  also have "\<dots> = tabs s x"
    by (rule store_frame_tab) (use Cons.prems vt in auto)
  finally show ?case by (simp add: e ps)
qed simp

lemma store_all_tells:
  assumes "separate (value_tables t) s" "\<forall>(k, v) \<in> set t. \<exists>b. v = LTab b" "length t \<le> length ps"
    and "i < length t"
  shows "tells B (revents (ps ! i)) (value_tables t ! i) (store_all B t ps s)"
  using assms
proof (induction t arbitrary: ps s i)
  case (Cons e t)
  obtain k b where e: "e = (k, LTab b)" using Cons.prems(2) by (cases e) auto
  obtain p ps' where ps: "ps = p # ps'" using Cons.prems(3) by (cases ps) auto
  have vt: "value_tables (e # t) = b # value_tables t" by (simp add: value_tables_def e)
  let ?s = "store_revents B (revents p) b s"
  note step = separate_step [OF Cons.prems(1) [unfolded vt], where B = B and m = "revents p"]
  show ?case
  proof (cases i)
    case (Suc j)
    have "tells B (revents (ps' ! j)) (value_tables t ! j) (store_all B t ps' ?s)"
      by (rule Cons.IH) (use Cons.prems ps Suc step in auto)
    then show ?thesis by (simp add: e ps Suc vt [unfolded e])
  next
    case 0
    note S = Cons.prems(1) [unfolded vt]
    have b: "b < ntab s" "b \<notin> set (value_tables t)"
      using separateD(1) [OF S] separateD(2) [OF S, of b] by simp_all
    have own: "d < ntab s \<and> d \<noteq> b \<and> d \<notin> set (value_tables t)"
      if "x \<in> set (b # value_tables t)" "revents_of s x = Some d" for x d
      using separateD(3) [OF S that] by simp
    have now: "tells B (revents p) b ?s"
    proof (rule store_tells [OF b(1)])
      show "c \<noteq> b" if "revents_of s b = Some c" for c using own [of b c] that by simp
    qed
    then obtain c where c: "revents_of ?s b = Some c"
      and told: "\<forall>(ev, name) \<in> set (poll_event_map B).
        tbl_get (tabs ?s c) (LStr name) = LBool (revents p AND ev \<noteq> 0)"
      by (auto simp: tells_def)
    have cc: "c < ntab ?s \<and> c \<notin> set (value_tables t) \<and>
        (\<forall>x \<in> set (value_tables t). revents_of ?s x \<noteq> Some c)"
    proof (cases "revents_of s b")
      case None
      then have eq: "c = ntab s" and gt: "ntab s < ntab ?s" using c b(1)
        by (auto simp: revents_of_def store_revents_def mask_entries_other revents_no_event
            split: lvalue.splits)
      have "c \<notin> set (value_tables t)"
        using separateD(2) [OF S, of c] eq by auto
      moreover have "revents_of ?s x \<noteq> Some c" if "x \<in> set (value_tables t)" for x
        using step(2) [OF that] own [of x c] that eq by auto
      ultimately show ?thesis using eq gt by simp
    next
      case (Some d)
      then have eq: "c = d" using c
        by (auto simp: revents_of_def store_revents_def mask_entries_other revents_no_event
            split: lvalue.splits if_splits)
      have "revents_of ?s x \<noteq> Some c" if x: "x \<in> set (value_tables t)" for x
      proof
        assume "revents_of ?s x = Some c"
        then have "revents_of s x = Some d" using step(2) [OF x] eq by simp
        then have "x = b" using separateD(4) [OF S, of x b d] x Some by simp
        with x b(2) show False by simp
      qed
      then show ?thesis
        using eq own [of b d] Some store_revents_ntab [of s B "revents p" b] by simp
    qed
    have bb: "b < ntab ?s \<and> b \<notin> set (value_tables t) \<and>
        (\<forall>x \<in> set (value_tables t). revents_of ?s x \<noteq> Some b)"
    proof (intro conjI ballI)
      show "b < ntab ?s" using b(1) store_revents_ntab [of s B "revents p" b] by simp
      show "revents_of ?s x \<noteq> Some b" if x: "x \<in> set (value_tables t)" for x
        using step(2) [OF x] own [of x b] x by auto
    qed (rule b(2))
    have keep: "tabs (store_all B t ps' ?s) x = tabs ?s x" if "x = b \<or> x = c" for x
      by (rule store_all_frame) (use step(1) Cons.prems ps cc bb that in auto)
    have "tells B (revents p) b (store_all B t ps' ?s)"
      using c told keep by (auto simp: tells_def revents_of_def split: lvalue.splits)
    then show ?thesis by (simp add: e ps 0 vt [unfolded e])
  qed
qed simp

section \<open>The bindings\<close>

lemma array_obtained:
  assumes "at 1 (stk s) = Some (LTab a)" "n < 2 ^ 63"
  shows "\<exists>cap s1. (if (of_nat n :: lint) \<le> 16 then ret 16
       else bnd (lua_newuserdata URaw) (\<lambda>_. ret (unat (of_nat n :: lint)))) s = Ok cap s1 \<and>
     n \<le> cap \<and> at 1 (stk s1) = Some (LTab a) \<and> tabs s1 = tabs s \<and> ntab s1 = ntab s \<and>
     errno s1 = errno s \<and> world s1 = world s"
proof -
  have n: "unat (of_nat n :: lint) = n"
    using assms(2) by (simp add: unat_of_nat take_bit_nat_eq_self)
  then have le: "(of_nat n :: lint) \<le> 16 \<longleftrightarrow> n \<le> 16"
    by (simp add: word_le_nat_alt)
  show ?thesis
    using assms(1) by (auto simp: le n run_simps at_append_pos)
qed

lemma store_all_stk: "stk (store_all B t ps s) = stk s" "errno (store_all B t ps s) = errno s"
  "world (store_all B t ps s) = world s" "live (store_all B t ps s) = live s"
  by (induction B t ps s rule: store_all.induct) auto

lemma Ppoll_run:
  assumes tab: "at 1 args = Some (LTab a)" "wf_table (tabs s a)" "length (tabs s a) < 2 ^ 63"
    and ok: "list_complaint (tabs s) (tabs s a) = None" "values_ok a (tabs s a) s"
    and tmo: "arg_optint E 2 (-1) args = Inr tmo" "length args \<le> 2"
    and call: "c_poll (fds_of B garbage (tabs s) (tabs s a)) (of_nat (length (tabs s a))) tmo
      (errno s) (world s) = ((r, fds), e, w)" "length fds = length (tabs s a)"
  shows "\<exists>s1. tabs s1 = tabs s \<and> ntab s1 = ntab s \<and> errno s1 = e \<and> world s1 = w \<and>
    call_c (Ppoll E B garbage c_poll) args s = Ok (result_values E None r e)
      ((if 0 <s r then store_all B (tabs s a) fds s1 else s1)\<lparr>stk := stk s\<rparr>)"
proof -
  let ?t = "tabs s a" and ?s0 = "s\<lparr>stk := args\<rparr>"
  let ?cap = "if (of_nat (length ?t) :: lint) \<le> 16 then ret 16
    else bnd (lua_newuserdata URaw) (\<lambda>_. ret (unat (of_nat (length ?t) :: lint)))"
  have check: "poll_fd_list_check_table E 1 ?s0 = Ok (of_nat (length ?t)) ?s0"
    using check_table_run [of ?s0 a E] tab ok by simp
  have opt: "optint E 2 (-1) ?s0 = Ok tmo ?s0"
    using tmo(1) by (auto simp: accepted optint_run split: if_splits)
  obtain cap s1 where arr: "?cap ?s0 = Ok cap s1" "length ?t \<le> cap"
    and s1: "at 1 (stk s1) = Some (LTab a)" "tabs s1 = tabs s" "ntab s1 = ntab s"
      "errno s1 = errno s" "world s1 = world s"
    using array_obtained [of ?s0 a "length ?t"] tab by auto
  have from_tab: "poll_fd_list_from_table E B garbage cap 1 s1 = Ok (fds_of B garbage (tabs s) ?t) s1"
    using from_table_run [of s1 a cap E B garbage] s1 tab ok arr(2) by simp
  let ?s2 = "s1\<lparr>errno := e, world := w\<rparr>"
  have "values_ok a ?t ?s2" using ok(2) s1 by (auto simp: values_ok_def value_ok_def)
  then have to_tab: "poll_fd_list_to_table E B fds ?s2 = Ok () (store_all B ?t fds ?s2)"
    using to_table_run [of ?s2 a fds E B] s1 tab call(2) by simp
  have "sys (c_poll (fds_of B garbage (tabs s) ?t) (of_nat (length ?t)) tmo) s1 = Ok (r, fds) ?s2"
    using call s1 by (simp add: sys_def)
  then have "Ppoll E B garbage c_poll ?s0 =
      pushresult E r None (if 0 <s r then store_all B ?t fds ?s2 else ?s2)"
    using check opt arr(1) from_tab to_tab tmo(2)
    by (simp add: Ppoll_def bnd_def thn_def checknargs_run Let_def when_do_run)
  then show ?thesis using s1
    by (intro exI [of _ ?s2]) (auto simp: call_c_def pushresult_run store_all_stk)
qed

lemma quiet_poll_entry: "quiet (poll_fd_check_entry E i n)"
  unfolding poll_fd_check_entry_def by (intro quiet_rules)

lemma settled_from_loop: "settled (from_table_loop E i m x)"
  by (induction E i m x rule: from_table_loop.induct) (auto intro!: settled_rules)

lemma settled_next_loop: "(\<And>x. settled (body x)) \<Longrightarrow> settled (next_loop n i body x)"
  by (induction n arbitrary: x) (auto intro!: settled_base)

lemma settled_table_loop: "(\<And>x. settled (body x)) \<Longrightarrow> settled (table_loop i body x)"
  unfolding table_loop_def by (intro settled_base settled_next_loop)

lemma settled_fd_item: "settled (fd_item E B garbage cap fds)"
  unfolding fd_item_def poll_events_from_table_def
  by (intro settled_rules settled_from_loop)

lemma settled_revents_item: "settled (revents_item E B ps)"
  by (cases ps)
    (auto simp: revents_item_def poll_events_to_table_def poll_events_createtable_def
      intro!: settled_rules split: prod.splits)

lemma clean_Ppoll: "clean (Ppoll E B garbage c_poll)"
  unfolding Ppoll_def poll_fd_list_check_table_def
  by (rule clean_bnd quiet_thn quiet_table_loop quiet_poll_entry quiet_args quiet_prims2
      clean_thn clean_let quiet_if quiet_bnd quiet_prims clean_settled)+
    (auto simp: poll_fd_list_from_table_def poll_fd_list_to_table_def
      intro!: settled_rules settled_table_loop settled_fd_item settled_revents_item)

lemma clean_Prpoll: "clean (Prpoll E B garbage c_poll)"
  unfolding Prpoll_def by (rule clean_rules)+

lemma separate_same: "tabs s' = tabs s \<Longrightarrow> ntab s' = ntab s \<Longrightarrow> separate bs s' = separate bs s"
  by (simp add: separate_def revents_of_def)

text \<open>
  Property C24: \<open>poll\<close> checks the whole table first: a table with a bad entry is rejected with the first
  complaint, the state is as before and nothing is polled.  Otherwise the kernel is given the
  descriptors and event sets of the table in its order and its answer is returned.  When some
  descriptors are ready, every entry has a \<open>revents\<close> table that tells, for each of the six events,
  whether the kernel reported it for that descriptor; entries do not disturb each other, provided
  they share no tables.  When none is ready, or the call fails, no table is written: an entry keeps
  the \<open>revents\<close> of an earlier call.
\<close>

theorem poll_reports:
  assumes tab: "at 1 args = Some (LTab a)" "wf_table (tabs s a)" "length (tabs s a) < 2 ^ 63"
    and own: "list_complaint (tabs s) (tabs s a) = None \<Longrightarrow>
      values_ok a (tabs s a) s \<and> separate (value_tables (tabs s a)) s"
    and tmo: "arg_optint E 2 (-1) args = Inr tmo" "length args \<le> 2"
    and call: "c_poll (fds_of B garbage (tabs s) (tabs s a)) (of_nat (length (tabs s a))) tmo
      (errno s) (world s) = ((r, fds), e, w)" "length fds = length (tabs s a)"
  shows "case list_complaint (tabs s) (tabs s a) of
      None \<Rightarrow> \<exists>s'. call_c (Ppoll E B garbage c_poll) args s = Ok (result_values E None r e) s' \<and>
        world s' = w \<and> errno s' = e \<and>
        (if 0 <s r
         then \<forall>i < length (tabs s a). tells B (revents (fds ! i)) (value_tables (tabs s a) ! i) s'
         else tabs s' = tabs s)
    | Some c \<Rightarrow> call_c (Ppoll E B garbage c_poll) args s = Err (ArgError 1 c) s"
proof (cases "list_complaint (tabs s) (tabs s a)")
  case (Some c)
  have "poll_fd_list_check_table E 1 (s\<lparr>stk := args\<rparr>) = Err (ArgError 1 c) (s\<lparr>stk := []\<rparr>)"
    using check_table_run [of "s\<lparr>stk := args\<rparr>" a E] tab Some by simp
  then show ?thesis using Some by (simp add: Ppoll_def call_c_def bnd_def stk_self)
next
  case None
  note ok = own [OF None]
  obtain s1 where s1: "tabs s1 = tabs s" "ntab s1 = ntab s" "errno s1 = e" "world s1 = w"
    "call_c (Ppoll E B garbage c_poll) args s = Ok (result_values E None r e)
      ((if 0 <s r then store_all B (tabs s a) fds s1 else s1)\<lparr>stk := stk s\<rparr>)"
    using Ppoll_run [where c_poll = c_poll, OF tab None conjunct1 [OF ok] tmo call] by blast
  let ?s = "(store_all B (tabs s a) fds s1)\<lparr>stk := stk s\<rparr>"
  have "\<forall>(k, v) \<in> set (tabs s a). \<exists>b. v = LTab b" using ok by (auto simp: values_ok_def)
  then have "tells B (revents (fds ! i)) (value_tables (tabs s a) ! i) (store_all B (tabs s a) fds s1)"
    if "i < length (tabs s a)" for i
    using that ok s1(1,2) call(2) by (intro store_all_tells) (simp_all add: separate_same [of s1 s])
  then have "\<forall>i < length (tabs s a). tells B (revents (fds ! i)) (value_tables (tabs s a) ! i) ?s"
    by (simp add: tells_def revents_of_def)
  then show ?thesis using None s1 by (cases "0 <s r") (simp_all add: store_all_stk)
qed

theorem poll_reports_witness:
  "\<exists>s'. call_c (Ppoll sample_env \<lparr>POLLIN = 1, POLLPRI = 2, POLLOUT = 4, POLLERR = 8, POLLHUP = 16, POLLNVAL = 32\<rparr>
        (\<lambda>_. 0) (\<lambda>fds n t e w. ((1, map (\<lambda>p. p\<lparr>revents := events p\<rparr>) fds), e, w))) [LTab 0]
      ((sample_state ())\<lparr>ntab := 3, tabs := (\<lambda>_. [])(0 := [(LInt 5, LTab 1)],
         1 := [(LStr ''events'', LTab 2)], 2 := [(LStr ''IN'', LBool True)])\<rparr>) = Ok [LInt 1] s' \<and>
    tells \<lparr>POLLIN = 1, POLLPRI = 2, POLLOUT = 4, POLLERR = 8, POLLHUP = 16, POLLNVAL = 32\<rparr> 1 1 s'"
proof -
  let ?B = "\<lparr>POLLIN = 1, POLLPRI = 2, POLLOUT = 4, POLLERR = 8, POLLHUP = 16, POLLNVAL = 32\<rparr>"
  let ?s = "(sample_state ())\<lparr>ntab := 3, tabs := (\<lambda>_. [])(0 := [(LInt 5, LTab 1)],
         1 := [(LStr ''events'', LTab 2)], 2 := [(LStr ''IN'', LBool True)])\<rparr>"
  have fds: "fds_of ?B (\<lambda>_. 0) (tabs ?s) (tabs ?s 0) = [\<lparr>fd = 5, events = 1, revents = 0\<rparr>]"
    by (simp add: fds_of_def pollfd_of_def events_table_def events_mask_def poll_event_map_def to_cint_def)
  show ?thesis
    using poll_reports [of "[LTab 0]" 0 ?s sample_env "-1"
        "\<lambda>fds n t e w. ((1, map (\<lambda>p. p\<lparr>revents := events p\<rparr>) fds), e, w)" ?B "\<lambda>_. 0" 1
        "[\<lparr>fd = 5, events = 1, revents = 1\<rparr>]" 0 "()"] fds
    by (simp add: at_one wf_table_def values_ok_def value_ok_def separate_def value_tables_def revents_of_def
        arg_defs at_numeral type_of_def type_le_nil fd_complaint_def word_sless_alt result_values_def
        of_cint_def) blast
qed

section \<open>Opening the module\<close>

definition posix_poll_fns :: "entry list" where
  "posix_poll_fns = [
    Item ''Ppoll'', Item ''Prpoll'']"

definition luaopen_posix_poll :: "host \<Rightarrow> ('w, nat) lm" where
  "luaopen_posix_poll H = open_module H ''poll'' posix_poll_fns []"

lemma poll_names: "names_ok posix_poll_fns []"
  by code_simp

end
