(* ===== verification/Sched.thy ===== *)
theory Sched
  imports Records Modules
begin

text \<open>\<^verbatim>\<open>ext/posix/sched.c\<close>: the scheduling policy of a process.\<close>

record sched_param =
  sched_priority :: cint

definition Psched_getscheduler :: "env \<Rightarrow> (cint \<Rightarrow> ('w, cint) sys) \<Rightarrow> ('w, nat) lm" where
  "Psched_getscheduler E c_sched_getscheduler =
     bnd (optinteger E 1 0) (\<lambda>pid.
     thn (checknargs 1)
    (bnd (sys (c_sched_getscheduler (to_cint pid))) (\<lambda>r.
     pushresult E r None)))"

definition Psched_setscheduler ::
  "env \<Rightarrow> cint \<Rightarrow> (cint \<Rightarrow> cint \<Rightarrow> sched_param \<Rightarrow> ('w, cint) sys) \<Rightarrow> ('w, nat) lm" where
  "Psched_setscheduler E SCHED_OTHER c_sched_setscheduler =
     bnd (optinteger E 1 0) (\<lambda>pid.
     bnd (optint E 2 SCHED_OTHER) (\<lambda>policy.
     bnd (optint E 3 0) (\<lambda>prio.
     thn (checknargs 3)
    (bnd (sys (c_sched_setscheduler (to_cint pid) policy \<lparr>sched_priority = prio\<rparr>)) (\<lambda>r.
     pushresult E r None)))))"

definition args_sched :: "env \<Rightarrow> lvalue list \<Rightarrow> err + cint" where
  "args_sched E args =
     sbind (arg_optinteger E 1 0 args) (\<lambda>p. sbind (at_most 1 args) (\<lambda>_. Inr (to_cint p)))"

interpretation sched_get: sys_wrapper "Psched_getscheduler E c" "\<lambda>s. args_sched E" c E "\<lambda>_. None"
  for E c
  by unfold_locales
    (simp add: Psched_getscheduler_def args_sched_def wrapper_simps split: option.splits prod.splits)

definition args_sched3 :: "env \<Rightarrow> cint \<Rightarrow> lvalue list \<Rightarrow> err + (cint \<times> cint \<times> cint)" where
  "args_sched3 E k args =
     sbind (arg_optinteger E 1 0 args) (\<lambda>p. sbind (arg_optint E 2 k args) (\<lambda>q.
     sbind (arg_optint E 3 0 args) (\<lambda>n. sbind (at_most 3 args) (\<lambda>_. Inr (to_cint p, q, n)))))"

interpretation sched_set: sys_wrapper "Psched_setscheduler E k c" "\<lambda>s. args_sched3 E k"
    "\<lambda>(p, q, n). c p q \<lparr>sched_priority = n\<rparr>" E "\<lambda>_. None" for E k c
  by unfold_locales
    (simp add: Psched_setscheduler_def args_sched3_def wrapper_simps split: option.splits prod.splits)

lemma clean_sched: "clean (Psched_getscheduler E c)" "clean (Psched_setscheduler E k d)"
  unfolding Psched_getscheduler_def Psched_setscheduler_def by (rule clean_rules)+

section \<open>Opening the module\<close>

definition posix_sched_fns :: "entry list" where
  "posix_sched_fns = [
    Only ''HAVE_SCHED_GETSCHEDULER'' (Item ''Psched_getscheduler''),
    Only ''HAVE_SCHED_SETSCHEDULER'' (Item ''Psched_setscheduler'')]"

definition posix_sched_consts :: "entry list" where
  "posix_sched_consts = [
    Only ''SCHED_FIFO'' (Item ''SCHED_FIFO''), Only ''SCHED_RR'' (Item ''SCHED_RR''),
    Only ''SCHED_OTHER'' (Item ''SCHED_OTHER'')]"

definition luaopen_posix_sched :: "host \<Rightarrow> ('w, nat) lm" where
  "luaopen_posix_sched H = open_module H ''sched'' posix_sched_fns posix_sched_consts"

lemma sched_names: "names_ok posix_sched_fns posix_sched_consts"
  by code_simp

end
