(* ===== verification/Signal.thy ===== *)
theory Signal
  imports Records Modules
begin

text \<open>
  \<^verbatim>\<open>ext/posix/signal.c\<close>.  A signal with a Lua handler runs the C handler \<open>sig_postpone\<close>, which
  queues the signal and sets a debug hook; the hook \<open>sig_handle\<close> later takes the signals from
  the queue and calls their Lua handlers, found in a table of the registry.

  The static variables are the record \<open>sigq\<close>.  A C function pointer is a number (\<open>0\<close> is
  \<open>NULL\<close>); a call of a Lua function is a parameter that returns the changed state and the error
  object, if any.
\<close>

section \<open>Sending signals\<close>

definition Pkill :: "env \<Rightarrow> cint \<Rightarrow> (cint \<Rightarrow> cint \<Rightarrow> ('w, cint) sys) \<Rightarrow> ('w, nat) lm" where
  "Pkill E SIGTERM c_kill =
     bnd (checkinteger E 1) (\<lambda>pid.
     bnd (optint E 2 SIGTERM) (\<lambda>sig.
     thn (checknargs 2)
    (bnd (sys (c_kill (to_cint pid) sig)) (\<lambda>r. pushresult E r None))))"

definition Pkillpg :: "env \<Rightarrow> cint \<Rightarrow> (cint \<Rightarrow> cint \<Rightarrow> ('w, cint) sys) \<Rightarrow> ('w, nat) lm" where
  "Pkillpg E SIGTERM c_killpg =
     bnd (checkinteger E 1) (\<lambda>pgrp.
     bnd (optint E 2 SIGTERM) (\<lambda>sig.
     thn (checknargs 2)
    (bnd (sys (c_killpg (to_cint pgrp) sig)) (\<lambda>r. pushresult E r None))))"

definition Praise :: "env \<Rightarrow> (cint \<Rightarrow> ('w, cint) sys) \<Rightarrow> ('w, nat) lm" where
  "Praise E c_raise =
     bnd (checkint E 1) (\<lambda>sig.
     thn (checknargs 1)
    (thn (lua_pop 1)
    (bnd (sys (c_raise sig)) (\<lambda>r. pushintegerresult (of_cint r)))))"

section \<open>The queue\<close>

definition SIGNAL_QUEUE_MAX :: nat where
  "SIGNAL_QUEUE_MAX = 25"

record sigq =
  signal_pending :: cint
  defer_signal :: cint
  signal_count :: cint
  signals :: "nat \<Rightarrow> cint"
  hooked :: bool

text \<open>
  \<open>sig_postpone\<close> up to and including the queueing, and from \<open>defer_signal--\<close> on.  \<open>None\<close> is a
  write outside the array.  The second part tells the signal to raise, if any.
\<close>

definition enqueue :: "cint \<Rightarrow> sigq \<Rightarrow> sigq option" where
  "enqueue i q =
     (let n = sint (signal_count q) in
      if 0 \<le> n \<and> n < int SIGNAL_QUEUE_MAX
      then Some (q\<lparr>signals := (signals q)(nat n := i), signal_count := signal_count q + 1,
                   hooked := True\<rparr>)
      else None)"

definition postpone_end :: "sigq \<Rightarrow> sigq \<times> cint option" where
  "postpone_end q =
     (let q' = q\<lparr>defer_signal := defer_signal q - 1\<rparr> in
      (q', if defer_signal q' = 0 \<and> signal_pending q' \<noteq> 0 then Some (signal_pending q') else None))"

definition sig_postpone :: "cint \<Rightarrow> sigq \<Rightarrow> (sigq \<times> cint option) option" where
  "sig_postpone i q =
     (if defer_signal q \<noteq> 0 then Some (q\<lparr>signal_pending := i\<rparr>, None)
      else if signal_count q = of_nat SIGNAL_QUEUE_MAX then Some (q, None)
      else map_option postpone_end (enqueue i (q\<lparr>defer_signal := defer_signal q + 1\<rparr>)))"

text \<open>
  A delivery: \<open>sig_postpone\<close> runs with all signals blocked, so a signal it raises is delivered
  when it returns.  Each redelivery fills a slot of the queue, so \<open>SIGNAL_QUEUE_MAX + 1\<close>
  rounds are enough (lemma \<open>deliver_fills\<close>).
\<close>

fun deliver :: "nat \<Rightarrow> cint \<Rightarrow> sigq \<Rightarrow> sigq option" where
  "deliver 0 i q = None"
| "deliver (Suc n) i q = (case sig_postpone i q of
      None \<Rightarrow> None
    | Some (q', None) \<Rightarrow> Some q'
    | Some (q', Some j) \<Rightarrow> deliver n j q')"

definition delivered :: "cint \<Rightarrow> sigq \<Rightarrow> sigq option" where
  "delivered i q = deliver (Suc SIGNAL_QUEUE_MAX) i q"

text \<open>The signals in the queue, oldest first.\<close>

definition queued :: "sigq \<Rightarrow> cint list" where
  "queued q = map (signals q) [0..<nat (sint (signal_count q))]"

text \<open>The state between deliveries.\<close>

definition sig_ok :: "sigq \<Rightarrow> bool" where
  "sig_ok q \<longleftrightarrow> defer_signal q = 0 \<and> 0 \<le> sint (signal_count q) \<and>
     sint (signal_count q) \<le> int SIGNAL_QUEUE_MAX"

lemma cint_small: "0 \<le> sint (c :: cint) \<Longrightarrow> c = of_nat (nat (sint c))"
proof -
  assume "0 \<le> sint c"
  then have "(of_nat (nat (sint c)) :: cint) = word_of_int (sint c)"
    by (metis int_nat_eq of_int_of_nat_eq word_of_int_eq_iff of_int_eq_iff nat_0_le)
  then show ?thesis by simp
qed

lemma count_of:
  assumes "signal_count q = of_nat n" "n \<le> SIGNAL_QUEUE_MAX"
  shows "sint (signal_count q) = int n" "nat (sint (signal_count q)) = n"
  using assms by (simp_all add: sint_of_nat_cint SIGNAL_QUEUE_MAX_def)

lemma sig_ok_count: "sig_ok q \<Longrightarrow> \<exists>n \<le> SIGNAL_QUEUE_MAX. signal_count q = of_nat n"
  by (intro exI [of _ "nat (sint (signal_count q))"]) (auto simp: sig_ok_def intro: cint_small)

lemma length_queued: "sig_ok q \<Longrightarrow> length (queued q) \<le> SIGNAL_QUEUE_MAX"
  by (auto simp: queued_def sig_ok_def)

lemma of_nat_cint_inj:
  "m < 2 ^ 31 \<Longrightarrow> n < 2 ^ 31 \<Longrightarrow> (of_nat m :: cint) = of_nat n \<longleftrightarrow> m = n"
  by (metis sint_of_nat_cint of_nat_eq_iff)

lemma postpone_queues:
  assumes ok: "sig_ok q" and room: "length (queued q) < SIGNAL_QUEUE_MAX"
  shows "\<exists>q'. sig_postpone i q =
      Some (q', if signal_pending q = 0 then None else Some (signal_pending q)) \<and>
    sig_ok q' \<and> queued q' = queued q @ [i] \<and> signal_pending q' = signal_pending q \<and> hooked q'"
proof -
  obtain n where n: "n \<le> SIGNAL_QUEUE_MAX" "signal_count q = of_nat n"
    using sig_ok_count [OF ok] by blast
  have q: "queued q = map (signals q) [0..<n]"
    using count_of [OF n(2,1)] by (simp add: queued_def)
  with room have lt: "n < SIGNAL_QUEUE_MAX" by simp
  then have ne: "signal_count q \<noteq> of_nat SIGNAL_QUEUE_MAX"
    using n of_nat_cint_inj [of n SIGNAL_QUEUE_MAX] by (simp add: SIGNAL_QUEUE_MAX_def)
  have d: "defer_signal q = 0" using ok by (simp add: sig_ok_def)
  let ?q = "q\<lparr>defer_signal := 0, signals := (signals q)(n := i), signal_count := of_nat (Suc n), hooked := True\<rparr>"
  have "sig_postpone i q = Some (?q, if signal_pending q = 0 then None else Some (signal_pending q))"
    using d ne lt n count_of [OF n(2,1)]
    by (simp add: sig_postpone_def enqueue_def postpone_end_def Let_def add.commute)
  moreover have "nat (sint (signal_count ?q)) = Suc n" "sint (signal_count ?q) = int (Suc n)"
    using count_of [of ?q "Suc n"] lt by simp_all
  moreover from this have "queued ?q = queued q @ [i]" by (simp add: q) (simp add: queued_def)
  ultimately show ?thesis using lt by (intro exI [of _ ?q]) (simp add: sig_ok_def)
qed

lemma postpone_full:
  "sig_ok q \<Longrightarrow> length (queued q) = SIGNAL_QUEUE_MAX \<Longrightarrow> sig_postpone i q = Some (q, None)"
proof -
  assume ok: "sig_ok q" and full: "length (queued q) = SIGNAL_QUEUE_MAX"
  obtain n where n: "n \<le> SIGNAL_QUEUE_MAX" "signal_count q = of_nat n"
    using sig_ok_count [OF ok] by blast
  have "n = SIGNAL_QUEUE_MAX" using full count_of [OF n(2,1)] by (simp add: queued_def)
  with n ok show ?thesis by (simp add: sig_postpone_def sig_ok_def)
qed

text \<open>Delivering to a queue with \<open>signal_pending\<close> set: the pending signal fills the rest.\<close>

lemma deliver_fills:
  assumes "sig_ok q" "signal_pending q \<noteq> 0" "SIGNAL_QUEUE_MAX - length (queued q) < n"
  shows "\<exists>q'. deliver n i q = Some q' \<and> sig_ok q' \<and> signal_pending q' = signal_pending q \<and>
    queued q' = (if length (queued q) < SIGNAL_QUEUE_MAX
      then queued q @ [i] @ replicate (SIGNAL_QUEUE_MAX - length (queued q) - 1) (signal_pending q)
      else queued q)"
  using assms
proof (induction n arbitrary: i q)
  case (Suc n)
  show ?case
  proof (cases "length (queued q) < SIGNAL_QUEUE_MAX")
    case True
    from postpone_queues [OF Suc.prems(1) True, of i] Suc.prems(2) obtain q1 where
      q1: "sig_postpone i q = Some (q1, Some (signal_pending q))" "sig_ok q1"
        "queued q1 = queued q @ [i]" "signal_pending q1 = signal_pending q"
      by auto
    have n: "SIGNAL_QUEUE_MAX - length (queued q1) < n"
      using Suc.prems(3) True q1(3) by simp
    have pend: "signal_pending q1 \<noteq> 0" using q1(4) Suc.prems(2) by simp
    from Suc.IH [OF q1(2) pend n, of "signal_pending q"] obtain q2 where
      q2: "deliver n (signal_pending q) q1 = Some q2" "sig_ok q2"
        "signal_pending q2 = signal_pending q1"
        "queued q2 = (if length (queued q1) < SIGNAL_QUEUE_MAX
          then queued q1 @ [signal_pending q] @
            replicate (SIGNAL_QUEUE_MAX - length (queued q1) - 1) (signal_pending q1)
          else queued q1)" by blast
    let ?k = "SIGNAL_QUEUE_MAX - length (queued q) - 1"
    have "queued q2 = queued q @ [i] @ replicate ?k (signal_pending q)"
    proof (cases ?k)
      case 0
      then show ?thesis using q1(3) q2(4) by simp
    next
      case (Suc k)
      then have "length (queued q1) < SIGNAL_QUEUE_MAX"
        "SIGNAL_QUEUE_MAX - length (queued q1) - 1 = k" using q1(3) by simp_all
      then show ?thesis using q1(3,4) q2(4) Suc by simp
    qed
    then show ?thesis using q1 q2 True by (intro exI [of _ q2]) simp
  next
    case False
    then have "length (queued q) = SIGNAL_QUEUE_MAX"
      using length_queued [OF Suc.prems(1)] by simp
    with postpone_full [OF Suc.prems(1)] Suc.prems(1) show ?thesis by simp
  qed
qed simp

section \<open>Running the handlers\<close>

text \<open>
  A Lua call: the function and its arguments to the changed state and the error object, if any.
\<close>

type_synonym 'w lcall = "lvalue \<Rightarrow> lvalue list \<Rightarrow> 'w lst \<Rightarrow> 'w lst \<times> lvalue option"

text \<open>\<open>lua_pcall(L, 1, 0, 0)\<close>: whether it succeeded; a failed call leaves the error object.\<close>

definition lua_pcall1 :: "'w lcall \<Rightarrow> ('w, bool) lm" where
  "lua_pcall1 call s =
     (let xs = take (length (stk s) - 2) (stk s);
          f = the (at (-2) (stk s)); a = the (at (-1) (stk s)) in
      case call f [a] (s\<lparr>stk := []\<rparr>) of
        (s', None) \<Rightarrow> Ok True (s'\<lparr>stk := xs\<rparr>)
      | (s', Some err) \<Rightarrow> Ok False (s'\<lparr>stk := xs @ [err]\<rparr>))"

text \<open>The key of the handlers table in the registry, the address of \<open>signalL\<close>.\<close>

definition signalL_key :: lvalue where
  "signalL_key = LLight 0"

definition push_handlers :: "('w, unit) lm" where
  "push_handlers s = lua_push (tbl_get (regs s) signalL_key) s"

record 'w sigapi =
  c_block_all :: "('w, nat) sys" \<comment> \<open>returns the old mask\<close>
  c_setmask :: "nat \<Rightarrow> ('w, unit) sys"
  c_report :: "cint \<Rightarrow> string option \<Rightarrow> ('w, unit) sys" \<comment> \<open>the \<open>fprintf\<close>\<close>

text \<open>\<open>while (signal_count--)\<close>: the newest signal first.\<close>

fun sig_loop :: "env \<Rightarrow> 'w sigapi \<Rightarrow> 'w lcall \<Rightarrow> sigq \<Rightarrow> nat \<Rightarrow> ('w, unit) lm" where
  "sig_loop E A call q 0 = ret ()"
| "sig_loop E A call q (Suc n) =
     (let signalno = signals q n in
      thn (lua_pushinteger (of_cint signalno))
     (thn (lua_gettable E (-2))
     (thn (lua_pushinteger (of_cint signalno))
     (bnd (lua_pcall1 call) (\<lambda>success.
      thn (when_do (\<not> success)
             (bnd (lua_tolstring E (-1)) (\<lambda>m. sys (c_report A signalno m))))
          (sig_loop E A call q n))))))"

definition sig_handle :: "env \<Rightarrow> 'w sigapi \<Rightarrow> 'w lcall \<Rightarrow> sigq \<Rightarrow> ('w, sigq) lm" where
  "sig_handle E A call q =
     bnd (sys (c_block_all A)) (\<lambda>oldmask.
     let q' = q\<lparr>hooked := False\<rparr> in
     thn push_handlers
    (thn (sig_loop E A call q' (nat (sint (signal_count q'))))
    (thn (sys (c_setmask A oldmask))
     (ret (q'\<lparr>signal_count := 0\<rparr>)))))"

text \<open>
  The calls that should happen: each signal to its handler, as the table is at that moment, up to
  the first handler that raises an error.  That one is given with its error object and the signals
  that are left.
\<close>

fun run_handlers ::
  "'w lcall \<Rightarrow> nat \<Rightarrow> cint list \<Rightarrow> 'w lst \<Rightarrow> 'w lst \<times> (cint \<times> lvalue \<times> cint list) option" where
  "run_handlers call T [] s = (s, None)"
| "run_handlers call T (n # ns) s =
     (case call (tbl_get (tabs s T) (LInt (of_cint n))) [LInt (of_cint n)] (s\<lparr>stk := []\<rparr>) of
        (s', None) \<Rightarrow> run_handlers call T ns (s'\<lparr>stk := stk s\<rparr>)
      | (s', Some v) \<Rightarrow> (s'\<lparr>stk := stk s\<rparr>, Some (n, v, ns)))"

text \<open>
  What is left to do after the calls.  A failed handler is reported with its message, which stays on
  the stack, and so does the message \<open>e\<close> of the call of nil for each of the other signals.
\<close>

definition report :: "'w sigapi \<Rightarrow> cint \<Rightarrow> string option \<Rightarrow> 'w lst \<Rightarrow> 'w lst" where
  "report A n m s = (case c_report A n m (errno s) (world s) of
     (u, e, w) \<Rightarrow> s\<lparr>errno := e, world := w\<rparr>)"

fun reports :: "'w sigapi \<Rightarrow> string \<Rightarrow> cint list \<Rightarrow> 'w lst \<Rightarrow> 'w lst" where
  "reports A m [] s = s"
| "reports A m (n # ns) s = reports A m ns (report A n (Some m) (s\<lparr>stk := stk s @ [LStr m]\<rparr>))"

fun report_failure ::
  "env \<Rightarrow> 'w sigapi \<Rightarrow> string \<Rightarrow> 'w lst \<times> (cint \<times> lvalue \<times> cint list) option \<Rightarrow> 'w lst" where
  "report_failure E A e (s, None) = s"
| "report_failure E A e (s, Some (n, v, ns)) =
     (let m = val_str E (Some v); top = (case m of None \<Rightarrow> v | Some x \<Rightarrow> LStr x)
      in reports A e ns (report A n m (s\<lparr>stk := stk s @ [top]\<rparr>)))"

text \<open>
  The error object is a message (a string or a number), or no signal is left whose look-up would
  meet it on the stack.
\<close>

fun drops_rest :: "env \<Rightarrow> 'w lst \<times> (cint \<times> lvalue \<times> cint list) option \<Rightarrow> bool" where
  "drops_rest E (s, None) = True"
| "drops_rest E (s, Some (n, v, ns)) = (ns = [] \<or> val_str E (Some v) \<noteq> None)"

lemma report_stk [simp]: "stk (report A n m s) = stk s"
  by (simp add: report_def split: prod.split)

lemma report_run: "sys (c_report A n m) s = Ok () (report A n m s)"
  by (simp add: sys_def report_def split: prod.split)

lemma lookup_handler:
  "lua_gettable E (-2) (s\<lparr>stk := [LTab T, k]\<rparr>) = Ok () (s\<lparr>stk := [LTab T, tbl_get (tabs s T) k]\<rparr>)"
  using lua_gettable_run [of "-2" "[LTab T]" k T "s\<lparr>stk := [LTab T, k]\<rparr>" E]
  by (simp add: at_def slot_def)

text \<open>
  After a handler that raised an error, its message is on the stack where the loop expects the
  table of handlers, so each further signal is looked up in the string library, which has no
  numeric fields: nil is called in place of the handler, and reported as an error in turn.
\<close>

lemma sig_loop_lost:
  assumes lib: "\<And>k. strlib E (LInt k) = LNil" and nil: "\<And>a s. call LNil a s = (s, Some (LStr e))"
    and "stk s = xs @ [LStr m]"
  shows "sig_loop E A call q n s = Ok () (reports A e (rev (map (signals q) [0..<n])) s)"
  using assms(3)
proof (induction n arbitrary: s xs m)
  case 0
  then show ?case by (simp add: run_simps)
next
  case (Suc n)
  let ?k = "LInt (of_cint (signals q n))"
  have "lua_gettable E (-2) (s\<lparr>stk := stk s @ [?k]\<rparr>) = Ok () (s\<lparr>stk := stk s @ [LNil]\<rparr>)"
    using Suc.prems lib by (simp add: lua_gettable_def index_value_def run_simps at_def slot_def nth_append)
  moreover have "lua_pcall1 call (s\<lparr>stk := stk s @ [LNil, ?k]\<rparr>) =
      Ok False (s\<lparr>stk := stk s @ [LStr e]\<rparr>)"
    using nil by (simp add: lua_pcall1_def at_def slot_def nth_append)
  moreover let ?s = "report A (signals q n) (Some e) (s\<lparr>stk := stk s @ [LStr e]\<rparr>)"
  have "sig_loop E A call q n ?s = Ok () (reports A e (rev (map (signals q) [0..<n])) ?s)"
    by (rule Suc.IH) simp
  ultimately show ?case
    by (simp add: Let_def thn_def bnd_def lua_push_run when_do_run stk_self lua_tolstring_def report_run
        put_at_def slot_def list_update_append)
qed

lemma sig_loop_fails:
  assumes "stk s = [LTab T]"
    and "call (tbl_get (tabs s T) (LInt (of_cint (signals q n)))) [LInt (of_cint (signals q n))]
      (s\<lparr>stk := []\<rparr>) = (s1, Some v)"
  shows "sig_loop E A call q (Suc n) s = sig_loop E A call q n
    (report A (signals q n) (val_str E (Some v))
      (s1\<lparr>stk := [LTab T, case val_str E (Some v) of None \<Rightarrow> v | Some x \<Rightarrow> LStr x]\<rparr>))"
proof -
  let ?k = "LInt (of_cint (signals q n))" and ?f = "tbl_get (tabs s T) (LInt (of_cint (signals q n)))"
  have "lua_pcall1 call (s\<lparr>stk := [LTab T, ?f, ?k]\<rparr>) = Ok False (s1\<lparr>stk := [LTab T, v]\<rparr>)"
    using assms(2) by (simp add: lua_pcall1_def at_def slot_def)
  with assms(1) show ?thesis
    by (cases "val_str E (Some v)")
      (simp_all add: Let_def thn_def bnd_def lua_push_run when_do_run stk_self lua_tolstring_def
        lookup_handler report_run at_m1 put_at_def slot_def)
qed

lemma sig_loop_ok:
  assumes lib: "\<And>k. strlib E (LInt k) = LNil" and nil: "\<And>a s. call LNil a s = (s, Some (LStr e))"
    and "stk s = [LTab T]" "drops_rest E (run_handlers call T (rev (map (signals q) [0..<n])) s)"
  shows "sig_loop E A call q n s =
    Ok () (report_failure E A e (run_handlers call T (rev (map (signals q) [0..<n])) s))"
  using assms(3,4)
proof (induction n arbitrary: s)
  case (Suc n)
  let ?k = "LInt (of_cint (signals q n))" and ?f = "tbl_get (tabs s T) (LInt (of_cint (signals q n)))"
  obtain s1 r where c: "call ?f [?k] (s\<lparr>stk := []\<rparr>) = (s1, r)" by fastforce
  show ?case
  proof (cases r)
    case None
    have "lua_pcall1 call (s\<lparr>stk := [LTab T, ?f, ?k]\<rparr>) = Ok True (s1\<lparr>stk := [LTab T]\<rparr>)"
      using c None by (simp add: lua_pcall1_def at_def slot_def)
    with Suc.prems c None Suc.IH [of "s1\<lparr>stk := [LTab T]\<rparr>"] show ?thesis
      by (simp add: Let_def thn_def bnd_def lua_push_run when_do_run stk_self lookup_handler)
  next
    case (Some v)
    show ?thesis
    proof (cases "val_str E (Some v)")
      case None
      with Suc.prems c Some have "n = 0" by simp
      with None c Some show ?thesis
        using sig_loop_fails [OF Suc.prems(1), of call q n s1 v E A] Suc.prems(1)
        by (simp add: Let_def ret_def)
    next
      case (Some m)
      let ?s = "report A (signals q n) (Some m) (s1\<lparr>stk := [LTab T, LStr m]\<rparr>)"
      have "sig_loop E A call q n ?s = Ok () (reports A e (rev (map (signals q) [0..<n])) ?s)"
        using lib nil by (intro sig_loop_lost [where xs = "[LTab T]" and m = m]) simp_all
      with Some c \<open>r = Some v\<close> show ?thesis
        using sig_loop_fails [OF Suc.prems(1), of call q n s1 v E A] Suc.prems(1)
        by (simp add: Let_def)
    qed
  qed
qed (simp add: run_simps)


section \<open>Installing a handler\<close>

text \<open>Addresses of C functions; \<open>lua_touserdata\<close> of anything but a userdata is \<open>NULL\<close>.\<close>

record sigaddrs =
  SIG_DFL :: nat
  SIG_IGN :: nat
  a_sig_postpone :: nat

definition lua_touserdata_addr :: "lvalue \<Rightarrow> nat" where
  "lua_touserdata_addr v = (case v of LLight p \<Rightarrow> p | _ \<Rightarrow> 0)"

definition Ssigmacros :: "string list" where
  "Ssigmacros = [''SIG_DFL'', ''SIG_IGN'']"

definition Fsigmacros :: "sigaddrs \<Rightarrow> nat list" where
  "Fsigmacros K = [SIG_DFL K, SIG_IGN K]"

text \<open>\<open>luaL_checkoption\<close>: the index of the string, or of the default when it is nil.\<close>

fun index_of :: "string \<Rightarrow> string list \<Rightarrow> nat \<Rightarrow> nat option" where
  "index_of x [] n = None"
| "index_of x (y # ys) n = (if x = y then Some n else index_of x ys (Suc n))"

definition luaL_checkoption :: "env \<Rightarrow> int \<Rightarrow> string \<Rightarrow> string list \<Rightarrow> ('w, nat) lm" where
  "luaL_checkoption E i def opts =
     bnd (lua_isnoneornil i) (\<lambda>none.
     bnd (if none then ret def else luaL_checkstring E i) (\<lambda>name.
     case index_of name opts 0 of
       Some n \<Rightarrow> ret n
     | None \<Rightarrow> luaL_argerror i (''invalid option '' @ [CHR 0x27] @ name @ [CHR 0x27])))"

definition signal_handler :: "env \<Rightarrow> sigaddrs \<Rightarrow> ('w, nat) lm" where
  "signal_handler E K =
     bnd (asks (\<lambda>s. at 2 (stk s))) (\<lambda>v.
     case type_of v of
       TNIL \<Rightarrow> bnd (luaL_checkoption E 2 ''SIG_DFL'' Ssigmacros) (\<lambda>n. ret (Fsigmacros K ! n))
     | TSTRING \<Rightarrow> bnd (luaL_checkoption E 2 ''SIG_DFL'' Ssigmacros) (\<lambda>n. ret (Fsigmacros K ! n))
     | TFUNCTION \<Rightarrow> (case v of
           Some (LCFun f ups) \<Rightarrow>
             if f = ''sig_handler_wrap'' then ret (lua_touserdata_addr (ups ! 0))
             else ret (a_sig_postpone K)
         | _ \<Rightarrow> ret (a_sig_postpone K))
     | _ \<Rightarrow> argtypeerror 2 ''function, nil or string'')"

text \<open>\<open>lua_pushvalue(L, 1); lua_pushvalue(L, 2); lua_rawset(L, -3)\<close> on the handlers table.\<close>

definition store_handler :: "('w, unit) lm" where
  "store_handler = seq [push_handlers, lua_pushvalue 1, lua_pushvalue 2, lua_settable (-3), lua_pop 1]"

definition push_old_handler :: "env \<Rightarrow> sigaddrs \<Rightarrow> cint \<Rightarrow> nat \<Rightarrow> ('w, unit) lm" where
  "push_old_handler E K sig old =
     (if old = a_sig_postpone K then seq [push_handlers, lua_pushvalue 1, lua_gettable E (-2)]
      else if old = SIG_DFL K then lua_pushstring ''SIG_DFL''
      else if old = SIG_IGN K then lua_pushstring ''SIG_IGN''
      else lua_push (LCFun ''sig_handler_wrap'' [LInt (of_cint sig), LLight old]))"

definition Psignal ::
  "env \<Rightarrow> sigaddrs \<Rightarrow> (cint \<Rightarrow> nat \<Rightarrow> cint \<Rightarrow> ('w, cint \<times> nat) sys) \<Rightarrow> ('w, nat) lm" where
  "Psignal E K c_sigaction =
     bnd (checkint E 1) (\<lambda>sig.
     thn (checknargs 3)
    (bnd (signal_handler E K) (\<lambda>handler.
     bnd (optint E 3 0) (\<lambda>flags.
     bnd (sys (c_sigaction sig handler flags)) (\<lambda>r.
     if fst r = -1 then ret 0
     else thn (when_do (handler = a_sig_postpone K) store_handler)
         (thn (push_old_handler E K sig (snd r)) (ret 1)))))))"

text \<open>The closure for a handler that was not set from Lua.\<close>

definition sig_handler_wrap ::
  "env \<Rightarrow> (nat \<Rightarrow> cint \<Rightarrow> ('w, unit) sys) \<Rightarrow> lvalue list \<Rightarrow> ('w, nat) lm" where
  "sig_handler_wrap E c_call upvalues =
     (case val_int E (Some (upvalues ! 0)) of
        None \<Rightarrow> luaL_argerror 0 ''number expected''
      | Some n \<Rightarrow>
          (let h = lua_touserdata_addr (upvalues ! 1) in
           if h = 0 then raise (Undefined ''call of a null pointer'')
           else thn (sys (c_call h (to_cint n))) (ret 0)))"

section \<open>What the module guarantees\<close>

text \<open>No signal is in flight and none is remembered for re-raising.\<close>

definition idle :: "sigq \<Rightarrow> bool" where
  "idle q \<longleftrightarrow> sig_ok q \<and> signal_pending q = 0"

definition no_signals :: sigq where
  "no_signals = \<lparr>signal_pending = 0, defer_signal = 0, signal_count = 0, signals = (\<lambda>_. 0),
     hooked = False\<rparr>"

fun arrive :: "cint list \<Rightarrow> sigq \<Rightarrow> sigq option" where
  "arrive [] q = Some q"
| "arrive (i # is) q = (case delivered i q of None \<Rightarrow> None | Some q' \<Rightarrow> arrive is q')"

lemma delivered_idle:
  assumes "idle q"
  shows "\<exists>q'. delivered i q = Some q' \<and> idle q' \<and>
    queued q' = take SIGNAL_QUEUE_MAX (queued q @ [i])"
proof (cases "length (queued q) < SIGNAL_QUEUE_MAX")
  case True
  have ok: "sig_ok q" "signal_pending q = 0" using assms by (simp_all add: idle_def)
  from postpone_queues [OF ok(1) True, of i] ok(2) obtain q' where
    "sig_postpone i q = Some (q', None)" "sig_ok q'" "queued q' = queued q @ [i]"
    "signal_pending q' = 0" by auto
  with True show ?thesis by (intro exI [of _ q']) (simp add: delivered_def idle_def)
next
  case False
  have ok: "sig_ok q" using assms by (simp add: idle_def)
  with False have full: "length (queued q) = SIGNAL_QUEUE_MAX" using length_queued [OF ok] by simp
  have "sig_postpone i q = Some (q, None)" by (rule postpone_full [OF ok full])
  with assms full show ?thesis by (intro exI [of _ q]) (simp add: delivered_def)
qed


lemma idle_start: "idle no_signals" "queued no_signals = []"
  by (simp_all add: idle_def no_signals_def sig_ok_def queued_def)


text \<open>Four signals: two handlers return, the third raises an error, the fourth is dropped.\<close>

definition sample_api :: "(string list \<times> (lvalue \<times> lvalue list) list) sigapi" where
  "sample_api = \<lparr>c_block_all = \<lambda>e w. (0, e, w), c_setmask = \<lambda>m e w. ((), e, w),
     c_report = \<lambda>i m e w. ((), e, (fst w @ [the m], snd w))\<rparr>"

definition sample_call :: "(string list \<times> (lvalue \<times> lvalue list) list) lcall" where
  "sample_call f as s =
     (if f = LNil then (s, Some (LStr ''nil''))
      else (s\<lparr>world := (fst (world s), snd (world s) @ [(f, as)])\<rparr>,
            if f = LFun 9 then Some (LStr ''no'') else None))"

definition sample_sig_state :: "(string list \<times> (lvalue \<times> lvalue list) list) lst" where
  "sample_sig_state = (sample_state ([], []))\<lparr>regs := [(signalL_key, LTab 0)],
     tabs := (\<lambda>_. [(LInt 15, LFun 1), (LInt 2, LFun 2), (LInt 1, LFun 9)])\<rparr>"


text \<open>
  What a signal remembered in \<open>signal_pending\<close> would do: it is never forgotten, so the next
  delivery queues its own signal and then re-raises the remembered one until the queue is full.
  \<open>sig_postpone\<close> runs with all signals blocked in its thread, so only a delivery to a second
  thread can set it.
\<close>

lemma pending_signal_floods_queue:
  assumes "sig_ok q" "queued q = []" "signal_pending q \<noteq> 0"
  shows "\<exists>q'. delivered i q = Some q' \<and> queued q' = i # replicate 24 (signal_pending q) \<and>
    signal_pending q' = signal_pending q"
  using deliver_fills [OF assms(1,3), of "Suc SIGNAL_QUEUE_MAX" i] assms(2)
  by (auto simp: delivered_def SIGNAL_QUEUE_MAX_def)

subsection \<open>All histories\<close>

text \<open>
  The queue as it evolves from the start of the process: signals arrive, and once the hook is set
  the interpreter runs it at some later instruction, in any state of its own.  The list is the
  specification: the signals that wait for their handler, oldest first.
\<close>

inductive waiting :: "env \<Rightarrow> 'w sigapi \<Rightarrow> 'w lcall \<Rightarrow> sigq \<Rightarrow> cint list \<Rightarrow> bool"
  for E :: env and A :: "'w sigapi" and call :: "'w lcall" where
  start: "waiting E A call no_signals []"
| arrives: "waiting E A call q us \<Longrightarrow> delivered i q = Some q' \<Longrightarrow>
    waiting E A call q' (if length us < SIGNAL_QUEUE_MAX then us @ [i] else us)"
| hook: "waiting E A call q us \<Longrightarrow> hooked q \<Longrightarrow> sig_handle E A call q s = Ok q' s' \<Longrightarrow>
    waiting E A call q' []"

inductive_cases waitingE: "waiting E A call q us"

lemma sig_handle_queue:
  "sig_handle E A call q s = Ok q' s' \<Longrightarrow> q' = q\<lparr>hooked := False, signal_count := 0\<rparr>"
  by (auto simp: sig_handle_def Let_def run_simps split: out.splits)

lemma delivered_hook:
  assumes "idle q" "delivered i q = Some q'"
  shows "hooked q' = (hooked q \<or> length (queued q) < SIGNAL_QUEUE_MAX)"
proof (cases "length (queued q) < SIGNAL_QUEUE_MAX")
  case True
  with assms postpone_queues [of q i] show ?thesis by (auto simp: idle_def delivered_def)
next
  case False
  with assms have "length (queued q) = SIGNAL_QUEUE_MAX" using length_queued [of q]
    by (simp add: idle_def)
  with assms show ?thesis using postpone_full [of q i] by (auto simp: idle_def delivered_def)
qed

lemma waiting_inv:
  "waiting E A call q us \<Longrightarrow> idle q \<and> queued q = us \<and> (hooked q \<longleftrightarrow> us \<noteq> [])"
proof (induction rule: waiting.induct)
  case start
  then show ?case using idle_start by (simp add: no_signals_def)
next
  case (arrives q us i q')
  then have q: "idle q" "queued q = us" "hooked q \<longleftrightarrow> us \<noteq> []" by auto
  have "length us \<le> SIGNAL_QUEUE_MAX" using length_queued [of q] q by (simp add: idle_def)
  then show ?case
    using delivered_idle [OF q(1), of i] delivered_hook [OF q(1) arrives.hyps(2)] arrives.hyps(2) q
    by (auto simp: SIGNAL_QUEUE_MAX_def)
next
  case (hook q us s q' s')
  then have "idle q" by blast
  then show ?case using sig_handle_queue [OF hook.hyps(3)]
    by (simp add: idle_def sig_ok_def queued_def)
qed

text \<open>
  Property C19: in every history of signal arrivals and hook runs the queue holds exactly the
  signals that wait for their handler, in order of arrival and never more than the array has
  room for; the hook is set if and only if one waits, so none is forgotten; the two guards of
  \<open>sig_postpone\<close> are clear, and the next arrival never writes outside the array.
\<close>

theorem queue_holds_waiting_signals:
  assumes "waiting E A call q us"
  shows "queued q = us \<and> length us \<le> SIGNAL_QUEUE_MAX \<and> (hooked q \<longleftrightarrow> us \<noteq> []) \<and>
    defer_signal q = 0 \<and> signal_pending q = 0 \<and>
    (\<exists>q'. delivered i q = Some q' \<and> queued q' = (if length us < SIGNAL_QUEUE_MAX then us @ [i] else us))"
proof -
  have q: "idle q" "queued q = us" "hooked q \<longleftrightarrow> us \<noteq> []" using waiting_inv [OF assms] by auto
  then have "length us \<le> SIGNAL_QUEUE_MAX" using length_queued [of q] by (simp add: idle_def)
  then show ?thesis using q delivered_idle [OF q(1), of i] by (auto simp: idle_def sig_ok_def)
qed

theorem queue_holds_waiting_signals_witness:
  "\<exists>q. delivered 15 no_signals = Some q \<and> queued q = [15] \<and> hooked q"
proof -
  obtain q where q: "delivered 15 no_signals = Some q"
    using delivered_idle [OF idle_start(1), of 15] by blast
  have "waiting sample_env A call q (if length ([] :: cint list) < SIGNAL_QUEUE_MAX then [] @ [15] else [])"
    for A :: "unit sigapi" and call
    by (rule waiting.arrives [OF waiting.start q])
  from queue_holds_waiting_signals [OF this] q show ?thesis by (simp add: SIGNAL_QUEUE_MAX_def)
qed

subsection \<open>No waiting signal is forgotten\<close>

text \<open>
  The handlers of the signals \<open>us\<close>, in the table \<open>t\<close> at \<open>T\<close>: each call ends, with an error
  message as \<open>fails\<close> says, and leaves the table alone.  \<open>log\<close> reads the calls made so far, as pairs
  of function and arguments, from the world.
\<close>

definition handler_call :: "ltable \<Rightarrow> cint \<Rightarrow> lvalue \<times> lvalue list" where
  "handler_call t i = (tbl_get t (LInt (of_cint i)), [LInt (of_cint i)])"

definition behaves ::
  "('w \<Rightarrow> (lvalue \<times> lvalue list) list) \<Rightarrow> 'w lcall \<Rightarrow> (cint \<Rightarrow> string option) \<Rightarrow> nat \<Rightarrow> ltable \<Rightarrow>
   cint list \<Rightarrow> bool" where
  "behaves log call fails T t us \<longleftrightarrow> (\<forall>i s. i \<in> set us \<and> tabs s T = t \<longrightarrow>
     (\<exists>s'. call (fst (handler_call t i)) (snd (handler_call t i)) s =
          (s', map_option LStr (fails i)) \<and>
        tabs s' T = t \<and> log (world s') = log (world s) @ [handler_call t i]))"

text \<open>A list up to its first signal whose handler fails.\<close>

fun up_to_failure :: "(cint \<Rightarrow> string option) \<Rightarrow> cint list \<Rightarrow> cint list" where
  "up_to_failure fails [] = []"
| "up_to_failure fails (i # is) = i # (if fails i = None then up_to_failure fails is else [])"

lemma up_to_failure_all: "(\<And>i. i \<in> set is \<Longrightarrow> fails i = None) \<Longrightarrow> up_to_failure fails is = is"
  by (induction "is") simp_all

lemma run_handlers_logged:
  assumes "behaves log call fails T (tabs s T) ns" "run_handlers call T ns s = (s', r)"
  shows "drops_rest E (s', r) \<and>
    log (world s') = log (world s) @ map (handler_call (tabs s T)) (up_to_failure fails ns)"
  using assms
proof (induction ns arbitrary: s)
  case (Cons n ns)
  let ?t = "tabs s T"
  obtain s1 where c: "call (tbl_get ?t (LInt (of_cint n))) [LInt (of_cint n)] (s\<lparr>stk := []\<rparr>) =
      (s1, map_option LStr (fails n))" "tabs s1 T = ?t"
      "log (world s1) = log (world s) @ [handler_call ?t n]"
    using Cons.prems(1) [unfolded behaves_def, rule_format, of n "s\<lparr>stk := []\<rparr>"]
    by (auto simp: handler_call_def)
  have "behaves log call fails T (tabs (s1\<lparr>stk := stk s\<rparr>) T) ns"
    using Cons.prems(1) c(2) by (auto simp: behaves_def)
  with Cons.IH [of "s1\<lparr>stk := stk s\<rparr>"] Cons.prems(2) c show ?case
    by (auto split: option.splits)
qed simp

lemma report_failure_log:
  assumes "\<And>n m e w. log (snd (snd (c_report A n m e w))) = log w"
  shows "log (world (report_failure E A e r)) = log (world (fst r))"
proof -
  have one: "log (world (report A n m s)) = log (world s)" for n m s
    using assms [of n m "errno s" "world s"]
    by (cases "c_report A n m (errno s) (world s)") (simp add: report_def)
  have "log (world (reports A e ns s)) = log (world s)" for ns s
    by (induction ns arbitrary: s) (simp_all add: one)
  then show ?thesis
    by (cases "(E, r)" rule: drops_rest.cases) (simp_all add: one Let_def)
qed

text \<open>
  Property C4: no waiting signal is forgotten.  In every reachable state with a waiting signal the
  hook is set, so the interpreter runs it at its next instruction.  When the handlers of the waiting
  signals return or raise an error with a message, its run ends, after the handlers were called with
  the signal's number in reverse order of arrival, each once, up to and including the first that
  raises an error (all of them, when none does); then none waits, and the signals that arrived
  before the one whose handler failed are dropped.
\<close>

theorem waiting_signals_served:
  assumes "waiting E A call q us" "us \<noteq> []" "behaves log call fails T (tabs s T) us"
    and "tbl_get (regs s) signalL_key = LTab T" "stk s = []"
    and "\<And>k. strlib E (LInt k) = LNil" "\<And>a s. call LNil a s = (s, Some (LStr e))"
    and "\<And>e w. log (snd (snd (c_block_all A e w))) = log w"
    and "\<And>m e w. log (snd (snd (c_setmask A m e w))) = log w"
    and "\<And>n m e w. log (snd (snd (c_report A n m e w))) = log w"
  shows "hooked q \<and> (\<exists>q' t. sig_handle E A call q s = Ok q' t \<and> waiting E A call q' [] \<and>
    log (world t) = log (world s) @ map (handler_call (tabs s T)) (up_to_failure fails (rev us)))"
proof -
  have q: "hooked q" "queued q = us" using waiting_inv [OF assms(1)] assms(2) by auto
  obtain old e1 w1 where block: "c_block_all A (errno s) (world s) = (old, e1, w1)"
    by (metis prod_cases3)
  let ?s1 = "s\<lparr>errno := e1, world := w1, stk := [LTab T]\<rparr>" and ?q = "q\<lparr>hooked := False\<rparr>"
  let ?r = "run_handlers call T (rev us) ?s1" and ?s2 = "report_failure E A e (run_handlers call T (rev us) ?s1)"
  have us: "us = map (signals ?q) [0..<nat (sint (signal_count q))]"
    using q(2) by (simp add: queued_def)
  have "behaves log call fails T (tabs ?s1 T) (rev us)" using assms(3) by (simp add: behaves_def)
  with run_handlers_logged [of log call fails T ?s1 "rev us" "fst ?r" "snd ?r" E]
  have r: "drops_rest E ?r" "log (world (fst ?r)) = log w1 @ map (handler_call (tabs s T)) (up_to_failure fails (rev us))"
    by simp_all
  then have "sig_loop E A call ?q (nat (sint (signal_count q))) ?s1 = Ok () ?s2"
    using assms(6,7) unfolding us by (intro sig_loop_ok) simp_all
  moreover obtain u e2 w2 where mask: "c_setmask A old (errno ?s2) (world ?s2) = (u, e2, w2)"
    by (metis prod_cases3)
  ultimately have run: "sig_handle E A call q s = Ok (?q\<lparr>signal_count := 0\<rparr>) (?s2\<lparr>errno := e2, world := w2\<rparr>)"
    using assms(4,5) block
    by (simp add: sig_handle_def bnd_def thn_def sys_def push_handlers_def lua_push_run ret_def Let_def)
  have "log w1 = log (world s)" "log w2 = log (world ?s2)"
    using assms(8) [of "errno s" "world s"] assms(9) [of old "errno ?s2" "world ?s2"] block mask by simp_all
  then show ?thesis
    using q(1) run waiting.hook [OF assms(1) q(1) run] r(2) report_failure_log [of log A E e ?r, OF assms(10)]
    by auto
qed

theorem waiting_signals_served_witness:
  "\<exists>q q' t. arrive [1, 15, 2] no_signals = Some q \<and> hooked q \<and>
     sig_handle sample_env sample_api sample_call q sample_sig_state = Ok q' t \<and>
     snd (world t) = [(LFun 2, [LInt 2]), (LFun 1, [LInt 15]), (LFun 9, [LInt 1])]"
proof -
  let ?s = "sample_sig_state"
  obtain q1 where q1: "delivered 1 no_signals = Some q1" "idle q1"
    using delivered_idle [OF idle_start(1), of 1] by blast
  obtain q2 where q2: "delivered 15 q1 = Some q2" "idle q2" using delivered_idle [OF q1(2), of 15] by blast
  obtain q where q: "delivered 2 q2 = Some q" using delivered_idle [OF q2(2), of 2] by blast
  have "waiting sample_env sample_api sample_call q [1, 15, 2]"
    using waiting.arrives [OF waiting.arrives [OF waiting.arrives [OF waiting.start q1(1)] q2(1)] q]
    by (simp add: SIGNAL_QUEUE_MAX_def)
  moreover have "behaves snd sample_call (\<lambda>i. if i = 1 then Some ''no'' else None) 0 (tabs ?s 0) [1, 15, 2]"
    by (auto simp: behaves_def handler_call_def sample_call_def sample_sig_state_def of_cint_def)
  ultimately obtain q' t where "hooked q" "sig_handle sample_env sample_api sample_call q ?s = Ok q' t"
    "snd (world t) = map (handler_call (tabs ?s 0)) (rev [1, 15, 2])"
    using waiting_signals_served [of sample_env sample_api sample_call q "[1, 15, 2]" snd
        "\<lambda>i. if i = 1 then Some ''no'' else None" 0 ?s "''nil''"]
    by (auto simp: sample_sig_state_def sample_api_def sample_call_def sample_state_def sample_env_def)
  then show ?thesis using q1(1) q2(1) q
    by (intro exI [of _ q] exI [of _ q'] exI [of _ t]) (simp add: handler_call_def of_cint_def sample_sig_state_def)
qed

text \<open>The value \<open>signal\<close> returns for the old handler, with \<open>v\<close> in the table of handlers.\<close>

definition old_handler_value :: "sigaddrs \<Rightarrow> cint \<Rightarrow> lvalue \<Rightarrow> nat \<Rightarrow> lvalue" where
  "old_handler_value K sig v old =
     (if old = a_sig_postpone K then v
      else if old = SIG_DFL K then LStr ''SIG_DFL''
      else if old = SIG_IGN K then LStr ''SIG_IGN''
      else LCFun ''sig_handler_wrap'' [LInt (of_cint sig), LLight old])"

lemma push_old_handler_run:
  assumes "tbl_get (regs s) signalL_key = LTab T" "stk s = k # xs"
  shows "\<exists>ys. push_old_handler E K sig old s =
    Ok () (s\<lparr>stk := ys @ [old_handler_value K sig (tbl_get (tabs s T) k) old]\<rparr>)"
proof (cases "old = a_sig_postpone K")
  case True
  have "lua_gettable E (-2) (s\<lparr>stk := k # xs @ [LTab T, k]\<rparr>) =
      Ok () (s\<lparr>stk := k # xs @ [LTab T, tbl_get (tabs s T) k]\<rparr>)"
    using lua_gettable_run [of "-2" "k # xs @ [LTab T]" k T "s\<lparr>stk := k # xs @ [LTab T, k]\<rparr>" E]
    by (simp add: at_def slot_def nth_append)
  with True assms show ?thesis
    by (intro exI [of _ "k # xs @ [LTab T]"])
      (simp add: push_old_handler_def push_handlers_def run_simps at_one old_handler_value_def)
next
  case False
  then show ?thesis using assms
    by (intro exI [of _ "stk s"])
      (auto simp: push_old_handler_def run_simps old_handler_value_def cstr_def NUL_def)
qed

lemma store_handler_run:
  assumes "tbl_get (regs s) signalL_key = LTab T" "stk s = [k, v]" "k \<noteq> LNil"
  shows "store_handler s = Ok () (tab_update T k v s)"
  using assms
  by (simp add: store_handler_def push_handlers_def run_simps at_numeral at_one
      lua_settable_run [where xs = "[k, v, LTab T]" and a = T] at_def slot_def
      tab_update_def stk_self)

lemma Psignal_function:
  assumes tab: "tbl_get (regs s) signalL_key = LTab T"
    and act: "c (to_cint n) (a_sig_postpone K) 0 (errno s) (world s) = ((r, old), e, w)"
  shows "call_c (Psignal E K c) [LInt n, LFun f] s =
    (if r = -1 then Ok [] (s\<lparr>errno := e, world := w\<rparr>)
     else Ok [old_handler_value K (to_cint n) (LFun f) old]
            (tab_update T (LInt n) (LFun f) (s\<lparr>errno := e, world := w\<rparr>)))"
proof -
  let ?s = "s\<lparr>stk := [LInt n, LFun f], errno := e, world := w\<rparr>"
  let ?t = "tab_update T (LInt n) (LFun f) ?s"
  have run: "Psignal E K c (s\<lparr>stk := [LInt n, LFun f]\<rparr>) =
     (if r = -1 then Ok 0 ?s
      else thn store_handler (thn (push_old_handler E K (to_cint n) old) (ret 1)) ?s)"
    using act
    by (simp add: Psignal_def signal_handler_def run_simps sys_def at_numeral at_one type_of_def
        type_le_nil)
  have store: "store_handler ?s = Ok () ?t"
    by (rule store_handler_run) (simp_all add: tab)
  obtain ys where "push_old_handler E K (to_cint n) old ?t =
      Ok () (?t\<lparr>stk := ys @ [old_handler_value K (to_cint n) (LFun f) old]\<rparr>)"
    using push_old_handler_run [of ?t T "LInt n" "[LFun f]" E K "to_cint n" old] tab by auto
  with run store show ?thesis
    by (simp add: call_c_def thn_def ret_def tab_update_def)
qed


text \<open>
  Property C18: \<open>signal(n, f)\<close> with a Lua function: when \<open>sigaction\<close> accepts the signal, the
  handler table maps the number to \<open>f\<close> and is otherwise unchanged; a C handler found in place is
  returned under its name or as a closure, but when a Lua handler was in place before, the
  value returned as "previous handler" is the new function \<open>f\<close>, since the table is written
  before it is read.  When \<open>sigaction\<close> fails, nothing is stored and nothing is returned.
\<close>

theorem signal_stores_handler:
  assumes "tbl_get (regs s) signalL_key = LTab T"
    and "c (to_cint n) (a_sig_postpone K) 0 (errno s) (world s) = ((r, old), e, w)"
    and "call_c (Psignal E K c) [LInt n, LFun f] s = Ok vs s'"
  shows "if r = -1 then vs = [] \<and> tabs s' = tabs s
    else tbl_get (tabs s' T) (LInt n) = LFun f \<and>
      (\<forall>k. k \<noteq> LInt n \<longrightarrow> tbl_get (tabs s' T) k = tbl_get (tabs s T) k) \<and>
      (\<forall>a. a \<noteq> T \<longrightarrow> tabs s' a = tabs s a) \<and>
      (if old = a_sig_postpone K then vs = [LFun f]
       else if old = SIG_DFL K then vs = [LStr ''SIG_DFL'']
       else if old = SIG_IGN K then vs = [LStr ''SIG_IGN'']
       else vs = [LCFun ''sig_handler_wrap'' [LInt (of_cint (to_cint n)), LLight old]])"
  using Psignal_function [of s T c n K r old e w E f] assms
  by (auto simp: old_handler_value_def split: if_splits)

theorem signal_stores_handler_witness:
  "let K = \<lparr>SIG_DFL = 0, SIG_IGN = 1, a_sig_postpone = 7\<rparr>;
       s = (sample_state [])\<lparr>regs := [(signalL_key, LTab 0)],
             tabs := (\<lambda>_. [(LInt 15, LFun 1), (LInt 2, LFun 3)])\<rparr>;
       c = \<lambda>sig h fl e w. ((0 :: cint, 7 :: nat), e, w @ [(sig, h)])
   in \<exists>s'. call_c (Psignal sample_env K c) [LInt 15, LFun 2] s = Ok [LFun 2] s' \<and>
        tbl_get (tabs s' 0) (LInt 15) = LFun 2 \<and> tbl_get (tabs s' 0) (LInt 2) = LFun 3 \<and>
        world s' = [(15, 7)]"
proof -
  let ?K = "\<lparr>SIG_DFL = 0, SIG_IGN = 1, a_sig_postpone = 7\<rparr>"
  let ?s = "(sample_state [])\<lparr>regs := [(signalL_key, LTab 0)],
             tabs := (\<lambda>_. [(LInt 15, LFun 1), (LInt 2, LFun 3)])\<rparr> :: (cint \<times> nat) list lst"
  let ?c = "\<lambda>sig h fl e w. ((0 :: cint, 7 :: nat), e, w @ [(sig, h)])"
  let ?s' = "tab_update 0 (LInt 15) (LFun 2) (?s\<lparr>errno := 0, world := [(15, 7)]\<rparr>)"
  have run: "call_c (Psignal sample_env ?K ?c) [LInt 15, LFun 2] ?s = Ok [LFun 2] ?s'"
    using Psignal_function [of ?s 0 ?c 15 ?K 0 7 0 "[(15, 7)]" sample_env 2]
    by (simp add: old_handler_value_def to_cint_def)
  then have "tbl_get (tabs ?s' 0) (LInt 15) = LFun 2 \<and>
      (\<forall>k. k \<noteq> LInt 15 \<longrightarrow> tbl_get (tabs ?s' 0) k = tbl_get (tabs ?s 0) k)"
    using signal_stores_handler [of ?s 0 ?c 15 ?K 0 7 0 "[(15, 7)]" sample_env 2 "[LFun 2]" ?s']
    by (simp add: to_cint_def)
  with run show ?thesis unfolding Let_def
    by (intro exI [of _ ?s']) simp
qed

text \<open>
  The closure \<open>signal\<close> returns for a C handler cannot be given back to \<open>signal\<close>: the
  handler's address is its second upvalue, but the first (the signal number) is read, so that
  the null pointer is installed.
\<close>

lemma wrapped_handler_reinstalls_null:
  assumes "old \<noteq> a_sig_postpone K" "old \<noteq> SIG_DFL K" "old \<noteq> SIG_IGN K"
  shows "signal_handler E K (s\<lparr>stk := [LInt n, old_handler_value K sig v old]\<rparr>) =
    Ok 0 (s\<lparr>stk := [LInt n, old_handler_value K sig v old]\<rparr>)"
  using assms
  by (simp add: signal_handler_def old_handler_value_def run_simps at_numeral type_of_def
      lua_touserdata_addr_def)

section \<open>Sending signals and rejected calls\<close>

definition args_kill :: "env \<Rightarrow> cint \<Rightarrow> lvalue list \<Rightarrow> err + (cint \<times> cint)" where
  "args_kill E SIGTERM args =
     sbind (arg_integer E 1 args) (\<lambda>p. sbind (arg_optint E 2 SIGTERM args) (\<lambda>q.
     sbind (at_most 2 args) (\<lambda>_. Inr (to_cint p, q))))"

interpretation kill: sys_wrapper "Pkill E k c" "\<lambda>s. args_kill E k" "\<lambda>(p, q). c p q" E "\<lambda>_. None"
  for E k c
  by unfold_locales
    (simp add: Pkill_def args_kill_def wrapper_simps split: option.splits prod.splits)

interpretation killpg: sys_wrapper "Pkillpg E k c" "\<lambda>s. args_kill E k" "\<lambda>(p, q). c p q" E "\<lambda>_. None"
  for E k c
  by unfold_locales
    (simp add: Pkillpg_def args_kill_def wrapper_simps split: option.splits prod.splits)

interpretation raise_sig: sys_value "Praise E c" "args_fd E" c "\<lambda>r. LInt (of_cint r)" for E c
  by unfold_locales
    (simp add: Praise_def wrapper_simps at_one split: option.splits prod.splits)

lemma quiet_signal_handler: "quiet (signal_handler E K)"
  unfolding signal_handler_def luaL_checkoption_def argtypeerror_def
  by (rule quiet_bnd [OF quiet_prims(3)])
    (auto intro!: quiet_rules split: ltype.splits option.splits lvalue.splits)

lemma settled_push_handlers: "settled push_handlers"
  by (simp add: settled_def push_handlers_def lua_push_def)

lemma settled_store_handler: "settled store_handler"
  unfolding store_handler_def by (intro settled_seq settled_push_handlers settled_rules)

lemma settled_push_old_handler: "settled (push_old_handler E K sig old)"
  unfolding push_old_handler_def
  by (auto intro!: settled_seq settled_push_handlers settled_rules)

lemma clean_signal:
  "clean (Pkill E k c)" "clean (Pkillpg E k c)" "clean (Praise E d)" "clean (Psignal E K f)"
  unfolding Pkill_def Pkillpg_def Praise_def Psignal_def
  by (rule clean_rules quiet_signal_handler settled_store_handler settled_push_old_handler)+

section \<open>Opening the module\<close>

definition posix_signal_fns :: "entry list" where
  "posix_signal_fns = [
    Item ''Pkill'', Item ''Pkillpg'', Item ''Praise'', Item ''Psignal'']"

definition posix_signal_sigs :: "entry list" where
  "posix_signal_sigs = [
    Only ''SIGABRT'' (Item ''SIGABRT''), Only ''SIGALRM'' (Item ''SIGALRM''),
    Only ''SIGBUS'' (Item ''SIGBUS''), Only ''SIGCHLD'' (Item ''SIGCHLD''),
    Only ''SIGCONT'' (Item ''SIGCONT''), Only ''SIGFPE'' (Item ''SIGFPE''),
    Only ''SIGHUP'' (Item ''SIGHUP''), Only ''SIGILL'' (Item ''SIGILL''),
    Only ''SIGINFO'' (Item ''SIGINFO''), Only ''SIGINT'' (Item ''SIGINT''),
    Only ''SIGKILL'' (Item ''SIGKILL''), Only ''SIGPIPE'' (Item ''SIGPIPE''),
    Only ''SIGQUIT'' (Item ''SIGQUIT''), Only ''SIGSEGV'' (Item ''SIGSEGV''),
    Only ''SIGSTOP'' (Item ''SIGSTOP''), Only ''SIGTERM'' (Item ''SIGTERM''),
    Only ''SIGTSTP'' (Item ''SIGTSTP''), Only ''SIGTTIN'' (Item ''SIGTTIN''),
    Only ''SIGTTOU'' (Item ''SIGTTOU''), Only ''SIGUSR1'' (Item ''SIGUSR1''),
    Only ''SIGUSR2'' (Item ''SIGUSR2''), Only ''SIGSYS'' (Item ''SIGSYS''),
    Only ''SIGTRAP'' (Item ''SIGTRAP''), Only ''SIGURG'' (Item ''SIGURG''),
    Only ''SIGVTALRM'' (Item ''SIGVTALRM''), Only ''SIGWINCH'' (Item ''SIGWINCH''),
    Only ''SIGXCPU'' (Item ''SIGXCPU''), Only ''SIGXFSZ'' (Item ''SIGXFSZ'')]"

definition posix_signal_flags :: "entry list" where
  "posix_signal_flags = [
    Only ''SA_NOCLDSTOP'' (Item ''SA_NOCLDSTOP''), Only ''SA_NOCLDWAIT'' (Item ''SA_NOCLDWAIT''),
    Only ''SA_NODEFER'' (Item ''SA_NODEFER''), Only ''SA_RESETHAND'' (Item ''SA_RESETHAND''),
    Only ''SA_RESTART'' (Item ''SA_RESTART'')]"

definition posix_signal_strings :: "string list" where
  "posix_signal_strings = [''SIG_DFL'', ''SIG_IGN'']"

text \<open>
  Besides filling the module table, \<open>luaopen_posix_signal\<close> creates the table of handlers in the
  registry.  \<open>file_handlers\<close> is that table's creation: \<open>lua_pushlightuserdata(L, &signalL);
  lua_newtable(L); lua_rawset(L, LUA_REGISTRYINDEX)\<close>.
\<close>

definition file_handlers :: "('w, unit) lm" where
  "file_handlers s = Ok () (s\<lparr>regs := tbl_set (regs s) signalL_key (LTab (ntab s)),
     ntab := Suc (ntab s), tabs := (tabs s)(ntab s := []), metas := (metas s)(ntab s := None)\<rparr>)"

definition luaopen_posix_signal :: "host \<Rightarrow> ('w, nat) lm" where
  "luaopen_posix_signal H =
     thn (luaL_newlib H posix_signal_fns)
    (thn (push_version H ''signal'')
    (thn file_handlers
    (thn (LPOSIX_CONSTs H posix_signal_sigs)
    (thn (for_each posix_signal_strings (\<lambda>x. add_field x (LStr x)))
    (thn (LPOSIX_CONSTs H posix_signal_flags) (ret 1))))))"

lemma signal_names:
  "names_ok posix_signal_fns (posix_signal_sigs @ map Item posix_signal_strings @ posix_signal_flags)"
  by code_simp

end
