(* ===== verification/Termio.thy ===== *)
theory Termio
  imports Marshal Modules
begin

text \<open>
  \<^verbatim>\<open>ext/posix/termio.c\<close>: terminal attributes and window sizes as tables, both ways.  The flags are
  unsigned 32-bit words, control characters are bytes; \<open>X\<close> says whether the host's \<open>struct winsize\<close>
  has the pixel members.
\<close>

section \<open>Window sizes\<close>

record winsize =
  ws_row :: cshort
  ws_col :: cshort
  ws_xpixel :: cshort
  ws_ypixel :: cshort

definition winsize_members :: "bool \<Rightarrow> winsize \<Rightarrow> rfield list" where
  "winsize_members X ws =
     [IntF ''ws_row'' (of_ushort (ws_row ws)), IntF ''ws_col'' (of_ushort (ws_col ws))] @
     (if X then [IntF ''ws_xpixel'' (of_ushort (ws_xpixel ws)), IntF ''ws_ypixel'' (of_ushort (ws_ypixel ws))]
      else [])"

definition pushwinsize :: "bool \<Rightarrow> winsize option \<Rightarrow> ('w, nat) lm" where
  "pushwinsize X ws = (case ws of
      None \<Rightarrow> thn lua_pushnil (ret 1)
    | Some w \<Rightarrow> make_record ''PosixWinsize'' (winsize_members X w))"

definition Swinsize_fields :: "string list" where
  "Swinsize_fields = [''ws_row'', ''ws_col'', ''ws_xpixel'', ''ws_ypixel'']"

definition towinsize :: "env \<Rightarrow> bool \<Rightarrow> int \<Rightarrow> ('w, winsize) lm" where
  "towinsize E X index =
     thn (luaL_checktype index TTABLE)
    (bnd (optintfield E index ''ws_row'' 0) (\<lambda>row.
     bnd (optintfield E index ''ws_col'' 0) (\<lambda>col.
     bnd (if X then optintfield E index ''ws_xpixel'' 0 else ret 0) (\<lambda>xpixel.
     bnd (if X then optintfield E index ''ws_ypixel'' 0 else ret 0) (\<lambda>ypixel.
     thn (checkfieldnames E index Swinsize_fields)
         (ret \<lparr>ws_row = to_ushort row, ws_col = to_ushort col, ws_xpixel = to_ushort xpixel,
               ws_ypixel = to_ushort ypixel\<rparr>))))))"

section \<open>Terminal attributes\<close>

record termios =
  c_iflag :: cint
  c_oflag :: cint
  c_cflag :: cint
  c_lflag :: cint
  c_ispeed :: cint
  c_ospeed :: cint
  c_cc :: "nat \<Rightarrow> 8 word"

text \<open>\<open>cfgetispeed\<close>, \<dots> of the C library and the size of \<open>c_cc\<close>.\<close>

record speeds =
  cfgetispeed :: "termios \<Rightarrow> cint"
  cfgetospeed :: "termios \<Rightarrow> cint"
  cfsetispeed :: "cint \<Rightarrow> termios \<Rightarrow> termios"
  cfsetospeed :: "cint \<Rightarrow> termios \<Rightarrow> termios"

definition attr_members :: "speeds \<Rightarrow> termios \<Rightarrow> rfield list" where
  "attr_members V t = [
     IntF ''iflag'' (of_cuint (c_iflag t)), IntF ''oflag'' (of_cuint (c_oflag t)),
     IntF ''lflag'' (of_cuint (c_lflag t)), IntF ''cflag'' (of_cuint (c_cflag t)),
     IntF ''ispeed'' (of_cuint (cfgetispeed V t)), IntF ''ospeed'' (of_cuint (cfgetospeed V t))]"

definition cc_pairs :: "nat \<Rightarrow> termios \<Rightarrow> (lvalue \<times> lvalue) list" where
  "cc_pairs NCCS t = map (\<lambda>i. (LInt (of_nat i), LInt (of_uchar (c_cc t i)))) [0..<NCCS]"

definition Ptcgetattr ::
  "env \<Rightarrow> nat \<Rightarrow> speeds \<Rightarrow> (cint \<Rightarrow> ('w, cint \<times> termios) sys) \<Rightarrow> ('w, nat) lm" where
  "Ptcgetattr E NCCS V c_tcgetattr =
     bnd (checkint E 1) (\<lambda>fd.
     thn (checknargs 1)
    (bnd (sys (c_tcgetattr fd)) (\<lambda>r.
     let t = snd r in
     if fst r = -1 then pusherror E None
     else seqn [
       lua_newtable,
       for_each (attr_members V t) put_rfield,
       lua_newtable,
       set_pairs (cc_pairs NCCS t),
       lua_setfield (-2) ''cc''] 1)))"

text \<open>\<open>lua_getfield(L, 3, k); ... optint(L, -1, d) ...; lua_pop(L, 1)\<close>\<close>

definition attr_field :: "env \<Rightarrow> string \<Rightarrow> cint \<Rightarrow> ('w, cint) lm" where
  "attr_field E k d =
     thn (lua_getfield E 3 k)
    (bnd (optint E (-1) d) (\<lambda>v. thn (lua_pop 1) (ret v)))"

fun read_cc :: "env \<Rightarrow> nat list \<Rightarrow> (nat \<Rightarrow> 8 word) \<Rightarrow> ('w, nat \<Rightarrow> 8 word) lm" where
  "read_cc E [] cc = ret cc"
| "read_cc E (i # is) cc =
     thn (lua_pushinteger (of_nat i))
    (thn (lua_gettable E (-2))
    (bnd (optint E (-1) 0) (\<lambda>v.
     thn (lua_pop 1)
         (read_cc E is (cc(i := to_uchar v))))))"

text \<open>\<open>t0\<close> is the uninitialised structure on the stack.\<close>

definition Ptcsetattr ::
  "env \<Rightarrow> nat \<Rightarrow> speeds \<Rightarrow> cint \<Rightarrow> termios \<Rightarrow> (cint \<Rightarrow> cint \<Rightarrow> termios \<Rightarrow> ('w, cint) sys) \<Rightarrow> ('w, nat) lm" where
  "Ptcsetattr E NCCS V B0 t0 c_tcsetattr =
     bnd (checkint E 1) (\<lambda>fd.
     bnd (checkint E 2) (\<lambda>act.
     thn (luaL_checktype 3 TTABLE)
    (thn (checknargs 3)
    (bnd (attr_field E ''iflag'' 0) (\<lambda>iflag.
     bnd (attr_field E ''oflag'' 0) (\<lambda>oflag.
     bnd (attr_field E ''cflag'' 0) (\<lambda>cflag.
     bnd (attr_field E ''lflag'' 0) (\<lambda>lflag.
     bnd (attr_field E ''ispeed'' B0) (\<lambda>ispeed.
     bnd (attr_field E ''ospeed'' B0) (\<lambda>ospeed.
     let t1 = cfsetospeed V ospeed (cfsetispeed V ispeed
       (t0\<lparr>c_iflag := iflag, c_oflag := oflag, c_cflag := cflag, c_lflag := lflag\<rparr>)) in
     thn (lua_getfield E 3 ''cc'')
    (bnd (read_cc E [0..<NCCS] (c_cc t1)) (\<lambda>cc.
     bnd (sys (c_tcsetattr fd act (t1\<lparr>c_cc := cc\<rparr>))) (\<lambda>r. pushresult E r None)))))))))))))"

section \<open>The other functions\<close>

definition Ptcdrain :: "env \<Rightarrow> (cint \<Rightarrow> ('w, cint) sys) \<Rightarrow> ('w, nat) lm" where
  "Ptcdrain E c_tcdrain =
     bnd (checkint E 1) (\<lambda>fd. thn (checknargs 1)
    (bnd (sys (c_tcdrain fd)) (\<lambda>r. pushresult E r None)))"

definition Ptcflow :: "env \<Rightarrow> (cint \<Rightarrow> cint \<Rightarrow> ('w, cint) sys) \<Rightarrow> ('w, nat) lm" where
  "Ptcflow E c_tcflow =
     bnd (checkint E 1) (\<lambda>fd. bnd (checkint E 2) (\<lambda>action. thn (checknargs 2)
    (bnd (sys (c_tcflow fd action)) (\<lambda>r. pushresult E r None))))"

definition Ptcflush :: "env \<Rightarrow> (cint \<Rightarrow> cint \<Rightarrow> ('w, cint) sys) \<Rightarrow> ('w, nat) lm" where
  "Ptcflush E c_tcflush =
     bnd (checkint E 1) (\<lambda>fd. bnd (checkint E 2) (\<lambda>qs. thn (checknargs 2)
    (bnd (sys (c_tcflush fd qs)) (\<lambda>r. pushresult E r None))))"

definition Ptcsendbreak :: "env \<Rightarrow> (cint \<Rightarrow> cint \<Rightarrow> ('w, cint) sys) \<Rightarrow> ('w, nat) lm" where
  "Ptcsendbreak E c_tcsendbreak =
     bnd (checkint E 1) (\<lambda>fd. bnd (checkint E 2) (\<lambda>duration. thn (checknargs 2)
    (bnd (sys (c_tcsendbreak fd duration)) (\<lambda>r. pushresult E r None))))"

definition Ptcgetwinsize :: "env \<Rightarrow> bool \<Rightarrow> (cint \<Rightarrow> ('w, cint \<times> winsize) sys) \<Rightarrow> ('w, nat) lm" where
  "Ptcgetwinsize E X c_tiocgwinsz =
     bnd (checkint E 1) (\<lambda>fd.
     thn (checknargs 1)
    (bnd (sys (c_tiocgwinsz fd)) (\<lambda>r.
     if fst r = -1 then pusherror E None else pushwinsize X (Some (snd r)))))"

definition Ptcsetwinsize :: "env \<Rightarrow> bool \<Rightarrow> (cint \<Rightarrow> winsize \<Rightarrow> ('w, cint) sys) \<Rightarrow> ('w, nat) lm" where
  "Ptcsetwinsize E X c_tiocswinsz =
     bnd (checkint E 1) (\<lambda>fd.
     bnd (towinsize E X 2) (\<lambda>ws.
     thn (checknargs 2)
    (bnd (sys (c_tiocswinsz fd ws)) (\<lambda>r. pushresult E r None))))"

section \<open>Wrappers\<close>

interpretation tcdrain: sys_wrapper "Ptcdrain E c" "args_fd E" c E "\<lambda>_. None" for E c
  by unfold_locales (simp add: Ptcdrain_def wrapper_simps split: option.splits prod.splits)

interpretation tcflow: sys_wrapper "Ptcflow E c" "args_fd2 E" "\<lambda>(a, b). c a b" E "\<lambda>_. None" for E c
  by unfold_locales (simp add: Ptcflow_def wrapper_simps split: option.splits prod.splits)

interpretation tcflush: sys_wrapper "Ptcflush E c" "args_fd2 E" "\<lambda>(a, b). c a b" E "\<lambda>_. None" for E c
  by unfold_locales (simp add: Ptcflush_def wrapper_simps split: option.splits prod.splits)

interpretation tcsendbreak: sys_wrapper "Ptcsendbreak E c" "args_fd2 E" "\<lambda>(a, b). c a b" E "\<lambda>_. None"
  for E c
  by unfold_locales (simp add: Ptcsendbreak_def wrapper_simps split: option.splits prod.splits)

lemma to_ushort_0: "to_ushort 0 = 0"
  by (simp add: to_ushort_def)

interpretation winsize_copy: record_copy "\<lambda>t. pushwinsize X (Some t)" "''PosixWinsize''"
    "winsize_members X" "towinsize E X" "\<lambda>w. X \<or> (ws_xpixel w = 0 \<and> ws_ypixel w = 0)" for E X
proof unfold_locales
  fix r :: winsize and i :: int and s :: "'w lst" and a
  assume ok: "X \<or> (ws_xpixel r = 0 \<and> ws_ypixel r = 0)" and i: "0 < i" "at i (stk s) = Some (LTab a)"
    and t: "tabs s a = named (rfields (winsize_members X r))"
  have wf: "wf_table (named (rfields (winsize_members X r)))"
    by (simp add: winsize_members_def wf_table_def)
  have names: "checkfieldnames E i Swinsize_fields s = Ok () s"
    by (rule names_of_named [OF i t wf])
      (simp add: winsize_members_def Swinsize_fields_def cstr_def NUL_def)
  show "towinsize E X i s = Ok r s" unfolding towinsize_def luaL_checktype_table [OF i(2)]
    using ok
    by (cases r; cases X)
      (simp_all add: run_simps field_of [OF i(2)] t names of_defs int_field_def winsize_members_def to_ushort_0)
qed (auto simp: pushwinsize_def winsize_members_def)

text \<open>What \<open>towinsize\<close> accepts.\<close>

definition winsize_of :: "env \<Rightarrow> bool \<Rightarrow> int \<Rightarrow> ltable \<Rightarrow> err + winsize" where
  "winsize_of E X i t =
     sbind (of_optint E i ''ws_row'' 0 t) (\<lambda>row. sbind (of_optint E i ''ws_col'' 0 t) (\<lambda>col.
     sbind (if X then of_optint E i ''ws_xpixel'' 0 t else Inr 0) (\<lambda>xp.
     sbind (if X then of_optint E i ''ws_ypixel'' 0 t else Inr 0) (\<lambda>yp.
     sbind (of_names E i Swinsize_fields t) (\<lambda>_.
       Inr \<lparr>ws_row = to_ushort row, ws_col = to_ushort col, ws_xpixel = to_ushort xp,
             ws_ypixel = to_ushort yp\<rparr>)))))"

lemma winsize_field_names: "list_all field_name Swinsize_fields"
  by (simp add: Swinsize_fields_def field_name_def numeral_start_def)

lemma towinsize_run:
  assumes "float_text E" "0 < i" "at i (stk s) = Some (LTab a)" "wf_table (tabs s a)"
  shows "towinsize E X i s = ofsum (winsize_of E X i (tabs s a)) s"
  unfolding towinsize_def luaL_checktype_table [OF assms(3)] winsize_of_def
  by (cases X; simp only: if_True if_False;
     (rule bnd_of thn_of field_of [OF assms(3)] names_of [OF assms(1) winsize_field_names assms(2,3,4)] ret_of)+)

lemma settled_pushwinsize: "settled (pushwinsize X w)"
  by (simp add: pushwinsize_def settled_make_record settled_rules split: option.splits)

lemma quiet_attr: "quiet (towinsize E X i)" "quiet (attr_field E k d)" "quiet (read_cc E is cc)"
proof -
  show "quiet (towinsize E X i)" unfolding towinsize_def by (rule quiet_rules)+
  show "quiet (attr_field E k d)" unfolding attr_field_def by (rule quiet_rules)+
  show "quiet (read_cc E is cc)"
    by (induction "is" arbitrary: cc) (simp_all only: read_cc.simps, (rule quiet_rules | assumption)+)
qed

lemma settled_set_pairs: "settled (set_pairs kvs)"
  unfolding set_pairs_def by (intro settled_for_each settled_prod settled_seq settled_rules)

lemma clean_termio:
  "clean (Ptcdrain E c1)" "clean (Ptcflow E c2)" "clean (Ptcflush E c2)" "clean (Ptcsendbreak E c2)"
  "clean (Ptcgetattr E n V c3)" "clean (Ptcsetattr E n V b t0 c4)" "clean (Ptcgetwinsize E X c5)"
  "clean (Ptcsetwinsize E X c6)"
  unfolding Ptcdrain_def Ptcflow_def Ptcflush_def Ptcsendbreak_def Ptcgetattr_def Ptcsetattr_def
    Ptcgetwinsize_def Ptcsetwinsize_def
  by (rule clean_rules quiet_attr settled_pushwinsize settled_set_pairs settled_put_rfield)+

section \<open>Attributes survive the round trip\<close>

lemma cc_get:
  assumes "i < NCCS" "NCCS < 2 ^ 63"
  shows "tbl_get (tbl.put_all [] (cc_pairs NCCS t)) (LInt (of_nat i)) = LInt (of_uchar (c_cc t i))"
proof (rule tbl.get_put_all)
  have "inj_on (\<lambda>i. LInt (of_nat i)) {0..<NCCS}"
  proof (rule inj_onI)
    fix x y assume "x \<in> {0..<NCCS}" "y \<in> {0..<NCCS}" and eq: "LInt (of_nat x) = LInt (of_nat y)"
    then have "x < 2 ^ 64" "y < 2 ^ 64" using assms(2) by auto
    with eq show "x = y" by (simp add: word_of_nat_eq_iff take_bit_nat_eq_self)
  qed
  then show "distinct (map fst (cc_pairs NCCS t))"
    by (simp add: cc_pairs_def distinct_map comp_def)
  show "(LInt (of_nat i), LInt (of_uchar (c_cc t i))) \<in> set (cc_pairs NCCS t)"
    using assms(1) by (auto simp: cc_pairs_def)
qed

lemma attr_distinct: "distinct (map rfield_name (attr_members V t))"
  by (simp add: attr_members_def)

text \<open>The two tables that \<open>tcgetattr\<close> leaves.\<close>

definition attr_tables :: "nat \<Rightarrow> speeds \<Rightarrow> termios \<Rightarrow> 'w lst \<Rightarrow> nat \<Rightarrow> bool" where
  "attr_tables NCCS V t s a \<longleftrightarrow>
     (\<forall>k n. (k, n) \<in> set [(''iflag'', c_iflag t), (''oflag'', c_oflag t), (''lflag'', c_lflag t),
         (''cflag'', c_cflag t), (''ispeed'', cfgetispeed V t), (''ospeed'', cfgetospeed V t)] \<longrightarrow>
       tbl_get (tabs s a) (LStr k) = LInt (of_cuint n)) \<and>
     (\<exists>b. tbl_get (tabs s a) (LStr ''cc'') = LTab b \<and>
       (\<forall>i < NCCS. tbl_get (tabs s b) (LInt (of_nat i)) = LInt (of_uchar (c_cc t i))))"

lemma Ptcgetattr_run:
  assumes "c (to_cint fd) (errno s) (world s) = ((r, t), e, w)" "r \<noteq> -1" "NCCS < 2 ^ 63"
  shows "\<exists>s'. call_c (Ptcgetattr E NCCS V c) [LInt fd] s = Ok [LTab (ntab s)] s' \<and>
    attr_tables NCCS V t s' (ntab s) \<and> errno s' = e \<and> world s' = w"
proof -
  have nil: "LNil \<notin> fst ` set (cc_pairs NCCS t)" by (auto simp: cc_pairs_def)
  let ?m = "tbl.put_all [] (named (rfields (attr_members V t)))"
  obtain s' where s': "call_c (Ptcgetattr E NCCS V c) [LInt fd] s = Ok [LTab (ntab s)] s'"
    "tabs s' (ntab s) = tbl_set ?m (LStr ''cc'') (LTab (Suc (ntab s)))"
    "tabs s' (Suc (ntab s)) = tbl.put_all [] (cc_pairs NCCS t)" "errno s' = e" "world s' = w"
    using assms(1,2)
    by (simp add: Ptcgetattr_def call_c_def run_simps sys_def at_one Let_def new_table_def
        writes_run [OF writes_rfields, where xs = "[LInt fd]" and a = "ntab s"]
        set_pairs_run [where xs = "[LInt fd, LTab (ntab s)]" and a = "Suc (ntab s)"] nil
        lua_setfield_run [where xs = "[LInt fd, LTab (ntab s)]" and a = "ntab s"] at_def slot_def
        tab_update_def)
  have m: "tbl_get ?m x = tbl_get (named (rfields (attr_members V t))) x" for x
    using named_fresh [OF rfields_distinct [OF attr_distinct] rfields_present, of V t] by simp
  have "attr_tables NCCS V t s' (ntab s)"
    unfolding attr_tables_def using cc_get [OF _ assms(3)]
    by (auto simp: s'(2,3) m attr_members_def)
  with s' show ?thesis by blast
qed

lemma attr_field_run:
  assumes "at 3 (stk s) = Some (LTab a)" "tbl_get (tabs s a) (LStr k) = LInt n"
  shows "attr_field E k d s = Ok (to_cint n) s"
  using assms by (simp add: attr_field_def run_simps lua_getfield_run type_of_def type_le_nil)

lemma read_cc_run:
  assumes "stk s = xs @ [LTab b]" "\<forall>i \<in> set is. tbl_get (tabs s b) (LInt (of_nat i)) = LInt (of_uchar (f i))"
  shows "read_cc E is cc s = Ok (\<lambda>i. if i \<in> set is then f i else cc i) s"
  using assms(2)
proof (induction "is" arbitrary: cc)
  case (Cons i "is")
  have get: "lua_gettable E (-2) (s\<lparr>stk := xs @ [LTab b, LInt (of_nat i)]\<rparr>) =
      Ok () (s\<lparr>stk := xs @ [LTab b, LInt (of_uchar (f i))]\<rparr>)"
    using lua_gettable_run [of "-2" "xs @ [LTab b]" "LInt (of_nat i)" b
        "s\<lparr>stk := xs @ [LTab b, LInt (of_nat i)]\<rparr>" E] Cons.prems by simp
  have "read_cc E (i # is) cc s = read_cc E is (cc(i := f i)) s"
    using assms(1) get
    by (simp add: bnd_def thn_def lua_push_run optint_run type_of_def type_le_nil lua_pop_run stk_self)
  with Cons show ?case by (auto simp: fun_eq_iff)
qed (simp add: run_simps)

text \<open>The structure the kernel gets when a table with the attributes \<open>t\<close> is set.\<close>

definition set_again :: "nat \<Rightarrow> speeds \<Rightarrow> termios \<Rightarrow> termios \<Rightarrow> termios" where
  "set_again NCCS V t0 t =
     (let t1 = cfsetospeed V (cfgetospeed V t) (cfsetispeed V (cfgetispeed V t)
        (t0\<lparr>c_iflag := c_iflag t, c_oflag := c_oflag t, c_cflag := c_cflag t, c_lflag := c_lflag t\<rparr>))
      in t1\<lparr>c_cc := (\<lambda>i. if i < NCCS then c_cc t i else c_cc t1 i)\<rparr>)"

lemma Ptcsetattr_run:
  assumes "attr_tables NCCS V t s a"
    and "c (to_cint fd) (to_cint act) (set_again NCCS V t0 t) (errno s) (world s) = (r, e, w)"
  shows "call_c (Ptcsetattr E NCCS V B0 t0 c) [LInt fd, LInt act, LTab a] s =
    Ok (result_values E None r e) (s\<lparr>errno := e, world := w\<rparr>)"
proof -
  obtain b where fld: "tbl_get (tabs s a) (LStr ''iflag'') = LInt (of_cuint (c_iflag t))"
      "tbl_get (tabs s a) (LStr ''oflag'') = LInt (of_cuint (c_oflag t))"
      "tbl_get (tabs s a) (LStr ''lflag'') = LInt (of_cuint (c_lflag t))"
      "tbl_get (tabs s a) (LStr ''cflag'') = LInt (of_cuint (c_cflag t))"
      "tbl_get (tabs s a) (LStr ''ispeed'') = LInt (of_cuint (cfgetispeed V t))"
      "tbl_get (tabs s a) (LStr ''ospeed'') = LInt (of_cuint (cfgetospeed V t))"
    and cc: "tbl_get (tabs s a) (LStr ''cc'') = LTab b"
      "\<forall>i < NCCS. tbl_get (tabs s b) (LInt (of_nat i)) = LInt (of_uchar (c_cc t i))"
    using assms(1) unfolding attr_tables_def by auto
  let ?xs = "[LInt fd, LInt act, LTab a]"
  let ?s = "s\<lparr>stk := ?xs\<rparr>"
  have at3: "at 3 (stk ?s) = Some (LTab a)" by (simp add: at_numeral)
  have flds: "attr_field E ''iflag'' d ?s = Ok (c_iflag t) ?s" "attr_field E ''oflag'' d ?s = Ok (c_oflag t) ?s"
    "attr_field E ''lflag'' d ?s = Ok (c_lflag t) ?s" "attr_field E ''cflag'' d ?s = Ok (c_cflag t) ?s"
    "attr_field E ''ispeed'' d ?s = Ok (cfgetispeed V t) ?s"
    "attr_field E ''ospeed'' d ?s = Ok (cfgetospeed V t) ?s" for d
    using attr_field_run [OF at3] fld by simp_all
  have get: "lua_getfield E 3 ''cc'' ?s = Ok () (s\<lparr>stk := ?xs @ [LTab b]\<rparr>)"
    using lua_getfield_run [OF at3] cc(1) by simp
  have rd: "read_cc E [0..<NCCS] g (s\<lparr>stk := ?xs @ [LTab b]\<rparr>) =
      Ok (\<lambda>i. if i < NCCS then c_cc t i else g i) (s\<lparr>stk := ?xs @ [LTab b]\<rparr>)" for g
    using read_cc_run [of "s\<lparr>stk := ?xs @ [LTab b]\<rparr>" ?xs b "[0..<NCCS]" "c_cc t" E g] cc(2) by simp
  show ?thesis using assms(2)
    by (simp add: Ptcsetattr_def call_c_def bnd_def thn_def checkint_run luaL_checktype_def checknargs_run
        at_numeral at_one type_of_def flds get rd [simplified] sys_def pushresult_run ret_def Let_def set_again_def)
qed

text \<open>
  Property C23: the attributes returned by \<open>tcgetattr\<close>, given to \<open>tcsetattr\<close>, reach the kernel with
  the same flag words, the same control characters (all \<open>NCCS\<close> of them) and the speeds set from
  the speeds read.
\<close>

theorem termios_roundtrip:
  assumes "NCCS < 2 ^ 63" "c_get (to_cint fd) (errno s) (world s) = ((0, t), e, w)"
    and "c_set (to_cint fd) (to_cint act) (set_again NCCS V t0 t) e w = (r, e', w')"
  shows "\<exists>v s1. call_c (Ptcgetattr E NCCS V c_get) [LInt fd] s = Ok [v] s1 \<and>
    call_c (Ptcsetattr E NCCS V B0 t0 c_set) [LInt fd, LInt act, v] s1 =
      Ok (result_values E None r e') (s1\<lparr>errno := e', world := w'\<rparr>)"
proof -
  obtain s1 where s1: "call_c (Ptcgetattr E NCCS V c_get) [LInt fd] s = Ok [LTab (ntab s)] s1"
    "attr_tables NCCS V t s1 (ntab s)" "errno s1 = e" "world s1 = w"
    using Ptcgetattr_run [where c = c_get and s = s and E = E and V = V, OF assms(2) _ assms(1)] by auto
  have "call_c (Ptcsetattr E NCCS V B0 t0 c_set) [LInt fd, LInt act, LTab (ntab s)] s1 =
      Ok (result_values E None r e') (s1\<lparr>errno := e', world := w'\<rparr>)"
    by (rule Ptcsetattr_run [OF s1(2)]) (use assms(3) s1(3,4) in simp)
  with s1(1) show ?thesis by blast
qed

text \<open>Sample values for the evaluation: speeds kept in the two speed members.\<close>

definition sample_speeds :: speeds where
  "sample_speeds = \<lparr>cfgetispeed = c_ispeed, cfgetospeed = c_ospeed,
     cfsetispeed = (\<lambda>v t. t\<lparr>c_ispeed := v\<rparr>), cfsetospeed = (\<lambda>v t. t\<lparr>c_ospeed := v\<rparr>)\<rparr>"

definition sample_attrs :: "cint \<Rightarrow> termios" where
  "sample_attrs x = \<lparr>c_iflag = x, c_oflag = 5, c_cflag = 0xFFFFFFFF, c_lflag = 35387, c_ispeed = 15,
     c_ospeed = 15, c_cc = (\<lambda>i. if i < 4 then of_nat i else 0)\<rparr>"

theorem termios_roundtrip_witness:
  "\<exists>v s1. call_c (Ptcgetattr sample_env 4 sample_speeds (\<lambda>fd e w. ((0, sample_attrs 17664), e, w))) [LInt 0]
      (sample_state []) = Ok [v] s1 \<and>
    call_c (Ptcsetattr sample_env 4 sample_speeds 0 (sample_attrs 1) (\<lambda>fd act t e w. (0, e, w @ [t])))
      [LInt 0, LInt 2, v] s1 = Ok [LInt 0] (s1\<lparr>errno := 0, world := [sample_attrs 17664]\<rparr>)"
proof -
  have "set_again 4 sample_speeds (sample_attrs 1) (sample_attrs 17664) = sample_attrs 17664"
    by (simp add: set_again_def sample_speeds_def sample_attrs_def fun_eq_iff)
  with termios_roundtrip [of 4 "\<lambda>fd e w. ((0, sample_attrs 17664), e, w)" 0 "sample_state []"
      "sample_attrs 17664" 0 "[]" "\<lambda>fd act t e w. (0, e, w @ [t])" 2 sample_speeds "sample_attrs 1" 0 0
      "[sample_attrs 17664]" sample_env 0]
  show ?thesis by (simp add: result_values_def)
qed

text \<open>
  \<open>tcsetwinsize\<close> takes only the field names \<open>ws_row\<close>, \<open>ws_col\<close>, \<open>ws_xpixel\<close> and
  \<open>ws_ypixel\<close>: a table with any other key is refused before the terminal is touched.
\<close>

lemma winsize_unknown_field:
  assumes "float_text E" "wf_table (tabs s a)" "k \<in> fst ` set (tabs s a)"
    and "\<And>x. k = LStr x \<Longrightarrow> cstr x \<notin> set Swinsize_fields"
  shows "\<exists>msg. call_c (Ptcsetwinsize E X c) [LInt fd, LTab a] s = Err (ArgError 2 msg) s"
proof -
  let ?s = "s\<lparr>stk := [LInt fd, LTab a]\<rparr>" and ?t = "tabs s a"
  have "key_complaint E Swinsize_fields k \<noteq> None"
  proof (cases "vtype k = TNUMBER")
    case True
    then show ?thesis by (rule number_key_complaint [OF assms(1) winsize_field_names])
  next
    case False
    with assms(4) show ?thesis by (cases k) (auto simp: key_complaint_def)
  qed
  then obtain cmp where "first_complaint E Swinsize_fields ?t = Some cmp"
    using assms(3) first_complaint_None [of E Swinsize_fields ?t] by fastforce
  then have names: "of_names E 2 Swinsize_fields ?t = Inl (ArgError 2 cmp)" by (simp add: of_names_def)
  have bad: "\<exists>msg. er = ArgError 2 msg" if "of_optint E 2 k' 0 ?t = Inl er" for k' er
    using that by (auto simp: of_defs Let_def sbind_def split: if_splits sum.splits)
  have "\<exists>msg. winsize_of E X 2 ?t = Inl (ArgError 2 msg)"
    unfolding winsize_of_def names
    by (cases "of_optint E 2 ''ws_row'' 0 ?t"; cases "of_optint E 2 ''ws_col'' 0 ?t"; cases X;
        cases "of_optint E 2 ''ws_xpixel'' 0 ?t"; cases "of_optint E 2 ''ws_ypixel'' 0 ?t")
      (auto dest: bad)
  moreover have "towinsize E X 2 ?s = ofsum (winsize_of E X 2 ?t) ?s"
    using towinsize_run [OF assms(1), of 2 ?s a X] assms(2) by (simp add: at_numeral)
  ultimately show ?thesis
    by (auto simp: Ptcsetwinsize_def call_c_def bnd_def checkint_run at_one stk_self)
qed

section \<open>Opening the module\<close>

definition posix_termio_fns :: "entry list" where
  "posix_termio_fns = [
    Only ''HAVE_TERMIOS_H'' (Item ''Ptcdrain''), Only ''HAVE_TERMIOS_H'' (Item ''Ptcflow''),
    Only ''HAVE_TERMIOS_H'' (Item ''Ptcflush''), Only ''HAVE_TERMIOS_H'' (Item ''Ptcgetattr''),
    Only ''HAVE_TERMIOS_H'' (Item ''Ptcsendbreak''),
    Only ''HAVE_TERMIOS_H'' (Item ''Ptcsetattr''),
    Only ''HAVE_TERMIOS_H'' (Only ''TIOCGWINSZ'' (Item ''Ptcgetwinsize'')),
    Only ''HAVE_TERMIOS_H'' (Only ''TIOCSWINSZ'' (Item ''Ptcsetwinsize''))]"

definition posix_termio_cflags :: "entry list" where
  "posix_termio_cflags = [
    Only ''HAVE_TERMIOS_H'' (Item ''TCSANOW''), Only ''HAVE_TERMIOS_H'' (Item ''TCSADRAIN''),
    Only ''HAVE_TERMIOS_H'' (Item ''TCSAFLUSH''), Only ''HAVE_TERMIOS_H'' (Item ''TCIFLUSH''),
    Only ''HAVE_TERMIOS_H'' (Item ''TCOFLUSH''), Only ''HAVE_TERMIOS_H'' (Item ''TCIOFLUSH''),
    Only ''HAVE_TERMIOS_H'' (Item ''TCOOFF''), Only ''HAVE_TERMIOS_H'' (Item ''TCOON''),
    Only ''HAVE_TERMIOS_H'' (Item ''TCIOFF''), Only ''HAVE_TERMIOS_H'' (Item ''TCION''),
    Only ''HAVE_TERMIOS_H'' (Only ''B0'' (Item ''B0'')),
    Only ''HAVE_TERMIOS_H'' (Only ''B50'' (Item ''B50'')),
    Only ''HAVE_TERMIOS_H'' (Only ''B75'' (Item ''B75'')),
    Only ''HAVE_TERMIOS_H'' (Only ''B110'' (Item ''B110'')),
    Only ''HAVE_TERMIOS_H'' (Only ''B134'' (Item ''B134'')),
    Only ''HAVE_TERMIOS_H'' (Only ''B150'' (Item ''B150'')),
    Only ''HAVE_TERMIOS_H'' (Only ''B200'' (Item ''B200'')),
    Only ''HAVE_TERMIOS_H'' (Only ''B300'' (Item ''B300'')),
    Only ''HAVE_TERMIOS_H'' (Only ''B600'' (Item ''B600'')),
    Only ''HAVE_TERMIOS_H'' (Only ''B1200'' (Item ''B1200'')),
    Only ''HAVE_TERMIOS_H'' (Only ''B1800'' (Item ''B1800'')),
    Only ''HAVE_TERMIOS_H'' (Only ''B2400'' (Item ''B2400'')),
    Only ''HAVE_TERMIOS_H'' (Only ''B4800'' (Item ''B4800'')),
    Only ''HAVE_TERMIOS_H'' (Only ''B9600'' (Item ''B9600'')),
    Only ''HAVE_TERMIOS_H'' (Only ''B19200'' (Item ''B19200'')),
    Only ''HAVE_TERMIOS_H'' (Only ''B38400'' (Item ''B38400'')),
    Only ''HAVE_TERMIOS_H'' (Only ''B57600'' (Item ''B57600'')),
    Only ''HAVE_TERMIOS_H'' (Only ''B115200'' (Item ''B115200'')),
    Only ''HAVE_TERMIOS_H'' (Only ''CSIZE'' (Item ''CSIZE'')),
    Only ''HAVE_TERMIOS_H'' (Only ''BS5'' (Item ''CS5'')),
    Only ''HAVE_TERMIOS_H'' (Only ''CS6'' (Item ''CS6'')),
    Only ''HAVE_TERMIOS_H'' (Only ''CS7'' (Item ''CS7'')),
    Only ''HAVE_TERMIOS_H'' (Only ''CS8'' (Item ''CS8'')),
    Only ''HAVE_TERMIOS_H'' (Only ''CSTOPB'' (Item ''CSTOPB'')),
    Only ''HAVE_TERMIOS_H'' (Only ''CREAD'' (Item ''CREAD'')),
    Only ''HAVE_TERMIOS_H'' (Only ''PARENB'' (Item ''PARENB'')),
    Only ''HAVE_TERMIOS_H'' (Only ''PARODD'' (Item ''PARODD'')),
    Only ''HAVE_TERMIOS_H'' (Only ''HUPCL'' (Item ''HUPCL'')),
    Only ''HAVE_TERMIOS_H'' (Only ''CLOCAL'' (Item ''CLOCAL'')),
    Only ''HAVE_TERMIOS_H'' (Only ''CRTSCTS'' (Item ''CRTSCTS'')),
    Only ''HAVE_TERMIOS_H'' (Only ''ISIG'' (Item ''ISIG'')),
    Only ''HAVE_TERMIOS_H'' (Only ''ICANON'' (Item ''ICANON''))]"

definition posix_termio_lflags :: "entry list" where
  "posix_termio_lflags = [
    Only ''HAVE_TERMIOS_H'' (Only ''ECHO'' (Item ''ECHO'')),
    Only ''HAVE_TERMIOS_H'' (Only ''ECHOE'' (Item ''ECHOE'')),
    Only ''HAVE_TERMIOS_H'' (Only ''ECHOK'' (Item ''ECHOK'')),
    Only ''HAVE_TERMIOS_H'' (Only ''ECHONL'' (Item ''ECHONL'')),
    Only ''HAVE_TERMIOS_H'' (Only ''NOFLSH'' (Item ''NOFLSH'')),
    Only ''HAVE_TERMIOS_H'' (Only ''IEXTEN'' (Item ''IEXTEN'')),
    Only ''HAVE_TERMIOS_H'' (Only ''TOSTOP'' (Item ''TOSTOP'')),
    Only ''HAVE_TERMIOS_H'' (Only ''INPCK'' (Item ''INPCK'')),
    Only ''HAVE_TERMIOS_H'' (Only ''IGNPAR'' (Item ''IGNPAR'')),
    Only ''HAVE_TERMIOS_H'' (Only ''PARMRK'' (Item ''PARMRK'')),
    Only ''HAVE_TERMIOS_H'' (Only ''ISTRIP'' (Item ''ISTRIP'')),
    Only ''HAVE_TERMIOS_H'' (Only ''IXON'' (Item ''IXON'')),
    Only ''HAVE_TERMIOS_H'' (Only ''IXOFF'' (Item ''IXOFF'')),
    Only ''HAVE_TERMIOS_H'' (Only ''IXANY'' (Item ''IXANY'')),
    Only ''HAVE_TERMIOS_H'' (Only ''IGNBRK'' (Item ''IGNBRK'')),
    Only ''HAVE_TERMIOS_H'' (Only ''BRKINT'' (Item ''BRKINT'')),
    Only ''HAVE_TERMIOS_H'' (Only ''INLCR'' (Item ''INLCR'')),
    Only ''HAVE_TERMIOS_H'' (Only ''IGNCR'' (Item ''IGNCR'')),
    Only ''HAVE_TERMIOS_H'' (Only ''ICRNL'' (Item ''ICRNL'')),
    Only ''HAVE_TERMIOS_H'' (Only ''IMAXBEL'' (Item ''IMAXBEL'')),
    Only ''HAVE_TERMIOS_H'' (Only ''OPOST'' (Item ''OPOST'')),
    Only ''HAVE_TERMIOS_H'' (Only ''ONLCR'' (Item ''ONLCR'')),
    Only ''HAVE_TERMIOS_H'' (Only ''OCRNL'' (Item ''OCRNL'')),
    Only ''HAVE_TERMIOS_H'' (Only ''ONLRET'' (Item ''ONLRET'')),
    Only ''HAVE_TERMIOS_H'' (Only ''OFILL'' (Item ''OFILL'')),
    Only ''HAVE_TERMIOS_H'' (Only ''OFDEL'' (Item ''OFDEL'')),
    Only ''HAVE_TERMIOS_H'' (Only ''NLDLY'' (Item ''NLDLY'')),
    Only ''HAVE_TERMIOS_H'' (Only ''NL0'' (Item ''NL0'')),
    Only ''HAVE_TERMIOS_H'' (Only ''NL1'' (Item ''NL1'')),
    Only ''HAVE_TERMIOS_H'' (Only ''CRDLY'' (Item ''CRDLY''))]"

definition posix_termio_oflags :: "entry list" where
  "posix_termio_oflags = [
    Only ''HAVE_TERMIOS_H'' (Only ''CR0'' (Item ''CR0'')),
    Only ''HAVE_TERMIOS_H'' (Only ''CR1'' (Item ''CR1'')),
    Only ''HAVE_TERMIOS_H'' (Only ''CR2'' (Item ''CR2'')),
    Only ''HAVE_TERMIOS_H'' (Only ''CR3'' (Item ''CR3'')),
    Only ''HAVE_TERMIOS_H'' (Only ''TABDLY'' (Item ''TABDLY'')),
    Only ''HAVE_TERMIOS_H'' (Only ''TAB0'' (Item ''TAB0'')),
    Only ''HAVE_TERMIOS_H'' (Only ''TAB1'' (Item ''TAB1'')),
    Only ''HAVE_TERMIOS_H'' (Only ''TAB2'' (Item ''TAB2'')),
    Only ''HAVE_TERMIOS_H'' (Only ''TAB3'' (Item ''TAB3'')),
    Only ''HAVE_TERMIOS_H'' (Only ''BSDLY'' (Item ''BSDLY'')),
    Only ''HAVE_TERMIOS_H'' (Only ''BS0'' (Item ''BS0'')),
    Only ''HAVE_TERMIOS_H'' (Only ''BS1'' (Item ''BS1'')),
    Only ''HAVE_TERMIOS_H'' (Only ''VTDLY'' (Item ''VTDLY'')),
    Only ''HAVE_TERMIOS_H'' (Only ''VT0'' (Item ''VT0'')),
    Only ''HAVE_TERMIOS_H'' (Only ''VT1'' (Item ''VT1'')),
    Only ''HAVE_TERMIOS_H'' (Only ''FFDLY'' (Item ''FFDLY'')),
    Only ''HAVE_TERMIOS_H'' (Only ''FF0'' (Item ''FF0'')),
    Only ''HAVE_TERMIOS_H'' (Only ''FF1'' (Item ''FF1'')),
    Only ''HAVE_TERMIOS_H'' (Only ''VINTR'' (Item ''VINTR'')),
    Only ''HAVE_TERMIOS_H'' (Only ''VQUIT'' (Item ''VQUIT'')),
    Only ''HAVE_TERMIOS_H'' (Only ''VERASE'' (Item ''VERASE'')),
    Only ''HAVE_TERMIOS_H'' (Only ''VKILL'' (Item ''VKILL'')),
    Only ''HAVE_TERMIOS_H'' (Only ''VEOF'' (Item ''VEOF'')),
    Only ''HAVE_TERMIOS_H'' (Only ''VEOL'' (Item ''VEOL'')),
    Only ''HAVE_TERMIOS_H'' (Only ''VEOL2'' (Item ''VEOL2'')),
    Only ''HAVE_TERMIOS_H'' (Only ''VMIN'' (Item ''VMIN'')),
    Only ''HAVE_TERMIOS_H'' (Only ''VTIME'' (Item ''VTIME'')),
    Only ''HAVE_TERMIOS_H'' (Only ''VSTART'' (Item ''VSTART'')),
    Only ''HAVE_TERMIOS_H'' (Only ''VSTOP'' (Item ''VSTOP''))]"

definition posix_termio_ccs :: "entry list" where
  "posix_termio_ccs = [
    Only ''HAVE_TERMIOS_H'' (Only ''VSUSP'' (Item ''VSUSP'')),
    Only ''HAVE_TERMIOS_H'' (Only ''CBAUD'' (Item ''CBAUD'')),
    Only ''HAVE_TERMIOS_H'' (Only ''EXTA'' (Item ''EXTA'')),
    Only ''HAVE_TERMIOS_H'' (Only ''EXTB'' (Item ''EXTB'')),
    Only ''HAVE_TERMIOS_H'' (Only ''DEFECHO'' (Item ''DEFECHO'')),
    Only ''HAVE_TERMIOS_H'' (Only ''ECHOCTL'' (Item ''ECHOCTL'')),
    Only ''HAVE_TERMIOS_H'' (Only ''ECHOPRT'' (Item ''ECHOPRT'')),
    Only ''HAVE_TERMIOS_H'' (Only ''ECHOKE'' (Item ''ECHOKE'')),
    Only ''HAVE_TERMIOS_H'' (Only ''FLUSHO'' (Item ''FLUSHO'')),
    Only ''HAVE_TERMIOS_H'' (Only ''IUTF8'' (Item ''IUTF8'')),
    Only ''HAVE_TERMIOS_H'' (Only ''PENDIN'' (Item ''PENDIN'')),
    Only ''HAVE_TERMIOS_H'' (Only ''LOBLK'' (Item ''LOBLK'')),
    Only ''HAVE_TERMIOS_H'' (Only ''SWTCH'' (Item ''SWTCH'')),
    Only ''HAVE_TERMIOS_H'' (Only ''VDISCARD'' (Item ''VDISCARD'')),
    Only ''HAVE_TERMIOS_H'' (Only ''VDSUSP'' (Item ''VDSUSP'')),
    Only ''HAVE_TERMIOS_H'' (Only ''VLNEXT'' (Item ''VLNEXT'')),
    Only ''HAVE_TERMIOS_H'' (Only ''VREPRINT'' (Item ''VREPRINT'')),
    Only ''HAVE_TERMIOS_H'' (Only ''VSTATUS'' (Item ''VSTATUS'')),
    Only ''HAVE_TERMIOS_H'' (Only ''VWERASE'' (Item ''VWERASE''))]"

definition posix_termio_consts :: "entry list" where
  "posix_termio_consts =
     posix_termio_cflags @
     posix_termio_lflags @
     posix_termio_oflags @
     posix_termio_ccs"

definition luaopen_posix_termio :: "host \<Rightarrow> ('w, nat) lm" where
  "luaopen_posix_termio H = open_module H ''termio'' posix_termio_fns posix_termio_consts"

lemma termio_names: "names_ok posix_termio_fns posix_termio_consts"
  by code_simp

end
