(* ===== verification/UnistdIO.thy ===== *)
theory UnistdIO
  imports Arrays Modules
begin

text \<open>
  \<^verbatim>\<open>ext/posix/unistd.c\<close>, second part: the bindings that move bytes: \<open>read\<close>, \<open>write\<close>,
  \<open>readlink\<close> and \<open>getcwd\<close>.
\<close>

section \<open>write\<close>

definition checked :: "'a option \<Rightarrow> ('w, 'a) lm" where
  "checked r = (case r of None \<Rightarrow> raise (Undefined ''signed overflow'') | Some x \<Rightarrow> ret x)"

definition write_error_msg :: "lint \<Rightarrow> cint \<Rightarrow> string" where
  "write_error_msg invalid_offset buflen =
     ''write: invalid attempt to access offset '' @ int_dec (sint (to_cint invalid_offset)) @
     '' in a buffer of length '' @ int_dec (sint buflen)"

text \<open>
  \<open>write(fd, buf + offset, nbytes)\<close> reads \<open>nbytes\<close> bytes from \<open>offset\<close> on; a slice that is not
  inside the string is undefined behaviour.
\<close>

definition buf_slice :: "string \<Rightarrow> lint \<Rightarrow> lint \<Rightarrow> ('w, string) lm" where
  "buf_slice buf offset nbytes =
     (if 0 \<le> sint offset \<and> 0 \<le> sint nbytes \<and> sint offset + sint nbytes \<le> int (length buf)
      then ret (take (unat nbytes) (drop (unat offset) buf))
      else raise (Undefined ''read past the end of the buffer''))"

text \<open>The part after the defaults are settled; \<open>buflen\<close> is an \<open>int\<close>.\<close>

definition write_range ::
  "env \<Rightarrow> cint \<Rightarrow> (cint \<Rightarrow> string \<Rightarrow> ('w, lint) sys) \<Rightarrow> cint \<Rightarrow> string \<Rightarrow> cint \<Rightarrow> lint \<Rightarrow> lint \<Rightarrow>
   ('w, nat) lm" where
  "write_range E EINVAL c_write fd buf buflen offset nbytes =
    (if nbytes = 0 then pushintegerresult 0
     else
     bnd (if 0 \<le> sint offset \<and> 0 < sint nbytes
          then bnd (checked (long_add offset nbytes)) (\<lambda>e. ret (sint e \<le> sint buflen))
          else ret False) (\<lambda>inside.
     if inside then
       bnd (buf_slice buf offset nbytes) (\<lambda>bytes.
       bnd (sys (c_write fd bytes)) (\<lambda>r. pushresult E (to_cint r) None))
     else
       bnd (checked (long_add offset nbytes)) (\<lambda>e.
       let invalid_offset = (if sint e < 0 \<or> sint buflen < sint e then e else offset) in
       seqn [set_errno EINVAL, lua_pushnil,
             lua_push (LStr (write_error_msg invalid_offset buflen)),
             lua_pushinteger (of_cint EINVAL)] 3)))"

definition Pwrite ::
  "env \<Rightarrow> cint \<Rightarrow> (cint \<Rightarrow> string \<Rightarrow> ('w, lint) sys) \<Rightarrow> ('w, nat) lm" where
  "Pwrite E EINVAL c_write =
     bnd (checkint E 1) (\<lambda>fd.
     bnd (luaL_checklstring E 2) (\<lambda>buf.
     bnd (lua_objlen E 2) (\<lambda>n.
     let buflen = to_cint n in
     bnd (optinteger E 3 (of_cint buflen)) (\<lambda>nbytes.
     bnd (optinteger E 4 0) (\<lambda>offset.
     thn (checknargs 4)
    (bnd (lua_type 3) (\<lambda>t3.
     bnd (if offset \<noteq> 0 \<and> t3 = TNIL then checked (long_sub (of_cint buflen) offset)
          else ret nbytes)
         (write_range E EINVAL c_write fd buf buflen offset))))))))"

text \<open>The four arguments: descriptor, buffer, count (\<open>None\<close> when nil or absent) and offset.\<close>

definition args_write ::
  "env \<Rightarrow> 'w lst \<Rightarrow> lvalue list \<Rightarrow> err + (cint \<times> string \<times> lint option \<times> lint)" where
  "args_write E s args =
     sbind (arg_int E 1 args) (\<lambda>fd. sbind (arg_lstr E s 2 args) (\<lambda>buf.
     sbind (arg_optinteger E 3 0 args) (\<lambda>n. sbind (arg_optinteger E 4 0 args) (\<lambda>off.
     sbind (at_most 4 args) (\<lambda>_.
     Inr (fd, buf, if type_of (at 3 args) \<le> TNIL then None else Some n, off))))))"

text \<open>How many bytes are asked for: up to the end of the buffer when no count is given.\<close>

definition write_count :: "string \<Rightarrow> lint option \<Rightarrow> lint \<Rightarrow> int" where
  "write_count buf n off = (case n of None \<Rightarrow> int (length buf) - sint off | Some k \<Rightarrow> sint k)"

definition write_slice :: "string \<Rightarrow> lint option \<Rightarrow> lint \<Rightarrow> string" where
  "write_slice buf n off = take (nat (write_count buf n off)) (drop (nat (sint off)) buf)"

text \<open>
  What \<open>write\<close> does, \<open>buf\<close> read at its mathematical indices.  An offset and a count whose sum is
  no \<open>long\<close> make the bounds check itself undefined.
\<close>

definition write_outcome ::
  "env \<Rightarrow> cint \<Rightarrow> (cint \<Rightarrow> string \<Rightarrow> ('w, lint) sys) \<Rightarrow> cint \<Rightarrow> string \<Rightarrow> lint option \<Rightarrow> lint \<Rightarrow>
   'w lst \<Rightarrow> ('w, lvalue list) out" where
  "write_outcome E EINVAL c_write fd buf n off s =
    (let k = write_count buf n off; o' = sint off; len = int (length buf) in
     if k = 0 then Ok [LInt 0] s
     else if 0 \<le> o' \<and> 0 < k \<and> o' + k \<le> len then
       (case c_write fd (write_slice buf n off) (errno s) (world s) of
          (r, e, w) \<Rightarrow> Ok (result_values E None (to_cint r) e) (s\<lparr>errno := e, world := w\<rparr>))
     else if in_lint k \<and> in_lint (o' + k) then
       Ok [LNil, LStr (write_error_msg
         (if o' + k < 0 \<or> len < o' + k then word_of_int (o' + k) else off) (of_nat (length buf))),
         LInt (of_cint EINVAL)] (s\<lparr>errno := EINVAL\<rparr>)
     else Err (Undefined ''signed overflow'') s)"

lemma word_lint_eqI: "sint a = sint b \<Longrightarrow> a = (b :: lint)"
  by (rule signed_word_eqI)

lemma long_add_ok:
  "in_lint (sint a + sint b) \<Longrightarrow> \<exists>c. long_add a b = Some c \<and> sint c = sint a + sint b \<and>
     c = a + b"
  by (simp add: long_add_def sint_plus)

lemma long_sub_ok:
  "in_lint (sint a - sint b) \<Longrightarrow> \<exists>c. long_sub a b = Some c \<and> sint c = sint a - sint b"
  by (simp add: long_sub_def sint_minus)

lemma write_range_run:
  assumes buf: "length buf < 2 ^ 31"
    and k: "k = sint nbytes" and add: "in_lint (sint offset + k)"
  shows "write_range E EINVAL c_write fd buf (of_nat (length buf)) offset nbytes s =
     (if k = 0 then Ok 1 (s\<lparr>stk := stk s @ [LInt 0]\<rparr>)
      else if 0 \<le> sint offset \<and> 0 < k \<and> sint offset + k \<le> int (length buf) then
        (case c_write fd (take (nat k) (drop (nat (sint offset)) buf)) (errno s) (world s) of
           (r, e, w) \<Rightarrow> pushresult E (to_cint r) None (s\<lparr>errno := e, world := w\<rparr>))
      else Ok 3 (s\<lparr>errno := EINVAL, stk := stk s @ [LNil, LStr (write_error_msg
          (if sint offset + k < 0 \<or> int (length buf) < sint offset + k
           then word_of_int (sint offset + k) else offset) (of_nat (length buf))),
          LInt (of_cint EINVAL)]\<rparr>))"
proof -
  obtain c where c: "long_add offset nbytes = Some c" "sint c = sint offset + k"
    and word: "c = offset + nbytes"
    using long_add_ok [of offset nbytes] add k by metis
  have len: "sint (of_nat (length buf) :: cint) = int (length buf)"
    using buf by (rule sint_of_nat_cint)
  have zero: "nbytes = 0 \<longleftrightarrow> k = 0"
    using k word_lint_eqI [of nbytes 0] by auto
  have un: "0 < k \<Longrightarrow> unat nbytes = nat k" "0 \<le> sint offset \<Longrightarrow> unat offset = nat (sint offset)"
    using k unat_nonneg by auto
  consider "k = 0" | "k \<noteq> 0" "0 \<le> sint offset \<and> 0 < k \<and> sint offset + k \<le> int (length buf)"
    | "k \<noteq> 0" "\<not> (0 \<le> sint offset \<and> 0 < k \<and> sint offset + k \<le> int (length buf))"
    by blast
  then show ?thesis
  proof cases
    case 1
    then show ?thesis using zero by (simp add: write_range_def run_simps)
  next
    case 2
    then show ?thesis using zero c len un k
      by (simp add: write_range_def bnd_def checked_def ret_def buf_slice_def sys_def
          split: prod.splits)
  next
    case 3
    then show ?thesis using zero c len k
      by (auto simp: write_range_def bnd_def checked_def ret_def Let_def run_simps word [symmetric])
  qed
qed

lemma Pwrite_start:
  assumes acc: "args_write E s args = Inr (fd, buf, n, off)" and buf: "length buf < 2 ^ 31"
    and sub: "n = None \<Longrightarrow> in_lint (int (length buf) - sint off)"
  shows "\<exists>ys nb. Pwrite E EINVAL c_write (s\<lparr>stk := args\<rparr>) =
      write_range E EINVAL c_write fd buf (of_nat (length buf)) off nb (s\<lparr>stk := ys\<rparr>) \<and>
    sint nb = write_count buf n off"
proof -
  obtain d m where d: "val_int E (at 1 args) = Some d" "fd = to_cint d"
    and b: "val_str E (at 2 args) = Some buf" and l: "length args \<le> 4"
    and m: "if type_of (at 3 args) \<le> TNIL then m = 0 else val_int E (at 3 args) = Some m"
    and n: "n = (if type_of (at 3 args) \<le> TNIL then None else Some m)"
    and off: "if type_of (at 4 args) \<le> TNIL then off = 0 else val_int E (at 4 args) = Some off"
    using acc by (auto simp: args_write_def accepted)
  let ?ys = "put_at 2 (LStr buf) args" and ?len = "of_nat (length buf) :: cint"
  have at2: "at 2 ?ys = Some (LStr buf)"
    using b by (cases "at 2 args") auto
  have trunc: "to_cint (of_nat (length buf)) = ?len"
    by (rule to_cint_of_nat)
  have len: "sint (of_cint ?len) = int (length buf)"
    using buf by (simp add: sint_of_cint sint_of_nat_cint)
  have o4: "optinteger E 4 0 (s\<lparr>stk := ?ys\<rparr>) = Ok off (s\<lparr>stk := ?ys\<rparr>)"
    using off by (auto simp: optinteger_run split: if_splits)
  have start: "Pwrite E EINVAL c_write (s\<lparr>stk := args\<rparr>) =
    bnd (optinteger E 3 (of_cint ?len)) (\<lambda>nbytes.
     bnd (if off \<noteq> 0 \<and> type_of (at 3 ?ys) = TNIL then checked (long_sub (of_cint ?len) off)
          else ret nbytes) (write_range E EINVAL c_write fd buf ?len off)) (s\<lparr>stk := ?ys\<rparr>)"
    using d b l at2 o4
    by (simp add: Pwrite_def bnd_def thn_def checkint_run luaL_checklstring_run lua_objlen_def
        asks_run Let_def trunc checknargs_run put_at_same_type lua_type_def optinteger_run
        split: option.splits if_splits)
  show ?thesis
  proof (cases "type_of (at 3 args) \<le> TNIL")
    case False
    then have "type_of (at 3 args) \<noteq> TNIL" by (auto simp: type_le_nil)
    with start False m n show ?thesis
      by (intro exI [of _ ?ys] exI [of _ m])
        (simp add: bnd_def optinteger_run ret_def write_count_def)
  next
    case True
    then have none: "n = None" using n by simp
    from sub [OF none] obtain c where c: "long_sub (of_cint ?len) off = Some c"
      "sint c = int (length buf) - sint off"
      using long_sub_ok [of "of_cint ?len" off] len by auto
    show ?thesis
    proof (cases "off \<noteq> 0 \<and> type_of (at 3 args) = TNIL")
      case True
      with start \<open>type_of (at 3 args) \<le> TNIL\<close> c none show ?thesis
        by (intro exI [of _ ?ys] exI [of _ c])
          (simp add: bnd_def optinteger_run checked_def ret_def write_count_def)
    next
      case False
      have "off = 0"
      proof (rule ccontr)
        assume nz: "off \<noteq> 0"
        then have "\<not> type_of (at 4 args) \<le> TNIL" using off by auto
        then have "at 3 args \<noteq> None" by (auto simp: at_numeral type_of_def type_le_nil split: if_splits)
        then have "type_of (at 3 args) = TNIL"
          using \<open>type_of (at 3 args) \<le> TNIL\<close> by (auto simp: type_le_nil type_of_def)
        with nz False show False by simp
      qed
      with start \<open>type_of (at 3 args) \<le> TNIL\<close> none len show ?thesis
        by (intro exI [of _ ?ys] exI [of _ "of_cint ?len"])
          (simp add: bnd_def optinteger_run ret_def write_count_def)
    qed
  qed
qed

lemma write_range_overflow:
  assumes "\<not> in_lint (sint offset + sint nbytes)"
  shows "write_range E EINVAL c_write fd buf len offset nbytes s =
    Err (Undefined ''signed overflow'') (s\<lparr>stk := []\<rparr>)"
proof -
  have "nbytes \<noteq> 0" using assms sint_lt [of offset] sint_ge [of offset] by (auto simp: in_lint_def)
  with assms show ?thesis
    by (simp add: write_range_def bnd_def checked_def long_add_def raise_def ret_def)
qed

lemma Pwrite_overflow:
  assumes acc: "args_write E s args = Inr (fd, buf, n, off)" and buf: "length buf < 2 ^ 31"
    and sub: "\<not> in_lint (write_count buf n off)"
  shows "Pwrite E EINVAL c_write (s\<lparr>stk := args\<rparr>) = Err (Undefined ''signed overflow'') (s\<lparr>stk := []\<rparr>)"
proof -
  have none: "n = None" using sub sint_lt [where 'a = 64] sint_ge [where 'a = 64]
    by (cases n) (auto simp: write_count_def in_lint_def)
  obtain d where d: "val_int E (at 1 args) = Some d" "fd = to_cint d"
    and b: "val_str E (at 2 args) = Some buf" and l: "length args \<le> 4"
    and le: "type_of (at 3 args) \<le> TNIL"
    and off: "if type_of (at 4 args) \<le> TNIL then off = 0 else val_int E (at 4 args) = Some off"
    using acc none by (auto simp: args_write_def accepted split: if_splits)
  let ?ys = "put_at 2 (LStr buf) args" and ?len = "of_nat (length buf) :: cint"
  have at2: "at 2 ?ys = Some (LStr buf)" using b by (cases "at 2 args") auto
  have len: "sint (of_cint ?len) = int (length buf)"
    using buf by (simp add: sint_of_cint sint_of_nat_cint)
  have nz: "off \<noteq> 0" using sub none buf by (auto simp: write_count_def in_lint_def)
  then have "\<not> type_of (at 4 args) \<le> TNIL" using off by auto
  then have "at 3 args \<noteq> None" by (auto simp: at_numeral type_of_def type_le_nil split: if_splits)
  then have nil: "type_of (at 3 args) = TNIL" using le by (auto simp: type_le_nil type_of_def)
  have "long_sub (of_cint ?len) off = None"
    using sub none len by (simp add: long_sub_def write_count_def)
  moreover have "optinteger E 4 0 (s\<lparr>stk := ?ys\<rparr>) = Ok off (s\<lparr>stk := ?ys\<rparr>)"
    using off by (auto simp: optinteger_run split: if_splits)
  ultimately show ?thesis
    using d b l at2 nz nil
    by (simp add: Pwrite_def bnd_def thn_def checkint_run luaL_checklstring_run
        lua_objlen_def asks_run Let_def to_cint_of_nat checknargs_run put_at_same_type lua_type_def
        optinteger_run checked_def raise_def type_le_nil split: option.splits if_splits)
qed

text \<open>
  Property C5: \<open>write\<close>, for every offset and count: it hands to the system exactly the bytes
  \<open>buf[offset .. offset + nbytes)\<close> when that range is inside the string (the count defaulting to
  the rest of the string), answers 0 without a system call when there is nothing to write, and
  otherwise returns nil, a message and \<open>EINVAL\<close> without a system call, as long as \<open>offset + nbytes\<close>
  (and \<open>buflen - offset\<close>, when that is the count) is a \<open>long\<close>; when it is not, the bounds check
  overflows and the call is undefined.  The string is shorter than \<open>2^31\<close> bytes, its length being
  kept in an \<open>int\<close>.
\<close>

theorem write_slice_or_EINVAL:
  assumes acc: "args_write E s args = Inr (fd, buf, n, off)" and buf: "length buf < 2 ^ 31"
  shows "call_c (Pwrite E EINVAL c_write) args s = write_outcome E EINVAL c_write fd buf n off s"
proof (cases "in_lint (write_count buf n off)")
  case False
  moreover from this have "\<not> (0 \<le> sint off \<and> write_count buf n off \<le> int (length buf))
      \<or> write_count buf n off \<le> 0" "write_count buf n off \<noteq> 0"
    using buf by (auto simp: in_lint_def)
  ultimately show ?thesis
    using Pwrite_overflow [OF acc buf, of EINVAL c_write]
    by (auto simp: call_c_def write_outcome_def Let_def)
next
  case True
  then have "n = None \<Longrightarrow> in_lint (int (length buf) - sint off)"
    by (simp add: write_count_def)
  from Pwrite_start [OF acc buf this] obtain ys nb where
    run: "Pwrite E EINVAL c_write (s\<lparr>stk := args\<rparr>) =
      write_range E EINVAL c_write fd buf (of_nat (length buf)) off nb (s\<lparr>stk := ys\<rparr>)"
    and nb: "write_count buf n off = sint nb" by metis
  show ?thesis
  proof (cases "in_lint (sint off + write_count buf n off)")
    case add: True
    with True show ?thesis
      unfolding call_c_def run write_range_run [OF buf nb add] write_outcome_def Let_def write_slice_def
      by (auto simp: pushresult_run split: prod.splits)
  next
    case False
    moreover from this have "\<not> sint off + write_count buf n off \<le> int (length buf) \<or> sint off < 0 \<or>
        write_count buf n off \<le> 0" "write_count buf n off \<noteq> 0"
      using buf True sint_lt [of off] sint_ge [of off] by (auto simp: in_lint_def)
    ultimately show ?thesis
      using run write_range_overflow [of off nb E EINVAL c_write fd buf "of_nat (length buf)" "s\<lparr>stk := ys\<rparr>"] nb
      by (auto simp: call_c_def write_outcome_def Let_def)
  qed
qed

text \<open>
  The last two bytes of a string; and the bounds check of a huge count, which overflows.
\<close>

theorem write_slice_or_EINVAL_witness:
  "call_c (Pwrite sample_env 22 (\<lambda>fd b e w. (of_nat (length b), e, w @ b)))
     [LInt 1, LStr ''hello'', LNil, LInt 3] (sample_state ''>'') =
   Ok [LInt 2] ((sample_state ''>'')\<lparr>world := ''>lo''\<rparr>) \<and>
   call_c (Pwrite sample_env 22 (\<lambda>fd b e w. (of_nat (length b), e, w @ b)))
     [LInt 1, LStr ''hello'', LInt 0x7FFFFFFFFFFFFFFF, LInt 1] (sample_state ''>'') =
   Err (Undefined ''signed overflow'') (sample_state ''>'')"
proof -
  have acc: "args_write sample_env (sample_state ''>'') [LInt 1, LStr ''hello'', LNil, LInt 3] =
      Inr (1, ''hello'', None, 3)"
    "args_write sample_env (sample_state ''>'') [LInt 1, LStr ''hello'', LInt 0x7FFFFFFFFFFFFFFF, LInt 1] =
      Inr (1, ''hello'', Some 0x7FFFFFFFFFFFFFFF, 1)"
    by (simp_all add: args_write_def arg_defs at_simps type_of_def type_le_nil)
  show ?thesis
    by (subst write_slice_or_EINVAL [OF acc(1)], simp, subst write_slice_or_EINVAL [OF acc(2)])
      (simp_all add: write_count_def in_lint_def write_outcome_def Let_def write_slice_def
        result_values_def to_cint_def of_cint_def sample_state_def)
qed

section \<open>read\<close>

text \<open>\<open>c_read\<close> returns the count and the bytes it stored; more than was asked for is undefined.\<close>

definition push_bytes :: "lint \<Rightarrow> string \<Rightarrow> ('w, unit) lm" where
  "push_bytes n data = lua_pushlstring (take (unat n) data)"

definition Pread :: "env \<Rightarrow> (cint \<Rightarrow> lint \<Rightarrow> ('w, lint \<times> string) sys) \<Rightarrow> ('w, nat) lm" where
  "Pread E c_read =
     bnd (checkint E 1) (\<lambda>fd.
     bnd (checkinteger E 2) (\<lambda>count.
     thn (checknargs 2)
    (thn (set_errno 0)
    (bnd (lua_alloc E count) (\<lambda>buf.
     if buf = None \<and> count \<noteq> 0 then pusherror E (Some ''lalloc'')
     else bnd (bnd (sys (c_read fd count)) (\<lambda>r.
            thn (if 0 \<le> sint (fst r) then push_bytes (fst r) (snd r) else ret ()) (ret (fst r)))) (\<lambda>n.
          thn (lua_free buf count)
         (if sint n < 0 then pusherror E None else ret 1)))))))"

lemma balanced_Pread: "balanced (Pread E c_read)"
  unfolding Pread_def push_bytes_def
  by (rule balanced_block_any balanced_bnd balanced_thn balanced_if balanced_sys
      balanced_quiet [OF quiet_args(5)] balanced_quiet [OF quiet_args(4)]
      balanced_quiet [OF quiet_args(13)] balanced_quiet [OF quiet_results(1)]
      balanced_quiet [OF quiet_prims(1)] balanced_quiet [OF quiet_prims(4)])+

lemma clean_Pread: "clean (Pread E c_read)"
  unfolding Pread_def push_bytes_def by (rule clean_rules)+

definition args_read :: "env \<Rightarrow> lvalue list \<Rightarrow> err + (cint \<times> lint)" where
  "args_read E args =
     sbind (arg_int E 1 args) (\<lambda>fd. sbind (arg_integer E 2 args) (\<lambda>n.
     sbind (at_most 2 args) (\<lambda>_. Inr (fd, n))))"

lemma Pread_run:
  assumes acc: "args_read E args = Inr (fd, count)"
    and ok: "count = 0 \<or> alloc_ok E (nptr s) count"
    and call: "c_read fd count 0 (world s) = ((n, data), e, w)"
  shows "\<exists>s'. call_c (Pread E c_read) args s =
      Ok (if sint n < 0 then error_values E None e else [LStr (take (unat n) data)]) s' \<and>
    world s' = w \<and> errno s' = e \<and> live s' = live s \<and> stk s' = stk s"
proof -
  obtain d where d: "val_int E (at 1 args) = Some d" "fd = to_cint d"
    and c: "val_int E (at 2 args) = Some count" and l: "length args \<le> 2"
    using acc by (auto simp: args_read_def accepted)
  show ?thesis
  proof (cases "count = 0")
    case True
    then show ?thesis using d c l call
      by (auto simp: Pread_def call_c_def run_simps sys_def lua_alloc_def lua_free_def push_bytes_def
          error_values_def)
  next
    case False
    then show ?thesis using d c l call ok
      by (auto simp: Pread_def call_c_def run_simps sys_def lua_alloc_def lua_free_def push_bytes_def
          error_values_def)
  qed
qed

section \<open>readlink\<close>

record 'w linkapi =
  c_lstat :: "string \<Rightarrow> ('w, cint \<times> cint) sys" \<comment> \<open>status and \<open>st_mode\<close>\<close>
  S_ISLNK :: "cint \<Rightarrow> bool"
  c_readlink :: "string \<Rightarrow> lint \<Rightarrow> ('w, lint \<times> string) sys"
  PATH_MAX :: lint

definition Preadlink :: "env \<Rightarrow> cint \<Rightarrow> 'w linkapi \<Rightarrow> ('w, nat) lm" where
  "Preadlink E EINVAL A =
     bnd (luaL_checkstring E 1) (\<lambda>path.
     thn (checknargs 1)
    (thn (set_errno 0)
    (bnd (sys (c_lstat A path)) (\<lambda>st.
     if fst st <s 0 then pusherror E (Some path)
     else if \<not> S_ISLNK A (snd st) then
       seqn [lua_pushnil, lua_pushlstring (path @ '': not a symbolic link''),
             lua_pushinteger (of_cint EINVAL)] 3
     else bnd (sys (c_readlink A path (PATH_MAX A))) (\<lambda>r.
       if sint (fst r) < 0 then pusherror E (Some ''readlink'')
       else thn (push_bytes (fst r) (snd r)) (ret 1))))))"

text \<open>Three outcomes: the target, an error triple, or the report that it is not a link.\<close>

lemma Preadlink_run:
  assumes "args_path E s args = Inr path" "c_lstat A path 0 (world s) = ((rc, mode), e1, w1)"
    and "c_readlink A path (PATH_MAX A) e1 w1 = ((n, target), e2, w2)"
  shows "call_c (Preadlink E EINVAL A) args s =
    (if rc <s 0 then Ok (error_values E (Some path) e1) (s\<lparr>errno := e1, world := w1\<rparr>)
     else if \<not> S_ISLNK A mode then
       Ok [LNil, LStr (path @ '': not a symbolic link''), LInt (of_cint EINVAL)]
          (s\<lparr>errno := e1, world := w1\<rparr>)
     else if sint n < 0 then
       Ok (error_values E (Some ''readlink'') e2) (s\<lparr>errno := e2, world := w2\<rparr>)
     else Ok [LStr (take (unat n) target)] (s\<lparr>errno := e2, world := w2\<rparr>))"
  using assms
  by (auto simp: Preadlink_def args_path_def accepted call_c_def run_simps sys_def put_at_same_type
      push_bytes_def error_values_def)

lemma clean_Preadlink: "clean (Preadlink E EINVAL A)"
  unfolding Preadlink_def push_bytes_def by (rule clean_rules)+

section \<open>getcwd\<close>

text \<open>
  The branch for hosts other than GNU Hurd: the buffer has one byte more than \<open>getcwd\<close> is told.
\<close>

definition Pgetcwd ::
  "env \<Rightarrow> lint \<Rightarrow> ('w, lint) sys \<Rightarrow> (lint \<Rightarrow> ('w, string option) sys) \<Rightarrow> ('w, nat) lm" where
  "Pgetcwd E POSIX_PATH_MAX c_pathconf_dot c_getcwd =
     bnd (sys c_pathconf_dot) (\<lambda>size0.
     thn (checknargs 0)
    (let size = (if size0 = -1 then POSIX_PATH_MAX else size0) in
     bnd (lua_alloc E (size + 1)) (\<lambda>b. case b of
       None \<Rightarrow> pusherror E (Some ''lalloc'')
     | Some p \<Rightarrow>
         bnd (bnd (sys (c_getcwd size)) (\<lambda>r.
           thn (case r of None \<Rightarrow> ret () | Some dir \<Rightarrow> lua_pushstring dir) (ret r))) (\<lambda>r.
         thn (lua_free b (size + 1))
        (if r = None then pusherror E (Some ''.'') else ret 1)))))"

lemma balanced_Pgetcwd: "balanced (Pgetcwd E k c d)"
  unfolding Pgetcwd_def
  by (rule balanced_block balanced_bnd balanced_thn balanced_let balanced_if balanced_sys
      balanced_option balanced_quiet [OF quiet_args(13)] balanced_quiet [OF quiet_results(1)]
      balanced_quiet [OF quiet_prims(1)] balanced_quiet [OF quiet_prims(17)])+

end
