(* ===== verification/Unistd.thy ===== *)
theory Unistd
  imports UnistdBasic UnistdIO UnistdProc
begin

text \<open>
  \<^verbatim>\<open>ext/posix/unistd.c\<close>: the module over the three parts \<open>UnistdBasic\<close>, \<open>UnistdIO\<close> and
  \<open>UnistdProc\<close>.
\<close>

section \<open>Opening the module\<close>

definition posix_unistd_fns :: "entry list" where
  "posix_unistd_fns = [
    Item ''P_exit'', Item ''Paccess'', Item ''Palarm'', Item ''Pchdir'', Item ''Pchown'',
    Item ''Pclose'', Only ''HAVE_CRYPT'' (Item ''Pcrypt''), Item ''Pdup'', Item ''Pdup2'',
    Item ''Pexec'', Item ''Pexecp'', Only ''HAVE_FDATASYNC'' (Item ''Pfdatasync''),
    Item ''Pfork'', Item ''Pfsync'', Item ''Pgetcwd'',
    Only ''LPOSIX_2001_COMPLIANT'' (Item ''Pgetgroups''), Item ''Pgetegid'', Item ''Pgeteuid'',
    Item ''Pgetgid'', Item ''Pgetlogin'', Item ''Pgetopt'', Item ''Pgetpgrp'', Item ''Pgetpid'',
    Item ''Pgetppid'', Item ''Pgetuid'', Item ''Pgethostid'', Item ''Pisatty'',
    Only ''LPOSIX_2001_COMPLIANT'' (Item ''Plchown''), Item ''Plink'', Item ''Plinkat'',
    Item ''Plseek'', Item ''Pnice'', Item ''Ppathconf'', Item ''Ppipe'', Item ''Pread'',
    Item ''Preadlink'', Item ''Prmdir'', Item ''Psetpid'', Item ''Psleep'', Item ''Psync'',
    Item ''Psysconf'', Item ''Pttyname'', Only ''LPOSIX_2001_COMPLIANT'' (Item ''Ptcgetpgrp''),
    Only ''LPOSIX_2001_COMPLIANT'' (Item ''Ptcsetpgrp''), Item ''Punlink'', Item ''Pwrite'',
    Item ''Pftruncate'', Item ''Ptruncate'']"

definition posix_unistd_consts :: "entry list" where
  "posix_unistd_consts = [
    Item ''_PC_CHOWN_RESTRICTED'', Item ''_PC_LINK_MAX'', Item ''_PC_MAX_CANON'',
    Item ''_PC_MAX_INPUT'', Item ''_PC_NAME_MAX'', Item ''_PC_NO_TRUNC'', Item ''_PC_PATH_MAX'',
    Item ''_PC_PIPE_BUF'', Item ''_PC_VDISABLE'', Item ''_SC_ARG_MAX'', Item ''_SC_CHILD_MAX'',
    Item ''_SC_CLK_TCK'', Item ''_SC_JOB_CONTROL'', Item ''_SC_NGROUPS_MAX'',
    Item ''_SC_OPEN_MAX'', Item ''_SC_PAGESIZE'', Item ''_SC_SAVED_IDS'',
    Item ''_SC_STREAM_MAX'', Item ''_SC_TZNAME_MAX'', Item ''_SC_VERSION'', Item ''SEEK_CUR'',
    Item ''SEEK_END'', Item ''SEEK_SET'', Item ''STDERR_FILENO'', Item ''STDIN_FILENO'',
    Item ''STDOUT_FILENO'']"

definition luaopen_posix_unistd :: "host \<Rightarrow> ('w, nat) lm" where
  "luaopen_posix_unistd H = open_module H ''unistd'' posix_unistd_fns posix_unistd_consts"

lemma unistd_names: "names_ok posix_unistd_fns posix_unistd_consts"
  by code_simp

end
