(* ===== verification/Utime.thy ===== *)
theory Utime
  imports Records Modules
begin

text \<open>
  \<^verbatim>\<open>ext/posix/utime.c\<close>: setting the times of a file.  The current time is read first, before any
  argument is looked at.
\<close>

record utimbuf =
  actime :: lint
  modtime :: lint

definition Putime ::
  "env \<Rightarrow> ('w, lint) sys \<Rightarrow> (string \<Rightarrow> utimbuf \<Rightarrow> ('w, cint) sys) \<Rightarrow> ('w, nat) lm" where
  "Putime E c_time c_utime =
     bnd (sys c_time) (\<lambda>currtime.
     bnd (luaL_checkstring E 1) (\<lambda>path.
     bnd (optinteger E 2 currtime) (\<lambda>m.
     bnd (optinteger E 3 currtime) (\<lambda>a.
     thn (checknargs 3)
    (bnd (sys (c_utime path \<lparr>actime = a, modtime = m\<rparr>)) (\<lambda>r.
     pushresult E r (Some path)))))))"

text \<open>
  With one or two times given, the other is the current time; \<open>modtime\<close> is the second argument
  and \<open>actime\<close> the third.
\<close>

definition args_utime ::
  "env \<Rightarrow> lint \<Rightarrow> 'w lst \<Rightarrow> lvalue list \<Rightarrow> err + (string \<times> utimbuf)" where
  "args_utime E now s args =
     sbind (arg_str E s 1 args) (\<lambda>p. sbind (arg_optinteger E 2 now args) (\<lambda>m.
     sbind (arg_optinteger E 3 now args) (\<lambda>a. sbind (at_most 3 args) (\<lambda>_.
     Inr (p, \<lparr>actime = a, modtime = m\<rparr>)))))"

lemma Putime_run:
  assumes "c_time (errno s) (world s) = (now, e0, w0)"
  shows "call_c (Putime E c_time c_utime) args s =
    (case args_utime E now s args of
       Inl e \<Rightarrow> Err e (s\<lparr>errno := e0, world := w0\<rparr>)
     | Inr (p, b) \<Rightarrow> (case c_utime p b e0 w0 of
         (r, e, w) \<Rightarrow> Ok (result_values E (Some p) r e) (s\<lparr>errno := e, world := w\<rparr>)))"
  using assms
  by (simp add: Putime_def args_utime_def wrapper_simps split: option.splits prod.splits)

section \<open>Opening the module\<close>

definition posix_utime_fns :: "entry list" where
  "posix_utime_fns = [
    Item ''Putime'']"

definition luaopen_posix_utime :: "host \<Rightarrow> ('w, nat) lm" where
  "luaopen_posix_utime H = open_module H ''utime'' posix_utime_fns []"

lemma utime_names: "names_ok posix_utime_fns []"
  by code_simp

end
