(* ===== verification/Spec2Isabelle.thy ===== *)
theory Spec2Isabelle
  imports Arrays Compat52 Compat52Values Contracts Ctype Dirent Errno Fcntl Fnmatch Glob Grp
    Helpers Libgen LuaApi LuaBase LuaCompat LuaDeprecated LuaHeap LuaInit LuaModes LuaPipelines
    LuaProcess LuaString LuaTimers Marshal Modules Poll Prelude Pwd Records Sched Signal
    SocketAddr Stdio Stdlib SysMsg SysResource SysSocket SysStat SysStatvfs SysTime SysTimes
    SysUtsname SysWait Syslog Termio Time Unistd UnistdBasic UnistdIO UnistdProc Utime
begin

text \<open>
  Verification development for luaposix, the POSIX bindings for Lua: the C modules (\<^verbatim>\<open>src/ext\<close>) and
  the Lua library written over them (\<^verbatim>\<open>src/lib/posix\<close>).

  \<^bold>\<open>The program.\<close>  Each file \<^verbatim>\<open>ext/posix/**/*.c\<close> is a Lua module: a table of C functions (bindings)
  and constants.  A binding reads its arguments from the Lua stack with the helpers of
  \<^verbatim>\<open>ext/include/_helpers.c\<close>, calls one or more functions of the C library, and pushes its results: one
  value, a table that copies a C structure, or \<open>nil\<close>, a message and \<open>errno\<close>.
  \<^verbatim>\<open>ext/include/compat-5.2.c\<close> gives the bindings the Lua 5.2 API on Lua 5.1.  State that outlives a
  call is the signal queue and the table of handlers (\<^verbatim>\<open>signal.c\<close>), the \<open>DIR *\<close> behind an iterator
  (\<^verbatim>\<open>dirent.c\<close>), the \<open>FILE *\<close> behind a file object (\<^verbatim>\<open>stdio.c\<close>), the argument vector behind the
  iterator of \<open>getopt\<close> (\<^verbatim>\<open>unistd.c\<close>), the registered log identity (\<^verbatim>\<open>syslog.c\<close>) and the clock rate
  (\<^verbatim>\<open>times.c\<close>).  \<^verbatim>\<open>lib/posix/init.lua\<close> adds process pipelines, pseudo terminals and timer
  arithmetic; \<^verbatim>\<open>compat.lua\<close> keeps the interfaces that take a file mode as text, on \<^verbatim>\<open>_base.lua\<close>;
  \<^verbatim>\<open>deprecated.lua\<close> keeps older ones.

  \<^bold>\<open>The model.\<close>  A binding \<open>Pfoo\<close> is a function \<open>lst \<Rightarrow> out\<close> under the name it has in the source; \<open>lst\<close>
  (theory \<open>LuaApi\<close>) is the state of the interpreter as a C function sees it: stack, tables,
  metatables, userdata, registry, the blocks obtained from the allocator, static variables, \<open>errno\<close>,
  and a \<open>world\<close> of any type that stands for the operating system.  \<open>out\<close> is \<open>Ok\<close> or \<open>Err\<close> with the
  argument error, Lua error, exit or undefined behaviour that ends the call.  A function of the C
  library is a parameter \<open>c_foo\<close> from its arguments, \<open>errno\<close> and the world to its result and the new
  values of both, so every theorem holds for each behaviour it can have; where a theorem relies
  on documented behaviour, that is a hypothesis.  Constants and structures the headers leave open are
  records of parameters.  Integers have their C width: the platform is LP64 with two's complement.
  \<open>call_c P args s\<close> is the call of \<open>P\<close> from Lua.  A function of the Lua library has the type
  \<open>luafn\<close>, arguments and state to results and state or an error; it reaches a binding through \<open>call_c\<close>,
  so its properties are about the Lua code and the C code together.

  \<^bold>\<open>The theories.\<close>
  \<^item> \<open>Prelude\<close>, \<open>LuaApi\<close>, \<open>LuaHeap\<close>: integers, C strings, sequencing; the Lua C API as the manual
    describes it; tables under the interface \<open>table_access\<close>, table traversal, userdata, the allocator.
  \<^item> \<open>Helpers\<close>: \<^verbatim>\<open>_helpers.c\<close>, with an execution equation per helper (collection \<open>run_simps\<close>).
  \<^item> \<open>Contracts\<close>: what bindings promise: the argument language \<open>arg_int\<close>, \<open>arg_str\<close>, \dots; the
    interfaces \<open>sys_wrapper\<close> and \<open>sys_value\<close>; the calculi \<open>clean\<close> (a rejected call leaves the system
    alone) and \<open>balanced\<close> (blocks are given back).
  \<^item> \<open>Records\<close>, \<open>Arrays\<close>, \<open>Marshal\<close>: structures as tables (interfaces \<open>record_push\<close> and \<open>record_copy\<close>),
    sequences, and structures read back from tables.
  \<^item> \<open>Compat52\<close>, \<open>Compat52Values\<close>, \<open>Modules\<close>: \<^verbatim>\<open>compat-5.2.c\<close> (stack, tables, buffers and traceback; calls of
    Lua chunks, userdata, lengths and numbers); \<open>luaL_newlib\<close> and the macros that fill a module table.
  \<^item> One theory per \<^verbatim>\<open>posix/*.c\<close>, named after it: \<open>Ctype\<close>, \<open>Dirent\<close>, \<open>Errno\<close>, \<open>Fcntl\<close>, \<open>Fnmatch\<close>,
    \<open>Glob\<close>, \<open>Grp\<close>, \<open>Libgen\<close>, \<open>Poll\<close>, \<open>Pwd\<close>, \<open>Sched\<close>, \<open>Signal\<close>, \<open>Stdio\<close>, \<open>Stdlib\<close>, \<open>Syslog\<close>, \<open>Termio\<close>,
    \<open>Time\<close>, \<open>Utime\<close>; \<^verbatim>\<open>unistd.c\<close> is \<open>UnistdBasic\<close>, \<open>UnistdIO\<close>, \<open>UnistdProc\<close> and \<open>Unistd\<close>.
  \<^item> One theory per \<^verbatim>\<open>posix/sys/*.c\<close>: \<open>SysMsg\<close>, \<open>SysResource\<close>, \<open>SysStat\<close>, \<open>SysStatvfs\<close>, \<open>SysTime\<close>,
    \<open>SysTimes\<close>, \<open>SysUtsname\<close>, \<open>SysWait\<close>; \<^verbatim>\<open>socket.c\<close> is \<open>SocketAddr\<close> (addresses) and \<open>SysSocket\<close>.
  \<^item> The Lua library: \<open>LuaString\<close> (the patterns and string functions it uses), \<open>LuaBase\<close>
    (\<^verbatim>\<open>_bitwise.lua\<close>, \<^verbatim>\<open>_base.lua\<close>, raising errors), \<open>LuaModes\<close> and \<open>LuaCompat\<close> (file modes as text and the rest of
    \<^verbatim>\<open>compat.lua\<close>), \<open>LuaTimers\<close>, \<open>LuaProcess\<close>, \<open>LuaPipelines\<close> and \<open>LuaInit\<close> (\<^verbatim>\<open>init.lua\<close>: timer
    arithmetic; processes and pipelines; a kernel with pipes and children under which pipelines run;
    the rest).
    \<open>LuaDeprecated\<close> is \<^verbatim>\<open>deprecated.lua\<close>, the interfaces of old releases.
  \<^item> This theory: the properties that span the modules.

  \<^bold>\<open>The lemmas.\<close>  \<open>Pfoo_run\<close> gives the result and the state of a binding on its branches;
  \<open>clean_*\<close> and \<open>balanced_*\<close> place it in the calculi; the interpretations of \<open>sys_wrapper\<close>,
  \<open>sys_value\<close>, \<open>record_push\<close> and \<open>record_copy\<close> discharge the contracts on the model's own definitions;
  \<open>*_names\<close> show that the names of a module do not collide.  The properties are stated at the end of
  the section of the operations they are about: protocols and invariants (directory handles, file objects, the
  signal queue), liveness (every waiting signal is served, a loop over \<open>files\<close> ends), round trips
  (messages, times, locks, socket addresses, terminal attributes, file modes as text, timers), exactness (\<open>write\<close>, \<open>exec\<close>, \<open>getopt\<close>, \<open>poll\<close>, \<open>getaddrinfo\<close>, \<open>findfield\<close>, \<open>countlevels\<close>,
  the traceback), the
  refinement of strings by \<open>luaL_Buffer\<close>, the wiring of pipelines and the descriptors they leave
  open, and what the code does where it departs from its
  documentation.

  \<^bold>\<open>Loops and fuel.\<close>  The traversal loop \<open>next_loop\<close> gets the size of the table plus one; \<open>dir_loop\<close> has
  the fuel \<open>Pdir\<close> is given, and \<open>Pdir_run\<close> shows that the number of entries plus one is
  enough; the two searches of \<open>countlevels\<close> are partial functions, \<open>None\<close> being an overflow of an \<open>int\<close>
  or no end, and return for stacks of up to \<open>2^30\<close> levels; the loop of the traceback has a termination proof;
  \<open>for_in\<close>, the \<open>for\<close> loop of Lua over an iterator, gets one more than the number of values;
  \<open>deliver\<close>, which follows a remembered signal through its redeliveries, gets one round more than the
  queue has places, 26, since each round fills one; \<open>sig_loop\<close> is recursive in the length of the queue.
  The matcher of Lua patterns, \<open>gsub\<close>, the carry and the borrow of timers and the stages of a pipeline are
  recursive on what they consume and need no fuel.

  \<^bold>\<open>Not modelled.\<close>  The C library, the kernel and the interpreter are parameters or follow their
  manuals.  The stack has no limit, so \<open>luaL_checkstack\<close> does nothing (and its absence is not seen).
  In \<^verbatim>\<open>compat-5.2.c\<close> a finite double is a pair of significand and exponent; the bit trick of
  \<open>lua_number2unsigned\<close> is modelled for every finite double; the tests for other
  compilers and byte orders are left out, as are \<open>checknumberfield\<close> and \<open>pushnumberfield\<close> of
  \<^verbatim>\<open>_helpers.c\<close>, which nothing calls.  Not modelled either: metamethods on tables given as arguments;
  memory exhaustion inside the interpreter;
  members of C structures that the code neither reads nor sets, such as \<open>c_line\<close> of \<open>struct termios\<close>;
  preprocessor branches for hosts without the function (the binding is then absent or reports that it
  is not implemented); \<^verbatim>\<open>posix.c\<close>, which only includes the other files.  Of the Lua library: the loop of \<^verbatim>\<open>init.lua\<close>
  that copies the modules into one table, \<^verbatim>\<open>_strict.lua\<close>, \<^verbatim>\<open>util.lua\<close>, \<^verbatim>\<open>sys.lua\<close> and \<^verbatim>\<open>version.lua.in\<close>, which hold no
  operations; the bit libraries for Lua before 5.3; the optional packages \<open>std._debug\<close> and \<open>typecheck\<close>, which are taken as
  absent; and float or string fields of timers.  What the map leaves of the C files is documentation comments and preprocessor lines.
\<close>

section \<open>Status bindings\<close>

text \<open>
  The bindings that make one system call and report its status.  Each is an instance of the
  contract \<open>sys_wrapper\<close>, interpreted beside its definition.
\<close>

inductive status_binding :: "env \<Rightarrow> ('w, nat) lm \<Rightarrow> bool" where
  "status_binding E (Popen E c_open)" | "status_binding E (Psched_getscheduler E f)"
| "status_binding E (Psched_setscheduler E f g)" | "status_binding E (Pkill E f g)"
| "status_binding E (Pkillpg E f g)" | "status_binding E (Prename E f)"
| "status_binding E (Pgrantpt E f)" | "status_binding E (Popenpt E f)"
| "status_binding E (Punlockpt E f)" | "status_binding E (Psetlogmask E f)"
| "status_binding E (Ptcdrain E f)" | "status_binding E (Ptcflow E f)"
| "status_binding E (Ptcflush E f)" | "status_binding E (Ptcsendbreak E f)"
| "status_binding E (Pclose E f)" | "status_binding E (Pdup E f)"
| "status_binding E (Pfdatasync E f)" | "status_binding E (Pfsync E f)"
| "status_binding E (Pnice E f)" | "status_binding E (Pdup2 E f)" | "status_binding E (Pfork E f)"
| "status_binding E (Pchdir E f)" | "status_binding E (Prmdir E f)"
| "status_binding E (Punlink E f)" | "status_binding E (Pftruncate E f)"
| "status_binding E (Ptruncate E f)" | "status_binding E (Pmsgget E f)"
| "status_binding E (Psocket E f)" | "status_binding E (Plisten E f)"
| "status_binding E (Pshutdown E f)" | "status_binding E (Psend E f)"
| "status_binding E (Psetsockopt E H K f)" | "status_binding E (Pchmod E f)"
| "status_binding E (Pmkdir E f)" | "status_binding E (Pmkfifo E f)"

text \<open>
  Property C27: a status binding, called with any arguments in any state, either rejects them and
  changes nothing at all, or returns one integer other than \<open>-1\<close>, or \<open>nil\<close>, a message and
  the value \<open>errno\<close> then has; and it changes nothing but \<open>errno\<close> and the operating system.
\<close>

theorem status_or_error_triple:
  assumes "status_binding E P"
  shows "case call_c P args s of
     Err e s' \<Rightarrow> s' = s
   | Ok vs s' \<Rightarrow> ((\<exists>n. vs = [LInt n] \<and> n \<noteq> -1) \<or> (\<exists>q. vs = error_values E q (errno s'))) \<and>
       s' = s\<lparr>errno := errno s', world := world s'\<rparr>"
  using assms
  by cases
    (simp only:; rule
      open_call.outcome sched_get.outcome sched_set.outcome kill.outcome killpg.outcome
      rename.outcome grantpt.outcome openpt.outcome unlockpt.outcome setlogmask.outcome
      tcdrain.outcome tcflow.outcome tcflush.outcome tcsendbreak.outcome close_call.outcome
      dup_call.outcome fdatasync_call.outcome fsync_call.outcome nice_call.outcome
      dup2_call.outcome fork_call.outcome chdir_call.outcome rmdir_call.outcome
      unlink_call.outcome ftruncate_call.outcome truncate_call.outcome msgget.outcome
      socket.outcome listen.outcome shutdown.outcome send.outcome setsockopt.outcome
      chmod.outcome mkdir.outcome mkfifo.outcome)+

theorem status_or_error_triple_witness:
  "case call_c (Pdup sample_env (\<lambda>fd e w. (-1, 24, w))) [LInt 3] (sample_state ()) of
     Err e s' \<Rightarrow> s' = sample_state ()
   | Ok vs s' \<Rightarrow> ((\<exists>n. vs = [LInt n] \<and> n \<noteq> -1) \<or> (\<exists>q. vs = error_values sample_env q (errno s'))) \<and>
       s' = (sample_state ())\<lparr>errno := errno s', world := world s'\<rparr>"
  by (rule status_or_error_triple) (rule status_binding.intros)

section \<open>Rejected calls\<close>

text \<open>
  The bindings that check every argument before they ask the system for anything.  The others:
  \<open>dir\<close> and \<open>files\<close> report a directory that cannot be opened as an argument error; \<open>getopt\<close>
  stores into \<open>opterr\<close> and \<open>optind\<close> between its checks; \<open>set_errno\<close>, \<open>time\<close> and \<open>getcwd\<close> do
  their work before they count their arguments, \<open>utime\<close> reads the clock before it does; \<open>chown\<close> and \<open>lchown\<close> look the names up one by
  one.
\<close>

inductive checks_first :: "('w, nat) lm \<Rightarrow> bool" where
  "checks_first (Pfcntl E K lock0 c_fcntl_lock c_fcntl)" | "checks_first (Popen E c_open)"
| "checks_first (Pposix_fadvise E f)" | "checks_first (Pfnmatch E c_fnmatch)"
| "checks_first (Pglob E f g)" | "checks_first (Pendgrent f)" | "checks_first (Pgetgrent f g)"
| "checks_first (Pgetgrgid E f)" | "checks_first (Pgetgrnam E f)" | "checks_first (Psetgrent f)"
| "checks_first (Pbasename E f)" | "checks_first (Pdirname E f)"
| "checks_first (Ppoll E B garbage c_poll)" | "checks_first (Prpoll E B garbage c_poll)"
| "checks_first (Pendpwent f)" | "checks_first (Pgetpwent f g)" | "checks_first (Pgetpwnam E f)"
| "checks_first (Pgetpwuid E f)" | "checks_first (Psetpwent f)"
| "checks_first (Psched_getscheduler E f)" | "checks_first (Psched_setscheduler E f g)"
| "checks_first (Pkill E f g)" | "checks_first (Pkillpg E f g)" | "checks_first (Praise E f)"
| "checks_first (Psignal E K f)" | "checks_first (Pctermid f)" | "checks_first (Pfileno E f)"
| "checks_first (Pfdopen E f)" | "checks_first (Prename E f)" | "checks_first Pabort"
| "checks_first (Pgetenv E f g)" | "checks_first (Psetenv E f g)"
| "checks_first (Pmkdtemp f E g)" | "checks_first (Pmkstemp E f)" | "checks_first (Pgrantpt E f)"
| "checks_first (Popenpt E f)" | "checks_first (Pptsname E f)" | "checks_first (Prealpath E f)"
| "checks_first (Punlockpt E f)" | "checks_first (Popenlog E f g)" | "checks_first (Psyslog E f)"
| "checks_first (Pcloselog f)" | "checks_first (Psetlogmask E f)" | "checks_first (PLOG_MASK E f)"
| "checks_first (Ptcdrain E f)" | "checks_first (Ptcflow E f)" | "checks_first (Ptcflush E f)"
| "checks_first (Ptcsendbreak E f)" | "checks_first (Ptcgetattr E f V g)"
| "checks_first (Ptcsetattr E f V g h i)" | "checks_first (Ptcgetwinsize E X f)"
| "checks_first (Ptcsetwinsize E X f)" | "checks_first (Pclock_getres E f)"
| "checks_first (Pclock_gettime E f)" | "checks_first (Pgmtime E G Z f)"
| "checks_first (Plocaltime E G Z f)" | "checks_first (Pmktime E G Z f)"
| "checks_first (Pnanosleep E f g)" | "checks_first (Pstrftime E G Z f)"
| "checks_first (Pstrptime E G Z f)" | "checks_first (P_exit E)" | "checks_first (Paccess E M f)"
| "checks_first (Palarm E f)" | "checks_first (Pchdir E f)" | "checks_first (Pclose E f)"
| "checks_first (Pcrypt E f)" | "checks_first (Pdup E f)" | "checks_first (Pdup2 E f)"
| "checks_first (Pfdatasync E f)" | "checks_first (Pfork E f)" | "checks_first (Pfsync E f)"
| "checks_first (Pgetegid f)" | "checks_first (Pgeteuid f)" | "checks_first (Pgetgid f)"
| "checks_first (Pgetlogin f)" | "checks_first (Pgetpgrp f)" | "checks_first (Pgetpid f)"
| "checks_first (Pgetppid f)" | "checks_first (Pgetuid f)" | "checks_first (Pgethostid f)"
| "checks_first (Pisatty E f)" | "checks_first (Plink E f g)" | "checks_first (Plinkat E f)"
| "checks_first (Plseek E f)" | "checks_first (Pnice E f)" | "checks_first (Ppathconf E f)"
| "checks_first (Ppipe E f)" | "checks_first (Prmdir E f)" | "checks_first (Psleep E f)"
| "checks_first (Psync f)" | "checks_first (Psysconf E f)" | "checks_first (Pttyname E f)"
| "checks_first (Ptcgetpgrp E f)" | "checks_first (Ptcsetpgrp E f)" | "checks_first (Punlink E f)"
| "checks_first (Pftruncate E f)" | "checks_first (Ptruncate E f)"
| "checks_first (Psetpid E f g S)" | "checks_first (Pread E c_read)"
| "checks_first (Preadlink E EINVAL A)" | "checks_first (Pmsgctl E K A)"
| "checks_first (Pmsgget E f)" | "checks_first (Pmsgsnd E f g)" | "checks_first (Pmsgrcv E f)"
| "checks_first (Pgetrlimit E f)" | "checks_first (Psetrlimit E f)"
| "checks_first (Psocketpair E f)" | "checks_first (Pif_nametoindex E f)"
| "checks_first (Pconnect E H f)" | "checks_first (Pbind E H f)" | "checks_first (Paccept E H f)"
| "checks_first (Pgetsockname E H f)" | "checks_first (Pgetpeername E H f)"
| "checks_first (Psendto E H f)" | "checks_first (Precv E f)" | "checks_first (Precvfrom E H f)"
| "checks_first (Pgetaddrinfo E H f R)" | "checks_first (Pgetsockopt E K G)"
| "checks_first (Pchmod E f)" | "checks_first (Plstat E f)" | "checks_first (Pfstat E f)"
| "checks_first (Pmkdir E f)" | "checks_first (Pmkfifo E f)" | "checks_first (Pstat E f)"
| "checks_first (Pumask E f)" | "checks_first (Pstatvfs E f)" | "checks_first (Pgettimeofday E f)"
| "checks_first (Ptimes E f g)" | "checks_first (Puname E f)"
| "checks_first (Pwait E M c_waitpid)" | "checks_first (Pisgraph E f)"
| "checks_first (Pisprint E f)" | "checks_first (Psocket E f)" | "checks_first (Plisten E f)"
| "checks_first (Pshutdown E f)" | "checks_first (Psend E f)"

lemma clean_simple:
  "clean (Pisgraph E f)" "clean (Pisprint E f)" "clean (Psocket E c)" "clean (Plisten E c')"
  "clean (Pshutdown E c'')" "clean (Psend E d)"
  unfolding Pisgraph_def Pisprint_def bind_ctype_def Psocket_def Plisten_def Pshutdown_def Psend_def
  by (rule clean_rules)+

lemmas clean_bindings = clean_simple
    clean_Pfcntl clean_Popen clean_Pposix_fadvise clean_Pfnmatch clean_Pglob clean_grp
    clean_Pbasename clean_Ppoll clean_Prpoll clean_pwd clean_sched clean_signal clean_stdio
    clean_stdlib clean_syslog clean_termio clean_time clean_unistd_basic clean_Psetpid
    clean_Pread clean_Preadlink clean_msg clean_rlimit clean_socket clean_stat clean_Pstatvfs
    clean_Pgettimeofday clean_Ptimes clean_Puname clean_Pwait

lemma checks_first_clean: "checks_first P \<Longrightarrow> clean P"
  by (induction rule: checks_first.induct) (rule clean_bindings)+

text \<open>
  Property C25: when such a binding rejects an argument, the operating system, \<open>errno\<close>, the
  allocated blocks and the caller's stack are what they were before the call.
\<close>

theorem rejected_call_leaves_no_trace:
  assumes "checks_first P" "call_c P args s = Err (ArgError n msg) s'"
  shows "world s' = world s \<and> errno s' = errno s \<and> live s' = live s \<and> stk s' = stk s"
proof -
  have "same_os s s'" using checks_first_clean [OF assms(1)] assms(2) by (rule clean_call_c)
  moreover have "stk s' = stk s" using assms(2) by (auto simp: call_c_def split: out.splits)
  ultimately show ?thesis by (simp add: same_os_def)
qed

theorem rejected_call_leaves_no_trace_witness:
  "\<exists>m s'. call_c (Pdup2 sample_env (\<lambda>a b e w. (b, e, b # w))) [LInt 3, LBool True] (sample_state [5]) =
     Err (ArgError 2 m) s' \<and> world s' = [5] \<and> errno s' = 0 \<and> live s' = [] \<and> stk s' = []"
proof -
  have "\<exists>s'. call_c (Pdup2 sample_env (\<lambda>a b e w. (b, e, b # w))) [LInt 3, LBool True] (sample_state [5]) =
      Err (ArgError 2 (got_msg ''integer'' (Some (LBool True)))) s'"
    by (simp add: Pdup2_def call_c_def run_simps at_one at_numeral)
  then obtain s' where run: "call_c (Pdup2 sample_env (\<lambda>a b e w. (b, e, b # w))) [LInt 3, LBool True]
      (sample_state [5]) = Err (ArgError 2 (got_msg ''integer'' (Some (LBool True)))) s'" by blast
  have "checks_first (Pdup2 sample_env (\<lambda>a b e w. (b, e, b # w)))"
    by (rule checks_first.intros)
  from rejected_call_leaves_no_trace [OF this run] run show ?thesis by auto
qed

section \<open>Blocks\<close>

text \<open>
  Property C26: none of the bindings that take a block from Lua's allocator leaks it or frees it
  twice: whenever the call returns, on success or with an error report, the blocks allocated are
  those that were allocated before.
\<close>

theorem blocks_given_back:
  assumes "P \<in> {Pread E c, Pgetcwd E k d1 d2, Pbasename E d3, Pdirname E d4, Pmkdtemp b E d5,
      Pmkstemp E d6, Pmsgsnd E sz d7, Pmsgrcv E d8, Precv E d9, Precvfrom E H d10}"
    and "call_c P args s = Ok vs s'"
  shows "live s' = live s"
proof -
  have "balanced P"
    using assms(1) by (elim insertE emptyE)
      (simp_all add: balanced_Pread balanced_Pgetcwd balanced_Pbasename balanced_stdlib balanced_msg
        balanced_receive)
  then show ?thesis using assms(2) by (auto simp: call_c_def balanced_def split: out.splits)
qed

theorem blocks_given_back_witness:
  "\<exists>s'. call_c (Pread sample_env (\<lambda>fd n e w. ((2, ''abc''), e, w))) [LInt 0, LInt 8]
      ((sample_state ())\<lparr>live := [(9, 4)], nptr := 10\<rparr>) = Ok [LStr ''ab''] s' \<and> live s' = [(9, 4)]"
proof -
  let ?c = "\<lambda>fd n e w. ((2, ''abc''), e, w)" and ?s = "(sample_state ())\<lparr>live := [(9, 4)], nptr := 10\<rparr>"
  obtain s' where run: "call_c (Pread sample_env ?c) [LInt 0, LInt 8] ?s = Ok [LStr ''ab''] s'"
    using Pread_run [of sample_env "[LInt 0, LInt 8]" "to_cint 0" 8 ?s ?c 2 "''abc''" 0 "()"]
    by (auto simp: args_read_def arg_defs at_one at_numeral to_cint_def)
  moreover have "live s' = live ?s"
    by (rule blocks_given_back [OF insertI1 run])
  ultimately show ?thesis by simp
qed

section \<open>Modules\<close>

text \<open>The modules whose table holds functions, the version string and integer constants.\<close>

definition libraries :: "host \<Rightarrow> (('w, nat) lm \<times> string \<times> entry list \<times> entry list) list" where
  "libraries H =
    [(luaopen_posix_ctype H, ''ctype'', posix_ctype_fns, []),
     (luaopen_posix_dirent H, ''dirent'', posix_dirent_fns, []),
     (luaopen_posix_errno H, ''errno'', posix_errno_fns, posix_errno_consts),
     (luaopen_posix_fcntl H, ''fcntl'', posix_fcntl_fns, posix_fcntl_consts),
     (luaopen_posix_fnmatch H, ''fnmatch'', posix_fnmatch_fns, posix_fnmatch_consts),
     (luaopen_posix_glob H, ''glob'', posix_glob_fns, posix_glob_consts),
     (luaopen_posix_grp H, ''grp'', posix_grp_fns, []),
     (luaopen_posix_libgen H, ''libgen'', posix_libgen_fns, []),
     (luaopen_posix_poll H, ''poll'', posix_poll_fns, []),
     (luaopen_posix_pwd H, ''pwd'', posix_pwd_fns, []),
     (luaopen_posix_sched H, ''sched'', posix_sched_fns, posix_sched_consts),
     (luaopen_posix_stdio H, ''stdio'', posix_stdio_fns, posix_stdio_consts),
     (luaopen_posix_stdlib H, ''stdlib'', posix_stdlib_fns, []),
     (luaopen_posix_sys_msg H, ''sys.msg'', posix_sys_msg_fns, posix_sys_msg_consts),
     (luaopen_posix_sys_resource H, ''sys.resource'', posix_sys_resource_fns, posix_sys_resource_consts),
     (luaopen_posix_sys_socket H, ''sys.socket'', posix_sys_socket_fns, posix_sys_socket_consts),
     (luaopen_posix_sys_stat H, ''sys.stat'', posix_sys_stat_fns, posix_sys_stat_consts),
     (luaopen_posix_sys_statvfs H, ''sys.statvfs'', posix_sys_statvfs_fns, posix_sys_statvfs_consts),
     (luaopen_posix_sys_time H, ''sys.time'', posix_sys_time_fns, []),
     (luaopen_posix_sys_times H, ''sys.times'', posix_sys_times_fns, []),
     (luaopen_posix_sys_utsname H, ''sys.utsname'', posix_sys_utsname_fns, []),
     (luaopen_posix_sys_wait H, ''sys.wait'', posix_sys_wait_fns, posix_sys_wait_consts),
     (luaopen_posix_syslog H, ''syslog'', posix_syslog_fns, posix_syslog_consts),
     (luaopen_posix_termio H, ''termio'', posix_termio_fns, posix_termio_consts),
     (luaopen_posix_time H, ''time'', posix_time_fns, posix_time_consts),
     (luaopen_posix_unistd H, ''unistd'', posix_unistd_fns, posix_unistd_consts),
     (luaopen_posix_utime H, ''utime'', posix_utime_fns, [])]"

lemma libraries_open:
  "list_all (\<lambda>(P, m, fns, cs). P = open_module H m fns cs \<and> names_ok fns cs) (libraries H)"
  by (simp add: libraries_def
      luaopen_posix_ctype_def luaopen_posix_dirent_def luaopen_posix_errno_def
      luaopen_posix_fcntl_def luaopen_posix_fnmatch_def luaopen_posix_glob_def
      luaopen_posix_grp_def luaopen_posix_libgen_def luaopen_posix_poll_def
      luaopen_posix_pwd_def luaopen_posix_sched_def luaopen_posix_stdio_def
      luaopen_posix_stdlib_def luaopen_posix_sys_msg_def luaopen_posix_sys_resource_def
      luaopen_posix_sys_socket_def luaopen_posix_sys_stat_def luaopen_posix_sys_statvfs_def
      luaopen_posix_sys_time_def luaopen_posix_sys_times_def luaopen_posix_sys_utsname_def
      luaopen_posix_sys_wait_def luaopen_posix_syslog_def luaopen_posix_termio_def
      luaopen_posix_time_def luaopen_posix_unistd_def luaopen_posix_utime_def
      ctype_names dirent_names errno_names fcntl_names fnmatch_names glob_names grp_names
      libgen_names poll_names pwd_names sched_names stdio_names stdlib_names sys_msg_names
      sys_resource_names sys_socket_names sys_stat_names sys_statvfs_names sys_time_names
      sys_times_names sys_utsname_names sys_wait_names syslog_names termio_names time_names
      unistd_names utime_names)

text \<open>
  A table of entries whose names are distinct is registered completely: opening a module returns a
  new table that holds its version, and each function and constant of its entries when the condition
  of the entry holds on the host.  The entries are those of the source, which puts \<open>CS5\<close> under
  \<open>BS5\<close>.
\<close>

lemma module_contents:
  assumes "(P, m, fns, cs) \<in> set (libraries H)"
  shows "\<exists>t. call_c P args s = Ok [LTab (ntab s)] (opened (ntab s) t s) \<and>
    tbl_get t (LStr ''version'') = LStr (cstr (version H m)) \<and>
    (\<forall>e \<in> set cs. tbl_get t (LStr (ename e)) = (if enabled H e then LInt (evalue H e) else LNil)) \<and>
    (\<forall>e \<in> set fns. tbl_get t (LStr (fn_name e)) = (if enabled H e then LCFun (ename e) [] else LNil))"
proof -
  have P: "P = open_module H m fns cs" and ok: "names_ok fns cs"
    using libraries_open [of H, unfolded list_all_iff] assms by auto
  show ?thesis
    unfolding P using open_module_run [OF ok] module_const [OF ok] module_fn [OF ok]
      module_version [OF ok]
    by (intro exI [of _ "module_table H m fns cs"]) simp
qed


end
